(* ===== verification/Go_Base.thy ===== *)
theory Go_Base
  imports Main "HOL-Library.AList" "HOL-Library.Sublist"
begin

section \<open>The parts of Go the library is written in\<close>

text \<open>
  This theory holds what every component shares: Go strings and the functions of the packages
  \<open>strings\<close> and \<open>strconv\<close> that the code calls, Go maps, error values and the results of
  calls that may fail or panic.

  A Go string is a byte sequence and is modelled as \<open>string\<close>, a list of 8-bit characters.
  \<open>strings.TrimSpace\<close> and \<open>strings.EqualFold\<close> are modelled on ASCII.
  A slice is a list; the code never tells a nil slice from an empty one, except for byte slices,
  which are options. A pointer that may be nil is an option.
  A Go map is an association list in the order in which a \<open>range\<close> loop meets its keys, so a
  statement for all lists covers every iteration order; \<open>None\<close> is the nil map.
\<close>

named_theorems go_simps \<open>equations that evaluate the Go primitives\<close>

subsection \<open>Strings\<close>

abbreviation HasPrefix :: "string \<Rightarrow> string \<Rightarrow> bool" where
  "HasPrefix s p \<equiv> prefix p s"

fun Contains :: "string \<Rightarrow> string \<Rightarrow> bool" where
  "Contains [] sub = (sub = [])"
| "Contains (c # s) sub = (prefix sub (c # s) \<or> Contains s sub)"

lemma Contains_iff_sublist: "Contains s sub \<longleftrightarrow> sublist sub s"
  by (induction s) (auto simp: sublist_Cons_right)

lemma Contains_append_left: "Contains s sub \<Longrightarrow> Contains (s @ t) sub"
  by (simp add: Contains_iff_sublist sublist_append_rightI sublist_order.order_trans
      sublist_append)

lemma Contains_append_right: "Contains t sub \<Longrightarrow> Contains (s @ t) sub"
  by (simp add: Contains_iff_sublist sublist_append)

lemma Contains_self [simp]: "Contains s s"
  by (simp add: Contains_iff_sublist)

definition is_space :: "char \<Rightarrow> bool" where
  "is_space c \<longleftrightarrow> c \<in> {CHR 0x09, CHR 0x0A, CHR 0x0B, CHR 0x0C, CHR 0x0D, CHR '' ''}"

definition TrimSpace :: "string \<Rightarrow> string" where
  "TrimSpace s = rev (dropWhile is_space (rev (dropWhile is_space s)))"

definition TrimPrefix :: "string \<Rightarrow> string \<Rightarrow> string" where
  "TrimPrefix s p = (if prefix p s then drop (length p) s else s)"

definition to_lower :: "char \<Rightarrow> char" where
  "to_lower c =
     (if (65::nat) \<le> of_char c \<and> of_char c \<le> (90::nat) then char_of ((of_char c :: nat) + 32)
      else c)"

definition EqualFold :: "string \<Rightarrow> string \<Rightarrow> bool" where
  "EqualFold s t \<longleftrightarrow> map to_lower s = map to_lower t"

fun Join :: "string list \<Rightarrow> string \<Rightarrow> string" where
  "Join [] sep = []"
| "Join [s] sep = s"
| "Join (s # t # ss) sep = s @ sep @ Join (t # ss) sep"

subsection \<open>Decimal numbers\<close>

definition digit_char :: "nat \<Rightarrow> char" where
  "digit_char d = char_of (48 + d)"

definition is_digit :: "char \<Rightarrow> bool" where
  "is_digit c \<longleftrightarrow> (48::nat) \<le> of_char c \<and> of_char c \<le> (57::nat)"

definition digit_val :: "char \<Rightarrow> nat" where
  "digit_val c = of_char c - 48"

fun dec_of_nat :: "nat \<Rightarrow> string" where
  "dec_of_nat n = (if n < 10 then [digit_char n]
     else dec_of_nat (n div 10) @ [digit_char (n mod 10)])"

declare dec_of_nat.simps [simp del]

definition nat_of_dec :: "string \<Rightarrow> nat" where
  "nat_of_dec s = foldl (\<lambda>n c. 10 * n + digit_val c) 0 s"

text \<open>\<open>strconv.Itoa\<close>.\<close>

definition Itoa :: "int \<Rightarrow> string" where
  "Itoa i = (if i < 0 then CHR ''-'' # dec_of_nat (nat (- i)) else dec_of_nat (nat i))"

text \<open>\<open>strconv.Atoi\<close> on a 64-bit platform; \<open>None\<close> is its error.\<close>

definition int_min :: int where "int_min = - (2 ^ 63)"

definition int_max :: int where "int_max = 2 ^ 63 - 1"

definition Atoi :: "string \<Rightarrow> int option" where
  "Atoi s =
     (let neg = (case s of [] \<Rightarrow> False | c # t \<Rightarrow> c = CHR ''-'');
          ds = (case s of [] \<Rightarrow> [] | c # t \<Rightarrow> if c = CHR ''-'' \<or> c = CHR ''+'' then t else s);
          v = (if neg then - int (nat_of_dec ds) else int (nat_of_dec ds))
      in if ds = [] \<or> \<not> list_all is_digit ds then None
         else if v < int_min \<or> int_max < v then None
         else Some v)"

lemma is_digit_digit_char [simp]: "d < 10 \<Longrightarrow> is_digit (digit_char d)"
  by (simp add: is_digit_def digit_char_def of_char_of)

lemma digit_val_digit_char [simp]: "d < 10 \<Longrightarrow> digit_val (digit_char d) = d"
  by (simp add: digit_val_def digit_char_def of_char_of)

lemma dec_of_nat_digits: "list_all is_digit (dec_of_nat n)"
proof (induction n rule: dec_of_nat.induct)
  case (1 n)
  then show ?case by (subst dec_of_nat.simps) auto
qed

lemma dec_of_nat_not_Nil [simp]: "dec_of_nat n \<noteq> []"
  by (subst dec_of_nat.simps) simp

lemma nat_of_dec_snoc: "nat_of_dec (s @ [c]) = 10 * nat_of_dec s + digit_val c"
  by (simp add: nat_of_dec_def)

lemma nat_of_dec_of_nat [simp]: "nat_of_dec (dec_of_nat n) = n"
proof (induction n rule: dec_of_nat.induct)
  case (1 n)
  show ?case
  proof (cases "n < 10")
    case True
    then show ?thesis by (subst dec_of_nat.simps) (simp add: nat_of_dec_def)
  next
    case False
    with 1 have "nat_of_dec (dec_of_nat (n div 10)) = n div 10" by simp
    with False show ?thesis
      by (subst dec_of_nat.simps) (simp add: nat_of_dec_snoc)
  qed
qed

lemma sign_not_digit [simp]: "\<not> is_digit (CHR ''-'')" "\<not> is_digit (CHR ''+'')"
  by (simp_all add: is_digit_def)

lemma Atoi_dec_of_nat: "int n \<le> int_max \<Longrightarrow> Atoi (dec_of_nat n) = Some (int n)"
proof -
  assume n: "int n \<le> int_max"
  obtain c t where ct: "dec_of_nat n = c # t"
    by (cases "dec_of_nat n") auto
  with dec_of_nat_digits [of n] have "is_digit c" by simp
  then have c: "c \<noteq> CHR ''-''" "c \<noteq> CHR ''+''" by auto
  have "list_all is_digit (c # t)" using dec_of_nat_digits [of n] ct by simp
  moreover have "nat_of_dec (c # t) = n" using nat_of_dec_of_nat [of n] ct by simp
  moreover have "int_min \<le> int n" by (simp add: int_min_def)
  ultimately show ?thesis using n c ct by (simp add: Atoi_def Let_def)
qed

lemma length_dec_of_nat_le: "n < 10 ^ Suc k \<Longrightarrow> length (dec_of_nat n) \<le> Suc k"
proof (induction k arbitrary: n)
  case 0
  then show ?case by (subst dec_of_nat.simps) simp
next
  case (Suc k)
  show ?case
  proof (cases "n < 10")
    case True
    then show ?thesis by (subst dec_of_nat.simps) simp
  next
    case False
    from Suc.prems have "n div 10 < 10 ^ Suc k" by (simp add: less_mult_imp_div_less)
    with Suc.IH have "length (dec_of_nat (n div 10)) \<le> Suc k" by blast
    with False show ?thesis by (subst dec_of_nat.simps) simp
  qed
qed

lemma length_dec_of_nat_gt: "10 ^ k \<le> n \<Longrightarrow> k < length (dec_of_nat n)"
proof (induction k arbitrary: n)
  case 0
  then show ?case by simp
next
  case (Suc k)
  then have "\<not> n < 10" by (auto simp: not_less intro: order_trans [rotated])
  moreover from Suc.prems have "10 ^ k \<le> n div 10"
    by (metis div_le_mono nonzero_mult_div_cancel_left power_Suc zero_neq_numeral)
  with Suc.IH have "k < length (dec_of_nat (n div 10))" by blast
  ultimately show ?case by (subst dec_of_nat.simps) simp
qed

subsection \<open>Maps\<close>

type_synonym 'v gomap = "(string \<times> 'v) list option"

definition gm_entries :: "'v gomap \<Rightarrow> (string \<times> 'v) list" where
  "gm_entries m = (case m of None \<Rightarrow> [] | Some al \<Rightarrow> al)"

text \<open>\<open>v, ok := m[k]\<close>; reading the nil map finds nothing.\<close>

definition gm_get :: "'v gomap \<Rightarrow> string \<Rightarrow> 'v option" where
  "gm_get m k = map_of (gm_entries m) k"

text \<open>\<open>m[k]\<close> on a map of strings gives the empty string for a missing key.\<close>

definition gm_str :: "string gomap \<Rightarrow> string \<Rightarrow> string" where
  "gm_str m k = (case gm_get m k of None \<Rightarrow> [] | Some v \<Rightarrow> v)"

text \<open>
  \<open>m[k] = v\<close>; the code writes only into maps it has made or tested, so the nil map (on which
  Go panics) does not occur as an argument.
\<close>

definition gm_put :: "string \<Rightarrow> 'v \<Rightarrow> 'v gomap \<Rightarrow> 'v gomap" where
  "gm_put k v m = Some (AList.update k v (gm_entries m))"

definition gm_len :: "'v gomap \<Rightarrow> nat" where
  "gm_len m = length (gm_entries m)"

definition gm_dom :: "'v gomap \<Rightarrow> string set" where
  "gm_dom m = fst ` set (gm_entries m)"

text \<open>What holds of every Go map: a key occurs once.\<close>

definition gm_ok :: "'v gomap \<Rightarrow> bool" where
  "gm_ok m \<longleftrightarrow> distinct (map fst (gm_entries m))"

lemma gm_entries_simps [simp]:
  "gm_entries None = []"
  "gm_entries (Some al) = al"
  by (simp_all add: gm_entries_def)

lemma gm_get_simps [simp]:
  "gm_get None k = None"
  "gm_get (Some al) k = map_of al k"
  by (simp_all add: gm_get_def)

lemma gm_get_put [simp]:
  "gm_get (gm_put k v m) k' = (if k' = k then Some v else gm_get m k')"
  by (simp add: gm_get_def gm_put_def update_conv')

lemma gm_ok_put [simp]: "gm_ok m \<Longrightarrow> gm_ok (gm_put k v m)"
  by (simp add: gm_ok_def gm_put_def distinct_update)

lemma gm_ok_None [simp]: "gm_ok None"
  by (simp add: gm_ok_def)

lemma gm_str_put [simp]: "gm_str (gm_put k v m) k' = (if k' = k then v else gm_str m k')"
  by (simp add: gm_str_def)

lemma gm_get_filter_key:
  "map_of (filter (\<lambda>(k, v). P k) al) k = (if P k then map_of al k else None)"
  by (induction al) auto

lemma gm_ok_Some_get: "gm_ok m \<Longrightarrow> (k, v) \<in> set (gm_entries m) \<longleftrightarrow> gm_get m k = Some v"
  by (simp add: gm_ok_def gm_get_def)

lemma gm_ok_filter: "gm_ok (Some al) \<Longrightarrow> gm_ok (Some (filter P al))"
  by (simp add: gm_ok_def distinct_map_filter)

subsection \<open>Errors\<close>

text \<open>
  An error made by code outside the repository (the API machinery, the client libraries) is an
  opaque value with the data of the API status it may carry: its Go type, reason, code and the
  text its method \<open>Error\<close> returns. Errors made by the repository come from \<open>errors.New\<close> or
  \<open>fmt.Errorf\<close>; the latter keeps the errors its \<open>%w\<close> verbs wrap, in their order.
\<close>

record lib_error =
  le_type :: string
  le_reason :: string
  le_code :: int
  le_message :: string

datatype go_error =
    LibError lib_error
  | NewError string
  | Errorf string "go_error list"

fun err_text :: "go_error \<Rightarrow> string" where
  "err_text (LibError e) = le_message e"
| "err_text (NewError s) = s"
| "err_text (Errorf s es) = s"

text \<open>\<open>errors.Is\<close> with a wrapped error: the error itself or one below its \<open>%w\<close> verbs.\<close>

fun wraps :: "go_error \<Rightarrow> go_error \<Rightarrow> bool" where
  "wraps (Errorf s es) e = (Errorf s es = e \<or> (\<exists>x \<in> set es. wraps x e))"
| "wraps x e = (x = e)"

lemma wraps_refl [simp]: "wraps e e"
  by (cases e) auto

text \<open>
  The error functions of \<open>k8s.io/apimachinery\<close> the code calls, as parameters of the model:
  the predicates of \<open>api/errors\<close>, \<open>errors.As\<close> for the types the code asks for (a
  \<open>*StatusError\<close> gives its reason and code), and the constructors.
\<close>

record api_status =
  as_Reason :: string
  as_Code :: int

record errlib =
  IsNotFound :: "go_error \<Rightarrow> bool"
  IsForbidden :: "go_error \<Rightarrow> bool"
  IsMethodNotSupported :: "go_error \<Rightarrow> bool"
  AsNoKindMatch :: "go_error \<Rightarrow> bool"
  AsNoResourceMatch :: "go_error \<Rightarrow> bool"
  AsStatusError :: "go_error \<Rightarrow> api_status option"
  NewNotFound :: "string \<Rightarrow> string \<Rightarrow> lib_error"
  NewBadRequest :: "string \<Rightarrow> lib_error"
  NewInvalid :: "string \<Rightarrow> string \<Rightarrow> string \<Rightarrow> (string \<times> string \<times> string) list \<Rightarrow> lib_error"

subsection \<open>Calls\<close>

text \<open>
  A call that returns \<open>(T, error)\<close> gives a sum; a call on the world outside the process (the
  API server, the clock) threads the state of that world, of any type. A computation that can
  dereference a nil pointer or panic otherwise gives a \<open>run\<close>.
\<close>

type_synonym ('w, 'a) io = "'w \<Rightarrow> (go_error + 'a) \<times> 'w"

datatype 'a run = Panic | Ret 'a

fun bind_run :: "'a run \<Rightarrow> ('a \<Rightarrow> 'b run) \<Rightarrow> 'b run" where
  "bind_run Panic f = Panic"
| "bind_run (Ret x) f = f x"

fun map_run :: "('a \<Rightarrow> 'b run) \<Rightarrow> 'a list \<Rightarrow> 'b list run" where
  "map_run f [] = Ret []"
| "map_run f (x # xs) =
     bind_run (f x) (\<lambda>y. bind_run (map_run f xs) (\<lambda>ys. Ret (y # ys)))"

lemma bind_run_Ret [simp]: "bind_run m Ret = m"
  by (cases m) auto

lemma bind_run_eq_Ret: "bind_run m f = Ret y \<longleftrightarrow> (\<exists>x. m = Ret x \<and> f x = Ret y)"
  by (cases m) auto

lemma bind_run_eq_Panic: "bind_run m f = Panic \<longleftrightarrow> m = Panic \<or> (\<exists>x. m = Ret x \<and> f x = Panic)"
  by (cases m) auto

lemma map_run_Ret: "(\<And>x. x \<in> set xs \<Longrightarrow> f x = Ret (g x)) \<Longrightarrow> map_run f xs = Ret (map g xs)"
  by (induction xs) auto

lemma map_run_eq_Ret:
  "map_run f xs = Ret ys \<longleftrightarrow> list_all2 (\<lambda>x y. f x = Ret y) xs ys"
  by (induction xs arbitrary: ys) (auto simp: bind_run_eq_Ret list_all2_Cons1)

lemma map_run_eq_Panic: "map_run f xs = Panic \<longleftrightarrow> (\<exists>x \<in> set xs. f x = Panic)"
proof (induction xs)
  case Nil
  then show ?case by simp
next
  case (Cons x xs)
  then show ?case by (cases "f x"; cases "map_run f xs") auto
qed

end
