(* ===== verification/Effects.thy ===== *)
theory Effects
  imports Go_Base
begin

section \<open>Methods with effects\<close>

text \<open>
  The methods of the client act on two things outside their locals: the API server (the world,
  of any type \<open>'w\<close>) and the resource cache of the process (\<open>'c\<close>). An action gives what the
  method returns, its error, or that it panicked, and the state it leaves behind.
\<close>

datatype 'a res = Ok 'a | Err go_error | Crash

record ('w, 'c) kstate =
  ks_world :: 'w
  ks_cache :: 'c

type_synonym ('w, 'c, 'a) act = "('w, 'c) kstate \<Rightarrow> 'a res \<times> ('w, 'c) kstate"

definition ret :: "'a \<Rightarrow> ('w, 'c, 'a) act" where
  "ret x s = (Ok x, s)"

definition fail :: "go_error \<Rightarrow> ('w, 'c, 'a) act" where
  "fail e s = (Err e, s)"

definition crash :: "('w, 'c, 'a) act" where
  "crash s = (Crash, s)"

definition bind_act :: "('w, 'c, 'a) act \<Rightarrow> ('a \<Rightarrow> ('w, 'c, 'b) act) \<Rightarrow> ('w, 'c, 'b) act" where
  "bind_act m f s =
     (case m s of
        (Ok x, s') \<Rightarrow> f x s'
      | (Err e, s') \<Rightarrow> (Err e, s')
      | (Crash, s') \<Rightarrow> (Crash, s'))"

text \<open>\<open>try_act\<close> gives the error to the caller as a value.\<close>

definition try_act :: "('w, 'c, 'a) act \<Rightarrow> (go_error + 'a \<Rightarrow> ('w, 'c, 'b) act) \<Rightarrow> ('w, 'c, 'b) act" where
  "try_act m f s =
     (case m s of
        (Ok x, s') \<Rightarrow> f (Inr x) s'
      | (Err e, s') \<Rightarrow> f (Inl e) s'
      | (Crash, s') \<Rightarrow> (Crash, s'))"

text \<open>A call on the API server.\<close>

definition api :: "('w, 'a) io \<Rightarrow> ('w, 'c, 'a) act" where
  "api call s =
     (case call (ks_world s) of
        (Inl e, w) \<Rightarrow> (Err e, s\<lparr>ks_world := w\<rparr>)
      | (Inr x, w) \<Rightarrow> (Ok x, s\<lparr>ks_world := w\<rparr>))"

definition of_run :: "'a run \<Rightarrow> ('w, 'c, 'a) act" where
  "of_run r s = (case r of Panic \<Rightarrow> (Crash, s) | Ret x \<Rightarrow> (Ok x, s))"

text \<open>A function that returns a value and an error, without effects.\<close>

definition of_sum :: "go_error + 'a \<Rightarrow> ('w, 'c, 'a) act" where
  "of_sum r s = (case r of Inl e \<Rightarrow> (Err e, s) | Inr x \<Rightarrow> (Ok x, s))"

lemmas act_defs = ret_def fail_def crash_def bind_act_def try_act_def api_def of_run_def of_sum_def

lemma act_simps [simp]:
  "ret x s = (Ok x, s)"
  "fail e s = (Err e, s)"
  "crash s = (Crash, s)"
  "of_run Panic s = (Crash, s)"
  "of_run (Ret x) s = (Ok x, s)"
  "of_sum (Inl e) s = (Err e, s)"
  "of_sum (Inr x) s = (Ok x, s)"
  by (simp_all add: act_defs)

lemma bind_act_cong_simps:
  "m s = (Ok x, s') \<Longrightarrow> bind_act m f s = f x s'"
  "m s = (Err e, s') \<Longrightarrow> bind_act m f s = (Err e, s')"
  "m s = (Crash, s') \<Longrightarrow> bind_act m f s = (Crash, s')"
  by (simp_all add: bind_act_def)

lemma bind_act_Ok:
  assumes "bind_act m f s = (Ok y, s')"
  obtains x s1 where "m s = (Ok x, s1)" and "f x s1 = (Ok y, s')"
  using assms by (auto simp: bind_act_def split: prod.splits res.splits)

lemma try_act_cong_simps:
  "m s = (Ok x, s') \<Longrightarrow> try_act m f s = f (Inr x) s'"
  "m s = (Err e, s') \<Longrightarrow> try_act m f s = f (Inl e) s'"
  "m s = (Crash, s') \<Longrightarrow> try_act m f s = (Crash, s')"
  by (simp_all add: try_act_def)

lemma api_cong_simps:
  "call (ks_world s) = (Inl e, w) \<Longrightarrow> api call s = (Err e, s\<lparr>ks_world := w\<rparr>)"
  "call (ks_world s) = (Inr x, w) \<Longrightarrow> api call s = (Ok x, s\<lparr>ks_world := w\<rparr>)"
  by (simp_all add: api_def)

text \<open>The cache is untouched by a call on the API server, the world by a cache operation.\<close>

definition keeps_cache :: "('w, 'c, 'a) act \<Rightarrow> bool" where
  "keeps_cache m \<longleftrightarrow> (\<forall>s. ks_cache (snd (m s)) = ks_cache s)"

lemma keeps_cache_simps [simp, intro]:
  "keeps_cache (ret x)"
  "keeps_cache (fail e)"
  "keeps_cache crash"
  "keeps_cache (api call)"
  "keeps_cache (of_run r)"
  "keeps_cache (of_sum t)"
  by (auto simp: keeps_cache_def act_defs split: prod.splits sum.splits run.splits)

lemma keeps_cacheD: "keeps_cache m \<Longrightarrow> m s = (r, s') \<Longrightarrow> ks_cache s' = ks_cache s"
  by (auto simp: keeps_cache_def dest!: spec [of _ s])

lemma keeps_cacheI: "(\<And>s r s'. m s = (r, s') \<Longrightarrow> ks_cache s' = ks_cache s) \<Longrightarrow> keeps_cache m"
  by (metis keeps_cache_def prod.collapse)

lemma keeps_cache_bind [intro]:
  assumes "keeps_cache m" and "\<And>x. keeps_cache (f x)"
  shows "keeps_cache (bind_act m f)"
proof (rule keeps_cacheI)
  fix s r s'
  assume *: "bind_act m f s = (r, s')"
  obtain a s1 where m: "m s = (a, s1)" by force
  with assms(1) have "ks_cache s1 = ks_cache s" by (rule keeps_cacheD)
  with * m assms(2) [THEN keeps_cacheD] show "ks_cache s' = ks_cache s"
    by (cases a) (auto simp: bind_act_def)
qed

lemma keeps_cache_try [intro]:
  assumes "keeps_cache m" and "\<And>x. keeps_cache (f x)"
  shows "keeps_cache (try_act m f)"
proof (rule keeps_cacheI)
  fix s r s'
  assume *: "try_act m f s = (r, s')"
  obtain a s1 where m: "m s = (a, s1)" by force
  with assms(1) have "ks_cache s1 = ks_cache s" by (rule keeps_cacheD)
  with * m assms(2) [THEN keeps_cacheD] show "ks_cache s' = ks_cache s"
    by (cases a) (auto simp: try_act_def)
qed

end
