(* ===== verification/Meta_Data.thy ===== *)
theory Meta_Data
  imports Go_Base "HOL-Library.Char_ord" "HOL-Library.List_Lexorder"
begin

section \<open>Metadata of entities\<close>

text \<open>
  \<open>entity/metadata.go\<close> and \<open>filter/meta.go\<close>: the metadata every entity carries, its conversion
  from and to the metadata of API objects, its construction from untyped JSON values, and the
  interface between API objects and entities that the generic operations rely on.
\<close>

record Metadata =
  md_Kind :: string
  md_Name :: string
  md_Namespace :: string
  md_UID :: string
  md_Generation :: int
  md_ResourceVersion :: string
  md_Annotations :: "string gomap"
  md_Labels :: "string gomap"

text \<open>
  The fields of \<open>metav1.ObjectMeta\<close> the library reads or writes; \<open>om_Rest\<close> stands for all the
  others (owner references, finalizers, timestamps), which the conversions drop.
\<close>

record ObjectMeta =
  om_Name :: string
  om_Namespace :: string
  om_UID :: string
  om_Generation :: int
  om_ResourceVersion :: string
  om_Annotations :: "string gomap"
  om_Labels :: "string gomap"
  om_Rest :: "(string \<times> string) list"

definition ToObjectMeta :: "Metadata \<Rightarrow> ObjectMeta" where
  "ToObjectMeta m = \<lparr>
     om_Name = md_Name m,
     om_Namespace = md_Namespace m,
     om_UID = md_UID m,
     om_Generation = md_Generation m,
     om_ResourceVersion = md_ResourceVersion m,
     om_Annotations = md_Annotations m,
     om_Labels = md_Labels m,
     om_Rest = [] \<rparr>"

definition FromObjectMeta :: "string \<Rightarrow> ObjectMeta \<Rightarrow> Metadata" where
  "FromObjectMeta kind m = \<lparr>
     md_Kind = kind,
     md_Name = om_Name m,
     md_Namespace = om_Namespace m,
     md_UID = om_UID m,
     md_Generation = om_Generation m,
     md_ResourceVersion = om_ResourceVersion m,
     md_Annotations = om_Annotations m,
     md_Labels = om_Labels m \<rparr>"

text \<open>Both functions return nil for a nil receiver or argument.\<close>

definition ToObjectMeta_ptr :: "Metadata option \<Rightarrow> ObjectMeta option" where
  "ToObjectMeta_ptr m = (case m of None \<Rightarrow> None | Some m' \<Rightarrow> Some (ToObjectMeta m'))"

definition FromObjectMeta_ptr :: "string \<Rightarrow> ObjectMeta option \<Rightarrow> Metadata option" where
  "FromObjectMeta_ptr kind m = (case m of None \<Rightarrow> None | Some m' \<Rightarrow> Some (FromObjectMeta kind m'))"

definition NewMetadata ::
  "string \<Rightarrow> string \<Rightarrow> string \<Rightarrow> string \<Rightarrow> int \<Rightarrow> string \<Rightarrow> string gomap \<Rightarrow> string gomap \<Rightarrow> Metadata" where
  "NewMetadata kind name namespace uid generation resourceVersion annotations labels = \<lparr>
     md_Kind = kind, md_Name = name, md_Namespace = namespace, md_UID = uid,
     md_Generation = generation, md_ResourceVersion = resourceVersion,
     md_Annotations = annotations, md_Labels = labels \<rparr>"

definition zero_Metadata :: Metadata where
  "zero_Metadata = NewMetadata [] [] [] [] 0 [] None None"

lemma FromObjectMeta_simps [simp]:
  "md_Kind (FromObjectMeta k m) = k"
  "md_Name (FromObjectMeta k m) = om_Name m"
  "md_Namespace (FromObjectMeta k m) = om_Namespace m"
  "md_UID (FromObjectMeta k m) = om_UID m"
  "md_Generation (FromObjectMeta k m) = om_Generation m"
  "md_ResourceVersion (FromObjectMeta k m) = om_ResourceVersion m"
  "md_Annotations (FromObjectMeta k m) = om_Annotations m"
  "md_Labels (FromObjectMeta k m) = om_Labels m"
  by (simp_all add: FromObjectMeta_def)

lemma ToObjectMeta_simps [simp]:
  "om_Name (ToObjectMeta m) = md_Name m"
  "om_Namespace (ToObjectMeta m) = md_Namespace m"
  "om_UID (ToObjectMeta m) = md_UID m"
  "om_Generation (ToObjectMeta m) = md_Generation m"
  "om_ResourceVersion (ToObjectMeta m) = md_ResourceVersion m"
  "om_Annotations (ToObjectMeta m) = md_Annotations m"
  "om_Labels (ToObjectMeta m) = md_Labels m"
  "om_Rest (ToObjectMeta m) = []"
  by (simp_all add: ToObjectMeta_def)

text \<open>The round trip: only the kind, which the API object does not carry, is set anew.\<close>

lemma From_To_ObjectMeta [simp]: "FromObjectMeta k (ToObjectMeta m) = m\<lparr>md_Kind := k\<rparr>"
  by (simp add: FromObjectMeta_def)

lemma To_From_ObjectMeta [simp]: "ToObjectMeta (FromObjectMeta k m) = m\<lparr>om_Rest := []\<rparr>"
  by (simp add: ToObjectMeta_def)

subsection \<open>Untyped values\<close>

text \<open>
  A value of type \<open>any\<close> as the JSON decoder of the watch API produces it. \<open>JOther\<close> is a value
  of any other type; it carries the text the verb \<open>%v\<close> of package \<open>fmt\<close> gives for it.
\<close>

datatype jany =
    JNil
  | JString string
  | JInt int
  | JBool bool
  | JList "jany list"
  | JMap "(string \<times> jany) list"
  | JOther string

text \<open>\<open>fmt.Sprintf("%v", value)\<close>; maps print with their keys sorted.\<close>

primrec sprint_v :: "jany \<Rightarrow> string" where
  "sprint_v JNil = ''<nil>''"
| "sprint_v (JString s) = s"
| "sprint_v (JInt i) = Itoa i"
| "sprint_v (JBool b) = (if b then ''true'' else ''false'')"
| "sprint_v (JList vs) = ''['' @ Join (map sprint_v vs) '' '' @ '']''"
| "sprint_v (JMap kvs) =
     ''map['' @ Join (map (\<lambda>(k, s). k @ '':'' @ s)
        (sort_key fst (map (map_prod id sprint_v) kvs))) '' '' @ '']''"
| "sprint_v (JOther s) = s"

fun as_map :: "jany \<Rightarrow> (string \<times> jany) list run" where
  "as_map (JMap kvs) = Ret kvs"
| "as_map _ = Panic"

fun as_string :: "jany \<Rightarrow> string run" where
  "as_string (JString s) = Ret s"
| "as_string _ = Panic"

fun as_int64 :: "jany \<Rightarrow> int run" where
  "as_int64 (JInt i) = Ret i"
| "as_int64 _ = Panic"

text \<open>\<open>m[k]\<close> on a \<open>map[string]any\<close>: nil for a missing key.\<close>

definition jget :: "(string \<times> jany) list \<Rightarrow> string \<Rightarrow> jany" where
  "jget m k = (case map_of m k of None \<Rightarrow> JNil | Some v \<Rightarrow> v)"

text \<open>\<open>if v, ok := m[k]; ok \<dots>\<close> with the assertion inside the branch.\<close>

definition jopt :: "(string \<times> jany) list \<Rightarrow> string \<Rightarrow> (jany \<Rightarrow> 'a run) \<Rightarrow> 'a \<Rightarrow> 'a run" where
  "jopt m k conv d = (case map_of m k of None \<Rightarrow> Ret d | Some v \<Rightarrow> conv v)"

definition ConvertMap :: "jany \<Rightarrow> string gomap run" where
  "ConvertMap sourceMap =
     (case sourceMap of
        JNil \<Rightarrow> Ret (Some [])
      | _ \<Rightarrow> bind_run (as_map sourceMap)
               (\<lambda>kvs. Ret (Some (foldl (\<lambda>r (k, v). AList.update k (sprint_v v) r) [] kvs))))"

definition NewMetadataFromInterface :: "string \<Rightarrow> jany \<Rightarrow> Metadata run" where
  "NewMetadataFromInterface kind object =
     bind_run (as_map object) (\<lambda>om.
     bind_run (as_string (jget om ''name'')) (\<lambda>name.
     bind_run (jopt om ''namespace'' as_string []) (\<lambda>namespace.
     bind_run (jopt om ''generation'' as_int64 0) (\<lambda>generation.
     bind_run (jopt om ''resourceVersion'' as_string []) (\<lambda>resourceVersion.
     bind_run (jopt om ''uid'' as_string []) (\<lambda>uid.
     bind_run (ConvertMap (jget om ''annotations'')) (\<lambda>annotations.
     bind_run (ConvertMap (jget om ''labels'')) (\<lambda>labels.
       Ret (NewMetadata kind name namespace uid generation resourceVersion annotations labels)))))))))"

lemma foldl_update_map_of:
  "distinct (map fst kvs) \<Longrightarrow>
   map_of (foldl (\<lambda>r (k, v). AList.update k (f v) r) al kvs) k =
     (case map_of kvs k of None \<Rightarrow> map_of al k | Some v \<Rightarrow> Some (f v))"
proof (induction kvs arbitrary: al)
  case Nil
  then show ?case by simp
next
  case (Cons kv kvs)
  obtain k' v where kv: "kv = (k', v)" by force
  with Cons.prems have d: "distinct (map fst kvs)" and n: "map_of kvs k' = None"
    by (auto simp: map_of_eq_None_iff)
  from Cons.IH [OF d] n show ?case
    by (auto simp: kv update_conv' split: option.splits)
qed

lemma ConvertMap_get:
  "distinct (map fst kvs) \<Longrightarrow>
   \<exists>r. ConvertMap (JMap kvs) = Ret (Some r) \<and> (\<forall>k. map_of r k = map_option sprint_v (map_of kvs k))"
  by (auto simp: ConvertMap_def foldl_update_map_of split: option.split)

subsection \<open>Filters\<close>

record filter_Meta =
  fm_Labels :: "string gomap"
  fm_Annotations :: "string gomap"
  fm_WatchBookmark :: bool

subsection \<open>API objects and entities\<close>

text \<open>
  What the generic operations know of an entity: \<open>GetMetadata\<close> (the Go interface
  \<open>HasMetadata\<close>) and the constructor from the API object, which fills the metadata by
  \<open>FromObjectMeta\<close> with the entity's kind. A codec also has the conversion back.
\<close>

locale kube_entity =
  fixes kind :: string
    and from_api :: "'f \<Rightarrow> 'e"
    and api_meta :: "'f \<Rightarrow> ObjectMeta"
    and GetMetadata :: "'e \<Rightarrow> Metadata"
  assumes from_api_meta: "GetMetadata (from_api f) = FromObjectMeta kind (api_meta f)"
begin

lemma from_api_kind: "md_Kind (GetMetadata (from_api f)) = kind"
  by (simp add: from_api_meta)

lemma from_api_name: "md_Name (GetMetadata (from_api f)) = om_Name (api_meta f)"
  by (simp add: from_api_meta)

lemma from_api_annotations: "md_Annotations (GetMetadata (from_api f)) = om_Annotations (api_meta f)"
  by (simp add: from_api_meta)

end

locale kube_codec = kube_entity +
  fixes to_api :: "'e \<Rightarrow> 'f"
  assumes to_api_meta: "api_meta (to_api e) = ToObjectMeta (GetMetadata e)"
    and from_to: "md_Kind (GetMetadata e) = kind \<Longrightarrow> from_api (to_api e) = e"
begin

lemma to_api_name: "om_Name (api_meta (to_api e)) = md_Name (GetMetadata e)"
  by (simp add: to_api_meta)

lemma from_to_meta: "GetMetadata (from_api (to_api e)) = (GetMetadata e)\<lparr>md_Kind := kind\<rparr>"
  by (simp add: from_api_meta to_api_meta)

text \<open>An entity read from the API survives being written and read again.\<close>

lemma reread: "from_api (to_api (from_api f)) = from_api f"
  by (rule from_to) (rule from_api_kind)

lemma to_api_inj:
  assumes "md_Kind (GetMetadata a) = kind" and "md_Kind (GetMetadata b) = kind"
    and "to_api a = to_api b"
  shows "a = b"
  by (metis assms from_to)

end

end
