(* ===== verification/Crud_Adapter.thy ===== *)
theory Crud_Adapter
  imports Effects Meta_Data
begin

section \<open>The generic operations on resources\<close>

text \<open>
  \<open>service/internal/kubernetes/adapterForCrud.go\<close>: the wrappers through which every resource is
  read, listed, created, updated and deleted. A typed client is the record of its methods for a
  namespace; the request options the wrappers leave empty are not shown.
\<close>

record ListOptions =
  lo_LabelSelector :: string
  lo_Continue :: string

record 'f page =
  pg_Items :: "'f list"
  pg_Continue :: string

record ('w, 'f) client =
  cl_Get :: "string \<Rightarrow> ('w, 'f) io"
  cl_List :: "ListOptions \<Rightarrow> ('w, 'f page) io"
  cl_Create :: "'f \<Rightarrow> ('w, 'f) io"
  cl_Update :: "'f \<Rightarrow> ('w, 'f) io"
  cl_Delete :: "string \<Rightarrow> ('w, unit) io"

subsection \<open>Filters\<close>

definition anyValue :: string where "anyValue = ''*''"

definition containsAll :: "string gomap \<Rightarrow> string gomap \<Rightarrow> bool" where
  "containsAll resourceAnns requiredAnns =
     list_all (\<lambda>(requiredAnnName, requiredAnnValue).
       case gm_get resourceAnns requiredAnnName of
         None \<Rightarrow> False
       | Some annValue \<Rightarrow> \<not> (requiredAnnValue \<noteq> anyValue \<and> annValue \<noteq> requiredAnnValue))
     (gm_entries requiredAnns)"

fun filterBy :: "'t list \<Rightarrow> ('t \<Rightarrow> string gomap) \<Rightarrow> string gomap \<Rightarrow> 't list" where
  "filterBy [] getMeta metaFilter = []"
| "filterBy (r # rs) getMeta metaFilter =
     (if containsAll (getMeta r) metaFilter then r # filterBy rs getMeta metaFilter
      else filterBy rs getMeta metaFilter)"

fun ToPointersSlice :: "'t list \<Rightarrow> 't option list" where
  "ToPointersSlice [] = []"
| "ToPointersSlice (i # is) = Some i # ToPointersSlice is"

lemma filterBy_filter: "filterBy rs getMeta f = filter (\<lambda>r. containsAll (getMeta r) f) rs"
  by (induction rs) auto

lemma containsAll_iff:
  "containsAll anns req \<longleftrightarrow>
     (\<forall>(k, v) \<in> set (gm_entries req). \<exists>a. gm_get anns k = Some a \<and> (v = ''*'' \<or> a = v))"
  by (fastforce simp: containsAll_def anyValue_def list_all_iff split: option.splits)

lemma containsAll_None [simp]: "containsAll a None" "containsAll a (Some [])"
  by (simp_all add: containsAll_iff)

subsection \<open>Reading one resource\<close>

text \<open>
  \<open>cache\<close> is nil or the method \<open>Get\<close> of a resource cache. The conversion may dereference nil.
\<close>

definition GetWrapper :: "errlib \<Rightarrow> string \<Rightarrow> string \<Rightarrow> (string \<Rightarrow> ('w, 'f) io) \<Rightarrow>
    (string \<Rightarrow> string \<Rightarrow> 'c \<Rightarrow> 't option) option \<Rightarrow> ('f \<Rightarrow> 't run) \<Rightarrow> ('w, 'c, 't option) act" where
  "GetWrapper errs name namespace getFromApiServer cache convert =
     try_act (api (getFromApiServer name)) (\<lambda>r.
       case r of
         Inr obj \<Rightarrow> bind_act (of_run (convert obj)) (\<lambda>t. ret (Some t))
       | Inl err \<Rightarrow>
           if IsNotFound errs err then ret None
           else (case cache of
                   None \<Rightarrow> fail err
                 | Some get \<Rightarrow> (\<lambda>s.
                     (case get namespace name (ks_cache s) of
                        Some cached \<Rightarrow> ret (Some cached) s
                      | None \<Rightarrow> fail err s))))"

subsection \<open>Listing\<close>

text \<open>
  \<open>listLimited\<close> follows the continue tokens for as long as the server sends one: \<open>None\<close> means
  that the loop does not end.
\<close>

partial_function (option) listLimited ::
  "(ListOptions \<Rightarrow> ('w, 'f page) io) \<Rightarrow> ('f list \<Rightarrow> 't list run) \<Rightarrow> ('t \<Rightarrow> string gomap) \<Rightarrow>
     string gomap \<Rightarrow> ListOptions \<Rightarrow> 't list \<Rightarrow> ('w, 'c) kstate \<Rightarrow> ('t list res \<times> ('w, 'c) kstate) option"
where
  "listLimited listFromApiServer convert getAnnotations annotations listOptions result s =
     (case api (listFromApiServer listOptions) s of
        (Err err, s') \<Rightarrow> Some (Err err, s')
      | (Crash, s') \<Rightarrow> Some (Crash, s')
      | (Ok apiServerList, s') \<Rightarrow>
          (case convert (pg_Items apiServerList) of
             Panic \<Rightarrow> Some (Crash, s')
           | Ret partialResult \<Rightarrow>
               if pg_Continue apiServerList \<noteq> []
               then listLimited listFromApiServer convert getAnnotations annotations
                      (listOptions\<lparr>lo_Continue := pg_Continue apiServerList\<rparr>)
                      (result @ (if gm_len annotations > 0
                         then filterBy partialResult getAnnotations annotations else partialResult)) s'
               else Some (Ok (result @ (if gm_len annotations > 0
                         then filterBy partialResult getAnnotations annotations else partialResult)), s')))"

fun list_attempts ::
  "nat \<Rightarrow> errlib \<Rightarrow> (ListOptions \<Rightarrow> ('w, 'f page) io) \<Rightarrow> ('f list \<Rightarrow> 't list run) \<Rightarrow> ('t \<Rightarrow> string gomap) \<Rightarrow>
     string gomap \<Rightarrow> ListOptions \<Rightarrow> 't list res \<Rightarrow> ('w, 'c) kstate \<Rightarrow>
     ('t list res \<times> ('w, 'c) kstate) option" where
  "list_attempts 0 errs lst convert getAnnotations annotations opts prev s = Some (prev, s)"
| "list_attempts (Suc n) errs lst convert getAnnotations annotations opts prev s =
     (case listLimited lst convert getAnnotations annotations opts [] s of
        None \<Rightarrow> None
      | Some (Err err, s') \<Rightarrow>
          (case AsStatusError errs err of
             Some st \<Rightarrow>
               if as_Code st = 410
               then list_attempts n errs lst convert getAnnotations annotations opts (Err err) s'
               else Some (Err err, s')
           | None \<Rightarrow> Some (Err err, s'))
      | Some (r, s') \<Rightarrow> Some (r, s'))"

text \<open>\<open>labels_String\<close> is the method \<open>String\<close> of \<open>labels.Set\<close> of the API machinery.\<close>

definition ListWrapper ::
  "errlib \<Rightarrow> (string gomap \<Rightarrow> string) \<Rightarrow> filter_Meta \<Rightarrow> (ListOptions \<Rightarrow> ('w, 'f page) io) \<Rightarrow>
     ('f list \<Rightarrow> 't list run) \<Rightarrow> ('t \<Rightarrow> string gomap) \<Rightarrow> ('w, 'c) kstate \<Rightarrow>
     ('t list res \<times> ('w, 'c) kstate) option" where
  "ListWrapper errs labels_String metaFilter listFromApiServer convert getAnnotations s =
     (let listOptions = \<lparr> lo_LabelSelector =
            (if fm_Labels metaFilter \<noteq> None then labels_String (fm_Labels metaFilter) else []),
            lo_Continue = [] \<rparr>
      in list_attempts 3 errs listFromApiServer convert getAnnotations (fm_Annotations metaFilter)
           listOptions (Ok []) s)"

subsection \<open>Writing\<close>

definition DeleteWrapper :: "string \<Rightarrow> (string \<Rightarrow> ('w, unit) io) \<Rightarrow> ('w, 'c, unit) act" where
  "DeleteWrapper name deleteFromApiServer = api (deleteFromApiServer name)"

definition CreateWrapper :: "'t \<Rightarrow> ('f \<Rightarrow> ('w, 'f) io) \<Rightarrow> ('t \<Rightarrow> 'f) \<Rightarrow> ('f \<Rightarrow> 't) \<Rightarrow> ('w, 'c, 't) act" where
  "CreateWrapper resource createInApiServer convertTo convertFrom =
     bind_act (api (createInApiServer (convertTo resource))) (\<lambda>obj. ret (convertFrom obj))"

definition UpdateOrCreateWrapper :: "errlib \<Rightarrow> ('t \<Rightarrow> Metadata) \<Rightarrow> 't \<Rightarrow> (string \<Rightarrow> ('w, 'f) io) \<Rightarrow>
    ('f \<Rightarrow> ('w, 'f) io) \<Rightarrow> ('f \<Rightarrow> ('w, 'f) io) \<Rightarrow> ('t \<Rightarrow> 'f) \<Rightarrow> ('f \<Rightarrow> 't) \<Rightarrow> ('w, 'c, 't) act" where
  "UpdateOrCreateWrapper errs GetMetadata resource getFromApiServer createInApiServer updateInApiServer
       convertTo convertFrom =
     (let name = md_Name (GetMetadata resource)
      in try_act (api (getFromApiServer name)) (\<lambda>r.
           case r of
             Inl err \<Rightarrow>
               if IsNotFound errs err then CreateWrapper resource createInApiServer convertTo convertFrom
               else fail err
           | Inr _ \<Rightarrow>
               bind_act (api (updateInApiServer (convertTo resource))) (\<lambda>updatedObj.
                 ret (convertFrom updatedObj))))"

subsection \<open>Laws of the single-resource operations\<close>

lemma GetWrapper_ok:
  "getf name (ks_world s) = (Inr obj, w) \<Longrightarrow>
   GetWrapper errs name ns getf cache conv s =
     (case conv obj of Panic \<Rightarrow> Crash | Ret t \<Rightarrow> Ok (Some t), s\<lparr>ks_world := w\<rparr>)"
  by (cases "conv obj") (simp_all add: GetWrapper_def act_defs)

lemma GetWrapper_error:
  "getf name (ks_world s) = (Inl e, w) \<Longrightarrow>
   GetWrapper errs name ns getf cache conv s =
     (if IsNotFound errs e then Ok None
      else (case cache of
              None \<Rightarrow> Err e
            | Some get \<Rightarrow> (case get ns name (ks_cache s) of None \<Rightarrow> Err e | Some x \<Rightarrow> Ok (Some x))),
      s\<lparr>ks_world := w\<rparr>)"
  by (simp add: GetWrapper_def act_defs split: option.split)

lemma GetWrapper_keeps_cache [intro]: "keeps_cache (GetWrapper errs name ns getf cache conv)"
proof (rule keeps_cacheI)
  fix s r s'
  assume *: "GetWrapper errs name ns getf cache conv s = (r, s')"
  obtain res w where g: "getf name (ks_world s) = (res, w)" by force
  show "ks_cache s' = ks_cache s"
    using * g by (cases res) (auto simp: GetWrapper_ok GetWrapper_error)
qed

lemma CreateWrapper_eq:
  "CreateWrapper r createf to_f from_f s =
     (case createf (to_f r) (ks_world s) of
        (Inl e, w) \<Rightarrow> (Err e, s\<lparr>ks_world := w\<rparr>)
      | (Inr obj, w) \<Rightarrow> (Ok (from_f obj), s\<lparr>ks_world := w\<rparr>))"
  by (simp add: CreateWrapper_def act_defs split: prod.split sum.split)

lemma UpdateOrCreateWrapper_found:
  "getf (md_Name (meta r)) (ks_world s) = (Inr obj, w) \<Longrightarrow>
   UpdateOrCreateWrapper errs meta r getf createf updatef to_f from_f s =
     (case updatef (to_f r) w of
        (Inl e, w') \<Rightarrow> (Err e, s\<lparr>ks_world := w'\<rparr>)
      | (Inr obj', w') \<Rightarrow> (Ok (from_f obj'), s\<lparr>ks_world := w'\<rparr>))"
  by (simp add: UpdateOrCreateWrapper_def act_defs split: prod.split sum.split)

lemma UpdateOrCreateWrapper_missing:
  "getf (md_Name (meta r)) (ks_world s) = (Inl e, w) \<Longrightarrow> IsNotFound errs e \<Longrightarrow>
   UpdateOrCreateWrapper errs meta r getf createf updatef to_f from_f s =
     CreateWrapper r createf to_f from_f (s\<lparr>ks_world := w\<rparr>)"
  by (simp add: UpdateOrCreateWrapper_def try_act_def api_def)

lemma UpdateOrCreateWrapper_error:
  "getf (md_Name (meta r)) (ks_world s) = (Inl e, w) \<Longrightarrow> \<not> IsNotFound errs e \<Longrightarrow>
   UpdateOrCreateWrapper errs meta r getf createf updatef to_f from_f s = (Err e, s\<lparr>ks_world := w\<rparr>)"
  by (simp add: UpdateOrCreateWrapper_def try_act_def api_def)

subsection \<open>A server that stores what it is sent\<close>

text \<open>
  The documented behaviour of the API server for one resource type in one namespace: \<open>objects w\<close>
  are the objects it has, by name, \<open>admit\<close> is what it makes of an object it accepts (defaults,
  a new resource version); it keeps the name.
\<close>

definition store_client ::
  "errlib \<Rightarrow> ('f \<Rightarrow> string) \<Rightarrow> ('f \<Rightarrow> 'f) \<Rightarrow> ('w \<Rightarrow> string \<Rightarrow> 'f option) \<Rightarrow> ('w, 'f) client \<Rightarrow> bool" where
  "store_client errs name_of admit objects cl \<longleftrightarrow>
     (\<forall>f. name_of (admit f) = name_of f) \<and>
     (\<forall>n w. case objects w n of
        Some f \<Rightarrow> cl_Get cl n w = (Inr f, w)
      | None \<Rightarrow> (\<exists>e. cl_Get cl n w = (Inl e, w) \<and> IsNotFound errs e)) \<and>
     (\<forall>f w. objects w (name_of f) = None \<longrightarrow>
        (\<exists>w'. cl_Create cl f w = (Inr (admit f), w') \<and> objects w' = (objects w)(name_of f \<mapsto> admit f))) \<and>
     (\<forall>f w. objects w (name_of f) \<noteq> None \<longrightarrow>
        (\<exists>w'. cl_Update cl f w = (Inr (admit f), w') \<and> objects w' = (objects w)(name_of f \<mapsto> admit f))) \<and>
     (\<forall>n w. objects w n \<noteq> None \<longrightarrow>
        (\<exists>w'. cl_Delete cl n w = (Inr (), w') \<and> objects w' = (objects w)(n := None)))"

lemma store_clientD:
  assumes "store_client errs name_of admit objects cl"
  shows "objects w n = Some f \<Longrightarrow> cl_Get cl n w = (Inr f, w)"
    and "objects w n = None \<Longrightarrow> \<exists>e. cl_Get cl n w = (Inl e, w) \<and> IsNotFound errs e"
    and "objects w (name_of f) = None \<Longrightarrow>
      \<exists>w'. cl_Create cl f w = (Inr (admit f), w') \<and> objects w' = (objects w)(name_of f \<mapsto> admit f)"
    and "objects w (name_of f) \<noteq> None \<Longrightarrow>
      \<exists>w'. cl_Update cl f w = (Inr (admit f), w') \<and> objects w' = (objects w)(name_of f \<mapsto> admit f)"
    and "objects w n \<noteq> None \<Longrightarrow> \<exists>w'. cl_Delete cl n w = (Inr (), w') \<and> objects w' = (objects w)(n := None)"
    and "name_of (admit f) = name_of f"
proof -
  note * = assms [unfolded store_client_def]
  show "objects w n = Some f \<Longrightarrow> cl_Get cl n w = (Inr f, w)"
    using * by (auto dest!: conjunct2 [THEN conjunct1] spec [of _ n] spec [of _ w])
  show "objects w n = None \<Longrightarrow> \<exists>e. cl_Get cl n w = (Inl e, w) \<and> IsNotFound errs e"
    using * by (auto dest!: conjunct2 [THEN conjunct1] spec [of _ n] spec [of _ w])
qed (use assms in \<open>simp_all add: store_client_def\<close>)

text \<open>
  The refinement the write operations implement: updating or creating stores the object under
  its name whatever was there before, and reading it gives back what was returned.
\<close>

lemma UpdateOrCreateWrapper_store:
  assumes "store_client errs name_of admit objects cl"
    and "name_of (to_f r) = md_Name (meta r)"
  shows "\<exists>w'. UpdateOrCreateWrapper errs meta r (cl_Get cl) (cl_Create cl) (cl_Update cl) to_f from_f s =
        (Ok (from_f (admit (to_f r))), s\<lparr>ks_world := w'\<rparr>)
      \<and> objects w' = (objects (ks_world s))(md_Name (meta r) \<mapsto> admit (to_f r))"
proof (cases "objects (ks_world s) (md_Name (meta r))")
  case None
  with store_clientD(2) [OF assms(1)] obtain e where
    "cl_Get cl (md_Name (meta r)) (ks_world s) = (Inl e, ks_world s)" "IsNotFound errs e" by blast
  moreover from None store_clientD(3) [OF assms(1), of "ks_world s" "to_f r"] assms(2)
  obtain w' where "cl_Create cl (to_f r) (ks_world s) = (Inr (admit (to_f r)), w')"
    "objects w' = (objects (ks_world s))(md_Name (meta r) \<mapsto> admit (to_f r))" by auto
  ultimately show ?thesis
    by (auto simp: UpdateOrCreateWrapper_missing CreateWrapper_eq)
next
  case (Some f)
  with store_clientD(1) [OF assms(1)] have
    "cl_Get cl (md_Name (meta r)) (ks_world s) = (Inr f, ks_world s)" by blast
  moreover from Some store_clientD(4) [OF assms(1), of "ks_world s" "to_f r"] assms(2)
  obtain w' where "cl_Update cl (to_f r) (ks_world s) = (Inr (admit (to_f r)), w')"
    "objects w' = (objects (ks_world s))(md_Name (meta r) \<mapsto> admit (to_f r))" by auto
  ultimately show ?thesis
    by (auto simp: UpdateOrCreateWrapper_found)
qed

subsection \<open>Laws of listing\<close>

text \<open>
  \<open>pages lst opts w ps w'\<close>: from world \<open>w\<close> the server answers the requests that follow its
  continue tokens with the pages \<open>ps\<close>, the last one without a token. \<open>pages_fail\<close>: one of the
  requests gives the error \<open>e\<close>.
\<close>

inductive pages :: "(ListOptions \<Rightarrow> ('w, 'f page) io) \<Rightarrow> ListOptions \<Rightarrow> 'w \<Rightarrow> 'f list list \<Rightarrow> 'w \<Rightarrow> bool"
  for lst where
  last_page: "lst opts w = (Inr p, w') \<Longrightarrow> pg_Continue p = [] \<Longrightarrow> pages lst opts w [pg_Items p] w'"
| more_pages: "lst opts w = (Inr p, w1) \<Longrightarrow> pg_Continue p \<noteq> [] \<Longrightarrow>
    pages lst (opts\<lparr>lo_Continue := pg_Continue p\<rparr>) w1 ps w2 \<Longrightarrow> pages lst opts w (pg_Items p # ps) w2"

inductive pages_fail :: "(ListOptions \<Rightarrow> ('w, 'f page) io) \<Rightarrow> ListOptions \<Rightarrow> 'w \<Rightarrow> go_error \<Rightarrow> 'w \<Rightarrow> bool"
  for lst where
  this_fails: "lst opts w = (Inl e, w') \<Longrightarrow> pages_fail lst opts w e w'"
| later_fails: "lst opts w = (Inr p, w1) \<Longrightarrow> pg_Continue p \<noteq> [] \<Longrightarrow>
    pages_fail lst (opts\<lparr>lo_Continue := pg_Continue p\<rparr>) w1 e w2 \<Longrightarrow> pages_fail lst opts w e w2"

lemma filter_if_needed:
  "(if gm_len annotations > 0 then filterBy ts getA annotations else ts) =
     filter (\<lambda>t. containsAll (getA t) annotations) ts"
  by (cases "gm_len annotations > 0")
    (auto simp: filterBy_filter containsAll_iff gm_len_def intro!: filter_True [symmetric])

lemma listLimited_pages:
  assumes "pages lst opts w ps w'" and "\<And>p. conv p = Ret (map g p)"
  shows "ks_world s = w \<Longrightarrow> listLimited lst conv getA annotations opts result s =
     Some (Ok (result @ filter (\<lambda>t. containsAll (getA t) annotations) (map g (concat ps))),
       s\<lparr>ks_world := w'\<rparr>)"
  using assms(1)
proof (induction arbitrary: result s)
  case (last_page opts w p w')
  then show ?case
    by (subst listLimited.simps) (simp add: api_def assms(2) [of "pg_Items p"] filter_if_needed)
next
  case (more_pages opts w p w1 ps w2)
  from more_pages.IH [of "s\<lparr>ks_world := w1\<rparr>"] more_pages.hyps more_pages.prems show ?case
    by (subst listLimited.simps) (simp add: api_def assms(2) [of "pg_Items p"] filter_if_needed)
qed

lemma listLimited_fail:
  assumes "pages_fail lst opts w e w'" and "\<And>p. conv p = Ret (map g p)"
  shows "ks_world s = w \<Longrightarrow> listLimited lst conv getA annotations opts result s =
     Some (Err e, s\<lparr>ks_world := w'\<rparr>)"
  using assms(1)
proof (induction arbitrary: result s)
  case (this_fails opts w e w')
  then show ?case
    by (subst listLimited.simps) (simp add: api_def)
next
  case (later_fails opts w p w1 e w2)
  from later_fails.IH [of "s\<lparr>ks_world := w1\<rparr>"] later_fails.hyps later_fails.prems show ?case
    by (subst listLimited.simps) (simp add: api_def assms(2) [of "pg_Items p"])
qed

text \<open>
  \<open>gone n w w'\<close>: \<open>n\<close> listings in a row from world \<open>w\<close> end with the status 410 Gone.
\<close>

definition is_gone :: "errlib \<Rightarrow> go_error \<Rightarrow> bool" where
  "is_gone errs e \<longleftrightarrow> (\<exists>st. AsStatusError errs e = Some st \<and> as_Code st = 410)"

inductive gone :: "errlib \<Rightarrow> (ListOptions \<Rightarrow> ('w, 'f page) io) \<Rightarrow> ListOptions \<Rightarrow> nat \<Rightarrow> 'w \<Rightarrow> go_error \<Rightarrow> 'w \<Rightarrow> bool"
  for errs lst opts where
  gone_1: "pages_fail lst opts w e w' \<Longrightarrow> is_gone errs e \<Longrightarrow> gone errs lst opts (Suc 0) w e w'"
| gone_Suc: "pages_fail lst opts w e w1 \<Longrightarrow> is_gone errs e \<Longrightarrow> gone errs lst opts n w1 e' w2 \<Longrightarrow>
    gone errs lst opts (Suc n) w e' w2"

lemma list_attempts_step:
  "pages_fail lst opts (ks_world s) e w \<Longrightarrow> (\<And>p. conv p = Ret (map g p)) \<Longrightarrow> is_gone errs e \<Longrightarrow>
   list_attempts (Suc n) errs lst conv getA annotations opts prev s =
     list_attempts n errs lst conv getA annotations opts (Err e) (s\<lparr>ks_world := w\<rparr>)"
  using listLimited_fail [where conv = conv and g = g and s = s and result = "[]"]
  by (auto simp: is_gone_def)

lemma list_attempts_gone:
  assumes "gone errs lst opts k w e w'" and "\<And>p. conv p = Ret (map g p)"
  shows "ks_world s = w \<Longrightarrow> list_attempts (k + n) errs lst conv getA annotations opts prev s =
     list_attempts n errs lst conv getA annotations opts (Err e) (s\<lparr>ks_world := w'\<rparr>)"
  using assms(1)
proof (induction arbitrary: s prev)
  case (gone_1 w e w')
  then show ?case
    using list_attempts_step [OF _ assms(2), of lst opts s e w'] by (simp del: list_attempts.simps)
next
  case (gone_Suc w e w1 n' e' w2)
  from gone_Suc.IH [of "s\<lparr>ks_world := w1\<rparr>"] gone_Suc.hyps gone_Suc.prems
    list_attempts_step [OF _ assms(2), of lst opts s e w1]
  show ?case by (simp del: list_attempts.simps)
qed

lemma list_attempts_done:
  assumes "\<And>p. conv p = Ret (map g p)"
  shows "pages lst opts (ks_world s) ps w' \<Longrightarrow>
      list_attempts (Suc n) errs lst conv getA annotations opts prev s =
        Some (Ok (filter (\<lambda>t. containsAll (getA t) annotations) (map g (concat ps))), s\<lparr>ks_world := w'\<rparr>)"
    and "pages_fail lst opts (ks_world s) e w' \<Longrightarrow> \<not> is_gone errs e \<Longrightarrow>
      list_attempts (Suc n) errs lst conv getA annotations opts prev s = Some (Err e, s\<lparr>ks_world := w'\<rparr>)"
  using listLimited_pages [where conv = conv and g = g and s = s and result = "[]"]
    listLimited_fail [where conv = conv and g = g and s = s and result = "[]"] assms
  by (simp_all add: is_gone_def split: option.split)

definition list_options :: "(string gomap \<Rightarrow> string) \<Rightarrow> filter_Meta \<Rightarrow> ListOptions" where
  "list_options labels_String f =
     \<lparr> lo_LabelSelector = (if fm_Labels f \<noteq> None then labels_String (fm_Labels f) else []), lo_Continue = [] \<rparr>"

lemma ListWrapper_pages:
  assumes "\<And>p. conv p = Ret (map g p)"
    and "pages lst (list_options ls f) (ks_world s) ps w"
  shows "ListWrapper errs ls f lst conv getA s =
     Some (Ok (filter (\<lambda>t. containsAll (getA t) (fm_Annotations f)) (map g (concat ps))),
       s\<lparr>ks_world := w\<rparr>)"
  using list_attempts_done(1) [where conv = conv and g = g, OF assms(1) assms(2)]
  by (simp add: ListWrapper_def list_options_def numeral_3_eq_3 del: list_attempts.simps)

text \<open>Up to two listings that end with 410 are repeated; three give the error.\<close>

lemma ListWrapper_retry:
  assumes "\<And>p. conv p = Ret (map g p)"
    and "gone errs lst (list_options ls f) k (ks_world s) e w" and "k \<le> 2"
    and "pages lst (list_options ls f) w ps w'"
  shows "ListWrapper errs ls f lst conv getA s =
     Some (Ok (filter (\<lambda>t. containsAll (getA t) (fm_Annotations f)) (map g (concat ps))),
       s\<lparr>ks_world := w'\<rparr>)"
proof -
  obtain n where n: "3 = k + Suc n" using assms(3) by (metis Suc_eq_plus1 add.left_commute
        le_add_diff_inverse numeral_2_eq_2 numeral_3_eq_3 plus_1_eq_Suc)
  have "list_attempts 3 errs lst conv getA (fm_Annotations f) (list_options ls f) (Ok []) s =
      list_attempts (Suc n) errs lst conv getA (fm_Annotations f) (list_options ls f) (Err e) (s\<lparr>ks_world := w\<rparr>)"
    unfolding n by (rule list_attempts_gone [where conv = conv and g = g, OF assms(2,1) refl])
  with list_attempts_done(1) [where conv = conv and g = g and s = "s\<lparr>ks_world := w\<rparr>", OF assms(1)] assms(4)
  show ?thesis by (simp add: ListWrapper_def list_options_def Let_def del: list_attempts.simps)
qed

lemma ListWrapper_gone:
  assumes "\<And>p. conv p = Ret (map g p)"
    and "gone errs lst (list_options ls f) 3 (ks_world s) e w"
  shows "ListWrapper errs ls f lst conv getA s = Some (Err e, s\<lparr>ks_world := w\<rparr>)"
proof -
  have "list_attempts (3 + 0) errs lst conv getA (fm_Annotations f) (list_options ls f) (Ok []) s =
      list_attempts 0 errs lst conv getA (fm_Annotations f) (list_options ls f) (Err e) (s\<lparr>ks_world := w\<rparr>)"
    by (rule list_attempts_gone [where conv = conv and g = g, OF assms(2,1) refl])
  then show ?thesis by (simp add: ListWrapper_def list_options_def Let_def)
qed

end
