(* ===== verification/Resource_Cache.thy ===== *)
theory Resource_Cache
  imports Meta_Data
begin

section \<open>The resource cache\<close>

text \<open>
  \<open>service/internal/cache/cache.go\<close> and \<open>cachenames.go\<close>: one ristretto cache of byte slices shared
  by all entity types. The ristretto library and \<open>encoding/json\<close> at an entity type are
  parameters; a Go interface value is a record of its methods.
\<close>

subsection \<open>The libraries\<close>

record 'c ristretto =
  SetWithTTL :: "string \<Rightarrow> string \<Rightarrow> int \<Rightarrow> int \<Rightarrow> 'c \<Rightarrow> bool \<times> 'c"
  Wait :: "'c \<Rightarrow> 'c"
  rGet :: "string \<Rightarrow> 'c \<Rightarrow> string option"
  rDel :: "string \<Rightarrow> 'c \<Rightarrow> 'c"

text \<open>
  \<open>json.Unmarshal\<close> into a fresh variable; the code ignores its error, so the result is the
  variable's value whatever happened.
\<close>

record 't json =
  Marshal :: "'t \<Rightarrow> go_error + string"
  Unmarshal :: "string \<Rightarrow> 't"

text \<open>
  What ristretto documents: an accepted value is stored or dropped later (admission, eviction,
  expiry), a rejected one changes nothing else, a deleted key is gone, and an operation on a key
  never brings back or changes the value of another one.
\<close>

definition ristretto_ok :: "'c ristretto \<Rightarrow> bool" where
  "ristretto_ok r \<longleftrightarrow>
     (\<forall>k v cost ttl c c' ok. SetWithTTL r k v cost ttl c = (ok, c') \<longrightarrow>
        (rGet r k c' = None \<or> rGet r k c' = (if ok then Some v else rGet r k c)) \<and>
        (\<forall>k'. k' \<noteq> k \<longrightarrow> rGet r k' c' = None \<or> rGet r k' c' = rGet r k' c)) \<and>
     (\<forall>k c. rGet r k (Wait r c) = None \<or> rGet r k (Wait r c) = rGet r k c) \<and>
     (\<forall>k c. rGet r k (rDel r k c) = None) \<and>
     (\<forall>k k' c. k' \<noteq> k \<longrightarrow> rGet r k' (rDel r k c) = None \<or> rGet r k' (rDel r k c) = rGet r k' c)"

text \<open>The value that comes back when a marshalled one is read.\<close>

definition json_stored :: "'t json \<Rightarrow> 't \<Rightarrow> 't" where
  "json_stored j x = (case Marshal j x of Inl e \<Rightarrow> x | Inr b \<Rightarrow> Unmarshal j b)"

subsection \<open>Keys\<close>

record cacheKey =
  ck_kind :: string
  ck_namespace :: string
  ck_name :: string

definition toCacheKey :: "string \<Rightarrow> string \<Rightarrow> string \<Rightarrow> cacheKey" where
  "toCacheKey kind namespace name = \<lparr> ck_kind = kind, ck_namespace = namespace, ck_name = name \<rparr>"

definition fromCacheKey :: "cacheKey \<Rightarrow> string \<times> string \<times> string" where
  "fromCacheKey key = (ck_kind key, ck_namespace key, ck_name key)"

definition key_String :: "cacheKey \<Rightarrow> string" where
  "key_String key = ck_kind key @ ''/'' @ ck_namespace key @ ''/'' @ ck_name key"

subsection \<open>The shared adapter\<close>

record 'c ristrettoCacheAdapter =
  ra_cache :: "'c ristretto"
  ra_maxItemSize :: int
  ra_ttl :: int

definition shared_Set ::
  "'c ristrettoCacheAdapter \<Rightarrow> string \<Rightarrow> string \<Rightarrow> string \<Rightarrow> string \<Rightarrow> int \<Rightarrow> 'c \<Rightarrow> bool \<times> 'c" where
  "shared_Set adapter kind namespace name value cost c =
     (let key = toCacheKey kind namespace name;
          (ok, c1) = SetWithTTL (ra_cache adapter) (key_String key) value cost (ra_ttl adapter) c
      in if ok then (ok, Wait (ra_cache adapter) c1) else (ok, c1))"

definition shared_Get ::
  "'c ristrettoCacheAdapter \<Rightarrow> string \<Rightarrow> string \<Rightarrow> string \<Rightarrow> 'c \<Rightarrow> string option" where
  "shared_Get adapter kind namespace name c =
     (let key = toCacheKey kind namespace name in rGet (ra_cache adapter) (key_String key) c)"

definition shared_Del ::
  "'c ristrettoCacheAdapter \<Rightarrow> string \<Rightarrow> string \<Rightarrow> string \<Rightarrow> 'c \<Rightarrow> 'c" where
  "shared_Del adapter kind namespace name c =
     (let key = toCacheKey kind namespace name in rDel (ra_cache adapter) (key_String key) c)"

subsection \<open>The adapter of an entity type\<close>

text \<open>The interface \<open>LimitedCache\<close>.\<close>

record ('c, 't) LimitedCache =
  lc_Set :: "string \<Rightarrow> string \<Rightarrow> string \<Rightarrow> 't \<Rightarrow> 'c \<Rightarrow> bool \<times> 'c"
  lc_Get :: "string \<Rightarrow> string \<Rightarrow> string \<Rightarrow> 'c \<Rightarrow> 't option"
  lc_Del :: "string \<Rightarrow> string \<Rightarrow> string \<Rightarrow> 'c \<Rightarrow> 'c"

definition entity_Set :: "'c ristrettoCacheAdapter \<Rightarrow> 't json \<Rightarrow>
    string \<Rightarrow> string \<Rightarrow> string \<Rightarrow> 't \<Rightarrow> 'c \<Rightarrow> bool \<times> 'c" where
  "entity_Set adapter js kind namespace name value c =
     (case Marshal js value of
        Inl err \<Rightarrow> (False, c)
      | Inr bytes \<Rightarrow>
          let cost = int (length bytes) + 16
          in if ra_maxItemSize adapter > 0 \<and> cost > ra_maxItemSize adapter then (False, c)
             else shared_Set adapter kind namespace name bytes cost c)"

definition entity_Get :: "'c ristrettoCacheAdapter \<Rightarrow> 't json \<Rightarrow>
    string \<Rightarrow> string \<Rightarrow> string \<Rightarrow> 'c \<Rightarrow> 't option" where
  "entity_Get adapter js kind namespace name c =
     (case shared_Get adapter kind namespace name c of
        None \<Rightarrow> None
      | Some bytes \<Rightarrow> Some (Unmarshal js bytes))"

definition entity_Del :: "'c ristrettoCacheAdapter \<Rightarrow>
    string \<Rightarrow> string \<Rightarrow> string \<Rightarrow> 'c \<Rightarrow> 'c" where
  "entity_Del adapter kind namespace name c = shared_Del adapter kind namespace name c"

definition newEntityAdapter :: "'t json \<Rightarrow> 'c ristrettoCacheAdapter \<Rightarrow> ('c, 't) LimitedCache" where
  "newEntityAdapter js sharedAdapter = \<lparr> lc_Set = entity_Set sharedAdapter js,
     lc_Get = entity_Get sharedAdapter js, lc_Del = entity_Del sharedAdapter \<rparr>"

subsection \<open>Resource caches\<close>

record ('c, 't) ResourceCache =
  rc_Kind :: string
  rc_Cache :: "('c, 't) LimitedCache"

text \<open>\<open>kind\<close> is the name of the entity's Go type.\<close>

definition NewResourceCache :: "string \<Rightarrow> ('c, 't) LimitedCache \<Rightarrow> ('c, 't) ResourceCache" where
  "NewResourceCache kind cache = \<lparr> rc_Kind = kind, rc_Cache = cache \<rparr>"

definition cache_Set :: "('t \<Rightarrow> Metadata) \<Rightarrow> ('c, 't) ResourceCache \<Rightarrow> 't \<Rightarrow> 'c \<Rightarrow> (go_error + bool) \<times> 'c" where
  "cache_Set GetMetadata cache resource c =
     (let metadata = GetMetadata resource;
          (ok, c') = lc_Set (rc_Cache cache) (rc_Kind cache) (md_Namespace metadata) (md_Name metadata) resource c
      in if \<not> ok
         then (Inl (Errorf (''failed to place '' @ rc_Kind cache @ ''/'' @ md_Namespace metadata @ ''/''
                 @ md_Name metadata @ '' into cache'') []), c')
         else (Inr True, c'))"

definition cache_Delete :: "('c, 't) ResourceCache \<Rightarrow> string \<Rightarrow> string \<Rightarrow> 'c \<Rightarrow> 'c" where
  "cache_Delete cache namespace name c = lc_Del (rc_Cache cache) (rc_Kind cache) namespace name c"

definition cache_Get :: "('c, 't) ResourceCache \<Rightarrow> string \<Rightarrow> string \<Rightarrow> 'c \<Rightarrow> 't option" where
  "cache_Get cache namespace name c = lc_Get (rc_Cache cache) (rc_Kind cache) namespace name c"

subsection \<open>The contract of a lossy cache\<close>

text \<open>
  The cache may lose any entry at any time, but an entry it has is the last one stored under its
  key. \<open>stored a v\<close> is the form in which the cache gives \<open>v\<close> back, \<open>ok_key\<close> the keys that
  have representations of their own.
\<close>

locale limited_cache =
  fixes set :: "'k \<Rightarrow> 't \<Rightarrow> 'a \<Rightarrow> bool \<times> 'a"
    and get :: "'k \<Rightarrow> 'a \<Rightarrow> 't option"
    and del :: "'k \<Rightarrow> 'a \<Rightarrow> 'a"
    and stored :: "'a \<Rightarrow> 't \<Rightarrow> 't"
    and ok_key :: "'k \<Rightarrow> bool"
    and invar :: "'a \<Rightarrow> bool"
  assumes set_invar: "invar a \<Longrightarrow> set k v a = (ok, a') \<Longrightarrow> invar a' \<and> stored a' = stored a"
    and del_invar: "invar a \<Longrightarrow> invar (del k a) \<and> stored (del k a) = stored a"
    and get_set_same: "invar a \<Longrightarrow> set k v a = (ok, a') \<Longrightarrow>
      get k a' = None \<or> get k a' = (if ok then Some (stored a v) else get k a)"
    and get_set_other: "invar a \<Longrightarrow> ok_key k \<Longrightarrow> ok_key k' \<Longrightarrow> k' \<noteq> k \<Longrightarrow> set k v a = (ok, a') \<Longrightarrow>
      get k' a' = None \<or> get k' a' = get k' a"
    and get_del_same: "invar a \<Longrightarrow> get k (del k a) = None"
    and get_del_other: "invar a \<Longrightarrow> ok_key k \<Longrightarrow> ok_key k' \<Longrightarrow> k' \<noteq> k \<Longrightarrow>
      get k' (del k a) = None \<or> get k' (del k a) = get k' a"
begin

definition agrees :: "'a \<Rightarrow> ('k \<Rightarrow> 't option) \<Rightarrow> bool" where
  "agrees a m \<longleftrightarrow> invar a \<and> (\<forall>k. ok_key k \<longrightarrow> get k a = None \<or> get k a = map_option (stored a) (m k))"

lemma agrees_set_ok:
  assumes "agrees a m" and "ok_key k" and "set k v a = (True, a')"
  shows "agrees a' (m(k \<mapsto> v))"
  unfolding agrees_def
proof (intro conjI allI impI)
  from assms show "invar a'" by (auto simp: agrees_def dest: set_invar)
next
  fix k'
  assume k': "ok_key k'"
  from assms have s: "stored a' = stored a" and i: "invar a" by (auto simp: agrees_def dest: set_invar)
  show "get k' a' = None \<or> get k' a' = map_option (stored a') ((m(k \<mapsto> v)) k')"
  proof (cases "k' = k")
    case True
    with get_set_same [OF i assms(3)] s show ?thesis by simp
  next
    case False
    with get_set_other [OF i assms(2) k' False assms(3)] s assms(1) k' show ?thesis
      by (auto simp: agrees_def)
  qed
qed

lemma agrees_set_failed:
  assumes "agrees a m" and "ok_key k" and "set k v a = (False, a')"
  shows "agrees a' m"
  unfolding agrees_def
proof (intro conjI allI impI)
  from assms show "invar a'" by (auto simp: agrees_def dest: set_invar)
next
  fix k'
  assume k': "ok_key k'"
  from assms have s: "stored a' = stored a" and i: "invar a" by (auto simp: agrees_def dest: set_invar)
  have "get k' a' = None \<or> get k' a' = get k' a"
    using get_set_same [OF i assms(3)] get_set_other [OF i assms(2) k' _ assms(3)]
    by (cases "k' = k") auto
  with s assms(1) k' show "get k' a' = None \<or> get k' a' = map_option (stored a') (m k')"
    by (auto simp: agrees_def)
qed

lemma agrees_del:
  assumes "agrees a m" and "ok_key k"
  shows "agrees (del k a) (m(k := None))"
  unfolding agrees_def
proof (intro conjI allI impI)
  from assms show "invar (del k a)" by (auto simp: agrees_def dest: del_invar)
next
  fix k'
  assume k': "ok_key k'"
  from assms have s: "stored (del k a) = stored a" and i: "invar a"
    by (auto simp: agrees_def dest: del_invar)
  show "get k' (del k a) = None \<or> get k' (del k a) = map_option (stored (del k a)) ((m(k := None)) k')"
  proof (cases "k' = k")
    case True
    with get_del_same [OF i] show ?thesis by simp
  next
    case False
    with get_del_other [OF i assms(2) k' False] s assms(1) k' show ?thesis
      by (auto simp: agrees_def)
  qed
qed

text \<open>A value that is missing is no obstacle: the cache may simply not have it.\<close>

lemma agrees_insert_missing:
  assumes "agrees a m" and "m k = None"
  shows "agrees a (m(k \<mapsto> v))"
  using assms by (auto simp: agrees_def)

lemma agrees_replace:
  assumes "agrees a m" and "ok_key k" and "set k v (del k a) = (ok, a')"
  shows "agrees a' (m(k \<mapsto> v))"
proof (cases ok)
  case True
  with agrees_set_ok [OF agrees_del [OF assms(1,2)] assms(2)] assms(3) show ?thesis by simp
next
  case False
  with agrees_set_failed [OF agrees_del [OF assms(1,2)] assms(2)] assms(3)
  have "agrees a' (m(k := None))" by simp
  from agrees_insert_missing [OF this, of k v] show ?thesis by simp
qed

text \<open>Adding a value whose key the cache's source did not have before.\<close>

lemma agrees_add_new:
  assumes "agrees a m" and "ok_key k" and "m k = None" and "set k v a = (ok, a')"
  shows "agrees a' (m(k \<mapsto> v))"
proof (cases ok)
  case True
  with assms show ?thesis by (simp add: agrees_set_ok)
next
  case False
  with assms have "agrees a' m" by (simp add: agrees_set_failed)
  with assms(3) show ?thesis by (simp add: agrees_insert_missing)
qed

lemma agrees_get: "agrees a m \<Longrightarrow> ok_key k \<Longrightarrow> get k a = Some v \<Longrightarrow> \<exists>w. m k = Some w \<and> v = stored a w"
  unfolding agrees_def by (metis map_option_eq_Some option.distinct(1))

end

subsection \<open>The model's cache keeps the contract\<close>

text \<open>Kinds and namespaces hold no slash, so the text of a key determines the key.\<close>

definition ok_cacheKey :: "cacheKey \<Rightarrow> bool" where
  "ok_cacheKey k \<longleftrightarrow> CHR ''/'' \<notin> set (ck_kind k) \<and> CHR ''/'' \<notin> set (ck_namespace k)"

lemma append_sep_inject:
  "c \<notin> set a \<Longrightarrow> c \<notin> set b \<Longrightarrow> a @ c # s = b @ c # t \<longleftrightarrow> a = b \<and> s = t"
proof (induction a arbitrary: b)
  case Nil
  then show ?case by (cases b) auto
next
  case (Cons x xs)
  then show ?case by (cases b) auto
qed

lemma key_String_inject:
  "ok_cacheKey k \<Longrightarrow> ok_cacheKey k' \<Longrightarrow> key_String k = key_String k' \<longleftrightarrow> k = k'"
  by (cases k; cases k') (auto simp: key_String_def ok_cacheKey_def append_sep_inject)

text \<open>The entity cache with what it is made of: library, decoder and content.\<close>

type_synonym ('c, 't) cache_parts = "'c ristrettoCacheAdapter \<times> 't json \<times> 'c"

definition parts_Set :: "cacheKey \<Rightarrow> 't \<Rightarrow> ('c, 't) cache_parts \<Rightarrow> bool \<times> ('c, 't) cache_parts" where
  "parts_Set k v a = (case a of (ad, js, c) \<Rightarrow>
     (case entity_Set ad js (ck_kind k) (ck_namespace k) (ck_name k) v c of (ok, c') \<Rightarrow> (ok, ad, js, c')))"

definition parts_Get :: "cacheKey \<Rightarrow> ('c, 't) cache_parts \<Rightarrow> 't option" where
  "parts_Get k a = (case a of (ad, js, c) \<Rightarrow>
     entity_Get ad js (ck_kind k) (ck_namespace k) (ck_name k) c)"

definition parts_Del :: "cacheKey \<Rightarrow> ('c, 't) cache_parts \<Rightarrow> ('c, 't) cache_parts" where
  "parts_Del k a = (case a of (ad, js, c) \<Rightarrow>
     (ad, js, entity_Del ad (ck_kind k) (ck_namespace k) (ck_name k) c))"

definition parts_stored :: "('c, 't) cache_parts \<Rightarrow> 't \<Rightarrow> 't" where
  "parts_stored a = (case a of (ad, js, c) \<Rightarrow> json_stored js)"

definition parts_invar :: "('c, 't) cache_parts \<Rightarrow> bool" where
  "parts_invar a = (case a of (ad, js, c) \<Rightarrow> ristretto_ok (ra_cache ad))"

lemmas parts_defs = parts_Set_def parts_Get_def parts_Del_def parts_stored_def parts_invar_def

lemma toCacheKey_eta [simp]: "toCacheKey (ck_kind k) (ck_namespace k) (ck_name k) = k"
  by (simp add: toCacheKey_def)

lemma ristretto_okD:
  assumes "ristretto_ok r"
  shows "SetWithTTL r k v cost ttl c = (ok, c') \<Longrightarrow>
      rGet r k c' = None \<or> rGet r k c' = (if ok then Some v else rGet r k c)"
    and "SetWithTTL r k v cost ttl c = (ok, c') \<Longrightarrow> k' \<noteq> k \<Longrightarrow>
      rGet r k' c' = None \<or> rGet r k' c' = rGet r k' c"
    and "rGet r k (Wait r c) = None \<or> rGet r k (Wait r c) = rGet r k c"
    and "rGet r k (rDel r k c) = None"
    and "k' \<noteq> k \<Longrightarrow> rGet r k' (rDel r k c) = None \<or> rGet r k' (rDel r k c) = rGet r k' c"
  using assms unfolding ristretto_ok_def by blast+

lemma shared_Set_same:
  assumes "ristretto_ok (ra_cache ad)" and "shared_Set ad kd ns nm v cost c = (ok, c')"
  shows "shared_Get ad kd ns nm c' = None
    \<or> shared_Get ad kd ns nm c' = (if ok then Some v else shared_Get ad kd ns nm c)"
proof -
  let ?k = "key_String (toCacheKey kd ns nm)"
  obtain ok1 c1 where s: "SetWithTTL (ra_cache ad) ?k v cost (ra_ttl ad) c = (ok1, c1)" by force
  from ristretto_okD(1) [OF assms(1) s] ristretto_okD(3) [OF assms(1), of ?k c1] s assms(2)
  show ?thesis
    by (auto simp: shared_Set_def shared_Get_def Let_def split: if_splits)
qed

lemma shared_Set_other:
  assumes "ristretto_ok (ra_cache ad)" and "shared_Set ad kd ns nm v cost c = (ok, c')"
    and "key_String (toCacheKey kd' ns' nm') \<noteq> key_String (toCacheKey kd ns nm)"
  shows "shared_Get ad kd' ns' nm' c' = None \<or> shared_Get ad kd' ns' nm' c' = shared_Get ad kd' ns' nm' c"
proof -
  let ?k = "key_String (toCacheKey kd ns nm)" and ?k' = "key_String (toCacheKey kd' ns' nm')"
  obtain ok1 c1 where s: "SetWithTTL (ra_cache ad) ?k v cost (ra_ttl ad) c = (ok1, c1)" by force
  from ristretto_okD(2) [OF assms(1) s assms(3)] ristretto_okD(3) [OF assms(1), of ?k' c1] s assms(2)
  show ?thesis
    by (auto simp: shared_Set_def shared_Get_def Let_def split: if_splits)
qed

interpretation entity_cache: limited_cache parts_Set parts_Get parts_Del parts_stored ok_cacheKey parts_invar
proof (unfold_locales, goal_cases)
  case (1 a k v ok a')
  then show ?case by (auto simp: parts_defs split: prod.splits)
next
  case (2 a k)
  then show ?case by (auto simp: parts_defs split: prod.splits)
next
  case (3 a k v ok a')
  obtain ad js c where a: "a = (ad, js, c)" by (cases a)
  with 3 obtain c' where a': "a' = (ad, js, c')"
    and s: "entity_Set ad js (ck_kind k) (ck_namespace k) (ck_name k) v c = (ok, c')"
    and r: "ristretto_ok (ra_cache ad)"
    by (auto simp: parts_defs split: prod.splits)
  show ?case
  proof (cases "Marshal js v")
    case (Inl e)
    with s show ?thesis by (auto simp: a a' entity_Set_def)
  next
    case (Inr b)
    then show ?thesis
      using s shared_Set_same [OF r, of "ck_kind k" "ck_namespace k" "ck_name k" b _ c ok c']
      by (auto simp: a a' entity_Set_def parts_defs entity_Get_def json_stored_def Let_def
          split: if_splits option.splits)
  qed
next
  case (4 a k k' v ok a')
  obtain ad js c where a: "a = (ad, js, c)" by (cases a)
  with 4 obtain c' where a': "a' = (ad, js, c')"
    and s: "entity_Set ad js (ck_kind k) (ck_namespace k) (ck_name k) v c = (ok, c')"
    and r: "ristretto_ok (ra_cache ad)"
    by (auto simp: parts_defs split: prod.splits)
  from 4 have n: "key_String k' \<noteq> key_String k" by (simp add: key_String_inject)
  have "shared_Get ad (ck_kind k') (ck_namespace k') (ck_name k') c' = None
      \<or> shared_Get ad (ck_kind k') (ck_namespace k') (ck_name k') c' =
         shared_Get ad (ck_kind k') (ck_namespace k') (ck_name k') c"
  proof (cases "c' = c")
    case False
    with s obtain b where
      "shared_Set ad (ck_kind k) (ck_namespace k) (ck_name k) b (int (length b) + 16) c = (ok, c')"
      by (auto simp: entity_Set_def Let_def split: sum.splits if_splits)
    from shared_Set_other [OF r this] n show ?thesis by simp
  qed simp
  then show ?case
    by (elim disjE) (simp_all add: a a' parts_Get_def entity_Get_def)
next
  case (5 a k)
  then show ?case
    by (auto simp: parts_defs entity_Get_def entity_Del_def shared_Get_def shared_Del_def Let_def
        ristretto_okD(4) split: prod.splits)
next
  case (6 a k k')
  obtain ad js c where a: "a = (ad, js, c)" by (cases a)
  from 6 have "key_String k' \<noteq> key_String k" by (simp add: key_String_inject)
  with 6 a ristretto_okD(5) [of "ra_cache ad" "key_String k'" "key_String k" c] show ?case
    by (auto simp: parts_defs entity_Get_def entity_Del_def shared_Get_def shared_Del_def Let_def
        split: option.splits)
qed

end
