(* ===== verification/Core_Entities.thy ===== *)
theory Core_Entities
  imports Meta_Data
begin

section \<open>The small entities\<close>

text \<open>
  \<open>configmap.go\<close>, \<open>secret.go\<close>, \<open>service.go\<close>, \<open>serviceaccount.go\<close>, \<open>namespace.go\<close>,
  \<open>deploymentfamilyversion.go\<close>, \<open>replicaSet.go\<close>, \<open>rolloutedpod.go\<close>, \<open>deploymentRollout.go\<close>,
  \<open>httproute.go\<close> and \<open>grpcroute.go\<close> of package \<open>entity\<close>. The records named \<open>v1_\<dots>\<close> are the fields
  of the API types that the conversions use.
\<close>

type_synonym bytes = "string option"

subsection \<open>ConfigMap\<close>

record v1_ConfigMap =
  vcm_Meta :: ObjectMeta
  vcm_Data :: "string gomap"

record ConfigMap =
  cm_Metadata :: Metadata
  cm_Data :: "string gomap"

definition NewConfigMap :: "v1_ConfigMap \<Rightarrow> ConfigMap" where
  "NewConfigMap c = \<lparr> cm_Metadata = FromObjectMeta ''ConfigMap'' (vcm_Meta c), cm_Data = vcm_Data c \<rparr>"

definition ToConfigMap :: "ConfigMap \<Rightarrow> v1_ConfigMap" where
  "ToConfigMap m = \<lparr> vcm_Meta = ToObjectMeta (cm_Metadata m), vcm_Data = cm_Data m \<rparr>"

fun NewConfigMapList :: "v1_ConfigMap list \<Rightarrow> ConfigMap list" where
  "NewConfigMapList [] = []"
| "NewConfigMapList (c # cs) = NewConfigMap c # NewConfigMapList cs"

interpretation cm_codec: kube_codec "''ConfigMap''" NewConfigMap vcm_Meta cm_Metadata ToConfigMap
  by unfold_locales (auto simp: NewConfigMap_def ToConfigMap_def)

subsection \<open>Secret\<close>

record v1_Secret =
  vsec_Meta :: ObjectMeta
  vsec_Data :: "bytes gomap"
  vsec_Type :: string

record Secret =
  sec_Metadata :: Metadata
  sec_Data :: "bytes gomap"
  sec_Type :: string

definition NewSecret :: "v1_Secret \<Rightarrow> Secret" where
  "NewSecret s = \<lparr> sec_Metadata = FromObjectMeta ''Secret'' (vsec_Meta s),
     sec_Data = vsec_Data s, sec_Type = vsec_Type s \<rparr>"

fun NewSecretList :: "v1_Secret list \<Rightarrow> Secret list" where
  "NewSecretList [] = []"
| "NewSecretList (s # ss) = NewSecret s # NewSecretList ss"

definition ToSecret :: "Secret \<Rightarrow> v1_Secret" where
  "ToSecret s = \<lparr> vsec_Meta = ToObjectMeta (sec_Metadata s), vsec_Data = sec_Data s,
     vsec_Type = sec_Type s \<rparr>"

interpretation sec_codec: kube_codec "''Secret''" NewSecret vsec_Meta sec_Metadata ToSecret
  by unfold_locales (auto simp: NewSecret_def ToSecret_def)

subsection \<open>Service\<close>

text \<open>\<open>intstr.IntOrString\<close>: the code reads its integer and writes integers only.\<close>

record IntOrString =
  ios_IsInt :: bool
  ios_IntVal :: int
  ios_StrVal :: string

definition IntTarget :: "int \<Rightarrow> IntOrString" where
  "IntTarget i = \<lparr> ios_IsInt = True, ios_IntVal = i, ios_StrVal = [] \<rparr>"

record v1_ServicePort =
  vsp_Name :: string
  vsp_Protocol :: string
  vsp_Port :: int
  vsp_TargetPort :: IntOrString
  vsp_NodePort :: int

record v1_Service =
  vsvc_Meta :: ObjectMeta
  vsvc_Ports :: "v1_ServicePort list"
  vsvc_Selector :: "string gomap"
  vsvc_ClusterIP :: string
  vsvc_Type :: string

record Port =
  pt_Name :: string
  pt_Protocol :: string
  pt_Port :: int
  pt_TargetPort :: int
  pt_NodePort :: int

record ServiceSpec =
  ss_Ports :: "Port list"
  ss_Selector :: "string gomap"
  ss_ClusterIP :: string
  ss_Type :: string

record Service =
  svc_Metadata :: Metadata
  svc_Spec :: ServiceSpec

definition NewServicePort :: "v1_ServicePort \<Rightarrow> Port" where
  "NewServicePort p =
     (let sp = \<lparr> pt_Name = vsp_Name p, pt_Protocol = vsp_Protocol p, pt_Port = vsp_Port p,
                 pt_TargetPort = ios_IntVal (vsp_TargetPort p), pt_NodePort = 0 \<rparr>
      in if vsp_NodePort p \<noteq> 0 then sp\<lparr>pt_NodePort := vsp_NodePort p\<rparr> else sp)"

definition NewService :: "v1_Service \<Rightarrow> Service" where
  "NewService s = \<lparr> svc_Metadata = FromObjectMeta ''Service'' (vsvc_Meta s),
     svc_Spec = \<lparr> ss_Ports = map NewServicePort (vsvc_Ports s), ss_Selector = vsvc_Selector s,
       ss_ClusterIP = vsvc_ClusterIP s, ss_Type = vsvc_Type s \<rparr> \<rparr>"

definition ToServicePort :: "Port \<Rightarrow> v1_ServicePort" where
  "ToServicePort p =
     (let sp = \<lparr> vsp_Name = pt_Name p, vsp_Protocol = pt_Protocol p, vsp_Port = pt_Port p,
                 vsp_TargetPort = IntTarget (pt_TargetPort p), vsp_NodePort = 0 \<rparr>
      in if pt_NodePort p \<noteq> 0 then sp\<lparr>vsp_NodePort := pt_NodePort p\<rparr> else sp)"

definition ToService :: "Service \<Rightarrow> v1_Service" where
  "ToService s = \<lparr> vsvc_Meta = ToObjectMeta (svc_Metadata s),
     vsvc_Ports = map ToServicePort (ss_Ports (svc_Spec s)), vsvc_Selector = ss_Selector (svc_Spec s),
     vsvc_ClusterIP = ss_ClusterIP (svc_Spec s), vsvc_Type = ss_Type (svc_Spec s) \<rparr>"

fun NewServiceList :: "v1_Service list \<Rightarrow> Service list" where
  "NewServiceList [] = []"
| "NewServiceList (s # ss) = NewService s # NewServiceList ss"

lemma NewServicePort_ToServicePort [simp]: "NewServicePort (ToServicePort p) = p"
  by (simp add: NewServicePort_def ToServicePort_def IntTarget_def Let_def)

interpretation svc_codec: kube_codec "''Service''" NewService vsvc_Meta svc_Metadata ToService
  by unfold_locales (auto simp: NewService_def ToService_def comp_def)

subsection \<open>ServiceAccount\<close>

text \<open>\<open>v1.ObjectReference\<close>: the conversions keep the name and drop the other fields.\<close>

record v1_ObjectReference =
  vor_Name :: string
  vor_Rest :: "(string \<times> string) list"

record v1_ServiceAccount =
  vsa_Meta :: ObjectMeta
  vsa_Secrets :: "v1_ObjectReference list"

record SecretInfo =
  si_Name :: string

record ServiceAccount =
  sa_Metadata :: Metadata
  sa_Secrets :: "SecretInfo list"

definition NewServiceAccount :: "v1_ServiceAccount \<Rightarrow> ServiceAccount" where
  "NewServiceAccount s = \<lparr> sa_Metadata = FromObjectMeta ''ServiceAccount'' (vsa_Meta s),
     sa_Secrets = map (\<lambda>d. \<lparr> si_Name = vor_Name d \<rparr>) (vsa_Secrets s) \<rparr>"

definition ToServiceAccount :: "ServiceAccount \<Rightarrow> v1_ServiceAccount" where
  "ToServiceAccount s = \<lparr> vsa_Meta = ToObjectMeta (sa_Metadata s),
     vsa_Secrets = map (\<lambda>d. \<lparr> vor_Name = si_Name d, vor_Rest = [] \<rparr>) (sa_Secrets s) \<rparr>"

fun NewServiceAccountList :: "v1_ServiceAccount list \<Rightarrow> ServiceAccount list" where
  "NewServiceAccountList [] = []"
| "NewServiceAccountList (s # ss) = NewServiceAccount s # NewServiceAccountList ss"

lemma SecretInfo_rebuild [simp]: "map (\<lambda>x. \<lparr> si_Name = si_Name x \<rparr>) (xs :: SecretInfo list) = xs"
  by (induction xs) simp_all

interpretation sa_codec:
  kube_codec "''ServiceAccount''" NewServiceAccount vsa_Meta sa_Metadata ToServiceAccount
  by unfold_locales (auto simp: NewServiceAccount_def ToServiceAccount_def comp_def)

subsection \<open>Namespace\<close>

record Namespace =
  ns_Metadata :: Metadata

text \<open>A core namespace and an OpenShift project are used through their metadata only.\<close>

definition NewNamespace :: "ObjectMeta \<Rightarrow> Namespace" where
  "NewNamespace m =
     \<lparr> ns_Metadata = (FromObjectMeta ''Namespace'' m)\<lparr>md_Namespace := om_Name m\<rparr> \<rparr>"

definition NewNamespaceFromOsProject :: "ObjectMeta \<Rightarrow> Namespace" where
  "NewNamespaceFromOsProject m =
     \<lparr> ns_Metadata = (FromObjectMeta ''Namespace'' m)\<lparr>md_Namespace := om_Name m\<rparr> \<rparr>"

definition NewNamespaceFromInterface :: "jany \<Rightarrow> Namespace run" where
  "NewNamespaceFromInterface object =
     bind_run (as_map object) (\<lambda>o'.
     bind_run (NewMetadataFromInterface ''Namespace'' (jget o' ''metadata'')) (\<lambda>m.
       Ret \<lparr> ns_Metadata = m\<lparr>md_Namespace := md_Name m\<rparr> \<rparr>))"

subsection \<open>HTTPRoute and GRPCRoute wrappers\<close>

text \<open>
  The wrappers embed a pointer to the API object; \<open>'o\<close> is the API type, \<open>kind_of\<close> and \<open>meta_of\<close>
  its \<open>Kind\<close> and \<open>ObjectMeta\<close> fields. A wrapper decoded from the cache may hold nil.
\<close>

datatype 'o route_wrapper = RouteWrapper (wrapped: "'o option")

definition WrapHTTPRoute :: "'o \<Rightarrow> 'o route_wrapper" where
  "WrapHTTPRoute r = RouteWrapper (Some r)"

definition RouteFromGRPCRoute :: "'o \<Rightarrow> 'o route_wrapper" where
  "RouteFromGRPCRoute r = RouteWrapper (Some r)"

definition HttpRoute_GetMetadata ::
  "('o \<Rightarrow> string) \<Rightarrow> ('o \<Rightarrow> ObjectMeta) \<Rightarrow> 'o route_wrapper \<Rightarrow> Metadata run" where
  "HttpRoute_GetMetadata kind_of meta_of r =
     (case wrapped r of None \<Rightarrow> Panic | Some o' \<Rightarrow> Ret (FromObjectMeta (kind_of o') (meta_of o')))"

subsection \<open>Deployment family versions\<close>

record DeploymentFamilyVersion =
  dfv_AppName :: string
  dfv_AppVersion :: string
  dfv_Name :: string
  dfv_FamilyName :: string
  dfv_BlueGreenVersion :: string
  dfv_Version :: string
  dfv_State :: string

definition DeploymentToDeploymentFamilyVersion :: "string gomap \<Rightarrow> DeploymentFamilyVersion" where
  "DeploymentToDeploymentFamilyVersion labels = \<lparr>
     dfv_AppName = gm_str labels ''app_name'',
     dfv_AppVersion = gm_str labels ''app_version'',
     dfv_Name = gm_str labels ''name'',
     dfv_FamilyName = gm_str labels ''family_name'',
     dfv_BlueGreenVersion = gm_str labels ''bluegreen_version'',
     dfv_Version = gm_str labels ''version'',
     dfv_State = gm_str labels ''state'' \<rparr>"

subsection \<open>Replica sets\<close>

text \<open>\<open>apps/v1\<close> and \<open>extensions/v1beta1\<close> replica sets: name, annotations and status.\<close>

record v1_ReplicaSet =
  vrs_Name :: string
  vrs_Annotations :: "string gomap"
  vrs_StatusReplicas :: int

record ReplicaSet =
  rs_Name :: string
  rs_CurrentVersion :: string
  rs_Replicas :: int
  rs_DesiredReplicas :: string

definition NewReplicaSet :: "string \<Rightarrow> string \<Rightarrow> int \<Rightarrow> string \<Rightarrow> ReplicaSet" where
  "NewReplicaSet name currentVersion replicas desiredReplicas = \<lparr> rs_Name = name,
     rs_CurrentVersion = currentVersion, rs_Replicas = replicas, rs_DesiredReplicas = desiredReplicas \<rparr>"

definition TransformationReplicaSetExtension :: "v1_ReplicaSet \<Rightarrow> ReplicaSet" where
  "TransformationReplicaSetExtension r = NewReplicaSet (vrs_Name r)
     (gm_str (vrs_Annotations r) ''deployment.kubernetes.io/revision'') (vrs_StatusReplicas r)
     (gm_str (vrs_Annotations r) ''deployment.kubernetes.io/desired-replicas'')"

definition TransformationReplicaSetApp :: "v1_ReplicaSet \<Rightarrow> ReplicaSet" where
  "TransformationReplicaSetApp r = NewReplicaSet (vrs_Name r)
     (gm_str (vrs_Annotations r) ''deployment.kubernetes.io/revision'') (vrs_StatusReplicas r)
     (gm_str (vrs_Annotations r) ''deployment.kubernetes.io/desired-replicas'')"

fun TransformationReplicaSetListExtension :: "v1_ReplicaSet list \<Rightarrow> ReplicaSet list" where
  "TransformationReplicaSetListExtension [] = []"
| "TransformationReplicaSetListExtension (r # rs) =
     TransformationReplicaSetExtension r # TransformationReplicaSetListExtension rs"

fun TransformationReplicaSetListApp :: "v1_ReplicaSet list \<Rightarrow> ReplicaSet list" where
  "TransformationReplicaSetListApp [] = []"
| "TransformationReplicaSetListApp (r # rs) =
     TransformationReplicaSetApp r # TransformationReplicaSetListApp rs"

subsection \<open>Rollouts\<close>

record DeploymentRollout =
  dr_Name :: string
  dr_Kind :: string
  dr_Active :: string
  dr_Rolling :: string

record DeploymentResponse =
  drs_Deployments :: "DeploymentRollout list"

fun NewDeploymentResponse_loop :: "DeploymentRollout option list \<Rightarrow> DeploymentRollout list" where
  "NewDeploymentResponse_loop [] = []"
| "NewDeploymentResponse_loop (d # ds) =
     (case d of None \<Rightarrow> NewDeploymentResponse_loop ds | Some d' \<Rightarrow> d' # NewDeploymentResponse_loop ds)"

definition NewDeploymentResponse :: "DeploymentRollout option list \<Rightarrow> DeploymentResponse" where
  "NewDeploymentResponse ds = \<lparr> drs_Deployments = NewDeploymentResponse_loop ds \<rparr>"

definition NewDeploymentRolloutResponseObj :: "string \<Rightarrow> string \<Rightarrow> string \<Rightarrow> DeploymentRollout" where
  "NewDeploymentRolloutResponseObj deploymentName rollingName activeName = \<lparr> dr_Name = deploymentName,
     dr_Kind = ''ReplicaSet'', dr_Active = activeName, dr_Rolling = rollingName \<rparr>"

definition NewDeploymentConfigRolloutResponseObj :: "string \<Rightarrow> string \<Rightarrow> string \<Rightarrow> DeploymentRollout" where
  "NewDeploymentConfigRolloutResponseObj name rollingName activeName = \<lparr> dr_Name = name,
     dr_Kind = ''ReplicationController'', dr_Active = activeName, dr_Rolling = rollingName \<rparr>"

subsection \<open>Facts about the list conversions\<close>

lemma list_conversions_map:
  "NewConfigMapList cs = map NewConfigMap cs"
  "NewSecretList ss = map NewSecret ss"
  "NewServiceList vs = map NewService vs"
  "NewServiceAccountList as = map NewServiceAccount as"
  "TransformationReplicaSetListExtension rs = map TransformationReplicaSetExtension rs"
  "TransformationReplicaSetListApp rs = map TransformationReplicaSetApp rs"
  subgoal by (induction cs) simp_all
  subgoal by (induction ss) simp_all
  subgoal by (induction vs) simp_all
  subgoal by (induction as) simp_all
  subgoal by (induction rs) simp_all
  subgoal by (induction rs) simp_all
  done

lemma NewDeploymentResponse_map_filter: "NewDeploymentResponse_loop ds = List.map_filter id ds"
  by (induction ds) (auto simp: map_filter_simps split: option.splits)

lemma TransformationReplicaSet_eq: "TransformationReplicaSetExtension = TransformationReplicaSetApp"
  by (simp add: fun_eq_iff TransformationReplicaSetExtension_def TransformationReplicaSetApp_def)

end
