(* ===== verification/Go_Time.thy ===== *)
theory Go_Time
  imports Go_Base
begin

section \<open>Times\<close>

text \<open>
  The part of Go's \<open>time.Time\<close> (and of \<open>metav1.Time\<close>, which wraps it) that the conversions use:
  the zero test and the RFC 3339 format. A time is the seconds since the year 1 in UTC, the
  nanoseconds and the offset of its zone in seconds.
\<close>

record gotime =
  gt_sec :: int
  gt_nsec :: nat
  gt_off :: int

definition IsZero :: "gotime \<Rightarrow> bool" where
  "IsZero t \<longleftrightarrow> gt_sec t = 0 \<and> gt_nsec t = 0"

definition appendInt :: "int \<Rightarrow> nat \<Rightarrow> string" where
  "appendInt x width =
     (let ds = dec_of_nat (nat \<bar>x\<bar>)
      in (if x < 0 then ''-'' else []) @ replicate (width - length ds) (CHR ''0'') @ ds)"

text \<open>Year, month and day of a number of days since 1 January of the year 1.\<close>

definition civil_of_days :: "int \<Rightarrow> int \<times> int \<times> int" where
  "civil_of_days days =
     (let z = days + 306;
          era = z div 146097;
          doe = z mod 146097;
          yoe = (doe - doe div 1460 + doe div 36524 - doe div 146096) div 365;
          doy = doe - (365 * yoe + yoe div 4 - yoe div 100);
          mp = (5 * doy + 2) div 153;
          d = doy - (153 * mp + 2) div 5 + 1;
          m = (if mp < 10 then mp + 3 else mp - 9);
          y = yoe + era * 400 + (if m \<le> 2 then 1 else 0)
      in (y, m, d))"

definition Format_RFC3339 :: "gotime \<Rightarrow> string" where
  "Format_RFC3339 t =
     (let l = gt_sec t + gt_off t;
          (y, m, d) = civil_of_days (l div 86400);
          s = l mod 86400;
          zone = \<bar>gt_off t\<bar> div 60
      in appendInt y 4 @ ''-'' @ appendInt m 2 @ ''-'' @ appendInt d 2 @ ''T''
         @ appendInt (s div 3600) 2 @ '':'' @ appendInt (s mod 3600 div 60) 2 @ '':''
         @ appendInt (s mod 60) 2
         @ (if gt_off t = 0 then ''Z''
            else (if gt_off t div 60 < 0 then ''-'' else ''+'')
                 @ appendInt (zone div 60) 2 @ '':'' @ appendInt (zone mod 60) 2))"

text \<open>\<open>getFormattedTimeString\<close> of \<open>entity/deployment.go\<close>.\<close>

definition getFormattedTimeString :: "gotime option \<Rightarrow> string option" where
  "getFormattedTimeString t =
     (case t of None \<Rightarrow> None | Some t' \<Rightarrow> if IsZero t' then None else Some (Format_RFC3339 t'))"

lemma Format_epoch:
  "Format_RFC3339 \<lparr> gt_sec = 62135596800, gt_nsec = 0, gt_off = 0 \<rparr> = ''1970-01-01T00:00:00Z''"
  by code_simp

lemma Format_leap_day:
  "Format_RFC3339 \<lparr> gt_sec = 63844808399, gt_nsec = 5, gt_off = 12600 \<rparr>
     = ''2024-02-29T16:29:59+03:30''"
  by code_simp

lemma getFormattedTimeString_None_iff:
  "getFormattedTimeString t = None \<longleftrightarrow> (case t of None \<Rightarrow> True | Some t' \<Rightarrow> IsZero t')"
  by (simp add: getFormattedTimeString_def split: option.split)

end
