(* ===== verification/Certificate_Entity.thy ===== *)
theory Certificate_Entity
  imports Core_Entities Go_Time
begin

section \<open>Certificates\<close>

text \<open>
  \<open>entity/certificate.go\<close>: cert-manager certificates. The API types mirror the entity's; fields
  of the API types that the conversions do not touch are left out. A duration is a number of
  nanoseconds.
\<close>

subsection \<open>API types\<close>

record cm_SecretKeySelector =
  cmsk_Name :: string
  cmsk_Key :: string

record cm_Keystore =
  cmk_Create :: bool
  cmk_PasswordSecretRef :: cm_SecretKeySelector

record cm_CertificateKeystores =
  cmks_JKS :: "cm_Keystore option"
  cmks_PKCS12 :: "cm_Keystore option"

record cm_PrivateKey =
  cmpk_RotationPolicy :: string
  cmpk_Encoding :: string
  cmpk_Algorithm :: string
  cmpk_Size :: int

record cm_SecretTemplate =
  cmst_Annotations :: "string gomap"
  cmst_Labels :: "string gomap"

record cm_IssuerReference =
  cmir_Name :: string
  cmir_Kind :: string
  cmir_Group :: string

record cm_CertificateSpec =
  cmcs_SecretName :: string
  cmcs_CommonName :: string
  cmcs_DNSNames :: "string list"
  cmcs_IPAddresses :: "string list"
  cmcs_IsCA :: bool
  cmcs_Duration :: "int option"
  cmcs_RenewBefore :: "int option"
  cmcs_IssuerRef :: cm_IssuerReference
  cmcs_PrivateKey :: "cm_PrivateKey option"
  cmcs_Usages :: "string list"
  cmcs_Keystores :: "cm_CertificateKeystores option"
  cmcs_SecretTemplate :: "cm_SecretTemplate option"

record cm_CertificateCondition =
  cmcc_Type :: string
  cmcc_Status :: string
  cmcc_LastTransitionTime :: "gotime option"
  cmcc_Reason :: string
  cmcc_Message :: string
  cmcc_ObservedGeneration :: int

record cm_CertificateStatus =
  cmct_Conditions :: "cm_CertificateCondition list"
  cmct_LastFailureTime :: "gotime option"
  cmct_NotBefore :: "gotime option"
  cmct_NotAfter :: "gotime option"
  cmct_RenewalTime :: "gotime option"
  cmct_Revision :: "int option"
  cmct_NextPrivateKeySecretName :: "string option"
  cmct_FailedIssuanceAttempts :: "int option"

record cm_Certificate =
  cmc_Meta :: ObjectMeta
  cmc_Spec :: cm_CertificateSpec
  cmc_Status :: cm_CertificateStatus

subsection \<open>Entity types\<close>

record IssuerRef =
  ir_Name :: string
  ir_Kind :: string
  ir_Group :: string

record CertificatePrivateKey =
  cpk_RotationPolicy :: string
  cpk_Encoding :: string
  cpk_Algorithm :: string
  cpk_Size :: int

record SecretKeySelector =
  sks_Name :: string
  sks_Key :: string

record Keystore =
  ks_Create :: bool
  ks_PasswordSecretRef :: SecretKeySelector

record CertificateKeystores =
  ck_JKS :: "Keystore option"
  ck_PKCS12 :: "Keystore option"

record CertificateSecretTemplate =
  cst_Annotations :: "string gomap"
  cst_Labels :: "string gomap"

record CertificateSpec =
  cs_SecretName :: string
  cs_Duration :: "int option"
  cs_RenewBefore :: "int option"
  cs_CommonName :: string
  cs_DNSNames :: "string list"
  cs_IPAddresses :: "string list"
  cs_IssuerRef :: IssuerRef
  cs_IsCA :: bool
  cs_Usages :: "string list"
  cs_PrivateKey :: "CertificatePrivateKey option"
  cs_Keystores :: "CertificateKeystores option"
  cs_SecretTemplate :: "CertificateSecretTemplate option"

record CertificateCondition =
  cc_Type :: string
  cc_Status :: string
  cc_LastTransitionTime :: "gotime option"
  cc_Reason :: string
  cc_Message :: string
  cc_ObservedGeneration :: int

record CertificateStatus =
  ct_Conditions :: "CertificateCondition list"
  ct_LastFailureTime :: "gotime option"
  ct_NotBefore :: "gotime option"
  ct_NotAfter :: "gotime option"
  ct_RenewalTime :: "gotime option"
  ct_Revision :: "int option"
  ct_NextPrivateKeySecretName :: "string option"
  ct_FailedIssuanceAttempts :: "int option"

record Certificate =
  cert_Metadata :: Metadata
  cert_Spec :: CertificateSpec
  cert_Status :: CertificateStatus

subsection \<open>From the API\<close>

definition NewIssuerRef :: "cm_IssuerReference \<Rightarrow> IssuerRef" where
  "NewIssuerRef ir = \<lparr> ir_Name = cmir_Name ir, ir_Kind = cmir_Kind ir, ir_Group = cmir_Group ir \<rparr>"

fun NewKeyUsages :: "string list \<Rightarrow> string list" where
  "NewKeyUsages [] = []"
| "NewKeyUsages (u # us) = u # NewKeyUsages us"

definition keystore_of :: "cm_Keystore \<Rightarrow> Keystore" where
  "keystore_of k = \<lparr> ks_Create = cmk_Create k, ks_PasswordSecretRef =
     \<lparr> sks_Name = cmsk_Name (cmk_PasswordSecretRef k), sks_Key = cmsk_Key (cmk_PasswordSecretRef k) \<rparr> \<rparr>"

definition NewCertificateKeystores :: "cm_CertificateKeystores option \<Rightarrow> CertificateKeystores option" where
  "NewCertificateKeystores ck =
     (case ck of None \<Rightarrow> None
      | Some k \<Rightarrow> Some \<lparr> ck_JKS = map_option keystore_of (cmks_JKS k),
                        ck_PKCS12 = map_option keystore_of (cmks_PKCS12 k) \<rparr>)"

definition NewCertificateSecretTemplate ::
  "cm_SecretTemplate option \<Rightarrow> CertificateSecretTemplate option" where
  "NewCertificateSecretTemplate cst =
     (case cst of None \<Rightarrow> None
      | Some t \<Rightarrow> Some \<lparr> cst_Annotations = cmst_Annotations t, cst_Labels = cmst_Labels t \<rparr>)"

definition NewCertificateSpec :: "cm_CertificateSpec \<Rightarrow> CertificateSpec" where
  "NewCertificateSpec cs = \<lparr>
     cs_SecretName = cmcs_SecretName cs,
     cs_Duration = cmcs_Duration cs,
     cs_RenewBefore = cmcs_RenewBefore cs,
     cs_CommonName = cmcs_CommonName cs,
     cs_DNSNames = cmcs_DNSNames cs,
     cs_IPAddresses = cmcs_IPAddresses cs,
     cs_IssuerRef = NewIssuerRef (cmcs_IssuerRef cs),
     cs_IsCA = cmcs_IsCA cs,
     cs_Usages = NewKeyUsages (cmcs_Usages cs),
     cs_PrivateKey = (case cmcs_PrivateKey cs of None \<Rightarrow> None
       | Some k \<Rightarrow> Some \<lparr> cpk_RotationPolicy = cmpk_RotationPolicy k, cpk_Encoding = cmpk_Encoding k,
           cpk_Algorithm = cmpk_Algorithm k, cpk_Size = cmpk_Size k \<rparr>),
     cs_Keystores = NewCertificateKeystores (cmcs_Keystores cs),
     cs_SecretTemplate = NewCertificateSecretTemplate (cmcs_SecretTemplate cs) \<rparr>"

fun NewCertificateConditions :: "cm_CertificateCondition list \<Rightarrow> CertificateCondition list" where
  "NewCertificateConditions [] = []"
| "NewCertificateConditions (c # cs) =
     \<lparr> cc_Type = cmcc_Type c, cc_Status = cmcc_Status c,
       cc_LastTransitionTime = cmcc_LastTransitionTime c, cc_Reason = cmcc_Reason c,
       cc_Message = cmcc_Message c, cc_ObservedGeneration = cmcc_ObservedGeneration c \<rparr>
     # NewCertificateConditions cs"

definition NewCertificateStatus :: "cm_CertificateStatus \<Rightarrow> CertificateStatus" where
  "NewCertificateStatus cs = \<lparr>
     ct_Conditions = NewCertificateConditions (cmct_Conditions cs),
     ct_LastFailureTime = cmct_LastFailureTime cs,
     ct_NotBefore = cmct_NotBefore cs,
     ct_NotAfter = cmct_NotAfter cs,
     ct_RenewalTime = cmct_RenewalTime cs,
     ct_Revision = cmct_Revision cs,
     ct_NextPrivateKeySecretName = cmct_NextPrivateKeySecretName cs,
     ct_FailedIssuanceAttempts = cmct_FailedIssuanceAttempts cs \<rparr>"

definition NewCertificate :: "cm_Certificate \<Rightarrow> Certificate" where
  "NewCertificate c = \<lparr> cert_Metadata = FromObjectMeta ''Certificate'' (cmc_Meta c),
     cert_Spec = NewCertificateSpec (cmc_Spec c), cert_Status = NewCertificateStatus (cmc_Status c) \<rparr>"

fun NewCertificateList :: "cm_Certificate list \<Rightarrow> Certificate list" where
  "NewCertificateList [] = []"
| "NewCertificateList (c # cs) = NewCertificate c # NewCertificateList cs"

subsection \<open>To the API\<close>

definition ToIssuerRef :: "IssuerRef \<Rightarrow> cm_IssuerReference" where
  "ToIssuerRef ir = \<lparr> cmir_Name = ir_Name ir, cmir_Kind = ir_Kind ir, cmir_Group = ir_Group ir \<rparr>"

definition ToCertificatePrivateKey :: "CertificatePrivateKey \<Rightarrow> cm_PrivateKey" where
  "ToCertificatePrivateKey k = \<lparr> cmpk_RotationPolicy = cpk_RotationPolicy k,
     cmpk_Encoding = cpk_Encoding k, cmpk_Algorithm = cpk_Algorithm k, cmpk_Size = cpk_Size k \<rparr>"

definition to_keystore :: "Keystore \<Rightarrow> cm_Keystore" where
  "to_keystore k = \<lparr> cmk_Create = ks_Create k, cmk_PasswordSecretRef =
     \<lparr> cmsk_Name = sks_Name (ks_PasswordSecretRef k), cmsk_Key = sks_Key (ks_PasswordSecretRef k) \<rparr> \<rparr>"

definition ToCertificateKeystores :: "CertificateKeystores \<Rightarrow> cm_CertificateKeystores" where
  "ToCertificateKeystores ck = \<lparr> cmks_JKS = map_option to_keystore (ck_JKS ck),
     cmks_PKCS12 = map_option to_keystore (ck_PKCS12 ck) \<rparr>"

definition ToCertificateSpec :: "CertificateSpec \<Rightarrow> cm_CertificateSpec" where
  "ToCertificateSpec cs = \<lparr>
     cmcs_SecretName = cs_SecretName cs,
     cmcs_CommonName = cs_CommonName cs,
     cmcs_DNSNames = cs_DNSNames cs,
     cmcs_IPAddresses = cs_IPAddresses cs,
     cmcs_IsCA = cs_IsCA cs,
     cmcs_Duration = cs_Duration cs,
     cmcs_RenewBefore = cs_RenewBefore cs,
     cmcs_IssuerRef = ToIssuerRef (cs_IssuerRef cs),
     cmcs_PrivateKey = map_option ToCertificatePrivateKey (cs_PrivateKey cs),
     cmcs_Usages = NewKeyUsages (cs_Usages cs),
     cmcs_Keystores = map_option ToCertificateKeystores (cs_Keystores cs),
     cmcs_SecretTemplate = (case cs_SecretTemplate cs of None \<Rightarrow> None
       | Some t \<Rightarrow> Some \<lparr> cmst_Annotations = cst_Annotations t, cmst_Labels = cst_Labels t \<rparr>) \<rparr>"

fun to_conditions :: "CertificateCondition list \<Rightarrow> cm_CertificateCondition list" where
  "to_conditions [] = []"
| "to_conditions (c # cs) =
     \<lparr> cmcc_Type = cc_Type c, cmcc_Status = cc_Status c,
       cmcc_LastTransitionTime = cc_LastTransitionTime c, cmcc_Reason = cc_Reason c,
       cmcc_Message = cc_Message c, cmcc_ObservedGeneration = cc_ObservedGeneration c \<rparr>
     # to_conditions cs"

definition ToCertificateStatus :: "CertificateStatus \<Rightarrow> cm_CertificateStatus" where
  "ToCertificateStatus cs = \<lparr>
     cmct_Conditions = to_conditions (ct_Conditions cs),
     cmct_LastFailureTime = ct_LastFailureTime cs,
     cmct_NotBefore = ct_NotBefore cs,
     cmct_NotAfter = ct_NotAfter cs,
     cmct_RenewalTime = ct_RenewalTime cs,
     cmct_Revision = ct_Revision cs,
     cmct_NextPrivateKeySecretName = ct_NextPrivateKeySecretName cs,
     cmct_FailedIssuanceAttempts = ct_FailedIssuanceAttempts cs \<rparr>"

definition ToCertificate :: "Certificate \<Rightarrow> cm_Certificate" where
  "ToCertificate c = \<lparr> cmc_Meta = ToObjectMeta (cert_Metadata c),
     cmc_Spec = ToCertificateSpec (cert_Spec c), cmc_Status = ToCertificateStatus (cert_Status c) \<rparr>"

subsection \<open>Round trips\<close>

lemma NewKeyUsages_id [simp]: "NewKeyUsages us = us"
  by (induction us) auto

lemma keystore_of_to_keystore [simp]: "keystore_of (to_keystore k) = k"
  by (simp add: keystore_of_def to_keystore_def)

lemma keystore_round [simp]: "keystore_of \<circ> to_keystore = id"
  by (simp add: fun_eq_iff)

lemma NewCertificateKeystores_round [simp]:
  "NewCertificateKeystores (map_option ToCertificateKeystores ck) = ck"
  by (cases ck) (simp_all add: NewCertificateKeystores_def ToCertificateKeystores_def
      option.map_comp option.map_id)

lemma NewCertificateConditions_round [simp]: "NewCertificateConditions (to_conditions cs) = cs"
  by (induction cs) auto

lemma NewCertificateSpec_round: "NewCertificateSpec (ToCertificateSpec cs) = cs"
  by (simp add: NewCertificateSpec_def ToCertificateSpec_def NewIssuerRef_def ToIssuerRef_def
      NewCertificateSecretTemplate_def ToCertificatePrivateKey_def split: option.split)

lemma NewCertificateStatus_round: "NewCertificateStatus (ToCertificateStatus cs) = cs"
  by (simp add: NewCertificateStatus_def ToCertificateStatus_def)

interpretation cert_codec:
  kube_codec "''Certificate''" NewCertificate cmc_Meta cert_Metadata ToCertificate
  by unfold_locales
    (auto simp: NewCertificate_def ToCertificate_def NewCertificateSpec_round NewCertificateStatus_round)

end
