(* ===== verification/Go_Regexp.thy ===== *)
theory Go_Regexp
  imports Go_Base
begin

section \<open>Regular expressions\<close>

text \<open>
  The fragment of Go's package \<open>regexp\<close> that the library uses: character classes, literals,
  concatenation, alternation and bounded repetition. \<open>rest r s\<close> lists what can be left of \<open>s\<close>
  after a match of \<open>r\<close> at its start; it computes. \<open>lang r\<close> is the set of strings \<open>r\<close> matches.
\<close>

datatype regexp =
    Cls "char \<Rightarrow> bool"
  | Lit string
  | Cat regexp regexp
  | Alt regexp regexp
  | Rep nat nat regexp

fun reps :: "nat \<Rightarrow> nat \<Rightarrow> (string \<Rightarrow> string list) \<Rightarrow> string \<Rightarrow> string list" where
  "reps m 0 f s = (if m = 0 then [s] else [])"
| "reps m (Suc n) f s = concat (map (reps (m - 1) n f) (f s)) @ (if m = 0 then [s] else [])"

primrec rest :: "regexp \<Rightarrow> string \<Rightarrow> string list" where
  "rest (Cls P) s = (case s of [] \<Rightarrow> [] | c # t \<Rightarrow> if P c then [t] else [])"
| "rest (Lit l) s = (if prefix l s then [drop (length l) s] else [])"
| "rest (Cat a b) s = concat (map (rest b) (rest a s))"
| "rest (Alt a b) s = rest a s @ rest b s"
| "rest (Rep m n r) s = reps m n (rest r) s"

text \<open>\<open>MatchString\<close> for an expression between \<open>^\<close> and \<open>$\<close>.\<close>

definition full_match :: "regexp \<Rightarrow> string \<Rightarrow> bool" where
  "full_match r s = list_ex (\<lambda>t. t = []) (rest r s)"

primrec lang :: "regexp \<Rightarrow> string set" where
  "lang (Cls P) = {[c] | c. P c}"
| "lang (Lit l) = {l}"
| "lang (Cat a b) = {u @ v | u v. u \<in> lang a \<and> v \<in> lang b}"
| "lang (Alt a b) = lang a \<union> lang b"
| "lang (Rep m n r) = {concat us | us. m \<le> length us \<and> length us \<le> n \<and> set us \<subseteq> lang r}"

lemma reps_iff:
  assumes "\<And>s t. t \<in> set (f s) \<longleftrightarrow> (\<exists>u \<in> L. s = u @ t)"
  shows "m \<le> n \<Longrightarrow> t \<in> set (reps m n f s) \<longleftrightarrow>
    (\<exists>us. m \<le> length us \<and> length us \<le> n \<and> set us \<subseteq> L \<and> s = concat us @ t)"
proof (induction n arbitrary: m s t)
  case 0
  then show ?case by auto
next
  case (Suc n)
  have step: "t \<in> set (reps (m - 1) n f w) \<longleftrightarrow>
      (\<exists>us. m - 1 \<le> length us \<and> length us \<le> n \<and> set us \<subseteq> L \<and> w = concat us @ t)" for w
    using Suc.prems by (intro Suc.IH) simp
  have "t \<in> set (reps m (Suc n) f s) \<longleftrightarrow>
      (\<exists>w \<in> set (f s). t \<in> set (reps (m - 1) n f w)) \<or> (m = 0 \<and> s = t)"
    by auto
  also have "\<dots> \<longleftrightarrow>
      (\<exists>u \<in> L. \<exists>us. m - 1 \<le> length us \<and> length us \<le> n \<and> set us \<subseteq> L \<and> s = u @ concat us @ t)
      \<or> (m = 0 \<and> s = t)"
  proof -
    have "(\<exists>w \<in> set (f s). Q w) \<longleftrightarrow> (\<exists>u \<in> L. \<exists>w. s = u @ w \<and> Q w)" for Q
      using assms by blast
    then show ?thesis unfolding step by simp blast
  qed
  also have "\<dots> \<longleftrightarrow> (\<exists>us. m \<le> length us \<and> length us \<le> Suc n \<and> set us \<subseteq> L \<and> s = concat us @ t)"
    (is "?l \<longleftrightarrow> ?r")
  proof
    assume ?l
    then show ?r
    proof (elim disjE bexE exE conjE)
      fix u us
      assume "u \<in> L" "m - 1 \<le> length us" "length us \<le> n" "set us \<subseteq> L" "s = u @ concat us @ t"
      then show ?r by (intro exI [of _ "u # us"]) auto
    qed (auto intro: exI [of _ "[]"])
  next
    assume ?r
    then obtain us where us: "m \<le> length us" "length us \<le> Suc n" "set us \<subseteq> L" "s = concat us @ t"
      by blast
    show ?l
    proof (cases us)
      case Nil
      with us show ?thesis by simp
    next
      case (Cons u vs)
      with us have "u \<in> L" "m - 1 \<le> length vs" "length vs \<le> n" "set vs \<subseteq> L" "s = u @ concat vs @ t"
        by auto
      then show ?thesis by blast
    qed
  qed
  finally show ?case .
qed

fun ok_reps :: "regexp \<Rightarrow> bool" where
  "ok_reps (Cat a b) = (ok_reps a \<and> ok_reps b)"
| "ok_reps (Alt a b) = (ok_reps a \<and> ok_reps b)"
| "ok_reps (Rep m n r) = (m \<le> n \<and> ok_reps r)"
| "ok_reps _ = True"

lemma bex_Collect_app:
  "(\<exists>x \<in> {u @ v | u v. u \<in> A \<and> v \<in> B}. s = x @ t) \<longleftrightarrow> (\<exists>u \<in> A. \<exists>v \<in> B. s = u @ v @ t)"
  by (rule iffI; elim bexE CollectE exE conjE; hypsubst) (simp, blast, rule bexI [rotated], auto)

lemma bex_Collect_concat:
  "(\<exists>x \<in> {concat us | us. P us}. s = x @ t) \<longleftrightarrow> (\<exists>us. P us \<and> s = concat us @ t)"
  by (rule iffI; elim bexE CollectE exE conjE; hypsubst) (blast, rule bexI [rotated], auto)

lemma rest_iff: "ok_reps r \<Longrightarrow> t \<in> set (rest r s) \<longleftrightarrow> (\<exists>u \<in> lang r. s = u @ t)"
proof (induction r arbitrary: s t)
  case (Cls P)
  then show ?case by (auto split: list.splits)
next
  case (Lit l)
  then show ?case by (auto simp: prefix_def)
next
  case (Cat a b)
  then have a: "\<And>s t. t \<in> set (rest a s) \<longleftrightarrow> (\<exists>u \<in> lang a. s = u @ t)"
    and b: "\<And>s t. t \<in> set (rest b s) \<longleftrightarrow> (\<exists>u \<in> lang b. s = u @ t)" by simp_all
  have "t \<in> set (rest (Cat a b) s) \<longleftrightarrow> (\<exists>w. w \<in> set (rest a s) \<and> t \<in> set (rest b w))"
    by auto
  also have "\<dots> \<longleftrightarrow> (\<exists>u \<in> lang a. \<exists>v \<in> lang b. s = u @ v @ t)"
    unfolding a b by blast
  also have "\<dots> \<longleftrightarrow> (\<exists>x \<in> {u @ v | u v. u \<in> lang a \<and> v \<in> lang b}. s = x @ t)"
    by (rule bex_Collect_app [symmetric])
  finally show ?case by simp
next
  case (Alt a b)
  then show ?case by auto
next
  case (Rep m n r)
  then have r: "\<And>s t. t \<in> set (rest r s) \<longleftrightarrow> (\<exists>u \<in> lang r. s = u @ t)" and "m \<le> n"
    by simp_all
  from reps_iff [OF r this(2)]
  have "t \<in> set (rest (Rep m n r) s) \<longleftrightarrow> (\<exists>us. m \<le> length us \<and> length us \<le> n
     \<and> set us \<subseteq> lang r \<and> s = concat us @ t)" by simp
  also have "\<dots> \<longleftrightarrow> (\<exists>x \<in> {concat us | us. m \<le> length us \<and> length us \<le> n
     \<and> set us \<subseteq> lang r}. s = x @ t)"
    by (simp only: bex_Collect_concat) simp
  finally show ?case by simp
qed

text \<open>The matcher decides membership in the language.\<close>

lemma full_match_iff: "ok_reps r \<Longrightarrow> full_match r s \<longleftrightarrow> s \<in> lang r"
  by (simp add: full_match_def list_ex_iff rest_iff)

text \<open>
  \<open>FindString\<close> for one or more characters of a class: the leftmost, longest run.
\<close>

definition FindString_class :: "(char \<Rightarrow> bool) \<Rightarrow> string \<Rightarrow> string" where
  "FindString_class P s = takeWhile P (dropWhile (\<lambda>c. \<not> P c) s)"

end
