(* ===== verification/Gateway_Duration.thy ===== *)
theory Gateway_Duration
  imports Go_Regexp
begin

section \<open>Gateway API durations\<close>

text \<open>\<open>gatewayAPIDuration\<close> and \<open>IsValidGatewayAPIDuration\<close> of \<open>entity/route.go\<close>.\<close>

definition gatewayAPIDuration :: regexp where
  "gatewayAPIDuration =
     Rep 1 4 (Cat (Rep 1 5 (Cls is_digit)) (Alt (Lit ''h'') (Alt (Lit ''m'') (Alt (Lit ''s'') (Lit ''ms'')))))"

definition IsValidGatewayAPIDuration :: "string \<Rightarrow> bool" where
  "IsValidGatewayAPIDuration value = full_match gatewayAPIDuration value"

text \<open>One component of a duration: one to five digits and a unit.\<close>

definition duration_part :: "string \<Rightarrow> bool" where
  "duration_part p \<longleftrightarrow> (\<exists>ds u. p = ds @ u \<and> ds \<noteq> [] \<and> length ds \<le> 5 \<and> list_all is_digit ds
     \<and> u \<in> {''h'', ''m'', ''s'', ''ms''})"

lemma singletons_concat:
  "set us \<subseteq> {[c] | c. P c} \<Longrightarrow> length (concat us) = length us \<and> list_all P (concat us)"
  by (induction us) auto

lemma concat_singletons [simp]: "concat (map (\<lambda>c. [c]) ds) = ds"
  by (induction ds) auto

lemma lang_digits:
  "lang (Rep m n (Cls P)) = {ds. m \<le> length ds \<and> length ds \<le> n \<and> list_all P ds}"
proof (intro set_eqI iffI)
  fix ds
  assume "ds \<in> lang (Rep m n (Cls P))"
  then obtain us where us: "ds = concat us" "m \<le> length us" "length us \<le> n" "set us \<subseteq> {[c] | c. P c}"
    by (simp only: lang.simps mem_Collect_eq) blast
  from singletons_concat [OF us(4)] us(1-3)
  show "ds \<in> {ds. m \<le> length ds \<and> length ds \<le> n \<and> list_all P ds}" by simp
next
  fix ds
  assume "ds \<in> {ds. m \<le> length ds \<and> length ds \<le> n \<and> list_all P ds}"
  then have d: "m \<le> length (map (\<lambda>c. [c]) ds)" "length (map (\<lambda>c. [c]) ds) \<le> n" and "list_all P ds"
    by simp_all
  then have "set (map (\<lambda>c. [c]) ds) \<subseteq> {[c] | c. P c}"
    by (auto simp only: list_all_iff set_map)
  with d have "concat (map (\<lambda>c. [c]) ds) \<in> lang (Rep m n (Cls P))"
    by (simp only: lang.simps mem_Collect_eq) blast
  then show "ds \<in> lang (Rep m n (Cls P))" by (simp only: concat_singletons)
qed

lemma IsValid_iff:
  "IsValidGatewayAPIDuration s \<longleftrightarrow>
     (\<exists>ps. 1 \<le> length ps \<and> length ps \<le> 4 \<and> list_all duration_part ps \<and> s = concat ps)"
proof -
  let ?u = "Alt (Lit ''h'') (Alt (Lit ''m'') (Alt (Lit ''s'') (Lit ''ms'')))"
  have part: "lang (Cat (Rep 1 5 (Cls is_digit)) ?u) = Collect duration_part"
  proof -
    have u: "lang ?u = {''h'', ''m'', ''s'', ''ms''}" by auto
    have "1 \<le> length ds \<longleftrightarrow> ds \<noteq> []" for ds :: string by (cases ds) auto
    then show ?thesis
      unfolding lang.simps(3) lang_digits u duration_part_def by (intro Collect_cong) auto
  qed
  show ?thesis
    unfolding IsValidGatewayAPIDuration_def gatewayAPIDuration_def
    by (subst full_match_iff, simp)
      (simp only: lang.simps(5) part mem_Collect_eq list_all_iff subset_iff, blast)
qed

lemma takeWhile_digits_part:
  assumes "duration_part p"
  shows "length (takeWhile is_digit (p @ s)) \<le> 5"
proof -
  from assms obtain ds u where p: "p = ds @ u" "length ds \<le> 5" "list_all is_digit ds"
    and u: "u \<in> {''h'', ''m'', ''s'', ''ms''}"
    by (auto simp: duration_part_def)
  from u obtain c v where "u = c # v" and "c \<in> {CHR ''h'', CHR ''m'', CHR ''s''}"
    by (elim insertE emptyE) simp_all
  moreover from this(2) have "\<not> is_digit c"
    by (elim insertE emptyE) (simp_all add: is_digit_def)
  ultimately have "takeWhile is_digit (p @ s) = ds"
    using p by (simp add: takeWhile_append2 list_all_iff)
  with p show ?thesis by simp
qed

text \<open>A number of seconds is a valid duration exactly when it has at most five digits.\<close>

lemma IsValid_seconds:
  assumes "ds \<noteq> []" and "list_all is_digit ds"
  shows "IsValidGatewayAPIDuration (ds @ ''s'') \<longleftrightarrow> length ds \<le> 5"
proof
  assume "IsValidGatewayAPIDuration (ds @ ''s'')"
  then obtain ps where ps: "1 \<le> length ps" "list_all duration_part ps" "ds @ ''s'' = concat ps"
    by (auto simp: IsValid_iff)
  then obtain p qs where "ps = p # qs" by (cases ps) auto
  with ps have "length (takeWhile is_digit (ds @ ''s'')) \<le> 5"
    using takeWhile_digits_part [of p "concat qs"] by simp
  moreover have "takeWhile is_digit (ds @ ''s'') = ds"
    using assms(2) by (simp add: takeWhile_append2 list_all_iff is_digit_def)
  ultimately show "length ds \<le> 5" by simp
next
  assume "length ds \<le> 5"
  with assms have "duration_part (ds @ ''s'')" by (auto simp: duration_part_def)
  then show "IsValidGatewayAPIDuration (ds @ ''s'')"
    by (auto simp: IsValid_iff intro!: exI [of _ "[ds @ ''s'']"])
qed

lemma IsValid_dec_seconds: "IsValidGatewayAPIDuration (dec_of_nat n @ ''s'') \<longleftrightarrow> n < 100000"
proof -
  have "length (dec_of_nat n) \<le> 5 \<longleftrightarrow> n < 100000"
  proof (cases "n < 100000")
    case True
    then show ?thesis using length_dec_of_nat_le [of n 4] by simp
  next
    case False
    then show ?thesis using length_dec_of_nat_gt [of 5 n] by simp
  qed
  then show ?thesis by (simp add: IsValid_seconds dec_of_nat_digits)
qed

lemma not_IsValid_Nil [simp]: "\<not> IsValidGatewayAPIDuration []"
  by (auto simp: IsValidGatewayAPIDuration_def gatewayAPIDuration_def full_match_def numeral_eq_Suc)

end
