(* ===== verification/Route_Entity.thy ===== *)
theory Route_Entity
  imports Gateway_Duration Meta_Data
begin

section \<open>Routes\<close>

text \<open>
  \<open>entity/route.go\<close> and \<open>entity/router.go\<close>: the entity \<open>Route\<close> and its conversions from and to
  the five API objects that can stand behind it, namely the Ingress of \<open>extensions/v1beta1\<close>, the Ingress
  of \<open>networking.k8s.io/v1\<close>, the OpenShift Route, the Gateway API HTTPRoute and Envoy's
  BackendTrafficPolicy. The API records have the fields the conversions read or write.
\<close>

subsection \<open>Constants\<close>

definition AnnotationAffinity :: string where
  "AnnotationAffinity = ''nginx.ingress.kubernetes.io/affinity''"

definition AnnotationSessionCookieName :: string where
  "AnnotationSessionCookieName = ''nginx.ingress.kubernetes.io/session-cookie-name''"

definition AnnotationSessionCookieMaxAge :: string where
  "AnnotationSessionCookieMaxAge = ''nginx.ingress.kubernetes.io/session-cookie-max-age''"

definition AnnotationProxyReadTimeout :: string where
  "AnnotationProxyReadTimeout = ''nginx.ingress.kubernetes.io/proxy-read-timeout''"

definition AnnotationProxySendTimeout :: string where
  "AnnotationProxySendTimeout = ''nginx.ingress.kubernetes.io/proxy-send-timeout''"

definition AnnotationBackendProtocol :: string where
  "AnnotationBackendProtocol = ''nginx.ingress.kubernetes.io/backend-protocol''"

definition nginx_prefix :: string where
  "nginx_prefix = ''nginx.ingress.kubernetes.io/''"

definition BackendTrafficPolicyAPIVersion :: string where
  "BackendTrafficPolicyAPIVersion = ''gateway.envoyproxy.io/v1alpha1''"

definition BackendTrafficPolicyKind :: string where
  "BackendTrafficPolicyKind = ''BackendTrafficPolicy''"

definition ManagedByLabel :: string where
  "ManagedByLabel = ''app.kubernetes.io/managed-by''"

definition ManagedByPaasMediation :: string where
  "ManagedByPaasMediation = ''paas-mediation-client''"

subsection \<open>The entity\<close>

text \<open>An \<open>HTTPRouteFilter\<close> is passed on and never inspected; it is an untyped value here.\<close>

type_synonym HTTPRouteFilter = jany

record RouteSpec =
  rs_Host :: string
  rs_PathType :: string
  rs_Path :: string
  rs_Service :: string
  rs_Port :: int
  rs_IngressClassName :: "string option"
  rs_Filters :: "HTTPRouteFilter list"
  rs_StreamIdleTimeout :: string

record Route =
  rt_Metadata :: Metadata
  rt_Spec :: RouteSpec

definition zero_RouteSpec :: RouteSpec where
  "zero_RouteSpec = \<lparr> rs_Host = [], rs_PathType = [], rs_Path = [], rs_Service = [], rs_Port = 0,
     rs_IngressClassName = None, rs_Filters = [], rs_StreamIdleTimeout = [] \<rparr>"

subsection \<open>Ingresses\<close>

record v1beta1_Path =
  bp_Path :: string
  bp_ServiceName :: string
  bp_ServicePort :: int

text \<open>A rule's \<open>HTTP\<close> field is a pointer to the list of paths.\<close>

record v1beta1_Rule =
  br_Host :: string
  br_HTTP :: "v1beta1_Path list option"

record v1beta1_Ingress =
  bi_Meta :: ObjectMeta
  bi_Rules :: "v1beta1_Rule list"
  bi_IngressClassName :: "string option"

record net_Backend =
  nb_Name :: string
  nb_Port :: int

record net_Path =
  np_PathType :: "string option"
  np_Path :: string
  np_Service :: "net_Backend option"

record net_Rule =
  nr_Host :: string
  nr_HTTP :: "net_Path list option"

record net_Ingress =
  ni_Meta :: ObjectMeta
  ni_Rules :: "net_Rule list"
  ni_IngressClassName :: "string option"

definition ToIngress :: "Route \<Rightarrow> v1beta1_Ingress" where
  "ToIngress route =
     (let spec = rt_Spec route;
          port = (if rs_Port spec = 0 then 8080 else rs_Port spec)
      in \<lparr> bi_Meta = ToObjectMeta (rt_Metadata route),
           bi_Rules = [\<lparr> br_Host = rs_Host spec,
             br_HTTP = Some [\<lparr> bp_Path = rs_Path spec, bp_ServiceName = rs_Service spec,
               bp_ServicePort = port \<rparr>] \<rparr>],
           bi_IngressClassName = rs_IngressClassName spec \<rparr>)"

definition ToIngressNetworkingV1 :: "Route \<Rightarrow> net_Ingress" where
  "ToIngressNetworkingV1 route =
     (let spec = rt_Spec route;
          port = (if rs_Port spec = 0 then 8080 else rs_Port spec);
          pathType = (if rs_PathType spec = [] then ''Prefix'' else rs_PathType spec);
          path = (if rs_Path spec = [] then ''/'' else rs_Path spec)
      in \<lparr> ni_Meta = ToObjectMeta (rt_Metadata route),
           ni_Rules = [\<lparr> nr_Host = rs_Host spec,
             nr_HTTP = Some [\<lparr> np_PathType = Some pathType, np_Path = path,
               np_Service = Some \<lparr> nb_Name = rs_Service spec, nb_Port = port \<rparr> \<rparr>] \<rparr>],
           ni_IngressClassName = rs_IngressClassName spec \<rparr>)"

definition RouteFromIngress :: "v1beta1_Ingress \<Rightarrow> Route" where
  "RouteFromIngress ingress =
     \<lparr> rt_Metadata = FromObjectMeta ''Route'' (bi_Meta ingress),
       rt_Spec =
         (case bi_Rules ingress of
            [] \<Rightarrow> zero_RouteSpec
          | r # _ \<Rightarrow>
              (case br_HTTP r of
                 None \<Rightarrow> zero_RouteSpec
               | Some [] \<Rightarrow> zero_RouteSpec
               | Some (p # _) \<Rightarrow> zero_RouteSpec\<lparr>
                   rs_Service := bp_ServiceName p, rs_Port := bp_ServicePort p,
                   rs_Path := bp_Path p, rs_Host := br_Host r,
                   rs_IngressClassName := bi_IngressClassName ingress \<rparr>)) \<rparr>"

text \<open>
  A path without a service backend (a resource backend) or without a path type makes the
  conversion dereference nil.
\<close>

definition RouteFromIngressNetworkingV1 :: "net_Ingress \<Rightarrow> Route run" where
  "RouteFromIngressNetworkingV1 ingress =
     (let metadata = FromObjectMeta ''Route'' (ni_Meta ingress)
      in case ni_Rules ingress of
           [] \<Rightarrow> Ret \<lparr> rt_Metadata = metadata, rt_Spec = zero_RouteSpec \<rparr>
         | r # _ \<Rightarrow>
             (case nr_HTTP r of
                None \<Rightarrow> Ret \<lparr> rt_Metadata = metadata, rt_Spec = zero_RouteSpec \<rparr>
              | Some [] \<Rightarrow> Ret \<lparr> rt_Metadata = metadata, rt_Spec = zero_RouteSpec \<rparr>
              | Some (p # _) \<Rightarrow>
                  (case np_Service p of
                     None \<Rightarrow> Panic
                   | Some svc \<Rightarrow>
                       (case np_PathType p of
                          None \<Rightarrow> Panic
                        | Some pt \<Rightarrow> Ret \<lparr> rt_Metadata = metadata,
                            rt_Spec = zero_RouteSpec\<lparr>
                              rs_Service := nb_Name svc, rs_Port := nb_Port svc,
                              rs_PathType := pt, rs_Path := np_Path p, rs_Host := nr_Host r,
                              rs_IngressClassName := ni_IngressClassName ingress \<rparr> \<rparr>))))"

text \<open>
  The list conversions collect the names of the objects a conversion returns nil for; it never
  does, so the set of bad names is always empty. They return it all the same.
\<close>

fun RouteListFromIngressList :: "v1beta1_Ingress list \<Rightarrow> Route list \<times> string set" where
  "RouteListFromIngressList [] = ([], {})"
| "RouteListFromIngressList (i # is) =
     (let (rs, bad) = RouteListFromIngressList is in (RouteFromIngress i # rs, bad))"

fun RouteListFromIngressListNetworkingV1 ::
  "net_Ingress list \<Rightarrow> (Route list \<times> string set) run" where
  "RouteListFromIngressListNetworkingV1 [] = Ret ([], {})"
| "RouteListFromIngressListNetworkingV1 (i # is) =
     bind_run (RouteFromIngressNetworkingV1 i) (\<lambda>r.
     bind_run (RouteListFromIngressListNetworkingV1 is) (\<lambda>(rs, bad). Ret (r # rs, bad)))"

subsection \<open>OpenShift routes\<close>

record os_Route =
  or_Meta :: ObjectMeta
  or_Host :: string
  or_Path :: string
  or_ToName :: string
  or_Port :: "int option"

definition ToOsRoute :: "Route \<Rightarrow> os_Route" where
  "ToOsRoute route =
     (let spec = rt_Spec route
      in \<lparr> or_Meta = ToObjectMeta (rt_Metadata route), or_Host = rs_Host spec,
           or_Path = rs_Path spec, or_ToName = rs_Service spec,
           or_Port = (if rs_Port spec > 0 then Some (rs_Port spec) else None) \<rparr>)"

definition RouteFromOsRoute :: "os_Route \<Rightarrow> Route" where
  "RouteFromOsRoute route =
     (let m = or_Meta route
      in \<lparr> rt_Metadata = NewMetadata ''Route'' (om_Name m) (om_Namespace m) (om_UID m)
             (om_Generation m) (om_ResourceVersion m) (om_Annotations m) (om_Labels m),
           rt_Spec = zero_RouteSpec\<lparr>
             rs_Port := (case or_Port route of None \<Rightarrow> 0 | Some p \<Rightarrow> p),
             rs_Service := or_ToName route, rs_Path := or_Path route, rs_Host := or_Host route \<rparr> \<rparr>)"

fun RouteListFromOsRouteList :: "os_Route list \<Rightarrow> Route list \<times> string set" where
  "RouteListFromOsRouteList [] = ([], {})"
| "RouteListFromOsRouteList (o' # os) =
     (let (rs, bad) = RouteListFromOsRouteList os in (RouteFromOsRoute o' # rs, bad))"

definition NewRouteFromInterface :: "jany \<Rightarrow> Route run" where
  "NewRouteFromInterface object =
     bind_run (as_map object) (\<lambda>obj.
     bind_run (NewMetadataFromInterface ''Route'' (jget obj ''metadata'')) (\<lambda>metadata.
     bind_run (as_map (jget obj ''spec'')) (\<lambda>specObj.
     bind_run (as_map (jget specObj ''to'')) (\<lambda>targetObject.
     bind_run (as_string (jget targetObject ''name'')) (\<lambda>serviceName.
     bind_run (as_string (jget specObj ''host'')) (\<lambda>host.
     bind_run (if jget specObj ''path'' = JNil then Ret [] else as_string (jget specObj ''path'')) (\<lambda>path.
       Ret \<lparr> rt_Metadata = metadata,
         rt_Spec = zero_RouteSpec\<lparr> rs_Service := serviceName, rs_Host := host, rs_Path := path \<rparr> \<rparr>)))))))"

subsection \<open>Registrations\<close>

record Registration =
  rg_Name :: string
  rg_Service :: string
  rg_Route :: string

definition host_char :: "char \<Rightarrow> bool" where
  "host_char c \<longleftrightarrow> is_digit c \<or> ((65::nat) \<le> of_char c \<and> of_char c \<le> (90::nat))
     \<or> ((97::nat) \<le> of_char c \<and> of_char c \<le> (122::nat)) \<or> c = CHR ''.'' \<or> c = CHR ''-''"

definition getHost :: "Registration \<Rightarrow> string" where
  "getHost r = FindString_class host_char (TrimPrefix (rg_Route r) ''Host'')"

definition ToRoute :: "Registration \<Rightarrow> Route" where
  "ToRoute r =
     \<lparr> rt_Metadata = zero_Metadata\<lparr> md_Kind := ''Route'', md_Name := rg_Name r, md_Namespace := ''local'' \<rparr>,
       rt_Spec = zero_RouteSpec\<lparr> rs_Service := rg_Service r, rs_Host := getHost r \<rparr> \<rparr>"

fun ToRoutes :: "string \<Rightarrow> Registration list \<Rightarrow> Route list" where
  "ToRoutes hostFilter [] = []"
| "ToRoutes hostFilter (reg # regs) =
     (let route = ToRoute reg
      in if Contains (rs_Host (rt_Spec route)) hostFilter then route # ToRoutes hostFilter regs
         else ToRoutes hostFilter regs)"

end
