(* ===== verification/Http_Route.thy ===== *)
theory Http_Route
  imports Route_Entity
begin

section \<open>HTTPRoutes and traffic policies\<close>

text \<open>
  The Gateway API side of \<open>entity/route.go\<close>: the HTTPRoute and the BackendTrafficPolicy made from
  a Route, and the Route read back from the two.
\<close>

subsection \<open>The API objects\<close>

record ParentReference =
  pr_Group :: "string option"
  pr_Kind :: "string option"
  pr_Name :: string
  pr_Namespace :: "string option"

record HTTPPathMatch =
  pm_Type :: "string option"
  pm_Value :: "string option"

record HTTPBackendRef =
  hb_Group :: "string option"
  hb_Kind :: "string option"
  hb_Name :: string
  hb_Port :: "int option"
  hb_Weight :: "int option"

record SessionPersistence =
  se_Type :: "string option"
  se_SessionName :: "string option"
  se_AbsoluteTimeout :: "string option"

text \<open>Of a match the conversions know the path only.\<close>

record HTTPRouteRule =
  hr_Matches :: "HTTPPathMatch option list"
  hr_BackendRefs :: "HTTPBackendRef list"
  hr_Filters :: "HTTPRouteFilter list"
  hr_SessionPersistence :: "SessionPersistence option"

record HTTPRoute =
  ht_Kind :: string
  ht_Meta :: ObjectMeta
  ht_ParentRefs :: "ParentReference list"
  ht_Hostnames :: "string list"
  ht_Rules :: "HTTPRouteRule list"

text \<open>A GRPCRoute is passed on as a whole.\<close>

record GRPCRoute =
  gr_Kind :: string
  gr_Meta :: ObjectMeta
  gr_Spec :: jany

text \<open>
  A BackendTrafficPolicy is an unstructured object. The record has what the accessors of
  \<open>unstructured\<close> find in it: the metadata and, for each path of the specification the code
  reads or writes, that nothing is there, that a value of another type is in the way, or the value.
\<close>

datatype 'a nested = Absent | BadType | Found 'a

record BackendTrafficPolicy =
  tp_APIVersion :: string
  tp_Kind :: string
  tp_Name :: string
  tp_Namespace :: string
  tp_Labels :: "string gomap"
  tp_ResourceVersion :: string
  tp_MergeType :: "string nested"
  tp_TargetRefs :: "(string \<times> string \<times> string) list nested"
  tp_UseClientProtocol :: "bool nested"
  tp_StreamIdleTimeout :: "string nested"

subsection \<open>Annotations\<close>

definition normalizeRouteAnnotations :: "string gomap \<Rightarrow> string gomap" where
  "normalizeRouteAnnotations annotations = (case annotations of None \<Rightarrow> Some [] | Some al \<Rightarrow> Some al)"

definition httpRouteMetadataAnnotations :: "string gomap \<Rightarrow> string gomap" where
  "httpRouteMetadataAnnotations annotations =
     (if gm_len annotations = 0 then None
      else let out = filter (\<lambda>(k, v). \<not> HasPrefix k nginx_prefix) (gm_entries annotations)
           in if out = [] then None else Some out)"

subsection \<open>HTTPRoute\<close>

definition pathMatchTypeFromRoute :: "string \<Rightarrow> string" where
  "pathMatchTypeFromRoute pathType = (if pathType = ''Exact'' then ''Exact'' else ''PathPrefix'')"

definition routePathValue :: "string \<Rightarrow> string" where
  "routePathValue path = (if path = [] then ''/'' else path)"

definition routeBackendPort :: "int \<Rightarrow> int" where
  "routeBackendPort targetPort = (if targetPort = 0 then 8080 else targetPort)"

definition buildSessionPersistence :: "string gomap \<Rightarrow> SessionPersistence" where
  "buildSessionPersistence annotations =
     (let cookieName = gm_str annotations AnnotationSessionCookieName;
          maxAge = gm_str annotations AnnotationSessionCookieMaxAge
      in \<lparr> se_Type = Some ''Cookie'',
           se_SessionName = (if cookieName \<noteq> [] then Some cookieName else None),
           se_AbsoluteTimeout = (if maxAge \<noteq> [] then Some (maxAge @ ''s'') else None) \<rparr>)"

definition buildHTTPRouteRule :: "Route \<Rightarrow> string gomap \<Rightarrow> HTTPRouteRule" where
  "buildHTTPRouteRule route annotations =
     (let spec = rt_Spec route
      in \<lparr> hr_Matches = [Some \<lparr> pm_Type = Some (pathMatchTypeFromRoute (rs_PathType spec)),
                               pm_Value = Some (routePathValue (rs_Path spec)) \<rparr>],
           hr_BackendRefs = [\<lparr> hb_Group = Some [], hb_Kind = Some ''Service'',
             hb_Name = rs_Service spec, hb_Port = Some (routeBackendPort (rs_Port spec)),
             hb_Weight = Some 1 \<rparr>],
           hr_Filters = (if length (rs_Filters spec) > 0 then rs_Filters spec else []),
           hr_SessionPersistence =
             (case gm_get annotations AnnotationAffinity of
                None \<Rightarrow> None
              | Some affinity \<Rightarrow>
                  if affinity = ''cookie'' then Some (buildSessionPersistence annotations) else None) \<rparr>)"

definition ToHTTPRoute :: "string \<Rightarrow> string \<Rightarrow> Route \<Rightarrow> HTTPRoute" where
  "ToHTTPRoute gatewayNamespace gatewayName route =
     (let annotations = normalizeRouteAnnotations (md_Annotations (rt_Metadata route));
          meta = (ToObjectMeta (rt_Metadata route))
                   \<lparr> om_Annotations := httpRouteMetadataAnnotations annotations \<rparr>
      in \<lparr> ht_Kind = [], ht_Meta = meta,
           ht_ParentRefs = [\<lparr> pr_Group = Some ''gateway.networking.k8s.io'', pr_Kind = Some ''Gateway'',
             pr_Name = gatewayName, pr_Namespace = Some gatewayNamespace \<rparr>],
           ht_Hostnames = [rs_Host (rt_Spec route)],
           ht_Rules = [buildHTTPRouteRule route annotations] \<rparr>)"

subsection \<open>Idle timeouts\<close>

text \<open>The verb \<open>%q\<close>: a double-quoted string with Go escapes.\<close>

definition hex_digit :: "nat \<Rightarrow> char" where
  "hex_digit d = (if d < 10 then char_of (48 + d) else char_of (87 + d))"

definition quote_char :: "char \<Rightarrow> string" where
  "quote_char c =
     (let n = (of_char c :: nat)
      in if n = 34 then [CHR 0x5C, CHR 0x22]
         else if n = 92 then [CHR 0x5C, CHR 0x5C]
         else if n = 7 then [CHR 0x5C, CHR ''a'']
         else if n = 8 then [CHR 0x5C, CHR ''b'']
         else if n = 9 then [CHR 0x5C, CHR ''t'']
         else if n = 10 then [CHR 0x5C, CHR ''n'']
         else if n = 11 then [CHR 0x5C, CHR ''v'']
         else if n = 12 then [CHR 0x5C, CHR ''f'']
         else if n = 13 then [CHR 0x5C, CHR ''r'']
         else if n < 32 \<or> n = 127 then [CHR 0x5C, CHR ''x'', hex_digit (n div 16), hex_digit (n mod 16)]
         else [c])"

definition sprint_q :: "string \<Rightarrow> string" where
  "sprint_q s = [CHR 0x22] @ concat (map quote_char s) @ [CHR 0x22]"

definition parseTimeoutSeconds :: "string \<Rightarrow> int" where
  "parseTimeoutSeconds value =
     (let value = TrimSpace value
      in if value = [] then 0
         else case Atoi value of
                None \<Rightarrow> 0
              | Some sec \<Rightarrow> if sec \<le> 0 then 0 else sec)"

definition resolveStreamIdleTimeout :: "Route \<Rightarrow> string \<Rightarrow> go_error + string" where
  "resolveStreamIdleTimeout route defaultIdleTimeout =
     (let explicit = rs_StreamIdleTimeout (rt_Spec route)
      in if explicit \<noteq> [] then
           (if \<not> IsValidGatewayAPIDuration explicit
            then Inl (Errorf (''streamIdleTimeout '' @ sprint_q explicit @
                       '' is not a valid Gateway API duration'') [])
            else Inr explicit)
         else let timeout = TrimSpace defaultIdleTimeout
      in if timeout \<noteq> [] then
           (if \<not> IsValidGatewayAPIDuration timeout
            then Inl (Errorf (''default idle timeout '' @ sprint_q timeout @
                       '' is not a valid Gateway API duration'') [])
            else Inr timeout)
         else let annotations = normalizeRouteAnnotations (md_Annotations (rt_Metadata route));
                  readTimeout = parseTimeoutSeconds (gm_str annotations AnnotationProxyReadTimeout);
                  sendTimeout = parseTimeoutSeconds (gm_str annotations AnnotationProxySendTimeout);
                  maxSec = max readTimeout sendTimeout
      in if maxSec = 0 then Inr []
         else let idleTimeout = Itoa maxSec @ ''s''
      in if \<not> IsValidGatewayAPIDuration idleTimeout
         then Inl (Errorf (''timeout '' @ idleTimeout @
                '' derived from legacy annotations is not a valid Gateway API duration'') [])
         else Inr idleTimeout)"

subsection \<open>BackendTrafficPolicy\<close>

definition isGrpc_annotation :: "string gomap \<Rightarrow> bool" where
  "isGrpc_annotation annotations = EqualFold (gm_str annotations AnnotationBackendProtocol) ''GRPC''"

definition ToBackendTrafficPolicy ::
  "Route \<Rightarrow> string \<Rightarrow> go_error + BackendTrafficPolicy option" where
  "ToBackendTrafficPolicy route defaultIdleTimeout =
     (case resolveStreamIdleTimeout route defaultIdleTimeout of
        Inl err \<Rightarrow> Inl err
      | Inr streamIdleTimeout \<Rightarrow>
          let m = rt_Metadata route;
              annotations = normalizeRouteAnnotations (md_Annotations m);
              isGrpc = isGrpc_annotation annotations
          in if \<not> isGrpc \<and> streamIdleTimeout = [] then Inr None
             else Inr (Some \<lparr>
               tp_APIVersion = BackendTrafficPolicyAPIVersion,
               tp_Kind = BackendTrafficPolicyKind,
               tp_Name = md_Name m,
               tp_Namespace = md_Namespace m,
               tp_Labels = gm_put ManagedByLabel ManagedByPaasMediation (Some (gm_entries (md_Labels m))),
               tp_ResourceVersion = [],
               tp_MergeType = Found ''StrategicMerge'',
               tp_TargetRefs = Found [(''gateway.networking.k8s.io'', ''HTTPRoute'', md_Name m)],
               tp_UseClientProtocol = (if isGrpc then Found True else Absent),
               tp_StreamIdleTimeout =
                 (if streamIdleTimeout \<noteq> [] then Found streamIdleTimeout else Absent) \<rparr>))"

subsection \<open>Reading routes back\<close>

definition applyManagedBackendTrafficPolicy :: "Route \<Rightarrow> BackendTrafficPolicy option \<Rightarrow> Route" where
  "applyManagedBackendTrafficPolicy route policy =
     (case policy of
        None \<Rightarrow> route
      | Some p \<Rightarrow>
          if gm_str (tp_Labels p) ManagedByLabel \<noteq> ManagedByPaasMediation then route
          else
            let route1 = (case tp_StreamIdleTimeout p of
                   Found timeout \<Rightarrow>
                     if timeout \<noteq> []
                     then route\<lparr>rt_Spec := (rt_Spec route)\<lparr>rs_StreamIdleTimeout := timeout\<rparr>\<rparr>
                     else route
                 | _ \<Rightarrow> route)
            in (case tp_UseClientProtocol p of
                  Found True \<Rightarrow>
                    route1\<lparr>rt_Metadata := (rt_Metadata route1)
                      \<lparr>md_Annotations := gm_put AnnotationBackendProtocol ''GRPC''
                         (md_Annotations (rt_Metadata route1))\<rparr>\<rparr>
                | _ \<Rightarrow> route1))"

definition RouteFromHTTPRouteWithPolicy :: "HTTPRoute \<Rightarrow> BackendTrafficPolicy option \<Rightarrow> Route" where
  "RouteFromHTTPRouteWithPolicy httpRoute policy =
     (let routeSpec =
        (case ht_Rules httpRoute of
           [] \<Rightarrow> zero_RouteSpec
         | rule # _ \<Rightarrow>
             (case (hr_BackendRefs rule, hr_Matches rule) of
                (backendRef # _, match # _) \<Rightarrow> zero_RouteSpec\<lparr>
                  rs_Service := hb_Name backendRef,
                  rs_Port := (case hb_Port backendRef of None \<Rightarrow> 0 | Some p \<Rightarrow> p),
                  rs_PathType := (case match of None \<Rightarrow> [] | Some pm \<Rightarrow>
                     (case pm_Type pm of None \<Rightarrow> [] | Some t \<Rightarrow> t)),
                  rs_Path := (case match of None \<Rightarrow> [] | Some pm \<Rightarrow>
                     (case pm_Value pm of None \<Rightarrow> [] | Some v \<Rightarrow> v)),
                  rs_Host := (case ht_Hostnames httpRoute of [] \<Rightarrow> [] | h # _ \<Rightarrow> h),
                  rs_Filters := hr_Filters rule \<rparr>
              | _ \<Rightarrow> zero_RouteSpec))
      in applyManagedBackendTrafficPolicy
           \<lparr> rt_Metadata = FromObjectMeta ''Route'' (ht_Meta httpRoute), rt_Spec = routeSpec \<rparr> policy)"

definition RouteFromHTTPRoute :: "HTTPRoute \<Rightarrow> Route" where
  "RouteFromHTTPRoute httpRoute = RouteFromHTTPRouteWithPolicy httpRoute None"

text \<open>
  The Route just made holds the annotation map of the HTTPRoute itself, so the entry that
  \<open>applyManagedBackendTrafficPolicy\<close> adds to an existing map shows in the HTTPRoute afterwards; a
  nil map is replaced instead. This is the HTTPRoute after the conversion.
\<close>

definition HTTPRoute_after_conversion :: "HTTPRoute \<Rightarrow> BackendTrafficPolicy option \<Rightarrow> HTTPRoute" where
  "HTTPRoute_after_conversion httpRoute policy =
     (case om_Annotations (ht_Meta httpRoute) of
        None \<Rightarrow> httpRoute
      | Some _ \<Rightarrow> httpRoute\<lparr>ht_Meta := (ht_Meta httpRoute)
          \<lparr>om_Annotations :=
             md_Annotations (rt_Metadata (RouteFromHTTPRouteWithPolicy httpRoute policy))\<rparr>\<rparr>)"

end
