(* ===== verification/Route_Laws.thy ===== *)
theory Route_Laws
  imports Http_Route
begin

section \<open>Laws of the route conversions\<close>

text \<open>
  What survives a conversion of a route to an API object and back, which annotations an
  HTTPRoute keeps, and which idle timeout is chosen.
\<close>

lemma zero_RouteSpec_simps [simp]:
  "rs_Host zero_RouteSpec = []" "rs_PathType zero_RouteSpec = []" "rs_Path zero_RouteSpec = []"
  "rs_Service zero_RouteSpec = []" "rs_Port zero_RouteSpec = 0"
  "rs_IngressClassName zero_RouteSpec = None" "rs_Filters zero_RouteSpec = []"
  "rs_StreamIdleTimeout zero_RouteSpec = []"
  by (simp_all add: zero_RouteSpec_def)

subsection \<open>Lists\<close>

lemma route_lists:
  "RouteListFromIngressList is = (map RouteFromIngress is, {})"
  "RouteListFromOsRouteList os = (map RouteFromOsRoute os, {})"
  subgoal by (induction "is") simp_all
  subgoal by (induction os) simp_all
  done

lemma RouteListFromIngressListNetworkingV1_map_run:
  "RouteListFromIngressListNetworkingV1 is =
     bind_run (map_run RouteFromIngressNetworkingV1 is) (\<lambda>rs. Ret (rs, {}))"
proof (induction "is")
  case Nil
  then show ?case by simp
next
  case (Cons i "is")
  then show ?case
    by (cases "RouteFromIngressNetworkingV1 i"; cases "map_run RouteFromIngressNetworkingV1 is") simp_all
qed

subsection \<open>Ingresses\<close>

lemma RouteFromIngress_ToIngress:
  "RouteFromIngress (ToIngress r) = \<lparr>
     rt_Metadata = (rt_Metadata r)\<lparr>md_Kind := ''Route''\<rparr>,
     rt_Spec = (rt_Spec r)\<lparr>rs_PathType := [], rs_Port := routeBackendPort (rs_Port (rt_Spec r)),
       rs_Filters := [], rs_StreamIdleTimeout := []\<rparr> \<rparr>"
  by (simp add: RouteFromIngress_def ToIngress_def Let_def zero_RouteSpec_def routeBackendPort_def)

lemma RouteFromIngressNetworkingV1_ToIngressNetworkingV1:
  "RouteFromIngressNetworkingV1 (ToIngressNetworkingV1 r) = Ret \<lparr>
     rt_Metadata = (rt_Metadata r)\<lparr>md_Kind := ''Route''\<rparr>,
     rt_Spec = (rt_Spec r)\<lparr>
       rs_PathType := (if rs_PathType (rt_Spec r) = [] then ''Prefix'' else rs_PathType (rt_Spec r)),
       rs_Path := routePathValue (rs_Path (rt_Spec r)),
       rs_Port := routeBackendPort (rs_Port (rt_Spec r)), rs_Filters := [], rs_StreamIdleTimeout := []\<rparr> \<rparr>"
  by (simp add: RouteFromIngressNetworkingV1_def ToIngressNetworkingV1_def Let_def zero_RouteSpec_def
      routeBackendPort_def routePathValue_def)

lemma RouteFromIngressNetworkingV1_Panic_iff:
  "RouteFromIngressNetworkingV1 i = Panic \<longleftrightarrow>
     (\<exists>r rs p ps. ni_Rules i = r # rs \<and> nr_HTTP r = Some (p # ps)
        \<and> (np_Service p = None \<or> np_PathType p = None))"
  by (auto simp: RouteFromIngressNetworkingV1_def Let_def split: list.splits option.splits)

lemma RouteFromOsRoute_ToOsRoute:
  "RouteFromOsRoute (ToOsRoute r) = \<lparr>
     rt_Metadata = (rt_Metadata r)\<lparr>md_Kind := ''Route''\<rparr>,
     rt_Spec = (rt_Spec r)\<lparr>rs_PathType := [], rs_Port := max 0 (rs_Port (rt_Spec r)),
       rs_IngressClassName := None, rs_Filters := [], rs_StreamIdleTimeout := []\<rparr> \<rparr>"
  by (simp add: RouteFromOsRoute_def ToOsRoute_def Let_def zero_RouteSpec_def NewMetadata_def max_def)

subsection \<open>Annotations of an HTTPRoute\<close>

lemma gm_get_normalize [simp]: "gm_get (normalizeRouteAnnotations a) k = gm_get a k"
  by (simp add: normalizeRouteAnnotations_def split: option.split)

lemma gm_str_normalize [simp]: "gm_str (normalizeRouteAnnotations a) k = gm_str a k"
  by (simp add: gm_str_def)

lemma gm_entries_normalize [simp]: "gm_entries (normalizeRouteAnnotations a) = gm_entries a"
  by (simp add: normalizeRouteAnnotations_def split: option.split)

lemma gm_len_normalize [simp]: "gm_len (normalizeRouteAnnotations a) = gm_len a"
  by (simp add: gm_len_def)

lemma httpRouteMetadataAnnotations_normalize [simp]:
  "httpRouteMetadataAnnotations (normalizeRouteAnnotations a) = httpRouteMetadataAnnotations a"
  by (simp add: httpRouteMetadataAnnotations_def)

lemma httpRouteMetadataAnnotations_entries:
  "gm_entries (httpRouteMetadataAnnotations a) =
     filter (\<lambda>(k, v). \<not> HasPrefix k nginx_prefix) (gm_entries a)"
  by (simp add: httpRouteMetadataAnnotations_def gm_len_def Let_def)

lemma httpRouteMetadataAnnotations_get:
  "gm_get (httpRouteMetadataAnnotations a) k =
     (if HasPrefix k nginx_prefix then None else gm_get a k)"
  using gm_get_filter_key [of "\<lambda>k. \<not> HasPrefix k nginx_prefix" "gm_entries a" k]
  by (simp add: gm_get_def httpRouteMetadataAnnotations_entries)

lemma httpRouteMetadataAnnotations_idem [simp]:
  "httpRouteMetadataAnnotations (httpRouteMetadataAnnotations a) = httpRouteMetadataAnnotations a"
  by (cases a) (auto simp: httpRouteMetadataAnnotations_def gm_len_def Let_def)

lemma nginx_annotations [simp]:
  "HasPrefix AnnotationAffinity nginx_prefix"
  "HasPrefix AnnotationSessionCookieName nginx_prefix"
  "HasPrefix AnnotationSessionCookieMaxAge nginx_prefix"
  "HasPrefix AnnotationProxyReadTimeout nginx_prefix"
  "HasPrefix AnnotationProxySendTimeout nginx_prefix"
  "HasPrefix AnnotationBackendProtocol nginx_prefix"
  by (simp_all add: nginx_prefix_def AnnotationAffinity_def AnnotationSessionCookieName_def
      AnnotationSessionCookieMaxAge_def AnnotationProxyReadTimeout_def
      AnnotationProxySendTimeout_def AnnotationBackendProtocol_def)

lemma annotations_distinct [simp]:
  "AnnotationAffinity \<noteq> AnnotationBackendProtocol"
  "AnnotationBackendProtocol \<noteq> AnnotationAffinity"
  "AnnotationProxyReadTimeout \<noteq> AnnotationBackendProtocol"
  "AnnotationProxySendTimeout \<noteq> AnnotationBackendProtocol"
  by (simp_all add: AnnotationAffinity_def AnnotationProxyReadTimeout_def
      AnnotationProxySendTimeout_def AnnotationBackendProtocol_def)

lemma gm_str_dropped:
  "HasPrefix k nginx_prefix \<Longrightarrow> gm_str (httpRouteMetadataAnnotations a) k = []"
  by (simp add: gm_str_def httpRouteMetadataAnnotations_get)

subsection \<open>The chosen idle timeout\<close>

lemma parseTimeoutSeconds_nonneg [simp]: "0 \<le> parseTimeoutSeconds s"
  by (auto simp: parseTimeoutSeconds_def Let_def split: option.splits)

lemma parseTimeoutSeconds_Nil [simp]: "parseTimeoutSeconds [] = 0"
  by (simp add: parseTimeoutSeconds_def TrimSpace_def)

text \<open>What the two legacy annotations ask for.\<close>

definition legacy_seconds :: "Route \<Rightarrow> int" where
  "legacy_seconds r =
     max (parseTimeoutSeconds (gm_str (md_Annotations (rt_Metadata r)) AnnotationProxyReadTimeout))
         (parseTimeoutSeconds (gm_str (md_Annotations (rt_Metadata r)) AnnotationProxySendTimeout))"

lemma legacy_seconds_nonneg [simp]: "0 \<le> legacy_seconds r"
  by (simp add: legacy_seconds_def max_def)

lemma IsValid_Itoa_seconds: "0 \<le> i \<Longrightarrow> IsValidGatewayAPIDuration (Itoa i @ ''s'') \<longleftrightarrow> i < 100000"
  using IsValid_dec_seconds [of "nat i"] by (simp add: Itoa_def nat_less_iff)

lemma resolve_explicit:
  "rs_StreamIdleTimeout (rt_Spec r) \<noteq> [] \<Longrightarrow> IsValidGatewayAPIDuration (rs_StreamIdleTimeout (rt_Spec r)) \<Longrightarrow>
     resolveStreamIdleTimeout r d = Inr (rs_StreamIdleTimeout (rt_Spec r))"
  by (simp add: resolveStreamIdleTimeout_def Let_def)

lemma resolve_default:
  "rs_StreamIdleTimeout (rt_Spec r) = [] \<Longrightarrow> TrimSpace d \<noteq> [] \<Longrightarrow> IsValidGatewayAPIDuration (TrimSpace d) \<Longrightarrow>
     resolveStreamIdleTimeout r d = Inr (TrimSpace d)"
  by (simp add: resolveStreamIdleTimeout_def Let_def)

lemma resolve_legacy:
  "rs_StreamIdleTimeout (rt_Spec r) = [] \<Longrightarrow> TrimSpace d = [] \<Longrightarrow> legacy_seconds r < 100000 \<Longrightarrow>
     resolveStreamIdleTimeout r d =
       Inr (if legacy_seconds r = 0 then [] else Itoa (legacy_seconds r) @ ''s'')"
  using IsValid_Itoa_seconds [OF legacy_seconds_nonneg, of r]
  by (simp add: resolveStreamIdleTimeout_def Let_def flip: legacy_seconds_def)

lemma resolve_valid:
  "resolveStreamIdleTimeout r d = Inr t \<Longrightarrow> t = [] \<or> IsValidGatewayAPIDuration t"
  by (auto simp: resolveStreamIdleTimeout_def Let_def split: if_splits)

lemma resolve_iff:
  "resolveStreamIdleTimeout r d = Inr t \<longleftrightarrow>
     t = (if rs_StreamIdleTimeout (rt_Spec r) \<noteq> [] then rs_StreamIdleTimeout (rt_Spec r)
          else if TrimSpace d \<noteq> [] then TrimSpace d
          else if legacy_seconds r = 0 then [] else Itoa (legacy_seconds r) @ ''s'') \<and>
     (t = [] \<or> IsValidGatewayAPIDuration t)"
proof -
  have l: "max (parseTimeoutSeconds (gm_str (md_Annotations (rt_Metadata r)) AnnotationProxyReadTimeout))
     (parseTimeoutSeconds (gm_str (md_Annotations (rt_Metadata r)) AnnotationProxySendTimeout)) = legacy_seconds r"
    by (simp add: legacy_seconds_def)
  show ?thesis by (auto simp: resolveStreamIdleTimeout_def Let_def l)
qed

lemma resolve_Inr_cong:
  assumes "resolveStreamIdleTimeout r d = Inr t" and "rs_StreamIdleTimeout (rt_Spec r') = t"
    and "t = [] \<Longrightarrow> legacy_seconds r' = 0"
  shows "resolveStreamIdleTimeout r' d = Inr t"
proof (cases "t = []")
  case True
  with assms(1) have "TrimSpace d = []"
    by (auto simp: resolveStreamIdleTimeout_def Let_def split: if_splits)
  with True assms show ?thesis by (simp add: resolve_legacy)
next
  case False
  with assms resolve_valid [OF assms(1)] show ?thesis by (simp add: resolve_explicit)
qed

subsection \<open>HTTPRoutes and policies\<close>

lemma RouteFromHTTPRoute_ToHTTPRoute:
  "RouteFromHTTPRoute (ToHTTPRoute ns gw r) = \<lparr>
     rt_Metadata = (rt_Metadata r)\<lparr>md_Kind := ''Route'',
       md_Annotations := httpRouteMetadataAnnotations (md_Annotations (rt_Metadata r))\<rparr>,
     rt_Spec = (rt_Spec r)\<lparr>
       rs_PathType := pathMatchTypeFromRoute (rs_PathType (rt_Spec r)),
       rs_Path := routePathValue (rs_Path (rt_Spec r)),
       rs_Port := routeBackendPort (rs_Port (rt_Spec r)),
       rs_IngressClassName := None, rs_StreamIdleTimeout := []\<rparr> \<rparr>"
  by (simp add: RouteFromHTTPRoute_def RouteFromHTTPRouteWithPolicy_def ToHTTPRoute_def Let_def
      applyManagedBackendTrafficPolicy_def buildHTTPRouteRule_def zero_RouteSpec_def FromObjectMeta_def)

lemma RouteFromHTTPRouteWithPolicy_apply:
  "RouteFromHTTPRouteWithPolicy h p = applyManagedBackendTrafficPolicy (RouteFromHTTPRoute h) p"
  by (simp add: RouteFromHTTPRoute_def RouteFromHTTPRouteWithPolicy_def Let_def
      applyManagedBackendTrafficPolicy_def)

lemma ToBackendTrafficPolicy_resolve:
  "ToBackendTrafficPolicy r d = Inr pol \<Longrightarrow> \<exists>t. resolveStreamIdleTimeout r d = Inr t"
  by (auto simp: ToBackendTrafficPolicy_def split: sum.splits)

lemma ToBackendTrafficPolicy_Inr:
  assumes "ToBackendTrafficPolicy r d = Inr pol"
  obtains t where "resolveStreamIdleTimeout r d = Inr t"
    and "pol = None \<longleftrightarrow> \<not> isGrpc_annotation (md_Annotations (rt_Metadata r)) \<and> t = []"
    and "\<And>p. pol = Some p \<Longrightarrow> gm_str (tp_Labels p) ManagedByLabel = ManagedByPaasMediation
       \<and> tp_UseClientProtocol p =
           (if isGrpc_annotation (md_Annotations (rt_Metadata r)) then Found True else Absent)
       \<and> tp_StreamIdleTimeout p = (if t \<noteq> [] then Found t else Absent)"
proof -
  from assms obtain t where t: "resolveStreamIdleTimeout r d = Inr t"
    by (auto simp: ToBackendTrafficPolicy_def split: sum.splits)
  show thesis
  proof (rule that [OF t])
    show "pol = None \<longleftrightarrow> \<not> isGrpc_annotation (md_Annotations (rt_Metadata r)) \<and> t = []"
      using assms t by (auto simp: ToBackendTrafficPolicy_def Let_def isGrpc_annotation_def split: if_splits)
  next
    fix p
    assume "pol = Some p"
    with assms t show "gm_str (tp_Labels p) ManagedByLabel = ManagedByPaasMediation
       \<and> tp_UseClientProtocol p =
           (if isGrpc_annotation (md_Annotations (rt_Metadata r)) then Found True else Absent)
       \<and> tp_StreamIdleTimeout p = (if t \<noteq> [] then Found t else Absent)"
      by (auto simp: ToBackendTrafficPolicy_def Let_def isGrpc_annotation_def split: if_splits)
  qed
qed

text \<open>A route read back from the two objects written for it.\<close>

lemma apply_own_policy:
  assumes "ToBackendTrafficPolicy r d = Inr pol" and "resolveStreamIdleTimeout r d = Inr t"
    and "rs_StreamIdleTimeout (rt_Spec q) = []"
  shows "applyManagedBackendTrafficPolicy q pol = \<lparr>
     rt_Metadata = (if isGrpc_annotation (md_Annotations (rt_Metadata r))
       then (rt_Metadata q)\<lparr>md_Annotations :=
         gm_put AnnotationBackendProtocol ''GRPC'' (md_Annotations (rt_Metadata q))\<rparr>
       else rt_Metadata q),
     rt_Spec = (rt_Spec q)\<lparr>rs_StreamIdleTimeout := t\<rparr> \<rparr>"
proof -
  from ToBackendTrafficPolicy_Inr [OF assms(1)] assms(2)
  have none: "pol = None \<longleftrightarrow> \<not> isGrpc_annotation (md_Annotations (rt_Metadata r)) \<and> t = []"
    and some: "\<And>p. pol = Some p \<Longrightarrow> gm_str (tp_Labels p) ManagedByLabel = ManagedByPaasMediation
       \<and> tp_UseClientProtocol p =
           (if isGrpc_annotation (md_Annotations (rt_Metadata r)) then Found True else Absent)
       \<and> tp_StreamIdleTimeout p = (if t \<noteq> [] then Found t else Absent)"
    by (metis sum.inject(2))+
  show ?thesis
  proof (cases pol)
    case None
    with none assms(3) show ?thesis
      by (simp add: applyManagedBackendTrafficPolicy_def)
  next
    case (Some p)
    from some [OF this] Some assms(3) show ?thesis
      by (simp add: applyManagedBackendTrafficPolicy_def Let_def)
  qed
qed

subsection \<open>Reading and writing again\<close>

lemma filter_update:
  "\<not> P k \<Longrightarrow> filter (\<lambda>(k, v). P k) (AList.update k v al) = filter (\<lambda>(k, v). P k) al"
  by (induction al) auto

lemma httpRouteMetadataAnnotations_put:
  assumes "HasPrefix k nginx_prefix"
  shows "httpRouteMetadataAnnotations (gm_put k v a) = httpRouteMetadataAnnotations a"
proof -
  have "gm_len (gm_put k v a) \<noteq> 0"
    by (cases "gm_entries a") (auto simp: gm_len_def gm_put_def)
  moreover have "filter (\<lambda>(k, v). \<not> HasPrefix k nginx_prefix) (gm_entries (gm_put k v a)) =
      filter (\<lambda>(k, v). \<not> HasPrefix k nginx_prefix) (gm_entries a)"
    using filter_update [of "\<lambda>k. \<not> HasPrefix k nginx_prefix"] assms by (simp add: gm_put_def)
  ultimately show ?thesis
    by (cases "gm_len a = 0") (simp_all add: httpRouteMetadataAnnotations_def Let_def gm_len_def)
qed

lemma isGrpc_annotation_simps [simp]:
  "isGrpc_annotation (gm_put AnnotationBackendProtocol ''GRPC'' a)"
  "\<not> isGrpc_annotation (httpRouteMetadataAnnotations a)"
  by (simp_all add: isGrpc_annotation_def EqualFold_def gm_str_dropped)

lemma isGrpc_annotation_normalize [simp]:
  "isGrpc_annotation (normalizeRouteAnnotations a) = isGrpc_annotation a"
  by (simp add: isGrpc_annotation_def)

lemma no_affinity [simp]:
  "gm_get (httpRouteMetadataAnnotations a) AnnotationAffinity = None"
  "gm_get (gm_put AnnotationBackendProtocol v m) AnnotationAffinity = gm_get m AnnotationAffinity"
  by (simp_all add: httpRouteMetadataAnnotations_get)

lemma path_conversions_idem [simp]:
  "pathMatchTypeFromRoute (pathMatchTypeFromRoute t) = pathMatchTypeFromRoute t"
  "routePathValue (routePathValue p) = routePathValue p"
  "routeBackendPort (routeBackendPort i) = routeBackendPort i"
  by (simp_all add: pathMatchTypeFromRoute_def routePathValue_def routeBackendPort_def)

text \<open>The route a client gets for the objects written for \<open>r\<close>.\<close>

definition reread_route :: "string \<Rightarrow> string \<Rightarrow> Route \<Rightarrow> BackendTrafficPolicy option \<Rightarrow> Route" where
  "reread_route ns gw r pol = RouteFromHTTPRouteWithPolicy (ToHTTPRoute ns gw r) pol"

lemma reread_route_eq:
  assumes "ToBackendTrafficPolicy r d = Inr pol" and "resolveStreamIdleTimeout r d = Inr t"
  shows "reread_route ns gw r pol = \<lparr>
     rt_Metadata = (rt_Metadata r)\<lparr>md_Kind := ''Route'',
       md_Annotations :=
         (if isGrpc_annotation (md_Annotations (rt_Metadata r))
          then gm_put AnnotationBackendProtocol ''GRPC''
                 (httpRouteMetadataAnnotations (md_Annotations (rt_Metadata r)))
          else httpRouteMetadataAnnotations (md_Annotations (rt_Metadata r)))\<rparr>,
     rt_Spec = (rt_Spec r)\<lparr>
       rs_PathType := pathMatchTypeFromRoute (rs_PathType (rt_Spec r)),
       rs_Path := routePathValue (rs_Path (rt_Spec r)),
       rs_Port := routeBackendPort (rs_Port (rt_Spec r)),
       rs_IngressClassName := None, rs_StreamIdleTimeout := t\<rparr> \<rparr>"
  unfolding reread_route_def RouteFromHTTPRouteWithPolicy_apply
  by (subst apply_own_policy [OF assms]) (simp_all add: RouteFromHTTPRoute_ToHTTPRoute)

text \<open>What the two conversions read of a route.\<close>

lemma ToBackendTrafficPolicy_cong:
  assumes "resolveStreamIdleTimeout q d = resolveStreamIdleTimeout r d"
    and "isGrpc_annotation (md_Annotations (rt_Metadata q)) = isGrpc_annotation (md_Annotations (rt_Metadata r))"
    and "md_Name (rt_Metadata q) = md_Name (rt_Metadata r)"
    and "md_Namespace (rt_Metadata q) = md_Namespace (rt_Metadata r)"
    and "md_Labels (rt_Metadata q) = md_Labels (rt_Metadata r)"
  shows "ToBackendTrafficPolicy q d = ToBackendTrafficPolicy r d"
  unfolding ToBackendTrafficPolicy_def Let_def isGrpc_annotation_normalize assms by (rule refl)

lemma ToHTTPRoute_eq:
  assumes "ToObjectMeta (rt_Metadata q) = (ToObjectMeta (rt_Metadata r))\<lparr>om_Annotations := a\<rparr>"
    and "md_Annotations (rt_Metadata q) = a"
    and "httpRouteMetadataAnnotations a = httpRouteMetadataAnnotations (md_Annotations (rt_Metadata r))"
    and "gm_get a AnnotationAffinity = None"
    and "rs_Host (rt_Spec q) = rs_Host (rt_Spec r)"
    and "pathMatchTypeFromRoute (rs_PathType (rt_Spec q)) = pathMatchTypeFromRoute (rs_PathType (rt_Spec r))"
    and "routePathValue (rs_Path (rt_Spec q)) = routePathValue (rs_Path (rt_Spec r))"
    and "routeBackendPort (rs_Port (rt_Spec q)) = routeBackendPort (rs_Port (rt_Spec r))"
    and "rs_Service (rt_Spec q) = rs_Service (rt_Spec r)"
    and "rs_Filters (rt_Spec q) = rs_Filters (rt_Spec r)"
  shows "ToHTTPRoute ns gw q = (ToHTTPRoute ns gw r)\<lparr>ht_Rules :=
    map (\<lambda>rule. rule\<lparr>hr_SessionPersistence := None\<rparr>) (ht_Rules (ToHTTPRoute ns gw r))\<rparr>"
  unfolding ToHTTPRoute_def Let_def buildHTTPRouteRule_def gm_get_normalize
    httpRouteMetadataAnnotations_normalize assms
  by simp

lemma reread_route_policy:
  assumes "ToBackendTrafficPolicy r d = Inr pol"
  shows "ToBackendTrafficPolicy (reread_route ns gw r pol) d = Inr pol"
proof -
  obtain t where t: "resolveStreamIdleTimeout r d = Inr t"
    using ToBackendTrafficPolicy_resolve [OF assms] by blast
  note q = reread_route_eq [OF assms t, of ns gw]
  have g: "isGrpc_annotation (md_Annotations (rt_Metadata (reread_route ns gw r pol))) =
      isGrpc_annotation (md_Annotations (rt_Metadata r))"
    by (cases "isGrpc_annotation (md_Annotations (rt_Metadata r))") (simp_all add: q)
  have l: "legacy_seconds (reread_route ns gw r pol) = 0"
    by (cases "isGrpc_annotation (md_Annotations (rt_Metadata r))")
      (simp_all add: q legacy_seconds_def gm_str_dropped)
  have "resolveStreamIdleTimeout (reread_route ns gw r pol) d = resolveStreamIdleTimeout r d"
    unfolding t by (rule resolve_Inr_cong [OF t]) (simp_all add: l, simp add: q)
  then have "ToBackendTrafficPolicy (reread_route ns gw r pol) d = ToBackendTrafficPolicy r d"
    by (rule ToBackendTrafficPolicy_cong) (simp only: g, simp_all add: q)
  with assms show ?thesis by simp
qed

lemma reread_route_httproute:
  assumes "ToBackendTrafficPolicy r d = Inr pol"
  shows "ToHTTPRoute ns gw (reread_route ns gw r pol) =
    (ToHTTPRoute ns gw r)\<lparr>ht_Rules :=
       map (\<lambda>rule. rule\<lparr>hr_SessionPersistence := None\<rparr>) (ht_Rules (ToHTTPRoute ns gw r))\<rparr>"
proof -
  obtain t where t: "resolveStreamIdleTimeout r d = Inr t"
    using ToBackendTrafficPolicy_resolve [OF assms] by blast
  note q = reread_route_eq [OF assms t, of ns gw]
  show ?thesis
  proof (cases "isGrpc_annotation (md_Annotations (rt_Metadata r))")
    case True
    show ?thesis
      by (rule ToHTTPRoute_eq [where a = "gm_put AnnotationBackendProtocol ''GRPC''
            (httpRouteMetadataAnnotations (md_Annotations (rt_Metadata r)))"])
        (simp_all add: q True ToObjectMeta_def httpRouteMetadataAnnotations_put)
  next
    case False
    show ?thesis
      by (rule ToHTTPRoute_eq [where a = "httpRouteMetadataAnnotations (md_Annotations (rt_Metadata r))"])
        (simp_all add: q False ToObjectMeta_def)
  qed
qed

end
