(* ===== verification/Cache_Setup.thy ===== *)
theory Cache_Setup
  imports Resource_Cache Core_Entities Certificate_Entity Route_Laws
begin

section \<open>Which resources are cached\<close>

text \<open>
  \<open>NewResourcesCache\<close> of \<open>service/internal/cache/cache.go\<close> and the names of \<open>cachenames.go\<close>: the
  caches a list of names switches on.
\<close>

datatype CacheName = CertificateCache | ConfigMapCache | NamespaceCache | RouteCache | SecretCache
  | ServiceCache | HttpRouteCache | GrpcRouteCache | OtherCache string

definition BasicCaches :: "CacheName list" where
  "BasicCaches = [CertificateCache, ConfigMapCache, NamespaceCache, RouteCache, SecretCache, ServiceCache]"

definition GatewayApiRoutesCaches :: "CacheName list" where
  "GatewayApiRoutesCaches = [HttpRouteCache, GrpcRouteCache]"

type_synonym HttpRoute = "HTTPRoute route_wrapper"

type_synonym GrpcRoute = "GRPCRoute route_wrapper"

record 'c ResourcesCache =
  ch_Certificates :: "('c, Certificate) ResourceCache option"
  ch_ConfigMaps :: "('c, ConfigMap) ResourceCache option"
  ch_Ingresses :: "('c, Route) ResourceCache option"
  ch_HTTPRoute :: "('c, HttpRoute) ResourceCache option"
  ch_GRPCRoute :: "('c, GrpcRoute) ResourceCache option"
  ch_Secrets :: "('c, Secret) ResourceCache option"
  ch_Services :: "('c, Service) ResourceCache option"
  ch_Namespaces :: "('c, Namespace) ResourceCache option"

definition no_caches :: "'c ResourcesCache" where
  "no_caches = \<lparr> ch_Certificates = None, ch_ConfigMaps = None, ch_Ingresses = None,
     ch_HTTPRoute = None, ch_GRPCRoute = None, ch_Secrets = None, ch_Services = None,
     ch_Namespaces = None \<rparr>"

text \<open>\<open>encoding/json\<close> at each cached type.\<close>

record jsons =
  js_ConfigMap :: "ConfigMap json"
  js_Route :: "Route json"
  js_HttpRoute :: "HttpRoute json"
  js_GrpcRoute :: "GrpcRoute json"
  js_Secret :: "Secret json"
  js_Service :: "Service json"
  js_Namespace :: "Namespace json"

text \<open>One round of the loop over the names; the request for certificates only logs a warning.\<close>

fun enable_cache ::
  "jsons \<Rightarrow> 'c ristrettoCacheAdapter \<Rightarrow> CacheName \<Rightarrow> 'c ResourcesCache \<Rightarrow> 'c ResourcesCache" where
  "enable_cache js adapter CertificateCache rc = rc"
| "enable_cache js adapter ConfigMapCache rc =
     rc\<lparr>ch_ConfigMaps := Some (NewResourceCache ''ConfigMap'' (newEntityAdapter (js_ConfigMap js) adapter))\<rparr>"
| "enable_cache js adapter RouteCache rc =
     rc\<lparr>ch_Ingresses := Some (NewResourceCache ''Route'' (newEntityAdapter (js_Route js) adapter))\<rparr>"
| "enable_cache js adapter SecretCache rc =
     rc\<lparr>ch_Secrets := Some (NewResourceCache ''Secret'' (newEntityAdapter (js_Secret js) adapter))\<rparr>"
| "enable_cache js adapter ServiceCache rc =
     rc\<lparr>ch_Services := Some (NewResourceCache ''Service'' (newEntityAdapter (js_Service js) adapter))\<rparr>"
| "enable_cache js adapter NamespaceCache rc =
     rc\<lparr>ch_Namespaces := Some (NewResourceCache ''Namespace'' (newEntityAdapter (js_Namespace js) adapter))\<rparr>"
| "enable_cache js adapter HttpRouteCache rc =
     rc\<lparr>ch_HTTPRoute := Some (NewResourceCache ''HttpRoute'' (newEntityAdapter (js_HttpRoute js) adapter))\<rparr>"
| "enable_cache js adapter GrpcRouteCache rc =
     rc\<lparr>ch_GRPCRoute := Some (NewResourceCache ''GrpcRoute'' (newEntityAdapter (js_GrpcRoute js) adapter))\<rparr>"
| "enable_cache js adapter (OtherCache s) rc = rc"

record ristretto_config =
  cf_NumCounters :: int
  cf_MaxCost :: int
  cf_BufferItems :: int

text \<open>
  \<open>ristretto.NewCache\<close> is a parameter: it gives an error, or the library handle and the
  empty cache. The eviction callback only logs.
\<close>

definition NewResourcesCache ::
  "(ristretto_config \<Rightarrow> go_error + 'c ristretto \<times> 'c) \<Rightarrow> jsons \<Rightarrow> int \<Rightarrow> int \<Rightarrow> int \<Rightarrow> int \<Rightarrow>
     CacheName list \<Rightarrow> go_error + 'c ResourcesCache \<times> 'c" where
  "NewResourcesCache NewCache js numItems maxSizeInBytes maxItemSizeInBytes ttl cacheToEnable =
     (case NewCache \<lparr> cf_NumCounters = numItems * 10, cf_MaxCost = maxSizeInBytes, cf_BufferItems = 64 \<rparr> of
        Inl err \<Rightarrow> Inl (Errorf (''failed to instantiate ristretto cache: '' @ err_text err) [err])
      | Inr (ristrettoCache, c) \<Rightarrow>
          let adapter = \<lparr> ra_cache = ristrettoCache, ra_maxItemSize = maxItemSizeInBytes, ra_ttl = ttl \<rparr>;
              names = (if cacheToEnable = [] then BasicCaches else cacheToEnable)
          in Inr (foldl (\<lambda>rc n. enable_cache js adapter n rc) no_caches names, c))"

text \<open>The caches of tests: a library that cannot be set up is a panic there.\<close>

definition NewTestResourcesCache ::
  "(ristretto_config \<Rightarrow> go_error + 'c ristretto \<times> 'c) \<Rightarrow> jsons \<Rightarrow> CacheName list \<Rightarrow> ('c ResourcesCache \<times> 'c) run" where
  "NewTestResourcesCache NewCache js cacheToEnable =
     (case NewResourcesCache NewCache js 1000 10000 1024 0 cacheToEnable of
        Inl err \<Rightarrow> Panic
      | Inr rc \<Rightarrow> Ret rc)"

lemma enable_cache_Certificates [simp]:
  "ch_Certificates (enable_cache js ad n rc) = ch_Certificates rc"
  by (cases n) simp_all

lemma enable_cache_sel:
  "ch_ConfigMaps (enable_cache js ad n rc) = (if n = ConfigMapCache
     then Some (NewResourceCache ''ConfigMap'' (newEntityAdapter (js_ConfigMap js) ad)) else ch_ConfigMaps rc)"
  "ch_Ingresses (enable_cache js ad n rc) = (if n = RouteCache
     then Some (NewResourceCache ''Route'' (newEntityAdapter (js_Route js) ad)) else ch_Ingresses rc)"
  "ch_HTTPRoute (enable_cache js ad n rc) = (if n = HttpRouteCache
     then Some (NewResourceCache ''HttpRoute'' (newEntityAdapter (js_HttpRoute js) ad)) else ch_HTTPRoute rc)"
  "ch_GRPCRoute (enable_cache js ad n rc) = (if n = GrpcRouteCache
     then Some (NewResourceCache ''GrpcRoute'' (newEntityAdapter (js_GrpcRoute js) ad)) else ch_GRPCRoute rc)"
  "ch_Secrets (enable_cache js ad n rc) = (if n = SecretCache
     then Some (NewResourceCache ''Secret'' (newEntityAdapter (js_Secret js) ad)) else ch_Secrets rc)"
  "ch_Services (enable_cache js ad n rc) = (if n = ServiceCache
     then Some (NewResourceCache ''Service'' (newEntityAdapter (js_Service js) ad)) else ch_Services rc)"
  "ch_Namespaces (enable_cache js ad n rc) = (if n = NamespaceCache
     then Some (NewResourceCache ''Namespace'' (newEntityAdapter (js_Namespace js) ad)) else ch_Namespaces rc)"
  by (cases n; simp)+

lemma foldl_enable_cache:
  "foldl (\<lambda>rc n. enable_cache js ad n rc) rc0 ns = \<lparr>
     ch_Certificates = ch_Certificates rc0,
     ch_ConfigMaps = (if ConfigMapCache \<in> set ns
       then Some (NewResourceCache ''ConfigMap'' (newEntityAdapter (js_ConfigMap js) ad)) else ch_ConfigMaps rc0),
     ch_Ingresses = (if RouteCache \<in> set ns
       then Some (NewResourceCache ''Route'' (newEntityAdapter (js_Route js) ad)) else ch_Ingresses rc0),
     ch_HTTPRoute = (if HttpRouteCache \<in> set ns
       then Some (NewResourceCache ''HttpRoute'' (newEntityAdapter (js_HttpRoute js) ad)) else ch_HTTPRoute rc0),
     ch_GRPCRoute = (if GrpcRouteCache \<in> set ns
       then Some (NewResourceCache ''GrpcRoute'' (newEntityAdapter (js_GrpcRoute js) ad)) else ch_GRPCRoute rc0),
     ch_Secrets = (if SecretCache \<in> set ns
       then Some (NewResourceCache ''Secret'' (newEntityAdapter (js_Secret js) ad)) else ch_Secrets rc0),
     ch_Services = (if ServiceCache \<in> set ns
       then Some (NewResourceCache ''Service'' (newEntityAdapter (js_Service js) ad)) else ch_Services rc0),
     ch_Namespaces = (if NamespaceCache \<in> set ns
       then Some (NewResourceCache ''Namespace'' (newEntityAdapter (js_Namespace js) ad)) else ch_Namespaces rc0) \<rparr>"
  by (induction ns arbitrary: rc0) (simp_all add: enable_cache_sel)

end
