(* ===== verification/Pod_Entity.thy ===== *)
theory Pod_Entity
  imports Core_Entities Go_Time
begin

section \<open>Pods\<close>

text \<open>
  \<open>entity/pod.go\<close> and \<open>entity/rolloutedpod.go\<close>. The records \<open>v1_\<dots>\<close> hold the fields of the
  API types that the conversion reads; a resource list is given by the texts its \<open>Cpu()\<close> and
  \<open>Memory()\<close> quantities print.
\<close>

subsection \<open>API types\<close>

record v1_SecretVolumeSource =
  vsv_SecretName :: string
  vsv_DefaultMode :: "int option"

record v1_Volume =
  vvol_Name :: string
  vvol_Secret :: "v1_SecretVolumeSource option"

record CpuMemoryResource =
  cmr_Cpu :: string
  cmr_Memory :: string

record v1_VolumeMount =
  vvm_Name :: string
  vvm_MountPath :: string
  vvm_ReadOnly :: bool

record v1_ContainerPort =
  vcp_ContainerPort :: int
  vcp_Protocol :: string
  vcp_Name :: string

record SecretKeyRef =
  skr_Key :: string
  skr_Name :: string

record FieldRef =
  fr_APIVersion :: string
  fr_FieldPath :: string

record v1_EnvVarSource =
  vevs_FieldRef :: "FieldRef option"
  vevs_SecretKeyRef :: "SecretKeyRef option"

record v1_EnvVar =
  vev_Name :: string
  vev_Value :: string
  vev_ValueFrom :: "v1_EnvVarSource option"

record v1_Container =
  vct_Name :: string
  vct_Image :: string
  vct_ImagePullPolicy :: string
  vct_Limits :: "CpuMemoryResource option"
  vct_Requests :: "CpuMemoryResource option"
  vct_Args :: "string list"
  vct_VolumeMounts :: "v1_VolumeMount list"
  vct_Ports :: "v1_ContainerPort list"
  vct_Env :: "v1_EnvVar list"

record v1_PodSpec =
  vps_Volumes :: "v1_Volume list"
  vps_Containers :: "v1_Container list"
  vps_RestartPolicy :: string
  vps_TerminationGracePeriodSeconds :: "int option"
  vps_DNSPolicy :: string
  vps_NodeName :: string
  vps_ServiceAccountName :: string

record v1_StateTerminated =
  vst_ContainerID :: string
  vst_ExitCode :: int
  vst_FinishedAt :: gotime
  vst_Reason :: string
  vst_StartedAt :: gotime

record ContainerStateWaiting =
  csw_Message :: string
  csw_Reason :: string

record v1_ContainerState =
  vcs_Running :: "gotime option"
  vcs_Terminated :: "v1_StateTerminated option"
  vcs_Waiting :: "ContainerStateWaiting option"

record v1_ContainerStatus =
  vcst_Name :: string
  vcst_State :: v1_ContainerState
  vcst_LastTerminationState :: v1_ContainerState
  vcst_Ready :: bool
  vcst_RestartCount :: int
  vcst_Image :: string
  vcst_ImageID :: string
  vcst_ContainerID :: string

record v1_PodCondition =
  vpc_Type :: string
  vpc_Status :: string
  vpc_LastProbeTime :: gotime
  vpc_LastTransitionTime :: gotime

record v1_PodStatus =
  vpst_Phase :: string
  vpst_Conditions :: "v1_PodCondition list"
  vpst_HostIP :: string
  vpst_PodIP :: string
  vpst_StartTime :: "gotime option"
  vpst_ContainerStatuses :: "v1_ContainerStatus list"

record v1_Pod =
  vpod_Meta :: ObjectMeta
  vpod_Spec :: v1_PodSpec
  vpod_Status :: v1_PodStatus

subsection \<open>Entity types\<close>

record VolumesSecret =
  vs_SecretName :: string
  vs_DefaultMode :: int

record SpecVolume =
  sv_Name :: string
  sv_Secret :: "VolumesSecret option"

record ContainerPort =
  cp_ContainerPort :: int
  cp_Protocol :: string
  cp_Name :: string

record ValueFrom =
  vf_FieldRef :: "FieldRef option"
  vf_SecretKeyRef :: "SecretKeyRef option"

record ContainerEnv =
  ce_Name :: string
  ce_Value :: string
  ce_ValueFrom :: "ValueFrom option"

record ContainerResources =
  cr_Limits :: CpuMemoryResource
  cr_Requests :: CpuMemoryResource

record ContainerVolumeMount =
  cvm_Name :: string
  cvm_MountPath :: string
  cvm_ReadOnly :: bool

record SpecContainer =
  sc_Name :: string
  sc_Image :: string
  sc_Ports :: "ContainerPort list"
  sc_Env :: "ContainerEnv list"
  sc_Resources :: ContainerResources
  sc_VolumeMounts :: "ContainerVolumeMount list"
  sc_ImagePullPolicy :: string
  sc_Args :: "string list"

record PodSpec =
  ps_Volumes :: "SpecVolume list"
  ps_Containers :: "SpecContainer list"
  ps_RestartPolicy :: string
  ps_TerminationGracePeriodSeconds :: int
  ps_DnsPolicy :: string
  ps_NodeName :: string

record ContainerStateRunning =
  csr_StartedAt :: "string option"

record ContainerStateTerminated =
  cst_ContainerID :: string
  cst_ExitCode :: int
  cst_FinishedAt :: "string option"
  cst_Reason :: string
  cst_StartedAt :: "string option"

record ContainerState =
  cs_Running :: "ContainerStateRunning option"
  cs_Terminated :: "ContainerStateTerminated option"
  cs_Waiting :: "ContainerStateWaiting option"

record ContainerStatus =
  cns_Name :: string
  cns_State :: ContainerState
  cns_LastState :: ContainerState
  cns_Ready :: bool
  cns_RestartCount :: int
  cns_Image :: string
  cns_ImageID :: string
  cns_ContainerID :: string

record StatusCondition =
  stc_Type :: string
  stc_Status :: string
  stc_LastProbeTime :: "string option"
  stc_LastTransitionTime :: "string option"

record PodStatus =
  pst_Phase :: string
  pst_Conditions :: "StatusCondition list"
  pst_HostIP :: string
  pst_PodIP :: string
  pst_StartTime :: "string option"
  pst_ContainerStatuses :: "ContainerStatus list"

record Pod =
  pod_Metadata :: Metadata
  pod_Spec :: PodSpec
  pod_Status :: PodStatus

subsection \<open>Conversion\<close>

definition NewValueFrom :: "v1_EnvVarSource \<Rightarrow> ValueFrom option" where
  "NewValueFrom vf =
     (case vevs_SecretKeyRef vf of
        Some r \<Rightarrow> Some \<lparr> vf_FieldRef = None, vf_SecretKeyRef = Some r \<rparr>
      | None \<Rightarrow>
          (case vevs_FieldRef vf of
             Some r \<Rightarrow> Some \<lparr> vf_FieldRef = Some r, vf_SecretKeyRef = None \<rparr>
           | None \<Rightarrow> None))"

text \<open>The volume loop dereferences the pointer \<open>DefaultMode\<close>.\<close>

definition volume_of :: "v1_Volume \<Rightarrow> SpecVolume run" where
  "volume_of v =
     (case vvol_Secret v of
        None \<Rightarrow> Ret \<lparr> sv_Name = vvol_Name v, sv_Secret = None \<rparr>
      | Some s \<Rightarrow>
          (case vsv_DefaultMode s of
             None \<Rightarrow> Panic
           | Some mode \<Rightarrow> Ret \<lparr> sv_Name = vvol_Name v,
               sv_Secret = Some \<lparr> vs_SecretName = vsv_SecretName s, vs_DefaultMode = mode \<rparr> \<rparr>))"

definition zero_resource :: CpuMemoryResource where
  "zero_resource = \<lparr> cmr_Cpu = [], cmr_Memory = [] \<rparr>"

definition env_of :: "v1_EnvVar \<Rightarrow> ContainerEnv" where
  "env_of e = \<lparr> ce_Name = vev_Name e, ce_Value = vev_Value e,
     ce_ValueFrom = (case vev_ValueFrom e of None \<Rightarrow> None | Some vf \<Rightarrow> NewValueFrom vf) \<rparr>"

definition container_of :: "v1_Container \<Rightarrow> SpecContainer" where
  "container_of c = \<lparr>
     sc_Name = vct_Name c,
     sc_Image = vct_Image c,
     sc_Ports = map (\<lambda>p. \<lparr> cp_ContainerPort = vcp_ContainerPort p, cp_Protocol = vcp_Protocol p,
                          cp_Name = vcp_Name p \<rparr>) (vct_Ports c),
     sc_Env = map env_of (vct_Env c),
     sc_Resources = \<lparr>
       cr_Limits = (case vct_Limits c of None \<Rightarrow> zero_resource | Some r \<Rightarrow> r),
       cr_Requests = (case vct_Requests c of None \<Rightarrow> zero_resource | Some r \<Rightarrow> r) \<rparr>,
     sc_VolumeMounts = map (\<lambda>m. \<lparr> cvm_Name = vvm_Name m, cvm_MountPath = vvm_MountPath m,
                                 cvm_ReadOnly = vvm_ReadOnly m \<rparr>) (vct_VolumeMounts c),
     sc_ImagePullPolicy = vct_ImagePullPolicy c,
     sc_Args = vct_Args c \<rparr>"

definition PodSpecFromOsPodSpec :: "v1_PodSpec \<Rightarrow> PodSpec run" where
  "PodSpecFromOsPodSpec s =
     bind_run (map_run volume_of (vps_Volumes s)) (\<lambda>volumes.
       Ret \<lparr>
         ps_Volumes = volumes,
         ps_Containers = map container_of (vps_Containers s),
         ps_RestartPolicy = vps_RestartPolicy s,
         ps_TerminationGracePeriodSeconds =
           (case vps_TerminationGracePeriodSeconds s of None \<Rightarrow> 0 | Some v \<Rightarrow> v),
         ps_DnsPolicy = vps_DNSPolicy s,
         ps_NodeName = vps_NodeName s \<rparr>)"

definition PodContainerStateFromOsContainerState :: "v1_ContainerState \<Rightarrow> ContainerState" where
  "PodContainerStateFromOsContainerState c = \<lparr>
     cs_Running =
       (case vcs_Running c of
          None \<Rightarrow> None
        | Some t \<Rightarrow> if IsZero t then Some \<lparr> csr_StartedAt = None \<rparr>
                   else Some \<lparr> csr_StartedAt = Some (Format_RFC3339 t) \<rparr>),
     cs_Terminated =
       (case vcs_Terminated c of
          None \<Rightarrow> None
        | Some t \<Rightarrow> Some \<lparr> cst_ContainerID = vst_ContainerID t, cst_ExitCode = vst_ExitCode t,
            cst_FinishedAt = getFormattedTimeString (Some (vst_FinishedAt t)),
            cst_Reason = vst_Reason t,
            cst_StartedAt = getFormattedTimeString (Some (vst_StartedAt t)) \<rparr>),
     cs_Waiting = vcs_Waiting c \<rparr>"

definition condition_of :: "v1_PodCondition \<Rightarrow> StatusCondition" where
  "condition_of c = \<lparr> stc_Type = vpc_Type c, stc_Status = vpc_Status c,
     stc_LastProbeTime = getFormattedTimeString (Some (vpc_LastProbeTime c)),
     stc_LastTransitionTime = getFormattedTimeString (Some (vpc_LastTransitionTime c)) \<rparr>"

definition container_status_of :: "v1_ContainerStatus \<Rightarrow> ContainerStatus" where
  "container_status_of c = \<lparr>
     cns_Name = vcst_Name c,
     cns_State = PodContainerStateFromOsContainerState (vcst_State c),
     cns_LastState = PodContainerStateFromOsContainerState (vcst_LastTerminationState c),
     cns_Ready = vcst_Ready c,
     cns_RestartCount = vcst_RestartCount c,
     cns_Image = vcst_Image c,
     cns_ImageID = vcst_ImageID c,
     cns_ContainerID = vcst_ContainerID c \<rparr>"

definition PodStatusFromOsPodStatus :: "v1_PodStatus \<Rightarrow> PodStatus" where
  "PodStatusFromOsPodStatus s = \<lparr>
     pst_Phase = vpst_Phase s,
     pst_Conditions = map condition_of (vpst_Conditions s),
     pst_HostIP = vpst_HostIP s,
     pst_PodIP = vpst_PodIP s,
     pst_StartTime = getFormattedTimeString (vpst_StartTime s),
     pst_ContainerStatuses = map container_status_of (vpst_ContainerStatuses s) \<rparr>"

definition PodFromOsPod :: "v1_Pod \<Rightarrow> Pod run" where
  "PodFromOsPod p =
     bind_run (PodSpecFromOsPodSpec (vpod_Spec p)) (\<lambda>spec.
       Ret \<lparr> pod_Metadata = FromObjectMeta ''Pod'' (vpod_Meta p), pod_Spec = spec,
             pod_Status = PodStatusFromOsPodStatus (vpod_Status p) \<rparr>)"

definition NewPodList :: "v1_Pod list \<Rightarrow> Pod list run" where
  "NewPodList ps = map_run PodFromOsPod ps"

subsection \<open>Readiness\<close>

record RolloutedPod =
  rp_Name :: string
  rp_Status :: string

text \<open>
  The loop over the conditions of \<open>NewRolloutedPod\<close> (an API pod) and \<open>NewRolledOutPod\<close> (an
  entity): every condition of type Ready overwrites the result.
\<close>

fun ready_loop :: "('c \<Rightarrow> string) \<Rightarrow> ('c \<Rightarrow> string) \<Rightarrow> 'c list \<Rightarrow> string \<Rightarrow> string" where
  "ready_loop ty st [] r = r"
| "ready_loop ty st (c # cs) r =
     ready_loop ty st cs
       (if ty c = ''Ready'' then (if st c = ''True'' then ''Ready'' else ''Not ready'') else r)"

definition NewRolloutedPod :: "v1_Pod \<Rightarrow> RolloutedPod" where
  "NewRolloutedPod p = \<lparr> rp_Name = om_Name (vpod_Meta p),
     rp_Status = ready_loop vpc_Type vpc_Status (vpst_Conditions (vpod_Status p)) [] \<rparr>"

definition NewRolledOutPod :: "Pod \<Rightarrow> RolloutedPod" where
  "NewRolledOutPod p = \<lparr> rp_Name = md_Name (pod_Metadata p),
     rp_Status = ready_loop stc_Type stc_Status (pst_Conditions (pod_Status p)) [] \<rparr>"

text \<open>The inner loop of \<open>NewDeploymentsStatus\<close>: nil as soon as one pod is not ready.\<close>

fun ready_pods :: "v1_Pod list \<Rightarrow> RolloutedPod list option" where
  "ready_pods [] = Some []"
| "ready_pods (p # ps) =
     (if rp_Status (NewRolloutedPod p) \<noteq> ''Ready'' then None
      else (case ready_pods ps of None \<Rightarrow> None | Some rs \<Rightarrow> Some (NewRolloutedPod p # rs)))"

fun NewDeploymentsStatus ::
  "(string \<times> v1_Pod list) list \<Rightarrow> (string \<times> RolloutedPod list) list option" where
  "NewDeploymentsStatus [] = Some []"
| "NewDeploymentsStatus ((k, ps) # rest) =
     (case ready_pods ps of
        None \<Rightarrow> None
      | Some rs \<Rightarrow>
          (case NewDeploymentsStatus rest of None \<Rightarrow> None | Some m \<Rightarrow> Some ((k, rs) # m)))"

subsection \<open>Facts\<close>

lemma volume_of_Panic_iff:
  "volume_of v = Panic \<longleftrightarrow> (\<exists>s. vvol_Secret v = Some s \<and> vsv_DefaultMode s = None)"
  by (auto simp: volume_of_def split: option.splits)

lemma PodFromOsPod_Panic_iff:
  "PodFromOsPod p = Panic \<longleftrightarrow>
     (\<exists>v \<in> set (vps_Volumes (vpod_Spec p)). \<exists>s. vvol_Secret v = Some s \<and> vsv_DefaultMode s = None)"
  by (simp add: PodFromOsPod_def PodSpecFromOsPodSpec_def bind_run_eq_Panic map_run_eq_Panic
      volume_of_Panic_iff)

lemma PodFromOsPod_meta:
  "PodFromOsPod p = Ret e \<Longrightarrow> pod_Metadata e = FromObjectMeta ''Pod'' (vpod_Meta p)"
  by (auto simp: PodFromOsPod_def bind_run_eq_Ret)

lemma ready_loop_eq:
  "ready_loop ty st cs r =
     (case rev (filter (\<lambda>c. ty c = ''Ready'') cs) of
        [] \<Rightarrow> r
      | c # _ \<Rightarrow> if st c = ''True'' then ''Ready'' else ''Not ready'')"
proof (induction cs arbitrary: r)
  case Nil
  then show ?case by simp
next
  case (Cons c cs)
  then show ?case
    by (cases "rev (filter (\<lambda>c. ty c = ''Ready'') cs)") auto
qed

lemma ready_loop_map:
  "ready_loop ty st (map f cs) r = ready_loop (ty \<circ> f) (st \<circ> f) cs r"
  by (induction cs arbitrary: r) auto

lemma condition_of_simps [simp]:
  "stc_Type \<circ> condition_of = vpc_Type"
  "stc_Status \<circ> condition_of = vpc_Status"
  by (simp_all add: fun_eq_iff condition_of_def)

text \<open>The two readiness functions agree on a pod and its entity.\<close>

lemma NewRolledOutPod_entity:
  "PodFromOsPod p = Ret e \<Longrightarrow> NewRolledOutPod e = NewRolloutedPod p"
  by (auto simp: PodFromOsPod_def bind_run_eq_Ret NewRolledOutPod_def NewRolloutedPod_def
      PodStatusFromOsPodStatus_def ready_loop_map)

lemma ready_pods_eq:
  "ready_pods ps =
     (if \<forall>p \<in> set ps. rp_Status (NewRolloutedPod p) = ''Ready'' then Some (map NewRolloutedPod ps)
      else None)"
  by (induction ps) auto

lemma NewDeploymentsStatus_eq:
  "NewDeploymentsStatus m =
     (if \<forall>(k, ps) \<in> set m. \<forall>p \<in> set ps. rp_Status (NewRolloutedPod p) = ''Ready''
      then Some (map (\<lambda>(k, ps). (k, map NewRolloutedPod ps)) m) else None)"
  by (induction m rule: NewDeploymentsStatus.induct) (auto simp: ready_pods_eq)

end
