(* ===== verification/Deployment_Entity.thy ===== *)
theory Deployment_Entity
  imports Pod_Entity
begin

section \<open>Deployments and deployment configs\<close>

text \<open>
  \<open>entity/deployment.go\<close>: Kubernetes deployments and OpenShift deployment configs convert to the
  same entity.
\<close>

record v1_DeploymentCondition =
  vdc_LastTransitionTime :: gotime
  vdc_LastUpdateTime :: gotime
  vdc_Message :: string
  vdc_Reason :: string
  vdc_Status :: string
  vdc_Type :: string

record v1_DeploymentStatus =
  vds_AvailableReplicas :: int
  vds_Conditions :: "v1_DeploymentCondition list"
  vds_ObservedGeneration :: int
  vds_ReadyReplicas :: int
  vds_Replicas :: int
  vds_UpdatedReplicas :: int

record v1_PodTemplateSpec =
  vpt_Labels :: "string gomap"
  vpt_Spec :: v1_PodSpec

record v1_DeploymentSpec =
  vdsp_Replicas :: "int option"
  vdsp_RevisionHistoryLimit :: "int option"
  vdsp_Template :: v1_PodTemplateSpec
  vdsp_StrategyType :: string

record v1_Deployment =
  vdep_Meta :: ObjectMeta
  vdep_Spec :: v1_DeploymentSpec
  vdep_Status :: v1_DeploymentStatus

text \<open>An OpenShift deployment config has a plain replica count and an optional template.\<close>

record os_DeploymentConfigSpec =
  odcs_Replicas :: int
  odcs_RevisionHistoryLimit :: "int option"
  odcs_Template :: "v1_PodTemplateSpec option"
  odcs_StrategyType :: string

record os_DeploymentConfig =
  odc_Meta :: ObjectMeta
  odc_Spec :: os_DeploymentConfigSpec
  odc_Status :: v1_DeploymentStatus

record DeploymentCondition =
  dc_LastTransitionTime :: "string option"
  dc_LastUpdateTime :: "string option"
  dc_Message :: string
  dc_Reason :: string
  dc_Status :: string
  dc_Type :: string

record DeploymentStatus =
  ds_AvailableReplicas :: int
  ds_Conditions :: "DeploymentCondition list"
  ds_ObservedGeneration :: int
  ds_ReadyReplicas :: int
  ds_Replicas :: int
  ds_UpdatedReplicas :: int

record PodTemplateSpec =
  pts_Labels :: "string gomap"
  pts_Spec :: PodSpec

record DeploymentSpec =
  dsp_Replicas :: "int option"
  dsp_RevisionHistoryLimit :: "int option"
  dsp_Template :: PodTemplateSpec
  dsp_StrategyType :: string

record Deployment =
  dep_Metadata :: Metadata
  dep_Spec :: DeploymentSpec
  dep_Status :: DeploymentStatus

definition NewDeploymentCondition :: "v1_DeploymentCondition \<Rightarrow> DeploymentCondition" where
  "NewDeploymentCondition c = \<lparr>
     dc_LastTransitionTime = getFormattedTimeString (Some (vdc_LastTransitionTime c)),
     dc_LastUpdateTime = getFormattedTimeString (Some (vdc_LastUpdateTime c)),
     dc_Message = vdc_Message c, dc_Reason = vdc_Reason c, dc_Status = vdc_Status c,
     dc_Type = vdc_Type c \<rparr>"

fun NewConditions :: "v1_DeploymentCondition list \<Rightarrow> DeploymentCondition list" where
  "NewConditions [] = []"
| "NewConditions (c # cs) = NewDeploymentCondition c # NewConditions cs"

definition NewDeploymentStatus :: "v1_DeploymentStatus \<Rightarrow> DeploymentStatus" where
  "NewDeploymentStatus s = \<lparr>
     ds_AvailableReplicas = vds_AvailableReplicas s,
     ds_Conditions = NewConditions (vds_Conditions s),
     ds_ObservedGeneration = vds_ObservedGeneration s,
     ds_ReadyReplicas = vds_ReadyReplicas s,
     ds_Replicas = vds_Replicas s,
     ds_UpdatedReplicas = vds_UpdatedReplicas s \<rparr>"

definition zero_PodSpec :: v1_PodSpec where
  "zero_PodSpec = \<lparr> vps_Volumes = [], vps_Containers = [], vps_RestartPolicy = [],
     vps_TerminationGracePeriodSeconds = None, vps_DNSPolicy = [], vps_NodeName = [],
     vps_ServiceAccountName = [] \<rparr>"

definition NewPodTemplateSpec :: "v1_PodTemplateSpec option \<Rightarrow> PodTemplateSpec run" where
  "NewPodTemplateSpec template =
     (let labels = (case template of None \<Rightarrow> None | Some t \<Rightarrow> vpt_Labels t);
          spec = (case template of None \<Rightarrow> zero_PodSpec | Some t \<Rightarrow> vpt_Spec t)
      in bind_run (PodSpecFromOsPodSpec spec) (\<lambda>s. Ret \<lparr> pts_Labels = labels, pts_Spec = s \<rparr>))"

definition NewDeploymentSpec :: "v1_DeploymentSpec \<Rightarrow> DeploymentSpec run" where
  "NewDeploymentSpec s =
     bind_run (NewPodTemplateSpec (Some (vdsp_Template s))) (\<lambda>t.
       Ret \<lparr> dsp_Replicas = vdsp_Replicas s, dsp_RevisionHistoryLimit = vdsp_RevisionHistoryLimit s,
             dsp_Template = t, dsp_StrategyType = vdsp_StrategyType s \<rparr>)"

definition NewDeployment :: "v1_Deployment \<Rightarrow> Deployment run" where
  "NewDeployment d =
     bind_run (NewDeploymentSpec (vdep_Spec d)) (\<lambda>s.
       Ret \<lparr> dep_Metadata = FromObjectMeta ''Deployment'' (vdep_Meta d), dep_Spec = s,
             dep_Status = NewDeploymentStatus (vdep_Status d) \<rparr>)"

definition NewDeploymentList :: "v1_Deployment list \<Rightarrow> Deployment list run" where
  "NewDeploymentList ds = map_run NewDeployment ds"

definition NewDeploymentConfigCondition :: "v1_DeploymentCondition \<Rightarrow> DeploymentCondition" where
  "NewDeploymentConfigCondition c = \<lparr>
     dc_LastTransitionTime = getFormattedTimeString (Some (vdc_LastTransitionTime c)),
     dc_LastUpdateTime = getFormattedTimeString (Some (vdc_LastUpdateTime c)),
     dc_Message = vdc_Message c, dc_Reason = vdc_Reason c, dc_Status = vdc_Status c,
     dc_Type = vdc_Type c \<rparr>"

fun NewDeploymentConfigConditions :: "v1_DeploymentCondition list \<Rightarrow> DeploymentCondition list" where
  "NewDeploymentConfigConditions [] = []"
| "NewDeploymentConfigConditions (c # cs) =
     NewDeploymentConfigCondition c # NewDeploymentConfigConditions cs"

definition NewDeploymentConfigStatus :: "v1_DeploymentStatus \<Rightarrow> DeploymentStatus" where
  "NewDeploymentConfigStatus s = \<lparr>
     ds_AvailableReplicas = vds_AvailableReplicas s,
     ds_Conditions = NewDeploymentConfigConditions (vds_Conditions s),
     ds_ObservedGeneration = vds_ObservedGeneration s,
     ds_ReadyReplicas = vds_ReadyReplicas s,
     ds_Replicas = vds_Replicas s,
     ds_UpdatedReplicas = vds_UpdatedReplicas s \<rparr>"

definition NewDeploymentConfigSpec :: "os_DeploymentConfigSpec \<Rightarrow> DeploymentSpec run" where
  "NewDeploymentConfigSpec s =
     bind_run (NewPodTemplateSpec (odcs_Template s)) (\<lambda>t.
       Ret \<lparr> dsp_Replicas = Some (odcs_Replicas s),
             dsp_RevisionHistoryLimit = odcs_RevisionHistoryLimit s,
             dsp_Template = t, dsp_StrategyType = odcs_StrategyType s \<rparr>)"

definition NewDeploymentConfig :: "os_DeploymentConfig \<Rightarrow> Deployment run" where
  "NewDeploymentConfig d =
     bind_run (NewDeploymentConfigSpec (odc_Spec d)) (\<lambda>s.
       Ret \<lparr> dep_Metadata = NewMetadata ''DeploymentConfig'' (om_Name (odc_Meta d))
               (om_Namespace (odc_Meta d)) (om_UID (odc_Meta d)) (om_Generation (odc_Meta d))
               (om_ResourceVersion (odc_Meta d)) (om_Annotations (odc_Meta d)) (om_Labels (odc_Meta d)),
             dep_Spec = s,
             dep_Status = NewDeploymentConfigStatus (odc_Status d) \<rparr>)"

definition NewDeploymentConfigList :: "os_DeploymentConfig list \<Rightarrow> Deployment list run" where
  "NewDeploymentConfigList ds = map_run NewDeploymentConfig ds"

subsection \<open>Facts\<close>

lemma NewConditions_map: "NewConditions cs = map NewDeploymentCondition cs"
  by (induction cs) auto

lemma NewDeploymentConfigConditions_eq: "NewDeploymentConfigConditions cs = NewConditions cs"
  by (induction cs) (auto simp: NewDeploymentConfigCondition_def NewDeploymentCondition_def)

lemma NewDeploymentConfigStatus_eq: "NewDeploymentConfigStatus s = NewDeploymentStatus s"
  by (simp add: NewDeploymentConfigStatus_def NewDeploymentStatus_def NewDeploymentConfigConditions_eq)

text \<open>
  A deployment config with a template and a deployment with the same data give entities that
  differ in the kind only.
\<close>

lemma NewDeploymentConfig_as_Deployment:
  assumes "odcs_Template (odc_Spec d) = Some t"
  shows "NewDeploymentConfig d =
     bind_run (NewDeployment \<lparr> vdep_Meta = odc_Meta d,
         vdep_Spec = \<lparr> vdsp_Replicas = Some (odcs_Replicas (odc_Spec d)),
           vdsp_RevisionHistoryLimit = odcs_RevisionHistoryLimit (odc_Spec d), vdsp_Template = t,
           vdsp_StrategyType = odcs_StrategyType (odc_Spec d) \<rparr>,
         vdep_Status = odc_Status d \<rparr>)
       (\<lambda>e. Ret (e\<lparr>dep_Metadata := (dep_Metadata e)\<lparr>md_Kind := ''DeploymentConfig''\<rparr>\<rparr>))"
  using assms
  by (cases "NewPodTemplateSpec (Some t)")
    (simp_all add: NewDeploymentConfig_def NewDeployment_def NewDeploymentConfigSpec_def
      NewDeploymentSpec_def NewDeploymentConfigStatus_eq NewMetadata_def FromObjectMeta_def)

lemma NewDeploymentConfig_no_template:
  "odcs_Template (odc_Spec d) = None \<Longrightarrow> \<exists>e. NewDeploymentConfig d = Ret e \<and>
     ps_Containers (pts_Spec (dsp_Template (dep_Spec e))) = [] \<and>
     pts_Labels (dsp_Template (dep_Spec e)) = None"
  by (simp add: NewDeploymentConfig_def NewDeploymentConfigSpec_def NewPodTemplateSpec_def
      PodSpecFromOsPodSpec_def zero_PodSpec_def)

end
