(* ===== verification/Gateway_System.thy ===== *)
theory Gateway_System
  imports Go_Base
begin

section \<open>The gateway system switch\<close>

text \<open>
  \<open>service/internal/kubernetes/gateway_system.go\<close>: the value of \<open>GATEWAY_SYSTEM_TYPE\<close> selects
  whether routes are written as Ingresses, as Gateway API HTTPRoutes, or as both.
\<close>

definition LegacyIngress :: string where "LegacyIngress = ''legacy-ingress''"

definition GatewayApiDefault :: string where "GatewayApiDefault = ''gateway-api-default''"

definition DefaultGatewaySystemNamespace :: string where
  "DefaultGatewaySystemNamespace = ''gateway-system''"

definition DefaultGatewaySystemName :: string where
  "DefaultGatewaySystemName = ''default-external-gateway''"

record GatewaySystem =
  gs_Type :: string
  gs_Namespace :: string
  gs_Name :: string

definition IsGatewayAPIEnabled :: "GatewaySystem \<Rightarrow> bool" where
  "IsGatewayAPIEnabled g =
     (if gs_Type g = [] then False else Contains (gs_Type g) GatewayApiDefault)"

definition IsIngressEnabled :: "GatewaySystem \<Rightarrow> bool" where
  "IsIngressEnabled g =
     (if gs_Type g = [] then True else Contains (gs_Type g) LegacyIngress)"

definition IsBothGatewaySystemsEnabled :: "GatewaySystem \<Rightarrow> bool" where
  "IsBothGatewaySystemsEnabled g =
     (if gs_Type g = [] then False
      else Contains (gs_Type g) LegacyIngress \<and> Contains (gs_Type g) GatewayApiDefault)"

definition IsRouteCreationAllowed :: "GatewaySystem \<Rightarrow> bool" where
  "IsRouteCreationAllowed g = (IsGatewayAPIEnabled g \<or> IsIngressEnabled g)"

definition RouteCreationNotAllowedError :: "GatewaySystem \<Rightarrow> go_error" where
  "RouteCreationNotAllowedError g =
     Errorf (''GATEWAY_SYSTEM_TYPE='' @ gs_Type g @ '' does not allow any Route creation'') []"

definition RouteUpdateNotAllowedError :: "GatewaySystem \<Rightarrow> go_error" where
  "RouteUpdateNotAllowedError g =
     Errorf (''GATEWAY_SYSTEM_TYPE='' @ gs_Type g @ '' does not allow any Route update'') []"

lemma IsBothGatewaySystemsEnabled_iff:
  "IsBothGatewaySystemsEnabled g \<longleftrightarrow> IsGatewayAPIEnabled g \<and> IsIngressEnabled g"
  by (auto simp: IsBothGatewaySystemsEnabled_def IsGatewayAPIEnabled_def IsIngressEnabled_def)

end
