(* ===== verification/Kube_Resources.thy ===== *)
theory Kube_Resources
  imports Crud_Adapter Cache_Setup Deployment_Entity Gateway_System
begin

section \<open>The Kubernetes client and its plain resources\<close>

text \<open>
  \<open>configmap.go\<close>, \<open>secret.go\<close> (its first half), \<open>service.go\<close>, \<open>serviceaccount.go\<close>,
  \<open>namespace.go\<close>, \<open>certificate.go\<close>, \<open>deployment.go\<close> and \<open>deploymentfamiliyversions.go\<close> of
  \<open>service/internal/kubernetes\<close>. The record has the fields of the struct \<open>Kubernetes\<close> the
  operations use; the typed clients are functions of the namespace.
\<close>

text \<open>
  The dynamic client for traffic policies; unlike a typed client it may answer a write with nil.
\<close>

record 'w policy_client =
  dy_Get :: "string \<Rightarrow> ('w, BackendTrafficPolicy) io"
  dy_List :: "('w, BackendTrafficPolicy list) io"
  dy_Create :: "BackendTrafficPolicy \<Rightarrow> ('w, BackendTrafficPolicy option) io"
  dy_Update :: "BackendTrafficPolicy \<Rightarrow> ('w, BackendTrafficPolicy option) io"
  dy_Delete :: "string \<Rightarrow> ('w, unit) io"

text \<open>\<open>k_dynamic\<close> is nil when no dynamic client is configured, \<open>k_BG2Enabled\<close> when no function is set.\<close>

record ('w, 'c) Kubernetes =
  k_errs :: errlib
  k_labels_String :: "string gomap \<Rightarrow> string"
  k_namespace :: string
  k_Cache :: "'c ResourcesCache"
  k_UseNetworkingV1Ingress :: bool
  k_BG2Enabled :: "bool option"
  k_GatewaySystem :: GatewaySystem
  k_HTTPRouteRequestIdleTimeout :: string
  k_ConfigMaps :: "string \<Rightarrow> ('w, v1_ConfigMap) client"
  k_Secrets :: "string \<Rightarrow> ('w, v1_Secret) client"
  k_Services :: "string \<Rightarrow> ('w, v1_Service) client"
  k_ServiceAccounts :: "string \<Rightarrow> ('w, v1_ServiceAccount) client"
  k_Namespaces :: "('w, ObjectMeta) client"
  k_Certificates :: "string \<Rightarrow> ('w, cm_Certificate) client"
  k_Deployments :: "string \<Rightarrow> ('w, v1_Deployment) client"
  k_NetIngresses :: "string \<Rightarrow> ('w, net_Ingress) client"
  k_ExtIngresses :: "string \<Rightarrow> ('w, v1beta1_Ingress) client"
  k_HTTPRoutes :: "string \<Rightarrow> ('w, HTTPRoute) client"
  k_GRPCRoutes :: "string \<Rightarrow> ('w, GRPCRoute) client"
  k_dynamic :: "(string \<Rightarrow> 'w policy_client) option"

text \<open>A resource cache as the wrappers use it: the method \<open>Get\<close>, or nil.\<close>

definition cache_reader :: "('c, 't) ResourceCache option \<Rightarrow> (string \<Rightarrow> string \<Rightarrow> 'c \<Rightarrow> 't option) option" where
  "cache_reader c = map_option cache_Get c"

definition total :: "('f \<Rightarrow> 't) \<Rightarrow> 'f \<Rightarrow> 't run" where
  "total f x = Ret (f x)"

text \<open>The conversion loops over the items of a list object.\<close>

definition convert_items :: "('f \<Rightarrow> 't) \<Rightarrow> 'f list \<Rightarrow> 't list run" where
  "convert_items f items = Ret (map f items)"

subsection \<open>Config maps\<close>

definition GetConfigMap :: "('w, 'c) Kubernetes \<Rightarrow> string \<Rightarrow> string \<Rightarrow> ('w, 'c, ConfigMap option) act" where
  "GetConfigMap k name namespace = GetWrapper (k_errs k) name namespace (cl_Get (k_ConfigMaps k namespace))
     (cache_reader (ch_ConfigMaps (k_Cache k))) (total NewConfigMap)"

definition GetConfigMapList :: "('w, 'c) Kubernetes \<Rightarrow> string \<Rightarrow> filter_Meta \<Rightarrow> ('w, 'c) kstate \<Rightarrow>
    (ConfigMap list res \<times> ('w, 'c) kstate) option" where
  "GetConfigMapList k namespace f = ListWrapper (k_errs k) (k_labels_String k) f
     (cl_List (k_ConfigMaps k namespace)) (convert_items NewConfigMap) (\<lambda>t. md_Annotations (cm_Metadata t))"

definition DeleteConfigMap :: "('w, 'c) Kubernetes \<Rightarrow> string \<Rightarrow> string \<Rightarrow> ('w, 'c, unit) act" where
  "DeleteConfigMap k name namespace = DeleteWrapper name (cl_Delete (k_ConfigMaps k namespace))"

definition CreateConfigMap :: "('w, 'c) Kubernetes \<Rightarrow> ConfigMap \<Rightarrow> string \<Rightarrow> ('w, 'c, ConfigMap) act" where
  "CreateConfigMap k configMap namespace =
     CreateWrapper configMap (cl_Create (k_ConfigMaps k namespace)) ToConfigMap NewConfigMap"

definition UpdateOrCreateConfigMap :: "('w, 'c) Kubernetes \<Rightarrow> ConfigMap \<Rightarrow> string \<Rightarrow> ('w, 'c, ConfigMap) act" where
  "UpdateOrCreateConfigMap k configMap namespace =
     (let cl = k_ConfigMaps k namespace
      in UpdateOrCreateWrapper (k_errs k) cm_Metadata configMap (cl_Get cl) (cl_Create cl) (cl_Update cl)
           ToConfigMap NewConfigMap)"

subsection \<open>Secrets\<close>

definition GetSecret :: "('w, 'c) Kubernetes \<Rightarrow> string \<Rightarrow> string \<Rightarrow> ('w, 'c, Secret option) act" where
  "GetSecret k resourceName namespace = GetWrapper (k_errs k) resourceName namespace
     (cl_Get (k_Secrets k namespace)) (cache_reader (ch_Secrets (k_Cache k))) (total NewSecret)"

definition GetSecretList :: "('w, 'c) Kubernetes \<Rightarrow> string \<Rightarrow> filter_Meta \<Rightarrow> ('w, 'c) kstate \<Rightarrow>
    (Secret list res \<times> ('w, 'c) kstate) option" where
  "GetSecretList k namespace f = ListWrapper (k_errs k) (k_labels_String k) f
     (cl_List (k_Secrets k namespace)) (convert_items NewSecret) (\<lambda>t. md_Annotations (sec_Metadata t))"

definition CreateSecret :: "('w, 'c) Kubernetes \<Rightarrow> Secret \<Rightarrow> string \<Rightarrow> ('w, 'c, Secret) act" where
  "CreateSecret k secret namespace =
     CreateWrapper secret (cl_Create (k_Secrets k namespace)) ToSecret NewSecret"

definition DeleteSecret :: "('w, 'c) Kubernetes \<Rightarrow> string \<Rightarrow> string \<Rightarrow> ('w, 'c, unit) act" where
  "DeleteSecret k resourceName namespace = DeleteWrapper resourceName (cl_Delete (k_Secrets k namespace))"

definition UpdateOrCreateSecret :: "('w, 'c) Kubernetes \<Rightarrow> Secret \<Rightarrow> string \<Rightarrow> ('w, 'c, Secret) act" where
  "UpdateOrCreateSecret k secret namespace =
     (let cl = k_Secrets k namespace
      in UpdateOrCreateWrapper (k_errs k) sec_Metadata secret (cl_Get cl) (cl_Create cl) (cl_Update cl)
           ToSecret NewSecret)"

subsection \<open>Services\<close>

definition GetService :: "('w, 'c) Kubernetes \<Rightarrow> string \<Rightarrow> string \<Rightarrow> ('w, 'c, Service option) act" where
  "GetService k resourceName namespace = GetWrapper (k_errs k) resourceName namespace
     (cl_Get (k_Services k namespace)) (cache_reader (ch_Services (k_Cache k))) (total NewService)"

definition DeleteService :: "('w, 'c) Kubernetes \<Rightarrow> string \<Rightarrow> string \<Rightarrow> ('w, 'c, unit) act" where
  "DeleteService k resourceName namespace = DeleteWrapper resourceName (cl_Delete (k_Services k namespace))"

definition CreateService :: "('w, 'c) Kubernetes \<Rightarrow> Service \<Rightarrow> string \<Rightarrow> ('w, 'c, Service) act" where
  "CreateService k service namespace =
     CreateWrapper service (cl_Create (k_Services k namespace)) ToService NewService"

definition UpdateOrCreateService :: "('w, 'c) Kubernetes \<Rightarrow> Service \<Rightarrow> string \<Rightarrow> ('w, 'c, Service) act" where
  "UpdateOrCreateService k service namespace =
     (let cl = k_Services k namespace
      in UpdateOrCreateWrapper (k_errs k) svc_Metadata service (cl_Get cl) (cl_Create cl) (cl_Update cl)
           ToService NewService)"

definition GetServiceList :: "('w, 'c) Kubernetes \<Rightarrow> string \<Rightarrow> filter_Meta \<Rightarrow> ('w, 'c) kstate \<Rightarrow>
    (Service list res \<times> ('w, 'c) kstate) option" where
  "GetServiceList k namespace f = ListWrapper (k_errs k) (k_labels_String k) f
     (cl_List (k_Services k namespace)) (convert_items NewService) (\<lambda>t. md_Annotations (svc_Metadata t))"

subsection \<open>Service accounts\<close>

definition CreateServiceAccount :: "('w, 'c) Kubernetes \<Rightarrow> ServiceAccount \<Rightarrow> string \<Rightarrow> ('w, 'c, ServiceAccount) act" where
  "CreateServiceAccount k serviceAccount namespace =
     bind_act (api (cl_Create (k_ServiceAccounts k namespace) (ToServiceAccount serviceAccount)))
       (\<lambda>kubeServiceAccount. ret (NewServiceAccount kubeServiceAccount))"

definition GetServiceAccount :: "('w, 'c) Kubernetes \<Rightarrow> string \<Rightarrow> string \<Rightarrow> ('w, 'c, ServiceAccount option) act" where
  "GetServiceAccount k resourceName namespace = GetWrapper (k_errs k) resourceName namespace
     (cl_Get (k_ServiceAccounts k namespace)) None (total NewServiceAccount)"

definition GetServiceAccountList :: "('w, 'c) Kubernetes \<Rightarrow> string \<Rightarrow> filter_Meta \<Rightarrow> ('w, 'c) kstate \<Rightarrow>
    (ServiceAccount list res \<times> ('w, 'c) kstate) option" where
  "GetServiceAccountList k namespace f = ListWrapper (k_errs k) (k_labels_String k) f
     (cl_List (k_ServiceAccounts k namespace)) (convert_items NewServiceAccount)
     (\<lambda>t. md_Annotations (sa_Metadata t))"

definition DeleteServiceAccount :: "('w, 'c) Kubernetes \<Rightarrow> string \<Rightarrow> string \<Rightarrow> ('w, 'c, unit) act" where
  "DeleteServiceAccount k resourceName namespace =
     api (cl_Delete (k_ServiceAccounts k namespace) resourceName)"

subsection \<open>Namespaces\<close>

definition getCurrentNamespaceInternal :: "('w, 'c) Kubernetes \<Rightarrow> Namespace" where
  "getCurrentNamespaceInternal k =
     \<lparr> ns_Metadata = zero_Metadata\<lparr> md_Kind := ''Namespace'', md_Name := k_namespace k,
         md_Namespace := k_namespace k \<rparr> \<rparr>"

definition GetNamespace :: "('w, 'c) Kubernetes \<Rightarrow> string \<Rightarrow> ('w, 'c, Namespace option) act" where
  "GetNamespace k name =
     try_act (GetWrapper (k_errs k) name name (cl_Get (k_Namespaces k)) None (total NewNamespace))
       (\<lambda>r. case r of
          Inl err \<Rightarrow> if name = k_namespace k then ret (Some (getCurrentNamespaceInternal k)) else fail err
        | Inr ns \<Rightarrow> ret ns)"

definition GetNamespaces :: "('w, 'c) Kubernetes \<Rightarrow> filter_Meta \<Rightarrow> ('w, 'c, Namespace list) act" where
  "GetNamespaces k f =
     try_act (api (cl_List (k_Namespaces k) \<lparr> lo_LabelSelector = [], lo_Continue = [] \<rparr>)) (\<lambda>r.
       case r of
         Inl err \<Rightarrow>
           (case AsStatusError (k_errs k) err of
              Some st \<Rightarrow>
                if as_Reason st = ''Forbidden'' then
                  try_act (api (cl_Get (k_Namespaces k) (k_namespace k))) (\<lambda>c.
                    case c of
                      Inl _ \<Rightarrow> ret [getCurrentNamespaceInternal k]
                    | Inr ns \<Rightarrow> ret [NewNamespace ns])
                else fail err
            | None \<Rightarrow> fail err)
       | Inr namespaceList \<Rightarrow> ret (map NewNamespace (pg_Items namespaceList)))"

subsection \<open>Certificates\<close>

definition GetCertificate :: "('w, 'c) Kubernetes \<Rightarrow> string \<Rightarrow> string \<Rightarrow> ('w, 'c, Certificate option) act" where
  "GetCertificate k resourceName namespace = GetWrapper (k_errs k) resourceName namespace
     (cl_Get (k_Certificates k namespace)) (cache_reader (ch_Certificates (k_Cache k))) (total NewCertificate)"

definition GetCertificateList :: "('w, 'c) Kubernetes \<Rightarrow> string \<Rightarrow> filter_Meta \<Rightarrow> ('w, 'c) kstate \<Rightarrow>
    (Certificate list res \<times> ('w, 'c) kstate) option" where
  "GetCertificateList k namespace f = ListWrapper (k_errs k) (k_labels_String k) f
     (cl_List (k_Certificates k namespace)) (convert_items NewCertificate)
     (\<lambda>t. md_Annotations (cert_Metadata t))"

definition CreateCertificate :: "('w, 'c) Kubernetes \<Rightarrow> Certificate \<Rightarrow> string \<Rightarrow> ('w, 'c, Certificate) act" where
  "CreateCertificate k certificate namespace =
     CreateWrapper certificate (cl_Create (k_Certificates k namespace)) ToCertificate NewCertificate"

definition UpdateOrCreateCertificate :: "('w, 'c) Kubernetes \<Rightarrow> Certificate \<Rightarrow> string \<Rightarrow> ('w, 'c, Certificate) act" where
  "UpdateOrCreateCertificate k certificate namespace =
     (let cl = k_Certificates k namespace
      in UpdateOrCreateWrapper (k_errs k) cert_Metadata certificate (cl_Get cl) (cl_Create cl) (cl_Update cl)
           ToCertificate NewCertificate)"

definition DeleteCertificate :: "('w, 'c) Kubernetes \<Rightarrow> string \<Rightarrow> string \<Rightarrow> ('w, 'c, unit) act" where
  "DeleteCertificate k name namespace = DeleteWrapper name (cl_Delete (k_Certificates k namespace))"

subsection \<open>Deployments\<close>

definition GetDeployment :: "('w, 'c) Kubernetes \<Rightarrow> string \<Rightarrow> string \<Rightarrow> ('w, 'c, Deployment option) act" where
  "GetDeployment k resourceName namespace = GetWrapper (k_errs k) resourceName namespace
     (cl_Get (k_Deployments k namespace)) None NewDeployment"

definition GetDeploymentList :: "('w, 'c) Kubernetes \<Rightarrow> string \<Rightarrow> filter_Meta \<Rightarrow> ('w, 'c) kstate \<Rightarrow>
    (Deployment list res \<times> ('w, 'c) kstate) option" where
  "GetDeploymentList k namespace f = ListWrapper (k_errs k) (k_labels_String k) f
     (cl_List (k_Deployments k namespace)) (map_run NewDeployment) (\<lambda>t. md_Annotations (dep_Metadata t))"

definition FamilyNameProp :: string where "FamilyNameProp = ''family_name''"

definition GetDeploymentFamilyVersions :: "('w, 'c) Kubernetes \<Rightarrow> string \<Rightarrow> string \<Rightarrow> ('w, 'c) kstate \<Rightarrow>
    (DeploymentFamilyVersion list res \<times> ('w, 'c) kstate) option" where
  "GetDeploymentFamilyVersions k familyName namespace s =
     (let f = \<lparr> fm_Labels = Some [(FamilyNameProp, familyName)], fm_Annotations = None, fm_WatchBookmark = False \<rparr>
      in case GetDeploymentList k namespace f s of
           None \<Rightarrow> None
         | Some (Err err, s') \<Rightarrow> Some (Err err, s')
         | Some (Crash, s') \<Rightarrow> Some (Crash, s')
         | Some (Ok deploymentList, s') \<Rightarrow>
             Some (Ok (map (\<lambda>d. DeploymentToDeploymentFamilyVersion (md_Labels (dep_Metadata d))) deploymentList), s'))"

end
