(* ===== verification/Traffic_Policy.thy ===== *)
theory Traffic_Policy
  imports Kube_Resources
begin

section \<open>Managing traffic policies\<close>

text \<open>
  \<open>service/internal/kubernetes/backend_traffic_policy.go\<close> and \<open>validateAnnotationsForGatewayAPI\<close>
  of \<open>route.go\<close>: the BackendTrafficPolicy that accompanies an HTTPRoute of the same name.
\<close>

definition backendTrafficPolicyClient :: "('w, 'c) Kubernetes \<Rightarrow> string \<Rightarrow> 'w policy_client option" where
  "backendTrafficPolicyClient k namespace =
     (case k_dynamic k of None \<Rightarrow> None | Some dyn \<Rightarrow> Some (dyn namespace))"

text \<open>An error that means the policy, or its API, is not there. No error counts as such, too.\<close>

definition isIgnorablePolicyAbsence :: "errlib \<Rightarrow> go_error option \<Rightarrow> bool" where
  "isIgnorablePolicyAbsence errs err =
     (case err of
        None \<Rightarrow> True
      | Some e \<Rightarrow>
          if IsNotFound errs e \<or> IsMethodNotSupported errs e then True
          else if AsNoKindMatch errs e then True
          else AsNoResourceMatch errs e)"

text \<open>Without a client the caller skips the policy; the method only adds a line in the log.\<close>

definition backendTrafficPolicyClientOrSkip ::
  "('w, 'c) Kubernetes \<Rightarrow> string \<Rightarrow> string \<Rightarrow> 'w policy_client option" where
  [simp]: "backendTrafficPolicyClientOrSkip k namespace name = backendTrafficPolicyClient k namespace"

definition getBackendTrafficPolicy ::
  "('w, 'c) Kubernetes \<Rightarrow> string \<Rightarrow> string \<Rightarrow> ('w, 'c, BackendTrafficPolicy option) act" where
  "getBackendTrafficPolicy k name namespace =
     (case backendTrafficPolicyClient k namespace of
        None \<Rightarrow> ret None
      | Some client \<Rightarrow> try_act (api (dy_Get client name)) (\<lambda>r.
          case r of
            Inl err \<Rightarrow>
              if isIgnorablePolicyAbsence (k_errs k) (Some err) then ret None
              else fail (Errorf (''failed to get BackendTrafficPolicy '' @ name @ '': '' @ err_text err) [err])
          | Inr policy \<Rightarrow> ret (Some policy)))"

definition listBackendTrafficPoliciesByName ::
  "('w, 'c) Kubernetes \<Rightarrow> string \<Rightarrow> ('w, 'c, BackendTrafficPolicy gomap) act" where
  "listBackendTrafficPoliciesByName k namespace =
     (case backendTrafficPolicyClient k namespace of
        None \<Rightarrow> ret None
      | Some client \<Rightarrow> try_act (api (dy_List client)) (\<lambda>r.
          case r of
            Inl err \<Rightarrow>
              if isIgnorablePolicyAbsence (k_errs k) (Some err) then ret None
              else fail (Errorf (''failed to list BackendTrafficPolicies in '' @ namespace @ '': '' @ err_text err) [err])
          | Inr items \<Rightarrow> ret (foldl (\<lambda>out item. gm_put (tp_Name item) item out) (Some []) items)))"

definition isManagedBackendTrafficPolicy :: "BackendTrafficPolicy \<Rightarrow> bool" where
  "isManagedBackendTrafficPolicy policy \<longleftrightarrow> gm_str (tp_Labels policy) ManagedByLabel = ManagedByPaasMediation"

text \<open>\<open>None\<close> is the nil error.\<close>

definition skipOrWrapPolicyError :: "errlib \<Rightarrow> string \<Rightarrow> string \<Rightarrow> go_error \<Rightarrow> go_error option" where
  "skipOrWrapPolicyError errs operation name err =
     (if isIgnorablePolicyAbsence errs (Some err) then None
      else Some (Errorf (''failed to '' @ operation @ '' BackendTrafficPolicy '' @ name @ '': '' @ err_text err) [err]))"

definition policy_error :: "go_error option \<Rightarrow> ('w, 'c, 'a option) act" where
  "policy_error e = (case e of None \<Rightarrow> ret None | Some err \<Rightarrow> fail err)"

subsection \<open>Annotations that have no counterpart\<close>

definition criticalAnnotations :: "(string \<times> string) list" where
  "criticalAnnotations = [
     (''nginx.ingress.kubernetes.io/secure-backends'', ''requires BackendTLSPolicy''),
     (''nginx.ingress.kubernetes.io/auth-type'', ''requires SecurityPolicy''),
     (''nginx.ingress.kubernetes.io/ssl-passthrough'', ''requires TLSRoute instead of HTTPRoute''),
     (''nginx.ingress.kubernetes.io/configuration-snippet'',
        ''requires manual conversion using RequestHeaderModifier/ResponseHeaderModifier filters''),
     (''nginx.ingress.kubernetes.io/upstream-vhost'', ''requires EnvoyExtensionPolicy with Lua''),
     (''nginx.ingress.kubernetes.io/proxy-redirect-from'', ''requires EnvoyExtensionPolicy with Lua''),
     (''nginx.ingress.kubernetes.io/proxy-redirect-to'', ''requires EnvoyExtensionPolicy with Lua'')]"

text \<open>
  The field errors: key, value and message of each. The code ranges over the map of critical
  annotations in any order; only the order of the errors in the text depends on it.
\<close>

definition annotation_errors :: "string gomap \<Rightarrow> (string \<times> string \<times> string) list" where
  "annotation_errors annotations =
     map (\<lambda>(key, message). (key, gm_str annotations key, ''not supported for HTTPRoute creation: '' @ message))
       (filter (\<lambda>(key, message). gm_str annotations key \<noteq> []) criticalAnnotations) @
     (let protocol = gm_str annotations AnnotationBackendProtocol
      in if protocol \<noteq> [] \<and> \<not> EqualFold protocol ''GRPC''
         then [(AnnotationBackendProtocol, protocol, ''not supported for HTTPRoute creation: '' @
                 ''requires BackendTLSPolicy (for HTTPS) or BackendTrafficPolicy (for GRPC).'')]
         else [])"

definition validateAnnotationsForGatewayAPI :: "errlib \<Rightarrow> string gomap \<Rightarrow> go_error option" where
  "validateAnnotationsForGatewayAPI errs annotations =
     (let fieldErrors = annotation_errors annotations
      in if length fieldErrors = 0 then None
         else Some (LibError (NewInvalid errs ''gateway.networking.k8s.io'' ''HTTPRoute'' [] fieldErrors)))"

definition backendTrafficPolicyFromRoute ::
  "('w, 'c) Kubernetes \<Rightarrow> Route \<Rightarrow> string \<Rightarrow> go_error + BackendTrafficPolicy option" where
  "backendTrafficPolicyFromRoute k route namespace =
     (case validateAnnotationsForGatewayAPI (k_errs k) (md_Annotations (rt_Metadata route)) of
        Some err \<Rightarrow> Inl err
      | None \<Rightarrow>
          let routeCopy = route\<lparr>rt_Metadata := (rt_Metadata route)\<lparr>md_Namespace := namespace\<rparr>\<rparr>
          in case ToBackendTrafficPolicy routeCopy (k_HTTPRouteRequestIdleTimeout k) of
               Inl err \<Rightarrow> Inl (LibError (NewBadRequest (k_errs k) (err_text err)))
             | Inr policy \<Rightarrow> Inr policy)"

subsection \<open>Writing policies\<close>

definition deleteBackendTrafficPolicy ::
  "('w, 'c) Kubernetes \<Rightarrow> string \<Rightarrow> string \<Rightarrow> ('w, 'c, BackendTrafficPolicy option) act" where
  "deleteBackendTrafficPolicy k name namespace =
     (case backendTrafficPolicyClientOrSkip k namespace name of
        None \<Rightarrow> ret None
      | Some client \<Rightarrow> try_act (api (dy_Get client name)) (\<lambda>r.
          case r of
            Inl err \<Rightarrow>
              if isIgnorablePolicyAbsence (k_errs k) (Some err) then ret None
              else fail (Errorf (''failed to get BackendTrafficPolicy '' @ name @ '' before delete: ''
                     @ err_text err) [err])
          | Inr existing \<Rightarrow>
              if \<not> isManagedBackendTrafficPolicy existing then ret (Some existing)
              else try_act (api (dy_Delete client name)) (\<lambda>d.
                case d of
                  Inl err \<Rightarrow> policy_error (skipOrWrapPolicyError (k_errs k) ''delete'' name err)
                | Inr _ \<Rightarrow> ret None)))"

definition or_policy :: "BackendTrafficPolicy option \<Rightarrow> BackendTrafficPolicy \<Rightarrow> BackendTrafficPolicy option" where
  "or_policy answer policy = (case answer of Some p \<Rightarrow> Some p | None \<Rightarrow> Some policy)"

definition applyBackendTrafficPolicy ::
  "('w, 'c) Kubernetes \<Rightarrow> BackendTrafficPolicy option \<Rightarrow> string \<Rightarrow> string \<Rightarrow>
     ('w, 'c, BackendTrafficPolicy option) act" where
  "applyBackendTrafficPolicy k policy name namespace =
     (case backendTrafficPolicyClientOrSkip k namespace name of
        None \<Rightarrow> ret None
      | Some client \<Rightarrow>
         (case policy of
            None \<Rightarrow> deleteBackendTrafficPolicy k name namespace
          | Some policy \<Rightarrow> try_act (api (dy_Get client name)) (\<lambda>r.
              case r of
                Inl getErr \<Rightarrow>
                  if IsNotFound (k_errs k) getErr \<or> isIgnorablePolicyAbsence (k_errs k) (Some getErr) then
                    try_act (api (dy_Create client policy)) (\<lambda>c.
                      case c of
                        Inl createErr \<Rightarrow>
                          policy_error (skipOrWrapPolicyError (k_errs k) ''create'' name createErr)
                      | Inr created \<Rightarrow> ret (or_policy created policy))
                  else fail (Errorf (''failed to get BackendTrafficPolicy '' @ name @ '': '' @ err_text getErr)
                         [getErr])
              | Inr existing \<Rightarrow>
                  if \<not> isManagedBackendTrafficPolicy existing then ret (Some existing)
                  else
                    let policy' = policy\<lparr>tp_ResourceVersion := tp_ResourceVersion existing\<rparr>
                    in try_act (api (dy_Update client policy')) (\<lambda>u.
                         case u of
                           Inl updateErr \<Rightarrow>
                             policy_error (skipOrWrapPolicyError (k_errs k) ''update'' name updateErr)
                         | Inr updated \<Rightarrow> ret (or_policy updated policy')))))"

end
