(* ===== verification/Route_Service.thy ===== *)
theory Route_Service
  imports Traffic_Policy
begin

section \<open>Routes in the cluster\<close>

text \<open>
  \<open>service/internal/kubernetes/route.go\<close>: creating, updating, reading and deleting a route that
  is an Ingress, an HTTPRoute with its traffic policy, or both (dual mode), as the gateway system
  says. The functions return errors as values where the code combines the outcomes of the two.
\<close>

definition BG2IngressClassName :: string where
  "BG2IngressClassName = ''bg.mesh.netcracker.com''"

definition IgnoreApiConverterAnnotation :: string where
  "IgnoreApiConverterAnnotation = ''gateway-api-converter.netcracker.com/ignore''"

definition routeStatusCreated :: string where "routeStatusCreated = ''created''"

definition routeStatusUpdated :: string where "routeStatusUpdated = ''updated''"

record routeResourceResult =
  rr_route :: "Route option"
  rr_status :: string
  rr_err :: "go_error option"

definition no_result :: routeResourceResult where
  "no_result = \<lparr> rr_route = None, rr_status = [], rr_err = None \<rparr>"

definition failed_result :: "go_error \<Rightarrow> routeResourceResult" where
  "failed_result err = \<lparr> rr_route = None, rr_status = [], rr_err = Some err \<rparr>"

definition result_of :: "string \<Rightarrow> go_error + Route \<Rightarrow> routeResourceResult" where
  "result_of status r =
     (case r of
        Inl err \<Rightarrow> \<lparr> rr_route = None, rr_status = status, rr_err = Some err \<rparr>
      | Inr route \<Rightarrow> \<lparr> rr_route = Some route, rr_status = status, rr_err = None \<rparr>)"

subsection \<open>Combining outcomes\<close>

definition formatRouteResourceStatus :: "string \<Rightarrow> routeResourceResult \<Rightarrow> string" where
  "formatRouteResourceStatus name res =
     (case rr_err res of
        Some err \<Rightarrow> name @ '': error: '' @ err_text err
      | None \<Rightarrow> name @ '': '' @ rr_status res)"

definition formatRouteResourceStatusSummary :: "string \<Rightarrow> routeResourceResult \<Rightarrow> string" where
  "formatRouteResourceStatusSummary name res =
     (case rr_err res of
        Some err \<Rightarrow> name @ '': error''
      | None \<Rightarrow> name @ '': '' @ rr_status res)"

definition formatDualModeRouteStatus :: "routeResourceResult \<Rightarrow> routeResourceResult \<Rightarrow> string" where
  "formatDualModeRouteStatus httpRouteRes ingressRes =
     formatRouteResourceStatus ''httproute'' httpRouteRes @ '', '' @ formatRouteResourceStatus ''ingress'' ingressRes"

definition formatDualModeRouteStatusSummary :: "routeResourceResult \<Rightarrow> routeResourceResult \<Rightarrow> string" where
  "formatDualModeRouteStatusSummary httpRouteRes ingressRes =
     formatRouteResourceStatusSummary ''httproute'' httpRouteRes @ '', ''
       @ formatRouteResourceStatusSummary ''ingress'' ingressRes"

definition dualModeRouteError :: "routeResourceResult \<Rightarrow> routeResourceResult \<Rightarrow> go_error option" where
  "dualModeRouteError httpRouteRes ingressRes =
     (case (rr_err httpRouteRes, rr_err ingressRes) of
        (None, None) \<Rightarrow> None
      | (Some he, Some ie) \<Rightarrow>
          Some (Errorf (''httproute: error: '' @ err_text he @ '', ingress: error: '' @ err_text ie) [he, ie])
      | (he, ie) \<Rightarrow>
          let failedErr = (case he of Some e \<Rightarrow> e | None \<Rightarrow> the ie);
              status = formatDualModeRouteStatusSummary httpRouteRes ingressRes
          in Some (Errorf (status @ '' - try using Update endpoint'' @ '': '' @ err_text failedErr) [failedErr]))"

definition pickDualModeRouteResult :: "routeResourceResult \<Rightarrow> routeResourceResult \<Rightarrow> Route option" where
  "pickDualModeRouteResult ingressRes httpRouteRes =
     (case rr_route ingressRes of Some r \<Rightarrow> Some r | None \<Rightarrow> rr_route httpRouteRes)"

definition finishRouteOperation :: "Route option \<Rightarrow> string \<Rightarrow> go_error + Route option" where
  "finishRouteOperation route status = Inr route"

definition resolveRouteResult ::
  "bool \<Rightarrow> bool \<Rightarrow> routeResourceResult \<Rightarrow> routeResourceResult \<Rightarrow> go_error + Route option" where
  "resolveRouteResult useGatewayAPI useLegacyIngress httpRouteRes ingressRes =
     (if useGatewayAPI \<and> useLegacyIngress then
        (if rr_err httpRouteRes = None \<and> rr_err ingressRes = None
         then finishRouteOperation (pickDualModeRouteResult ingressRes httpRouteRes)
                (formatDualModeRouteStatus httpRouteRes ingressRes)
         else (case dualModeRouteError httpRouteRes ingressRes of
                 None \<Rightarrow> Inr None
               | Some err \<Rightarrow> Inl err))
      else if useGatewayAPI then
        (case rr_err httpRouteRes of
           Some err \<Rightarrow> Inl (Errorf (''httproute: error: '' @ err_text err) [err])
         | None \<Rightarrow> finishRouteOperation (rr_route httpRouteRes)
                     (formatRouteResourceStatus ''httproute'' httpRouteRes))
      else
        (case rr_err ingressRes of
           Some err \<Rightarrow> Inl (Errorf (''ingress: error: '' @ err_text err) [err])
         | None \<Rightarrow> finishRouteOperation (rr_route ingressRes) (formatRouteResourceStatus ''ingress'' ingressRes)))"

definition isDeleteFailure :: "errlib \<Rightarrow> go_error option \<Rightarrow> bool" where
  "isDeleteFailure errs err = (case err of None \<Rightarrow> False | Some e \<Rightarrow> \<not> IsNotFound errs e)"

definition is_notfound :: "errlib \<Rightarrow> go_error option \<Rightarrow> bool" where
  "is_notfound errs err = (case err of None \<Rightarrow> False | Some e \<Rightarrow> IsNotFound errs e)"

definition routeResourceDeleteStatus :: "string \<Rightarrow> go_error option \<Rightarrow> string" where
  "routeResourceDeleteStatus name err =
     (case err of None \<Rightarrow> name @ '': deleted'' | Some e \<Rightarrow> name @ '': error: '' @ err_text e)"

definition formatDualModeDeleteRouteStatus :: "go_error option \<Rightarrow> go_error option \<Rightarrow> string" where
  "formatDualModeDeleteRouteStatus httpRouteErr ingressErr =
     routeResourceDeleteStatus ''httproute'' httpRouteErr @ '', '' @ routeResourceDeleteStatus ''ingress'' ingressErr"

definition newRouteDeleteNotFoundError :: "errlib \<Rightarrow> string \<Rightarrow> string \<Rightarrow> go_error" where
  "newRouteDeleteNotFoundError errs routeName status =
     LibError ((NewNotFound errs ''routes'' routeName)\<lparr>le_message := status\<rparr>)"

definition dualModeDeleteError :: "errlib \<Rightarrow> go_error option \<Rightarrow> go_error option \<Rightarrow> go_error" where
  "dualModeDeleteError errs httpRouteErr ingressErr =
     (let httpFailed = isDeleteFailure errs httpRouteErr;
          ingressFailed = isDeleteFailure errs ingressErr;
          h = the httpRouteErr; i = the ingressErr
      in if httpFailed \<and> ingressFailed
         then Errorf (''httproute: error: '' @ err_text h @ '', ingress: error: '' @ err_text i) [h, i]
         else if httpFailed then Errorf (''httproute: error: '' @ err_text h) [h]
         else Errorf (''ingress: error: '' @ err_text i) [i])"

definition resolveSingleResourceDeleteResult :: "errlib \<Rightarrow> string \<Rightarrow> go_error option \<Rightarrow> go_error option" where
  "resolveSingleResourceDeleteResult errs resourceName err =
     (case err of
        None \<Rightarrow> None
      | Some e \<Rightarrow>
          if isDeleteFailure errs err then Some (Errorf (resourceName @ '': error: '' @ err_text e) [e])
          else Some e)"

definition resolveDeleteRouteResult ::
  "errlib \<Rightarrow> bool \<Rightarrow> bool \<Rightarrow> string \<Rightarrow> go_error option \<Rightarrow> go_error option \<Rightarrow> go_error option" where
  "resolveDeleteRouteResult errs useGatewayAPI useLegacyIngress routeName httpRouteErr ingressErr =
     (if useGatewayAPI \<and> useLegacyIngress then
        let status = formatDualModeDeleteRouteStatus httpRouteErr ingressErr
        in if is_notfound errs httpRouteErr \<and> is_notfound errs ingressErr
           then Some (newRouteDeleteNotFoundError errs routeName status)
           else if isDeleteFailure errs httpRouteErr \<or> isDeleteFailure errs ingressErr
           then Some (dualModeDeleteError errs httpRouteErr ingressErr)
           else None
      else if useGatewayAPI then resolveSingleResourceDeleteResult errs ''httproute'' httpRouteErr
      else if useLegacyIngress then resolveSingleResourceDeleteResult errs ''ingress'' ingressErr
      else None)"

subsection \<open>Configuring an Ingress\<close>

definition applyIgnoreApiConverterAnnotation :: "ObjectMeta \<Rightarrow> ObjectMeta" where
  "applyIgnoreApiConverterAnnotation meta =
     meta\<lparr>om_Annotations := gm_put IgnoreApiConverterAnnotation ''true''
       (case om_Annotations meta of None \<Rightarrow> Some [] | Some al \<Rightarrow> Some al)\<rparr>"

definition ingress_class_for_BG2 :: "('w, 'c) Kubernetes \<Rightarrow> string option \<Rightarrow> string option" where
  "ingress_class_for_BG2 k className =
     (case k_BG2Enabled k of
        Some True \<Rightarrow> (case className of None \<Rightarrow> Some BG2IngressClassName | Some n \<Rightarrow> Some n)
      | _ \<Rightarrow> className)"

definition configureIngress_net :: "('w, 'c) Kubernetes \<Rightarrow> net_Ingress \<Rightarrow> net_Ingress" where
  "configureIngress_net k ingress =
     (let i = ingress\<lparr>ni_IngressClassName := ingress_class_for_BG2 k (ni_IngressClassName ingress)\<rparr>
      in if IsBothGatewaySystemsEnabled (k_GatewaySystem k)
         then i\<lparr>ni_Meta := applyIgnoreApiConverterAnnotation (ni_Meta i)\<rparr> else i)"

definition configureIngress_ext :: "('w, 'c) Kubernetes \<Rightarrow> v1beta1_Ingress \<Rightarrow> v1beta1_Ingress" where
  "configureIngress_ext k ingress =
     (let i = ingress\<lparr>bi_IngressClassName := ingress_class_for_BG2 k (bi_IngressClassName ingress)\<rparr>
      in if IsBothGatewaySystemsEnabled (k_GatewaySystem k)
         then i\<lparr>bi_Meta := applyIgnoreApiConverterAnnotation (bi_Meta i)\<rparr> else i)"

text \<open>
  An Ingress made from a route shares the route's annotation map, so in dual mode the entry that
  \<open>applyIgnoreApiConverterAnnotation\<close> adds shows in the caller's route unless that map is nil: this
  is the caller's route after the Ingress was configured.
\<close>

definition route_after_configureIngress :: "('w, 'c) Kubernetes \<Rightarrow> Route \<Rightarrow> Route" where
  "route_after_configureIngress k route =
     (if IsBothGatewaySystemsEnabled (k_GatewaySystem k)
      then (case md_Annotations (rt_Metadata route) of
              None \<Rightarrow> route
            | Some al \<Rightarrow> route\<lparr>rt_Metadata := (rt_Metadata route)\<lparr>md_Annotations :=
                gm_put IgnoreApiConverterAnnotation ''true'' (Some al)\<rparr>\<rparr>)
      else route)"

subsection \<open>Caching\<close>

definition cache_step :: "('c \<Rightarrow> (go_error + bool) \<times> 'c) \<Rightarrow> ('w, 'c, bool) act" where
  "cache_step f s =
     (case f (ks_cache s) of
        (Inl e, c) \<Rightarrow> (Err e, s\<lparr>ks_cache := c\<rparr>)
      | (Inr ok, c) \<Rightarrow> (Ok ok, s\<lparr>ks_cache := c\<rparr>))"

definition cacheIngressRoute :: "('w, 'c) Kubernetes \<Rightarrow> Route option \<Rightarrow> ('w, 'c, unit) act" where
  "cacheIngressRoute k route =
     (case (ch_Ingresses (k_Cache k), route) of
        (Some rc, Some r) \<Rightarrow> try_act (cache_step (cache_Set rt_Metadata rc r)) (\<lambda>x.
          case x of
            Inl err \<Rightarrow> fail (Errorf (''failed to place ingress into cache: '' @ err_text err) [err])
          | Inr _ \<Rightarrow> ret ())
      | _ \<Rightarrow> ret ())"

definition cacheHTTPRoute :: "('w, 'c) Kubernetes \<Rightarrow> HTTPRoute \<Rightarrow> ('w, 'c, unit) act" where
  "cacheHTTPRoute k httpRoute =
     (case ch_HTTPRoute (k_Cache k) of
        Some rc \<Rightarrow> try_act (cache_step (cache_Set (\<lambda>_. FromObjectMeta (ht_Kind httpRoute) (ht_Meta httpRoute))
                     rc (WrapHTTPRoute httpRoute))) (\<lambda>x.
          case x of
            Inl err \<Rightarrow> fail (Errorf (''failed to place HTTPRoute into cache: '' @ err_text err) [err])
          | Inr _ \<Rightarrow> ret ())
      | None \<Rightarrow> ret ())"

subsection \<open>Creating\<close>

definition createNetworkingV1IngressRoute :: "('w, 'c) Kubernetes \<Rightarrow> Route \<Rightarrow> string \<Rightarrow> ('w, 'c, Route) act" where
  "createNetworkingV1IngressRoute k route namespace =
     (let ingress = configureIngress_net k (ToIngressNetworkingV1 route)
      in bind_act (api (cl_Create (k_NetIngresses k namespace) ingress)) (\<lambda>createdIngress.
         bind_act (of_run (RouteFromIngressNetworkingV1 createdIngress)) (\<lambda>ingressRoute.
         bind_act (cacheIngressRoute k (Some ingressRoute)) (\<lambda>_. ret ingressRoute))))"

definition createExtensionsV1IngressRoute :: "('w, 'c) Kubernetes \<Rightarrow> Route \<Rightarrow> string \<Rightarrow> ('w, 'c, Route) act" where
  "createExtensionsV1IngressRoute k route namespace =
     (let ingress = configureIngress_ext k (ToIngress route)
      in bind_act (api (cl_Create (k_ExtIngresses k namespace) ingress)) (\<lambda>createdIngress.
         let ingressRoute = RouteFromIngress createdIngress
         in bind_act (cacheIngressRoute k (Some ingressRoute)) (\<lambda>_. ret ingressRoute)))"

definition createRouteLegacyIngress :: "('w, 'c) Kubernetes \<Rightarrow> Route \<Rightarrow> string \<Rightarrow> ('w, 'c, Route) act" where
  "createRouteLegacyIngress k route namespace =
     (if k_UseNetworkingV1Ingress k then createNetworkingV1IngressRoute k route namespace
      else createExtensionsV1IngressRoute k route namespace)"

text \<open>
  What follows the write of an HTTPRoute: the policy is applied, the route read back, which may
  change the HTTPRoute, and the HTTPRoute cached.
\<close>

definition finish_http_route ::
  "('w, 'c) Kubernetes \<Rightarrow> HTTPRoute \<Rightarrow> BackendTrafficPolicy option \<Rightarrow> string \<Rightarrow> string \<Rightarrow> ('w, 'c, Route) act" where
  "finish_http_route k httpRoute policy name namespace =
     bind_act (applyBackendTrafficPolicy k policy name namespace) (\<lambda>storedPolicy.
       let routeFromHTTPRoute = RouteFromHTTPRouteWithPolicy httpRoute storedPolicy
       in bind_act (cacheHTTPRoute k (HTTPRoute_after_conversion httpRoute storedPolicy))
            (\<lambda>_. ret routeFromHTTPRoute))"

definition createHTTPRoute :: "('w, 'c) Kubernetes \<Rightarrow> Route \<Rightarrow> string \<Rightarrow> ('w, 'c, Route) act" where
  "createHTTPRoute k route namespace =
     bind_act (of_sum (backendTrafficPolicyFromRoute k route namespace)) (\<lambda>policy.
       let httpRoute = ToHTTPRoute (gs_Namespace (k_GatewaySystem k)) (gs_Name (k_GatewaySystem k)) route
       in bind_act (api (cl_Create (k_HTTPRoutes k namespace) httpRoute)) (\<lambda>createdHTTPRoute.
            finish_http_route k createdHTTPRoute policy (md_Name (rt_Metadata route)) namespace))"

definition CreateRoute :: "('w, 'c) Kubernetes \<Rightarrow> Route \<Rightarrow> string \<Rightarrow> ('w, 'c, Route option) act" where
  "CreateRoute k route namespace =
     (if \<not> IsRouteCreationAllowed (k_GatewaySystem k)
      then fail (RouteCreationNotAllowedError (k_GatewaySystem k))
      else
        let useGatewayAPI = IsGatewayAPIEnabled (k_GatewaySystem k);
            useLegacyIngress = IsIngressEnabled (k_GatewaySystem k)
        in bind_act (if useGatewayAPI
                     then try_act (createHTTPRoute k route namespace) (\<lambda>r. ret (result_of routeStatusCreated r))
                     else ret no_result) (\<lambda>httpRouteRes.
           bind_act (if useLegacyIngress
                     then try_act (createRouteLegacyIngress k route namespace)
                            (\<lambda>r. ret (result_of routeStatusCreated r))
                     else ret no_result) (\<lambda>ingressRes.
           of_sum (resolveRouteResult useGatewayAPI useLegacyIngress httpRouteRes ingressRes))))"

subsection \<open>Updating\<close>

text \<open>The methods return a \<open>routeResourceResult\<close>, so their errors are part of what they return.\<close>

definition upsert_result :: "('w, 'c, routeResourceResult) act \<Rightarrow> ('w, 'c, routeResourceResult) act" where
  "upsert_result m = try_act m (\<lambda>r. case r of Inl err \<Rightarrow> ret (failed_result err) | Inr x \<Rightarrow> ret x)"

definition upsertHTTPRoute :: "('w, 'c) Kubernetes \<Rightarrow> Route \<Rightarrow> string \<Rightarrow> ('w, 'c, routeResourceResult) act" where
  "upsertHTTPRoute k route namespace =
     try_act (api (cl_Get (k_HTTPRoutes k namespace) (md_Name (rt_Metadata route)))) (\<lambda>g.
       case g of
         Inl err \<Rightarrow>
           if IsNotFound (k_errs k) err
           then try_act (createHTTPRoute k route namespace) (\<lambda>r. ret (result_of routeStatusCreated r))
           else ret (failed_result err)
       | Inr originalHTTPRoute \<Rightarrow> upsert_result (
           bind_act (of_sum (backendTrafficPolicyFromRoute k route namespace)) (\<lambda>policy.
           let h = ToHTTPRoute (gs_Namespace (k_GatewaySystem k)) (gs_Name (k_GatewaySystem k)) route;
               httpRouteToUpdate = h\<lparr>ht_Meta := (ht_Meta h)
                 \<lparr>om_ResourceVersion := om_ResourceVersion (ht_Meta originalHTTPRoute)\<rparr>\<rparr>
           in bind_act (api (cl_Update (k_HTTPRoutes k namespace) httpRouteToUpdate)) (\<lambda>updatedHTTPRoute.
              bind_act (finish_http_route k updatedHTTPRoute policy (md_Name (rt_Metadata route)) namespace)
                (\<lambda>r. ret (result_of routeStatusUpdated (Inr r)))))))"

definition upsertNetworkingV1Ingress ::
  "('w, 'c) Kubernetes \<Rightarrow> Route \<Rightarrow> string \<Rightarrow> ('w, 'c, routeResourceResult) act" where
  "upsertNetworkingV1Ingress k route namespace =
     try_act (api (cl_Get (k_NetIngresses k namespace) (md_Name (rt_Metadata route)))) (\<lambda>g.
       case g of
         Inl err \<Rightarrow>
           if IsNotFound (k_errs k) err
           then try_act (createRouteLegacyIngress k route namespace) (\<lambda>r. ret (result_of routeStatusCreated r))
           else ret (failed_result err)
       | Inr originalIngress \<Rightarrow> upsert_result (
           let i = ToIngressNetworkingV1 route;
               i = i\<lparr>ni_Meta := (ni_Meta i)\<lparr>om_ResourceVersion := om_ResourceVersion (ni_Meta originalIngress)\<rparr>\<rparr>;
               className = ni_IngressClassName i;
               i = (if className = None \<or> className = Some []
                    then i\<lparr>ni_IngressClassName := ni_IngressClassName originalIngress\<rparr> else i);
               ingressToUpdate = configureIngress_net k i
           in bind_act (api (cl_Update (k_NetIngresses k namespace) ingressToUpdate)) (\<lambda>updatedIngress.
              bind_act (of_run (RouteFromIngressNetworkingV1 updatedIngress)) (\<lambda>ingressNetworkingV1.
              bind_act (cacheIngressRoute k (Some ingressNetworkingV1)) (\<lambda>_.
                ret (result_of routeStatusUpdated (Inr ingressNetworkingV1)))))))"

definition upsertExtensionsV1Ingress ::
  "('w, 'c) Kubernetes \<Rightarrow> Route \<Rightarrow> string \<Rightarrow> ('w, 'c, routeResourceResult) act" where
  "upsertExtensionsV1Ingress k route namespace =
     try_act (api (cl_Get (k_ExtIngresses k namespace) (md_Name (rt_Metadata route)))) (\<lambda>g.
       case g of
         Inl err \<Rightarrow>
           if IsNotFound (k_errs k) err
           then try_act (createRouteLegacyIngress k route namespace) (\<lambda>r. ret (result_of routeStatusCreated r))
           else ret (failed_result err)
       | Inr originalIngress \<Rightarrow> upsert_result (
           let i = ToIngress route;
               i = i\<lparr>bi_Meta := (bi_Meta i)\<lparr>om_ResourceVersion := om_ResourceVersion (bi_Meta originalIngress)\<rparr>\<rparr>;
               ingressToUpdate = configureIngress_ext k i
           in bind_act (api (cl_Update (k_ExtIngresses k namespace) ingressToUpdate)) (\<lambda>updatedIngress.
              let routeFromIngress = RouteFromIngress updatedIngress
              in bind_act (cacheIngressRoute k (Some routeFromIngress)) (\<lambda>_.
                ret (result_of routeStatusUpdated (Inr routeFromIngress))))))"

definition upsertLegacyIngress ::
  "('w, 'c) Kubernetes \<Rightarrow> Route \<Rightarrow> string \<Rightarrow> ('w, 'c, routeResourceResult) act" where
  "upsertLegacyIngress k route namespace =
     (if k_UseNetworkingV1Ingress k then upsertNetworkingV1Ingress k route namespace
      else upsertExtensionsV1Ingress k route namespace)"

definition UpdateOrCreateRoute :: "('w, 'c) Kubernetes \<Rightarrow> Route \<Rightarrow> string \<Rightarrow> ('w, 'c, Route option) act" where
  "UpdateOrCreateRoute k route namespace =
     (if \<not> IsRouteCreationAllowed (k_GatewaySystem k)
      then fail (RouteUpdateNotAllowedError (k_GatewaySystem k))
      else
        let useGatewayAPI = IsGatewayAPIEnabled (k_GatewaySystem k);
            useLegacyIngress = IsIngressEnabled (k_GatewaySystem k)
        in bind_act (if useGatewayAPI then upsertHTTPRoute k route namespace else ret no_result)
             (\<lambda>httpRouteRes.
           bind_act (if useLegacyIngress then upsertLegacyIngress k route namespace else ret no_result)
             (\<lambda>ingressRes.
           of_sum (resolveRouteResult useGatewayAPI useLegacyIngress httpRouteRes ingressRes))))"

subsection \<open>Reading\<close>

definition routeFromHTTPRoute ::
  "('w, 'c) Kubernetes \<Rightarrow> HTTPRoute \<Rightarrow> string \<Rightarrow> string \<Rightarrow> ('w, 'c, Route) act" where
  "routeFromHTTPRoute k httpRoute name namespace =
     bind_act (getBackendTrafficPolicy k name namespace) (\<lambda>policy.
       ret (RouteFromHTTPRouteWithPolicy httpRoute policy))"

text \<open>The conversion of the shared watch handler; without a policy when it cannot be read.\<close>

definition routeFromWatchedHTTPRoute ::
  "('w, 'c) Kubernetes \<Rightarrow> HTTPRoute option \<Rightarrow> ('w, 'c, Route option) act" where
  "routeFromWatchedHTTPRoute k httpRoute =
     (case httpRoute of
        None \<Rightarrow> ret None
      | Some h \<Rightarrow> try_act (getBackendTrafficPolicy k (om_Name (ht_Meta h)) (om_Namespace (ht_Meta h))) (\<lambda>r.
          case r of
            Inl err \<Rightarrow> ret (Some (RouteFromHTTPRoute h))
          | Inr policy \<Rightarrow> ret (Some (RouteFromHTTPRouteWithPolicy h policy))))"

definition GetRoute :: "('w, 'c) Kubernetes \<Rightarrow> string \<Rightarrow> string \<Rightarrow> ('w, 'c, Route option) act" where
  "GetRoute k resourceName namespace =
     (if IsGatewayAPIEnabled (k_GatewaySystem k) then
        bind_act (GetWrapper (k_errs k) resourceName namespace (cl_Get (k_HTTPRoutes k namespace))
                    (cache_reader (ch_HTTPRoute (k_Cache k))) (total WrapHTTPRoute)) (\<lambda>httpRoute.
          case httpRoute of
            None \<Rightarrow> fail (Errorf (''HTTPRoute '' @ resourceName @ '' not found in namespace '' @ namespace) [])
          | Some w \<Rightarrow>
             (case wrapped w of
                None \<Rightarrow> fail (Errorf (''HTTPRoute '' @ resourceName @
                   '' has nil underlying object in namespace '' @ namespace) [])
              | Some h \<Rightarrow> bind_act (routeFromHTTPRoute k h resourceName namespace) (\<lambda>r. ret (Some r))))
      else if k_UseNetworkingV1Ingress k then
        GetWrapper (k_errs k) resourceName namespace (cl_Get (k_NetIngresses k namespace))
          (cache_reader (ch_Ingresses (k_Cache k))) RouteFromIngressNetworkingV1
      else
        GetWrapper (k_errs k) resourceName namespace (cl_Get (k_ExtIngresses k namespace))
          (cache_reader (ch_Ingresses (k_Cache k))) (total RouteFromIngress))"

definition GetRouteList :: "('w, 'c) Kubernetes \<Rightarrow> string \<Rightarrow> filter_Meta \<Rightarrow> ('w, 'c) kstate \<Rightarrow>
    (Route list res \<times> ('w, 'c) kstate) option" where
  "GetRouteList k namespace f s =
     (if IsGatewayAPIEnabled (k_GatewaySystem k) then
        (case listBackendTrafficPoliciesByName k namespace s of
           (Err err, s') \<Rightarrow> Some (Err err, s')
         | (Crash, s') \<Rightarrow> Some (Crash, s')
         | (Ok policies, s') \<Rightarrow>
             ListWrapper (k_errs k) (k_labels_String k) f (cl_List (k_HTTPRoutes k namespace))
               (convert_items (\<lambda>item. RouteFromHTTPRouteWithPolicy item (gm_get policies (om_Name (ht_Meta item)))))
               (\<lambda>t. md_Annotations (rt_Metadata t)) s')
      else if k_UseNetworkingV1Ingress k then
        ListWrapper (k_errs k) (k_labels_String k) f (cl_List (k_NetIngresses k namespace))
          (map_run RouteFromIngressNetworkingV1) (\<lambda>t. md_Annotations (rt_Metadata t)) s
      else
        ListWrapper (k_errs k) (k_labels_String k) f (cl_List (k_ExtIngresses k namespace))
          (convert_items RouteFromIngress) (\<lambda>t. md_Annotations (rt_Metadata t)) s)"

text \<open>Wrappers made from the items of a list hold an object.\<close>

definition GetHttpRouteList :: "('w, 'c) Kubernetes \<Rightarrow> string \<Rightarrow> filter_Meta \<Rightarrow> ('w, 'c) kstate \<Rightarrow>
    (HttpRoute list res \<times> ('w, 'c) kstate) option" where
  "GetHttpRouteList k namespace f =
     ListWrapper (k_errs k) (k_labels_String k) f (cl_List (k_HTTPRoutes k namespace))
       (convert_items WrapHTTPRoute)
       (\<lambda>t. case wrapped t of None \<Rightarrow> None | Some h \<Rightarrow> om_Annotations (ht_Meta h))"

definition GetGrpcRouteList :: "('w, 'c) Kubernetes \<Rightarrow> string \<Rightarrow> filter_Meta \<Rightarrow> ('w, 'c) kstate \<Rightarrow>
    (GrpcRoute list res \<times> ('w, 'c) kstate) option" where
  "GetGrpcRouteList k namespace f =
     ListWrapper (k_errs k) (k_labels_String k) f (cl_List (k_GRPCRoutes k namespace))
       (convert_items RouteFromGRPCRoute)
       (\<lambda>t. case wrapped t of None \<Rightarrow> None | Some g \<Rightarrow> om_Annotations (gr_Meta g))"

subsection \<open>Deleting\<close>

definition deleteRouteHTTPRoute ::
  "('w, 'c) Kubernetes \<Rightarrow> string \<Rightarrow> string \<Rightarrow> ('w, 'c, go_error option) act" where
  "deleteRouteHTTPRoute k routeName namespace =
     try_act (api (cl_Delete (k_HTTPRoutes k namespace) routeName)) (\<lambda>r.
       let err = (case r of Inl e \<Rightarrow> Some e | Inr _ \<Rightarrow> None)
       in if isDeleteFailure (k_errs k) err then ret err
          else
            bind_act (\<lambda>s. (Ok (), if err = None
                then (case ch_HTTPRoute (k_Cache k) of
                        None \<Rightarrow> s
                      | Some rc \<Rightarrow> s\<lparr>ks_cache := cache_Delete rc namespace routeName (ks_cache s)\<rparr>)
                else s)) (\<lambda>_.
            try_act (deleteBackendTrafficPolicy k routeName namespace) (\<lambda>_. ret err)))"

definition deleteRouteLegacyIngress ::
  "('w, 'c) Kubernetes \<Rightarrow> string \<Rightarrow> string \<Rightarrow> ('w, 'c, go_error option) act" where
  "deleteRouteLegacyIngress k routeName namespace =
     try_act (api (if k_UseNetworkingV1Ingress k then cl_Delete (k_NetIngresses k namespace) routeName
                   else cl_Delete (k_ExtIngresses k namespace) routeName)) (\<lambda>r.
       case r of
         Inl err \<Rightarrow> ret (Some err)
       | Inr _ \<Rightarrow> (\<lambda>s. (Ok None, case ch_Ingresses (k_Cache k) of
                      None \<Rightarrow> s
                    | Some rc \<Rightarrow> s\<lparr>ks_cache := cache_Delete rc namespace routeName (ks_cache s)\<rparr>)))"

definition DeleteRoute :: "('w, 'c) Kubernetes \<Rightarrow> string \<Rightarrow> string \<Rightarrow> ('w, 'c, unit) act" where
  "DeleteRoute k routeName namespace =
     (let useGatewayAPI = IsGatewayAPIEnabled (k_GatewaySystem k);
          useLegacyIngress = IsIngressEnabled (k_GatewaySystem k)
      in bind_act (if useGatewayAPI then deleteRouteHTTPRoute k routeName namespace else ret None)
           (\<lambda>httpRouteErr.
         bind_act (if useLegacyIngress then deleteRouteLegacyIngress k routeName namespace else ret None)
           (\<lambda>ingressErr.
         case resolveDeleteRouteResult (k_errs k) useGatewayAPI useLegacyIngress routeName httpRouteErr ingressErr of
           None \<Rightarrow> ret ()
         | Some err \<Rightarrow> fail err)))"

end
