(* ===== verification/Route_Service_Laws.thy ===== *)
theory Route_Service_Laws
  imports Route_Service
begin

section \<open>Laws of the route operations\<close>

text \<open>
  How the outcomes of the two backends are combined, when a policy is written or deleted, and
  that a route read after it was written is the route the write returned.
\<close>

subsection \<open>Combining outcomes\<close>

text \<open>The errors of the backends that are in use.\<close>

definition backend_errors :: "bool \<Rightarrow> bool \<Rightarrow> routeResourceResult \<Rightarrow> routeResourceResult \<Rightarrow> go_error set" where
  "backend_errors gw ing h i =
     (if gw then set_option (rr_err h) else {}) \<union> (if ing then set_option (rr_err i) else {})"

lemma dualModeRouteError_eq_None:
  "dualModeRouteError h i = None \<longleftrightarrow> rr_err h = None \<and> rr_err i = None"
  by (auto simp: dualModeRouteError_def Let_def split: option.splits)

lemma resolveRouteResult_ok:
  "gw \<or> ing \<Longrightarrow> backend_errors gw ing h i = {} \<Longrightarrow>
   resolveRouteResult gw ing h i =
     Inr (if gw \<and> ing then pickDualModeRouteResult i h else if gw then rr_route h else rr_route i)"
  by (auto simp: resolveRouteResult_def backend_errors_def finishRouteOperation_def split: option.splits if_splits)

lemma resolveRouteResult_error:
  "gw \<or> ing \<Longrightarrow> backend_errors gw ing h i \<noteq> {} \<Longrightarrow>
   \<exists>e. resolveRouteResult gw ing h i = Inl e \<and> (\<forall>x \<in> backend_errors gw ing h i. wraps e x)"
  by (auto simp: resolveRouteResult_def backend_errors_def dualModeRouteError_def Let_def
      split: option.splits if_splits)

subsection \<open>Deleting\<close>

text \<open>
  What the API machinery documents of its error predicates: a not-found error made by
  \<open>NewNotFound\<close> is one whatever its message, and an error that wraps another one is judged by it.
\<close>

definition errlib_ok :: "errlib \<Rightarrow> bool" where
  "errlib_ok errs \<longleftrightarrow>
     (\<forall>r n m. IsNotFound errs (LibError ((NewNotFound errs r n)\<lparr>le_message := m\<rparr>))) \<and>
     (\<forall>s e. IsNotFound errs (Errorf s [e]) = IsNotFound errs e) \<and>
     (\<forall>s e f. \<not> IsNotFound errs e \<longrightarrow> \<not> IsNotFound errs f \<longrightarrow> \<not> IsNotFound errs (Errorf s [e, f]))"

lemma resolveDelete_dual_None:
  "resolveDeleteRouteResult errs True True name h i = None \<longleftrightarrow>
     \<not> isDeleteFailure errs h \<and> \<not> isDeleteFailure errs i \<and> (h = None \<or> i = None)"
  by (auto simp: resolveDeleteRouteResult_def is_notfound_def isDeleteFailure_def Let_def split: option.splits)

lemma resolveDelete_dual_NotFound:
  assumes "errlib_ok errs" and "resolveDeleteRouteResult errs True True name h i = Some e"
  shows "IsNotFound errs e \<longleftrightarrow> is_notfound errs h \<and> is_notfound errs i"
proof (cases "is_notfound errs h \<and> is_notfound errs i")
  case True
  with assms show ?thesis
    by (auto simp: resolveDeleteRouteResult_def Let_def newRouteDeleteNotFoundError_def errlib_ok_def)
next
  case False
  from assms(1) have one: "\<And>s x. IsNotFound errs (Errorf s [x]) = IsNotFound errs x"
    and two: "\<And>s x y. \<not> IsNotFound errs x \<Longrightarrow> \<not> IsNotFound errs y \<Longrightarrow> \<not> IsNotFound errs (Errorf s [x, y])"
    by (simp_all add: errlib_ok_def)
  from False assms(2) have "e = dualModeDeleteError errs h i"
    and "isDeleteFailure errs h \<or> isDeleteFailure errs i"
    by (auto simp: resolveDeleteRouteResult_def Let_def split: if_splits)
  with one two have "\<not> IsNotFound errs e"
    by (auto simp: dualModeDeleteError_def Let_def isDeleteFailure_def split: option.splits)
  with False show ?thesis by simp
qed

lemma resolveDelete_single:
  assumes "errlib_ok errs"
  shows "resolveDeleteRouteResult errs True False name h i = None \<longleftrightarrow> h = None"
    and "resolveDeleteRouteResult errs True False name h i = Some e \<Longrightarrow> IsNotFound errs e = is_notfound errs h"
    and "resolveDeleteRouteResult errs False True name h i = None \<longleftrightarrow> i = None"
    and "resolveDeleteRouteResult errs False True name h i = Some e \<Longrightarrow> IsNotFound errs e = is_notfound errs i"
  using assms
  by (auto simp: resolveDeleteRouteResult_def resolveSingleResourceDeleteResult_def errlib_ok_def
      isDeleteFailure_def is_notfound_def split: option.splits if_splits)

subsection \<open>Validation comes first\<close>

lemma validateAnnotations_None:
  "validateAnnotationsForGatewayAPI errs a = None \<longleftrightarrow> annotation_errors a = []"
  by (simp add: validateAnnotationsForGatewayAPI_def Let_def)

lemma annotation_errors_Nil:
  "annotation_errors a = [] \<longleftrightarrow>
     (\<forall>k \<in> fst ` set criticalAnnotations. gm_str a k = []) \<and>
     (gm_str a AnnotationBackendProtocol = [] \<or> EqualFold (gm_str a AnnotationBackendProtocol) ''GRPC'')"
  by (auto simp: annotation_errors_def Let_def filter_empty_conv)

lemma backendTrafficPolicyFromRoute_invalid:
  "annotation_errors (md_Annotations (rt_Metadata r)) \<noteq> [] \<Longrightarrow>
   \<exists>e. backendTrafficPolicyFromRoute k r ns = Inl e"
  by (auto simp: backendTrafficPolicyFromRoute_def validateAnnotationsForGatewayAPI_def Let_def)

lemma createHTTPRoute_invalid:
  "backendTrafficPolicyFromRoute k r ns = Inl e \<Longrightarrow> createHTTPRoute k r ns s = (Err e, s)"
  by (simp add: createHTTPRoute_def bind_act_def)

lemma upsertHTTPRoute_invalid:
  assumes "backendTrafficPolicyFromRoute k r ns = Inl e"
    and "cl_Get (k_HTTPRoutes k ns) (md_Name (rt_Metadata r)) (ks_world s) = (g, w)"
  shows "\<exists>x. upsertHTTPRoute k r ns s = (Ok x, s\<lparr>ks_world := w\<rparr>) \<and> rr_err x \<noteq> None"
  using assms
  by (cases g)
    (auto simp: upsertHTTPRoute_def upsert_result_def act_defs createHTTPRoute_invalid failed_result_def
      result_of_def)

subsection \<open>Policies\<close>

text \<open>
  The documented behaviour of the dynamic client: \<open>policies w\<close> are the policies of a namespace
  by name; an accepted write stores what \<open>admit\<close> makes of the policy and answers with it.
\<close>

definition policy_store ::
  "errlib \<Rightarrow> (BackendTrafficPolicy \<Rightarrow> BackendTrafficPolicy) \<Rightarrow>
     ('w \<Rightarrow> string \<Rightarrow> BackendTrafficPolicy option) \<Rightarrow> 'w policy_client \<Rightarrow> bool" where
  "policy_store errs admit policies cl \<longleftrightarrow>
     (\<forall>n w. case policies w n of
        Some p \<Rightarrow> dy_Get cl n w = (Inr p, w)
      | None \<Rightarrow> (\<exists>e. dy_Get cl n w = (Inl e, w) \<and> IsNotFound errs e)) \<and>
     (\<forall>p w. \<exists>w'. dy_Create cl p w = (Inr (Some (admit p)), w') \<and>
        policies w' = (policies w)(tp_Name p \<mapsto> admit p)) \<and>
     (\<forall>p w. \<exists>w'. dy_Update cl p w = (Inr (Some (admit p)), w') \<and>
        policies w' = (policies w)(tp_Name p \<mapsto> admit p)) \<and>
     (\<forall>n w. \<exists>w'. dy_Delete cl n w = (Inr (), w') \<and> policies w' = (policies w)(n := None))"

lemma policy_storeD:
  assumes "policy_store errs admit policies cl"
  shows "policies w n = Some p \<Longrightarrow> dy_Get cl n w = (Inr p, w)"
    and "policies w n = None \<Longrightarrow> \<exists>e. dy_Get cl n w = (Inl e, w) \<and> IsNotFound errs e"
    and "\<exists>w'. dy_Create cl p w = (Inr (Some (admit p)), w') \<and> policies w' = (policies w)(tp_Name p \<mapsto> admit p)"
    and "\<exists>w'. dy_Update cl p w = (Inr (Some (admit p)), w') \<and> policies w' = (policies w)(tp_Name p \<mapsto> admit p)"
    and "\<exists>w'. dy_Delete cl n w = (Inr (), w') \<and> policies w' = (policies w)(n := None)"
proof -
  note * = assms [unfolded policy_store_def]
  show "policies w n = Some p \<Longrightarrow> dy_Get cl n w = (Inr p, w)"
    using * by (auto dest!: conjunct1 spec [of _ n] spec [of _ w])
  show "policies w n = None \<Longrightarrow> \<exists>e. dy_Get cl n w = (Inl e, w) \<and> IsNotFound errs e"
    using * by (auto dest!: conjunct1 spec [of _ n] spec [of _ w])
qed (use assms in \<open>simp_all add: policy_store_def\<close>)

lemma not_found_ignorable: "IsNotFound errs e \<Longrightarrow> isIgnorablePolicyAbsence errs (Some e)"
  by (simp add: isIgnorablePolicyAbsence_def)

text \<open>After the policy was applied the cluster has the policy the call returned.\<close>

lemma getBackendTrafficPolicy_store:
  assumes "policy_store (k_errs k) admit policies cl" and "backendTrafficPolicyClient k ns = Some cl"
  shows "getBackendTrafficPolicy k name ns s = (Ok (policies (ks_world s) name), s)"
proof (cases "policies (ks_world s) name")
  case None
  with policy_storeD(2) [OF assms(1)] obtain e where
    "dy_Get cl name (ks_world s) = (Inl e, ks_world s)" "IsNotFound (k_errs k) e" by blast
  with None assms(2) show ?thesis
    by (simp add: getBackendTrafficPolicy_def act_defs not_found_ignorable)
next
  case (Some p)
  with policy_storeD(1) [OF assms(1) Some] assms(2) show ?thesis
    by (simp add: getBackendTrafficPolicy_def act_defs)
qed

lemma deleteBackendTrafficPolicy_store:
  assumes "policy_store (k_errs k) admit policies cl" and "backendTrafficPolicyClient k ns = Some cl"
  shows "\<exists>w'. deleteBackendTrafficPolicy k name ns s = (Ok (policies w' name), s\<lparr>ks_world := w'\<rparr>)
    \<and> policies w' = (case policies (ks_world s) name of
        Some p \<Rightarrow> if isManagedBackendTrafficPolicy p then (policies (ks_world s))(name := None)
                  else policies (ks_world s)
      | None \<Rightarrow> policies (ks_world s))"
proof (cases "policies (ks_world s) name")
  case None
  with policy_storeD(2) [OF assms(1)] obtain e where
    "dy_Get cl name (ks_world s) = (Inl e, ks_world s)" "IsNotFound (k_errs k) e" by blast
  with None assms(2) show ?thesis
    by (auto simp: deleteBackendTrafficPolicy_def act_defs not_found_ignorable intro!: exI [of _ "ks_world s"])
next
  case (Some p)
  note g = policy_storeD(1) [OF assms(1) Some]
  show ?thesis
  proof (cases "isManagedBackendTrafficPolicy p")
    case True
    from policy_storeD(5) [OF assms(1)] obtain w' where
      "dy_Delete cl name (ks_world s) = (Inr (), w')" "policies w' = (policies (ks_world s))(name := None)"
      by blast
    with g True Some assms(2) show ?thesis
      by (auto simp: deleteBackendTrafficPolicy_def act_defs intro!: exI [of _ w'])
  next
    case False
    with g Some assms(2) show ?thesis
      by (auto simp: deleteBackendTrafficPolicy_def act_defs intro!: exI [of _ "ks_world s"])
  qed
qed

lemma applyBackendTrafficPolicy_store:
  assumes "policy_store (k_errs k) admit policies cl" and "backendTrafficPolicyClient k ns = Some cl"
    and "\<And>p. policy = Some p \<Longrightarrow> tp_Name p = name"
  shows "\<exists>w'. applyBackendTrafficPolicy k policy name ns s = (Ok (policies w' name), s\<lparr>ks_world := w'\<rparr>)"
proof (cases policy)
  case None
  with deleteBackendTrafficPolicy_store [OF assms(1,2), of name s] assms(2) show ?thesis
    by (auto simp: applyBackendTrafficPolicy_def)
next
  case (Some p)
  show ?thesis
  proof (cases "policies (ks_world s) name")
    case None
    with policy_storeD(2) [OF assms(1)] obtain e where
      "dy_Get cl name (ks_world s) = (Inl e, ks_world s)" "IsNotFound (k_errs k) e" by blast
    moreover obtain w' where "dy_Create cl p (ks_world s) = (Inr (Some (admit p)), w')"
      "policies w' = (policies (ks_world s))(tp_Name p \<mapsto> admit p)"
      using policy_storeD(3) [OF assms(1)] by blast
    ultimately show ?thesis using Some assms(2,3)
      by (auto simp: applyBackendTrafficPolicy_def act_defs or_policy_def Let_def intro!: exI [of _ w'])
  next
    case (Some q)
    note g = policy_storeD(1) [OF assms(1) Some]
    show ?thesis
    proof (cases "isManagedBackendTrafficPolicy q")
      case True
      let ?p = "p\<lparr>tp_ResourceVersion := tp_ResourceVersion q\<rparr>"
      obtain w' where "dy_Update cl ?p (ks_world s) = (Inr (Some (admit ?p)), w')"
        "policies w' = (policies (ks_world s))(tp_Name ?p \<mapsto> admit ?p)"
        using policy_storeD(4) [OF assms(1)] by blast
      with g True \<open>policy = Some p\<close> assms(2,3) show ?thesis
        by (auto simp: applyBackendTrafficPolicy_def act_defs or_policy_def Let_def intro!: exI [of _ w'])
    next
      case False
      with g Some \<open>policy = Some p\<close> assms(2) show ?thesis
        by (auto simp: applyBackendTrafficPolicy_def act_defs intro!: exI [of _ "ks_world s"])
    qed
  qed
qed

subsection \<open>What a write returns is what a read gives\<close>

definition policy_at ::
  "('w, 'c) Kubernetes \<Rightarrow> string \<Rightarrow> ('w \<Rightarrow> string \<Rightarrow> BackendTrafficPolicy option) \<Rightarrow> 'w \<Rightarrow> string \<Rightarrow>
     BackendTrafficPolicy option" where
  "policy_at k ns policies w name =
     (case backendTrafficPolicyClient k ns of None \<Rightarrow> None | Some _ \<Rightarrow> policies w name)"

text \<open>The policy client leaves the other objects of the cluster alone.\<close>

definition policy_client_keeps :: "('w \<Rightarrow> 'x) \<Rightarrow> 'w policy_client \<Rightarrow> bool" where
  "policy_client_keeps objects cl \<longleftrightarrow>
     (\<forall>n w. objects (snd (dy_Get cl n w)) = objects w) \<and>
     (\<forall>p w. objects (snd (dy_Create cl p w)) = objects w) \<and>
     (\<forall>p w. objects (snd (dy_Update cl p w)) = objects w) \<and>
     (\<forall>n w. objects (snd (dy_Delete cl n w)) = objects w)"

lemma policy_client_keepsD:
  assumes "policy_client_keeps objects cl"
  shows "dy_Get cl n w = (g, w') \<Longrightarrow> objects w' = objects w"
    and "dy_Create cl p w = (c, w') \<Longrightarrow> objects w' = objects w"
    and "dy_Update cl p w = (c, w') \<Longrightarrow> objects w' = objects w"
    and "dy_Delete cl n w = (d, w') \<Longrightarrow> objects w' = objects w"
  using assms unfolding policy_client_keeps_def by (metis snd_conv)+

definition keeps_objects :: "('w \<Rightarrow> 'x) \<Rightarrow> ('w, 'c, 'a) act \<Rightarrow> bool" where
  "keeps_objects objects m \<longleftrightarrow> (\<forall>s. objects (ks_world (snd (m s))) = objects (ks_world s))"

lemma keeps_objectsD: "keeps_objects objects m \<Longrightarrow> m s = (r, s') \<Longrightarrow> objects (ks_world s') = objects (ks_world s)"
  by (auto simp: keeps_objects_def dest!: spec [of _ s])

lemma keeps_objectsI:
  "(\<And>s r s'. m s = (r, s') \<Longrightarrow> objects (ks_world s') = objects (ks_world s)) \<Longrightarrow> keeps_objects objects m"
  by (metis keeps_objects_def prod.collapse)

lemma keeps_objects_pure [simp, intro]:
  "keeps_objects objects (ret x)" "keeps_objects objects (fail e)" "keeps_objects objects (of_sum t)"
  "keeps_objects objects (of_run u)" "keeps_objects objects (cache_step f)" "keeps_objects objects (policy_error pe)"
  by (auto simp: keeps_objects_def act_defs cache_step_def policy_error_def
      split: sum.splits run.splits prod.splits option.splits)

lemma keeps_objects_bind [intro]:
  assumes "keeps_objects objects m" and "\<And>x. keeps_objects objects (f x)"
  shows "keeps_objects objects (bind_act m f)"
proof (rule keeps_objectsI)
  fix s r s'
  assume *: "bind_act m f s = (r, s')"
  obtain a s1 where m: "m s = (a, s1)" by force
  with assms(1) have "objects (ks_world s1) = objects (ks_world s)" by (rule keeps_objectsD)
  with * m assms(2) [THEN keeps_objectsD] show "objects (ks_world s') = objects (ks_world s)"
    by (cases a) (auto simp: bind_act_def)
qed

lemma keeps_objects_try [intro]:
  assumes "keeps_objects objects m" and "\<And>x. keeps_objects objects (f x)"
  shows "keeps_objects objects (try_act m f)"
proof (rule keeps_objectsI)
  fix s r s'
  assume *: "try_act m f s = (r, s')"
  obtain a s1 where m: "m s = (a, s1)" by force
  with assms(1) have "objects (ks_world s1) = objects (ks_world s)" by (rule keeps_objectsD)
  with * m assms(2) [THEN keeps_objectsD] show "objects (ks_world s') = objects (ks_world s)"
    by (cases a) (auto simp: try_act_def)
qed

lemma keeps_objects_api:
  "(\<And>w x w'. call w = (x, w') \<Longrightarrow> objects w' = objects w) \<Longrightarrow> keeps_objects objects (api call)"
  by (auto intro!: keeps_objectsI simp: api_def split: prod.splits sum.splits)

lemma keeps_objects_policy:
  assumes "\<And>cl. backendTrafficPolicyClient k ns = Some cl \<Longrightarrow> policy_client_keeps objects cl"
  shows "keeps_objects objects (getBackendTrafficPolicy k name ns)"
    and "keeps_objects objects (deleteBackendTrafficPolicy k name ns)"
    and "keeps_objects objects (applyBackendTrafficPolicy k policy name ns)"
proof -
  have "keeps_objects objects (getBackendTrafficPolicy k name ns)
    \<and> keeps_objects objects (deleteBackendTrafficPolicy k name ns)
    \<and> keeps_objects objects (applyBackendTrafficPolicy k policy name ns)"
  proof (cases "backendTrafficPolicyClient k ns")
    case None
    then show ?thesis
      by (simp add: getBackendTrafficPolicy_def deleteBackendTrafficPolicy_def applyBackendTrafficPolicy_def)
  next
    case (Some cl)
    note keep = policy_client_keepsD [OF assms [OF Some]]
    have api [simp]: "keeps_objects objects (api (dy_Get cl n))" "keeps_objects objects (api (dy_Create cl p))"
      "keeps_objects objects (api (dy_Update cl p))" "keeps_objects objects (api (dy_Delete cl n))" for n p
      using keep by (auto intro!: keeps_objects_api)
    have d: "keeps_objects objects (deleteBackendTrafficPolicy k name ns)"
      unfolding deleteBackendTrafficPolicy_def
      by (auto simp: Some split: sum.split intro!: keeps_objects_try)
    have "keeps_objects objects (getBackendTrafficPolicy k name ns)"
      unfolding getBackendTrafficPolicy_def
      by (auto simp: Some split: sum.split intro!: keeps_objects_try)
    moreover have "keeps_objects objects (applyBackendTrafficPolicy k policy name ns)"
      unfolding applyBackendTrafficPolicy_def Let_def
      by (auto simp: Some d split: option.split sum.split intro!: keeps_objects_try)
    ultimately show ?thesis using d by blast
  qed
  then show "keeps_objects objects (getBackendTrafficPolicy k name ns)"
    and "keeps_objects objects (deleteBackendTrafficPolicy k name ns)"
    and "keeps_objects objects (applyBackendTrafficPolicy k policy name ns)" by blast+
qed

lemma keeps_objects_cacheHTTPRoute [simp]: "keeps_objects objects (cacheHTTPRoute k h)"
  unfolding cacheHTTPRoute_def by (auto split: option.split sum.split intro!: keeps_objects_try)

text \<open>A cluster whose HTTPRoutes and policies of a namespace behave as documented.\<close>

definition route_cluster ::
  "('w, 'c) Kubernetes \<Rightarrow> string \<Rightarrow> (HTTPRoute \<Rightarrow> HTTPRoute) \<Rightarrow> ('w \<Rightarrow> string \<Rightarrow> HTTPRoute option) \<Rightarrow>
     (BackendTrafficPolicy \<Rightarrow> BackendTrafficPolicy) \<Rightarrow>
     ('w \<Rightarrow> string \<Rightarrow> BackendTrafficPolicy option) \<Rightarrow> bool" where
  "route_cluster k ns admit objects admit_policy policies \<longleftrightarrow>
     store_client (k_errs k) (\<lambda>h. om_Name (ht_Meta h)) admit objects (k_HTTPRoutes k ns) \<and>
     (\<forall>cl. backendTrafficPolicyClient k ns = Some cl \<longrightarrow>
        policy_store (k_errs k) admit_policy policies cl \<and> policy_client_keeps objects cl)"

lemma getBackendTrafficPolicy_at:
  "route_cluster k ns admit objects admit_policy policies \<Longrightarrow>
   getBackendTrafficPolicy k name ns s = (Ok (policy_at k ns policies (ks_world s) name), s)"
  by (cases "backendTrafficPolicyClient k ns")
    (auto simp: route_cluster_def policy_at_def getBackendTrafficPolicy_store,
     simp add: getBackendTrafficPolicy_def)

lemma applyBackendTrafficPolicy_at:
  assumes "route_cluster k ns admit objects admit_policy policies"
    and "\<And>p. policy = Some p \<Longrightarrow> tp_Name p = name"
  shows "\<exists>w'. applyBackendTrafficPolicy k policy name ns s =
      (Ok (policy_at k ns policies w' name), s\<lparr>ks_world := w'\<rparr>) \<and> objects w' = objects (ks_world s)"
proof (cases "backendTrafficPolicyClient k ns")
  case None
  then show ?thesis
    by (auto simp: applyBackendTrafficPolicy_def policy_at_def intro!: exI [of _ "ks_world s"])
next
  case (Some cl)
  with assms(1) have p: "policy_store (k_errs k) admit_policy policies cl"
    and keep: "keeps_objects objects (applyBackendTrafficPolicy k policy name ns)"
    by (auto simp: route_cluster_def intro: keeps_objects_policy)
  from applyBackendTrafficPolicy_store [OF p Some, of policy name s] assms(2)
  obtain w' where a: "applyBackendTrafficPolicy k policy name ns s = (Ok (policies w' name), s\<lparr>ks_world := w'\<rparr>)"
    by blast
  from keeps_objectsD [OF keep a] a Some show ?thesis by (auto simp: policy_at_def)
qed

lemma finish_http_route_at:
  assumes "route_cluster k ns admit objects admit_policy policies"
    and "\<And>p. policy = Some p \<Longrightarrow> tp_Name p = name"
    and "finish_http_route k h policy name ns s = (Ok q, s')"
  shows "q = RouteFromHTTPRouteWithPolicy h (policy_at k ns policies (ks_world s') name)
    \<and> objects (ks_world s') = objects (ks_world s)"
proof -
  from applyBackendTrafficPolicy_at [OF assms(1), of policy name s] assms(2)
  obtain w' where a: "applyBackendTrafficPolicy k policy name ns s =
      (Ok (policy_at k ns policies w' name), s\<lparr>ks_world := w'\<rparr>)" and o: "objects w' = objects (ks_world s)"
    by blast
  obtain r s2 where c: "cacheHTTPRoute k (HTTPRoute_after_conversion h (policy_at k ns policies w' name))
      (s\<lparr>ks_world := w'\<rparr>) = (r, s2)" by force
  have "keeps_objects (\<lambda>w. w) (cacheHTTPRoute k (HTTPRoute_after_conversion h (policy_at k ns policies w' name)))"
    by simp
  from keeps_objectsD [OF this c] have "ks_world s2 = w'" by simp
  with assms(3) a c o show ?thesis
    by (cases r) (auto simp: finish_http_route_def bind_act_def Let_def)
qed

lemma backendTrafficPolicyFromRoute_name:
  "backendTrafficPolicyFromRoute k r ns = Inr (Some p) \<Longrightarrow> tp_Name p = md_Name (rt_Metadata r)"
  by (auto simp: backendTrafficPolicyFromRoute_def ToBackendTrafficPolicy_def Let_def
      split: option.splits sum.splits if_splits)

lemma ToHTTPRoute_name [simp]: "om_Name (ht_Meta (ToHTTPRoute ns gw r)) = md_Name (rt_Metadata r)"
  by (simp add: ToHTTPRoute_def Let_def)

lemma api_Ok:
  assumes "api call s = (Ok x, s')"
  obtains w where "call (ks_world s) = (Inr x, w)" and "s' = s\<lparr>ks_world := w\<rparr>"
  using assms by (auto simp: api_def split: prod.splits sum.splits)

lemma of_sum_Ok [simp]: "of_sum t s = (Ok x, s') \<longleftrightarrow> t = Inr x \<and> s' = s"
  by (auto simp: of_sum_def split: sum.splits)

text \<open>The HTTPRoute and policy behind a route that was written.\<close>

definition written ::
  "('w, 'c) Kubernetes \<Rightarrow> string \<Rightarrow> ('w \<Rightarrow> string \<Rightarrow> HTTPRoute option) \<Rightarrow>
     ('w \<Rightarrow> string \<Rightarrow> BackendTrafficPolicy option) \<Rightarrow> string \<Rightarrow> Route \<Rightarrow> ('w, 'c) kstate \<Rightarrow> bool" where
  "written k ns objects policies name q s \<longleftrightarrow>
     (\<exists>h. objects (ks_world s) name = Some h \<and>
        q = RouteFromHTTPRouteWithPolicy h (policy_at k ns policies (ks_world s) name))"

lemma createHTTPRoute_written:
  assumes c: "route_cluster k ns admit objects admit_policy policies"
    and n: "objects (ks_world s) (md_Name (rt_Metadata r)) = None"
    and "createHTTPRoute k r ns s = (Ok q, s')"
  shows "written k ns objects policies (md_Name (rt_Metadata r)) q s'"
proof -
  let ?h = "ToHTTPRoute (gs_Namespace (k_GatewaySystem k)) (gs_Name (k_GatewaySystem k)) r"
  from assms(3) obtain policy ch s1 where b: "backendTrafficPolicyFromRoute k r ns = Inr policy"
    and a: "api (cl_Create (k_HTTPRoutes k ns) ?h) s = (Ok ch, s1)"
    and f: "finish_http_route k ch policy (md_Name (rt_Metadata r)) ns s1 = (Ok q, s')"
    by (auto simp: createHTTPRoute_def Let_def elim!: bind_act_Ok)
  from c have st: "store_client (k_errs k) (\<lambda>h. om_Name (ht_Meta h)) admit objects (k_HTTPRoutes k ns)"
    by (simp add: route_cluster_def)
  from store_clientD(3) [OF st, of "ks_world s" ?h] n
  obtain w where "cl_Create (k_HTTPRoutes k ns) ?h (ks_world s) = (Inr (admit ?h), w)"
    and o: "objects w = (objects (ks_world s))(md_Name (rt_Metadata r) \<mapsto> admit ?h)" by auto
  with a have "ch = admit ?h" "s1 = s\<lparr>ks_world := w\<rparr>" by (auto simp: api_def)
  moreover from b have "\<And>p. policy = Some p \<Longrightarrow> tp_Name p = md_Name (rt_Metadata r)"
    by (auto dest: backendTrafficPolicyFromRoute_name)
  from finish_http_route_at [OF c this f] have
    "q = RouteFromHTTPRouteWithPolicy ch (policy_at k ns policies (ks_world s') (md_Name (rt_Metadata r)))"
    "objects (ks_world s') = objects (ks_world s1)" by blast+
  ultimately show ?thesis using o by (simp add: written_def)
qed

lemma upsertHTTPRoute_written:
  assumes c: "route_cluster k ns admit objects admit_policy policies"
    and "upsertHTTPRoute k r ns s = (Ok x, s')" and "rr_err x = None"
  shows "\<exists>q. rr_route x = Some q \<and> written k ns objects policies (md_Name (rt_Metadata r)) q s'"
proof -
  from c have st: "store_client (k_errs k) (\<lambda>h. om_Name (ht_Meta h)) admit objects (k_HTTPRoutes k ns)"
    by (simp add: route_cluster_def)
  show ?thesis
  proof (cases "objects (ks_world s) (md_Name (rt_Metadata r))")
    case None
    from store_clientD(2) [OF st None] obtain e where
      "cl_Get (k_HTTPRoutes k ns) (md_Name (rt_Metadata r)) (ks_world s) = (Inl e, ks_world s)"
      "IsNotFound (k_errs k) e" by blast
    with assms(2,3) obtain q where "createHTTPRoute k r ns s = (Ok q, s')" "rr_route x = Some q"
      by (auto simp: upsertHTTPRoute_def try_act_def api_def result_of_def split: prod.splits res.splits)
    with createHTTPRoute_written [OF c None] show ?thesis by blast
  next
    case (Some orig)
    let ?h0 = "ToHTTPRoute (gs_Namespace (k_GatewaySystem k)) (gs_Name (k_GatewaySystem k)) r"
    let ?h = "?h0\<lparr>ht_Meta := (ht_Meta ?h0)\<lparr>om_ResourceVersion := om_ResourceVersion (ht_Meta orig)\<rparr>\<rparr>"
    note g = store_clientD(1) [OF st Some]
    from store_clientD(4) [OF st, of "ks_world s" ?h] Some
    obtain w where u: "cl_Update (k_HTTPRoutes k ns) ?h (ks_world s) = (Inr (admit ?h), w)"
      and o: "objects w = (objects (ks_world s))(md_Name (rt_Metadata r) \<mapsto> admit ?h)" by auto
    from assms(2,3) g obtain policy where b: "backendTrafficPolicyFromRoute k r ns = Inr policy"
      by (cases "backendTrafficPolicyFromRoute k r ns")
        (auto simp: upsertHTTPRoute_def upsert_result_def act_defs failed_result_def)
    obtain fr s2 where f: "finish_http_route k (admit ?h) policy (md_Name (rt_Metadata r)) ns
        (s\<lparr>ks_world := w\<rparr>) = (fr, s2)" by force
    from assms(2,3) g b u f obtain q where "fr = Ok q" "s2 = s'" "rr_route x = Some q"
      by (cases fr) (auto simp: upsertHTTPRoute_def upsert_result_def act_defs failed_result_def
          Let_def result_of_def)
    moreover from b have "\<And>p. policy = Some p \<Longrightarrow> tp_Name p = md_Name (rt_Metadata r)"
      by (auto dest: backendTrafficPolicyFromRoute_name)
    from finish_http_route_at [OF c this f [unfolded \<open>fr = Ok q\<close>]] have
      "q = RouteFromHTTPRouteWithPolicy (admit ?h)
         (policy_at k ns policies (ks_world s2) (md_Name (rt_Metadata r)))"
      "objects (ks_world s2) = objects w" by auto
    ultimately show ?thesis using o by (simp add: written_def)
  qed
qed

lemma GetRoute_written:
  assumes c: "route_cluster k ns admit objects admit_policy policies"
    and "IsGatewayAPIEnabled (k_GatewaySystem k)"
    and "written k ns objects policies name q s"
  shows "GetRoute k name ns s = (Ok (Some q), s)"
proof -
  from c have st: "store_client (k_errs k) (\<lambda>h. om_Name (ht_Meta h)) admit objects (k_HTTPRoutes k ns)"
    by (simp add: route_cluster_def)
  from assms(3) obtain h where h: "objects (ks_world s) name = Some h"
    and q: "q = RouteFromHTTPRouteWithPolicy h (policy_at k ns policies (ks_world s) name)"
    by (auto simp: written_def)
  from store_clientD(1) [OF st h] assms(2) q getBackendTrafficPolicy_at [OF c, of name s] show ?thesis
    by (simp add: GetRoute_def GetWrapper_ok bind_act_def total_def WrapHTTPRoute_def routeFromHTTPRoute_def)
qed

lemma UpdateOrCreateRoute_gateway:
  assumes "IsGatewayAPIEnabled (k_GatewaySystem k)" and "\<not> IsIngressEnabled (k_GatewaySystem k)"
    and "UpdateOrCreateRoute k r ns s = (Ok q, s')"
  shows "\<exists>x. upsertHTTPRoute k r ns s = (Ok x, s') \<and> rr_err x = None \<and> rr_route x = q"
proof -
  from assms obtain x where "upsertHTTPRoute k r ns s = (Ok x, s')"
    and "resolveRouteResult True False x no_result = Inr q"
    by (auto simp: UpdateOrCreateRoute_def IsRouteCreationAllowed_def Let_def elim!: bind_act_Ok)
  then show ?thesis
    by (auto simp: resolveRouteResult_def finishRouteOperation_def split: option.splits)
qed

lemma CreateRoute_gateway:
  assumes "IsGatewayAPIEnabled (k_GatewaySystem k)" and "\<not> IsIngressEnabled (k_GatewaySystem k)"
  shows "CreateRoute k r ns s =
     (case createHTTPRoute k r ns s of
        (Ok q, s') \<Rightarrow> (Ok (Some q), s')
      | (Err e, s') \<Rightarrow> (Err (Errorf (''httproute: error: '' @ err_text e) [e]), s')
      | (Crash, s') \<Rightarrow> (Crash, s'))"
  using assms
  by (auto simp: CreateRoute_def IsRouteCreationAllowed_def Let_def try_act_def bind_act_def
      result_of_def resolveRouteResult_def finishRouteOperation_def split: prod.splits res.splits)

subsection \<open>What a read gives is what was asked for\<close>

text \<open>
  The server may set metadata of its own in the objects it stores, but keeps the fields a route is
  read from.
\<close>

definition server_keeps :: "(HTTPRoute \<Rightarrow> HTTPRoute) \<Rightarrow> (BackendTrafficPolicy \<Rightarrow> BackendTrafficPolicy) \<Rightarrow> bool" where
  "server_keeps admit admit_policy \<longleftrightarrow>
     (\<forall>h. ht_Rules (admit h) = ht_Rules h \<and> ht_Hostnames (admit h) = ht_Hostnames h \<and>
        om_Annotations (ht_Meta (admit h)) = om_Annotations (ht_Meta h)) \<and>
     (\<forall>p. tp_Labels (admit_policy p) = tp_Labels p \<and> tp_UseClientProtocol (admit_policy p) = tp_UseClientProtocol p \<and>
        tp_StreamIdleTimeout (admit_policy p) = tp_StreamIdleTimeout p)"

lemma apply_managed_cong:
  assumes "rt_Spec a = rt_Spec b" and "md_Annotations (rt_Metadata a) = md_Annotations (rt_Metadata b)"
    and "p = None \<longleftrightarrow> p' = None"
    and "\<And>x y. p = Some x \<Longrightarrow> p' = Some y \<Longrightarrow> tp_Labels x = tp_Labels y \<and>
      tp_UseClientProtocol x = tp_UseClientProtocol y \<and> tp_StreamIdleTimeout x = tp_StreamIdleTimeout y"
  shows "rt_Spec (applyManagedBackendTrafficPolicy a p) = rt_Spec (applyManagedBackendTrafficPolicy b p')
    \<and> md_Annotations (rt_Metadata (applyManagedBackendTrafficPolicy a p)) =
        md_Annotations (rt_Metadata (applyManagedBackendTrafficPolicy b p'))"
proof (cases p)
  case None
  with assms show ?thesis by (simp add: applyManagedBackendTrafficPolicy_def)
next
  case (Some x)
  with assms(3) obtain y where y: "p' = Some y" by (cases p') auto
  note * = assms(4) [OF Some y]
  show ?thesis
    unfolding applyManagedBackendTrafficPolicy_def
    using * assms(1,2) by (auto simp: Some y Let_def split: nested.splits bool.splits)
qed

lemma RouteFromHTTPRoute_content:
  assumes "ht_Rules h = ht_Rules h'" and "ht_Hostnames h = ht_Hostnames h'"
    and "om_Annotations (ht_Meta h) = om_Annotations (ht_Meta h')"
  shows "rt_Spec (RouteFromHTTPRoute h) = rt_Spec (RouteFromHTTPRoute h')"
    and "md_Annotations (rt_Metadata (RouteFromHTTPRoute h)) = md_Annotations (rt_Metadata (RouteFromHTTPRoute h'))"
  using assms
  by (auto simp: RouteFromHTTPRoute_def RouteFromHTTPRouteWithPolicy_def
      applyManagedBackendTrafficPolicy_def Let_def FromObjectMeta_def split: list.split)

lemma applyBackendTrafficPolicy_own:
  assumes "policy_store (k_errs k) admit policies cl" and "backendTrafficPolicyClient k ns = Some cl"
    and "\<And>p. policy = Some p \<Longrightarrow> tp_Name p = name"
    and "\<And>q. policies (ks_world s) name = Some q \<Longrightarrow> isManagedBackendTrafficPolicy q"
    and "applyBackendTrafficPolicy k policy name ns s = (r, s')"
  shows "(policy = None \<longrightarrow> policies (ks_world s') name = None) \<and>
    (\<forall>p. policy = Some p \<longrightarrow> (\<exists>v. policies (ks_world s') name = Some (admit (p\<lparr>tp_ResourceVersion := v\<rparr>))))"
proof (cases policy)
  case None
  from deleteBackendTrafficPolicy_store [OF assms(1,2), of name s]
  obtain w' where "deleteBackendTrafficPolicy k name ns s = (Ok (policies w' name), s\<lparr>ks_world := w'\<rparr>)"
    and "policies w' = (case policies (ks_world s) name of
        Some p \<Rightarrow> if isManagedBackendTrafficPolicy p then (policies (ks_world s))(name := None)
                  else policies (ks_world s)
      | None \<Rightarrow> policies (ks_world s))" by blast
  with None assms(2,4,5) show ?thesis
    by (auto simp: applyBackendTrafficPolicy_def split: option.splits if_splits)
next
  case (Some p)
  show ?thesis
  proof (cases "policies (ks_world s) name")
    case None
    with policy_storeD(2) [OF assms(1)] obtain e where
      "dy_Get cl name (ks_world s) = (Inl e, ks_world s)" "IsNotFound (k_errs k) e" by blast
    moreover obtain w' where "dy_Create cl p (ks_world s) = (Inr (Some (admit p)), w')"
      "policies w' = (policies (ks_world s))(tp_Name p \<mapsto> admit p)"
      using policy_storeD(3) [OF assms(1)] by blast
    ultimately show ?thesis using Some assms(2,3,5)
      by (auto simp: applyBackendTrafficPolicy_def act_defs or_policy_def Let_def
          intro!: exI [of _ "tp_ResourceVersion p"])
  next
    case (Some q)
    note g = policy_storeD(1) [OF assms(1) Some]
    let ?p = "p\<lparr>tp_ResourceVersion := tp_ResourceVersion q\<rparr>"
    obtain w' where "dy_Update cl ?p (ks_world s) = (Inr (Some (admit ?p)), w')"
      "policies w' = (policies (ks_world s))(tp_Name ?p \<mapsto> admit ?p)"
      using policy_storeD(4) [OF assms(1)] by blast
    with g assms(4) [OF Some] \<open>policy = Some p\<close> assms(2,3,5) show ?thesis
      by (auto simp: applyBackendTrafficPolicy_def act_defs or_policy_def Let_def)
  qed
qed

text \<open>The HTTPRoute and the policy a successful update leaves in the cluster.\<close>

definition own_policy ::
  "(BackendTrafficPolicy \<Rightarrow> BackendTrafficPolicy) \<Rightarrow> BackendTrafficPolicy option \<Rightarrow> BackendTrafficPolicy option \<Rightarrow> bool" where
  "own_policy admit_policy pol stored \<longleftrightarrow>
     (pol = None \<longrightarrow> stored = None) \<and>
     (\<forall>p. pol = Some p \<longrightarrow> (\<exists>v. stored = Some (admit_policy (p\<lparr>tp_ResourceVersion := v\<rparr>))))"

lemma finish_http_route_own:
  assumes c: "route_cluster k ns admit objects admit_policy policies"
    and cl: "backendTrafficPolicyClient k ns = Some cl"
    and n: "\<And>p. policy = Some p \<Longrightarrow> tp_Name p = name"
    and m: "\<And>q. policies (ks_world s) name = Some q \<Longrightarrow> isManagedBackendTrafficPolicy q"
    and f: "finish_http_route k h policy name ns s = (Ok q, s')"
  shows "\<exists>stored. q = RouteFromHTTPRouteWithPolicy h stored \<and> own_policy admit_policy policy stored"
proof -
  from c cl have p: "policy_store (k_errs k) admit_policy policies cl" by (simp add: route_cluster_def)
  obtain r s1 where a: "applyBackendTrafficPolicy k policy name ns s = (r, s1)" by force
  from applyBackendTrafficPolicy_store [OF p cl, of policy name s] n a
  have "r = Ok (policies (ks_world s1) name)" by auto
  with a f have "q = RouteFromHTTPRouteWithPolicy h (policies (ks_world s1) name)"
    by (auto simp: finish_http_route_def Let_def bind_act_def split: prod.splits res.splits)
  with applyBackendTrafficPolicy_own [OF p cl n m a] show ?thesis by (auto simp: own_policy_def)
qed

text \<open>Writing an HTTPRoute leaves the policies alone.\<close>

definition writes_keep :: "('w \<Rightarrow> 'x) \<Rightarrow> ('w, 'f) client \<Rightarrow> bool" where
  "writes_keep policies cl \<longleftrightarrow>
     (\<forall>f w. policies (snd (cl_Create cl f w)) = policies w) \<and> (\<forall>f w. policies (snd (cl_Update cl f w)) = policies w)"

lemma upsertHTTPRoute_content:
  assumes c: "route_cluster k ns admit objects admit_policy policies"
    and cl: "backendTrafficPolicyClient k ns = Some cl"
    and keep: "writes_keep policies (k_HTTPRoutes k ns)"
    and m: "\<And>q. policies (ks_world s) (md_Name (rt_Metadata r)) = Some q \<Longrightarrow> isManagedBackendTrafficPolicy q"
    and u: "upsertHTTPRoute k r ns s = (Ok x, s')" "rr_err x = None"
    and h: "h = ToHTTPRoute (gs_Namespace (k_GatewaySystem k)) (gs_Name (k_GatewaySystem k)) r"
  shows "\<exists>policy stored v. backendTrafficPolicyFromRoute k r ns = Inr policy \<and>
     own_policy admit_policy policy stored \<and>
     rr_route x = Some (RouteFromHTTPRouteWithPolicy
       (admit (h\<lparr>ht_Meta := (ht_Meta h)\<lparr>om_ResourceVersion := v\<rparr>\<rparr>)) stored)"
proof -
  let ?name = "md_Name (rt_Metadata r)"
  from c have st: "store_client (k_errs k) (\<lambda>h. om_Name (ht_Meta h)) admit objects (k_HTTPRoutes k ns)"
    by (simp add: route_cluster_def)
  have own: "\<exists>stored. q = RouteFromHTTPRouteWithPolicy ch stored \<and> own_policy admit_policy policy stored"
    if "backendTrafficPolicyFromRoute k r ns = Inr policy" "policies w = policies (ks_world s)"
      "finish_http_route k ch policy ?name ns (s\<lparr>ks_world := w\<rparr>) = (Ok q, t)" for policy w ch q t
  proof (rule finish_http_route_own [OF c cl _ _ that(3)])
    show "policies (ks_world (s\<lparr>ks_world := w\<rparr>)) ?name = Some q \<Longrightarrow> isManagedBackendTrafficPolicy q" for q
      using that(2) m by simp
  qed (use that(1) in \<open>auto dest: backendTrafficPolicyFromRoute_name\<close>)
  show ?thesis
  proof (cases "objects (ks_world s) ?name")
    case None
    from store_clientD(2) [OF st None] obtain e where
      "cl_Get (k_HTTPRoutes k ns) ?name (ks_world s) = (Inl e, ks_world s)"
      "IsNotFound (k_errs k) e" by blast
    with u obtain q where cr: "createHTTPRoute k r ns s = (Ok q, s')" and q: "rr_route x = Some q"
      by (auto simp: upsertHTTPRoute_def try_act_def api_def result_of_def split: prod.splits res.splits)
    from store_clientD(3) [OF st, of "ks_world s" h] None
    obtain w where w: "cl_Create (k_HTTPRoutes k ns) h (ks_world s) = (Inr (admit h), w)"
      by (auto simp: h)
    from keep have "policies (snd (cl_Create (k_HTTPRoutes k ns) h (ks_world s))) = policies (ks_world s)"
      by (simp add: writes_keep_def)
    then have "policies w = policies (ks_world s)" by (simp add: w)
    moreover obtain policy ch s1 where b: "backendTrafficPolicyFromRoute k r ns = Inr policy"
      and a: "api (cl_Create (k_HTTPRoutes k ns) (ToHTTPRoute (gs_Namespace (k_GatewaySystem k))
        (gs_Name (k_GatewaySystem k)) r)) s = (Ok ch, s1)"
      and f: "finish_http_route k ch policy ?name ns s1 = (Ok q, s')"
      using cr by (auto simp: createHTTPRoute_def Let_def elim!: bind_act_Ok)
    moreover from a w have "ch = admit h" "s1 = s\<lparr>ks_world := w\<rparr>" by (auto simp: api_def h)
    ultimately obtain stored where "q = RouteFromHTTPRouteWithPolicy (admit h) stored"
      "own_policy admit_policy policy stored" using own by blast
    with b q show ?thesis
      by (intro exI [of _ policy] exI [of _ stored] exI [of _ "om_ResourceVersion (ht_Meta h)"]) simp
  next
    case (Some orig)
    let ?h = "h\<lparr>ht_Meta := (ht_Meta h)\<lparr>om_ResourceVersion := om_ResourceVersion (ht_Meta orig)\<rparr>\<rparr>"
    note g = store_clientD(1) [OF st Some]
    from store_clientD(4) [OF st, of "ks_world s" ?h] Some
    obtain w where w: "cl_Update (k_HTTPRoutes k ns) ?h (ks_world s) = (Inr (admit ?h), w)"
      by (auto simp: h)
    from keep have "policies (snd (cl_Update (k_HTTPRoutes k ns) ?h (ks_world s))) = policies (ks_world s)"
      by (simp add: writes_keep_def)
    then have pw: "policies w = policies (ks_world s)" by (simp add: w)
    from u g obtain policy where b: "backendTrafficPolicyFromRoute k r ns = Inr policy"
      by (cases "backendTrafficPolicyFromRoute k r ns")
        (auto simp: upsertHTTPRoute_def upsert_result_def act_defs failed_result_def)
    obtain fr t where f: "finish_http_route k (admit ?h) policy ?name ns (s\<lparr>ks_world := w\<rparr>) = (fr, t)" by force
    from u g b w f obtain q where q: "fr = Ok q" "rr_route x = Some q"
      by (cases fr) (auto simp: upsertHTTPRoute_def upsert_result_def act_defs failed_result_def
          Let_def result_of_def h)
    from own [OF b pw f [unfolded q(1)]] obtain stored where
      "q = RouteFromHTTPRouteWithPolicy (admit ?h) stored" "own_policy admit_policy policy stored" by blast
    with b q(2) show ?thesis by blast
  qed
qed

text \<open>The route it returns has the specification and annotations that were asked for, normalised.\<close>

lemma own_policy_fields:
  assumes "server_keeps admit admit_policy" and "own_policy admit_policy pol stored"
  shows "stored = None \<longleftrightarrow> pol = None"
    and "stored = Some x \<Longrightarrow> pol = Some p \<Longrightarrow> tp_Labels x = tp_Labels p \<and>
      tp_UseClientProtocol x = tp_UseClientProtocol p \<and> tp_StreamIdleTimeout x = tp_StreamIdleTimeout p"
  using assms unfolding server_keeps_def own_policy_def
  by (cases pol; fastforce)+

lemma written_route_content:
  fixes gns gname v
  assumes sk: "server_keeps admit admit_policy"
    and b: "backendTrafficPolicyFromRoute k r ns = Inr policy"
    and own: "own_policy admit_policy policy stored"
  defines "q \<equiv> RouteFromHTTPRouteWithPolicy
      (admit ((ToHTTPRoute gns gname r)\<lparr>ht_Meta := (ht_Meta (ToHTTPRoute gns gname r))\<lparr>om_ResourceVersion := v\<rparr>\<rparr>)) stored"
  shows "\<exists>t. resolveStreamIdleTimeout r (k_HTTPRouteRequestIdleTimeout k) = Inr t \<and>
    rt_Spec q = (rt_Spec r)\<lparr>
       rs_PathType := pathMatchTypeFromRoute (rs_PathType (rt_Spec r)),
       rs_Path := routePathValue (rs_Path (rt_Spec r)),
       rs_Port := routeBackendPort (rs_Port (rt_Spec r)),
       rs_IngressClassName := None, rs_StreamIdleTimeout := t\<rparr> \<and>
    md_Annotations (rt_Metadata q) =
      (if isGrpc_annotation (md_Annotations (rt_Metadata r))
       then gm_put AnnotationBackendProtocol ''GRPC'' (httpRouteMetadataAnnotations (md_Annotations (rt_Metadata r)))
       else httpRouteMetadataAnnotations (md_Annotations (rt_Metadata r)))"
proof -
  let ?r = "r\<lparr>rt_Metadata := (rt_Metadata r)\<lparr>md_Namespace := ns\<rparr>\<rparr>"
  let ?d = "k_HTTPRouteRequestIdleTimeout k"
  from b have pol: "ToBackendTrafficPolicy ?r ?d = Inr policy"
    by (auto simp: backendTrafficPolicyFromRoute_def Let_def split: option.splits sum.splits)
  then obtain t where t: "resolveStreamIdleTimeout ?r ?d = Inr t"
    using ToBackendTrafficPolicy_resolve by blast
  have same: "resolveStreamIdleTimeout ?r ?d = resolveStreamIdleTimeout r ?d"
    by (simp add: resolveStreamIdleTimeout_def Let_def)
  let ?h = "ToHTTPRoute gns gname r"
  let ?a = "admit (?h\<lparr>ht_Meta := (ht_Meta ?h)\<lparr>om_ResourceVersion := v\<rparr>\<rparr>)"
  have fields: "ht_Rules ?a = ht_Rules (ToHTTPRoute gns gname ?r)"
    "ht_Hostnames ?a = ht_Hostnames (ToHTTPRoute gns gname ?r)"
    "om_Annotations (ht_Meta ?a) = om_Annotations (ht_Meta (ToHTTPRoute gns gname ?r))"
    using sk by (simp_all add: server_keeps_def ToHTTPRoute_def buildHTTPRouteRule_def Let_def)
  have "rt_Spec q = rt_Spec (reread_route gns gname ?r policy) \<and>
      md_Annotations (rt_Metadata q) = md_Annotations (rt_Metadata (reread_route gns gname ?r policy))"
    unfolding q_def reread_route_def RouteFromHTTPRouteWithPolicy_apply
    using RouteFromHTTPRoute_content [OF fields] own_policy_fields [OF sk own] by (intro apply_managed_cong) auto
  then show ?thesis
    using t same by (simp add: reread_route_eq [OF pol t])
qed

end
