(* ===== verification/Sample_Cluster.thy ===== *)
theory Sample_Cluster
  imports Route_Service_Laws
begin

section \<open>A concrete cluster\<close>

text \<open>
  A cluster in memory and its clients, the error functions of the API machinery on the errors it
  answers, and proofs that these have the properties the theorems assume of a cluster. The
  examples of the properties run on it.
\<close>

subsection \<open>Errors\<close>

definition status_error :: "string \<Rightarrow> int \<Rightarrow> string \<Rightarrow> lib_error" where
  "status_error reason code message =
     \<lparr> le_type = ''StatusError'', le_reason = reason, le_code = code, le_message = message \<rparr>"

text \<open>\<open>errors.As\<close>: the first status error in the tree of an error.\<close>

fun first_status :: "go_error \<Rightarrow> lib_error option"
  and first_status_of :: "go_error list \<Rightarrow> lib_error option" where
  "first_status (LibError e) = (if le_type e = ''StatusError'' then Some e else None)"
| "first_status (NewError s) = None"
| "first_status (Errorf s es) = first_status_of es"
| "first_status_of [] = None"
| "first_status_of (e # es) = (case first_status e of Some x \<Rightarrow> Some x | None \<Rightarrow> first_status_of es)"

definition reason_is :: "string \<Rightarrow> go_error \<Rightarrow> bool" where
  "reason_is reason e = (case first_status e of Some x \<Rightarrow> le_reason x = reason | None \<Rightarrow> False)"

definition sample_errs :: errlib where
  "sample_errs = \<lparr>
     IsNotFound = reason_is ''NotFound'', IsForbidden = reason_is ''Forbidden'',
     IsMethodNotSupported = reason_is ''MethodNotAllowed'',
     AsNoKindMatch = (\<lambda>_. False), AsNoResourceMatch = (\<lambda>_. False),
     AsStatusError = (\<lambda>e. map_option (\<lambda>x. \<lparr> as_Reason = le_reason x, as_Code = le_code x \<rparr>) (first_status e)),
     NewNotFound = (\<lambda>r n. status_error ''NotFound'' 404 (n @ '' not found'')),
     NewBadRequest = (\<lambda>m. status_error ''BadRequest'' 400 m),
     NewInvalid = (\<lambda>g k n fs. status_error ''Invalid'' 422 (n @ '' is invalid'')) \<rparr>"

lemma sample_errs_sel [simp]:
  "IsNotFound sample_errs = reason_is ''NotFound''"
  "IsForbidden sample_errs = reason_is ''Forbidden''"
  "IsMethodNotSupported sample_errs = reason_is ''MethodNotAllowed''"
  "AsStatusError sample_errs e = map_option (\<lambda>x. \<lparr> as_Reason = le_reason x, as_Code = le_code x \<rparr>) (first_status e)"
  by (simp_all add: sample_errs_def)

lemma errlib_ok_sample [simp]: "errlib_ok sample_errs"
  by (auto simp: errlib_ok_def sample_errs_def reason_is_def status_error_def split: option.splits)

definition no_such :: "string \<Rightarrow> go_error" where
  "no_such name = LibError (status_error ''NotFound'' 404 (name @ '' not found''))"

definition already_there :: "string \<Rightarrow> go_error" where
  "already_there name = LibError (status_error ''AlreadyExists'' 409 (name @ '' already exists''))"

lemma reason_is_simps [simp]:
  "reason_is ''NotFound'' (no_such name)" "\<not> reason_is ''NotFound'' (already_there name)"
  by (simp_all add: reason_is_def no_such_def already_there_def status_error_def)

subsection \<open>Clients of association lists\<close>

definition table_client ::
  "('f \<Rightarrow> string) \<Rightarrow> ('w \<Rightarrow> (string \<times> 'f) list) \<Rightarrow> ((string \<times> 'f) list \<Rightarrow> 'w \<Rightarrow> 'w) \<Rightarrow> ('w, 'f) client" where
  "table_client name_of get put = \<lparr>
     cl_Get = (\<lambda>n w. (case map_of (get w) n of None \<Rightarrow> Inl (no_such n) | Some f \<Rightarrow> Inr f, w)),
     cl_List = (\<lambda>opts w. (Inr \<lparr> pg_Items = map snd (get w), pg_Continue = [] \<rparr>, w)),
     cl_Create = (\<lambda>f w. case map_of (get w) (name_of f) of
         Some _ \<Rightarrow> (Inl (already_there (name_of f)), w)
       | None \<Rightarrow> (Inr f, put (AList.update (name_of f) f (get w)) w)),
     cl_Update = (\<lambda>f w. case map_of (get w) (name_of f) of
         None \<Rightarrow> (Inl (no_such (name_of f)), w)
       | Some _ \<Rightarrow> (Inr f, put (AList.update (name_of f) f (get w)) w)),
     cl_Delete = (\<lambda>n w. case map_of (get w) n of
         None \<Rightarrow> (Inl (no_such n), w)
       | Some _ \<Rightarrow> (Inr (), put (AList.delete n (get w)) w)) \<rparr>"

lemma table_client_store:
  assumes "\<And>t w. get (put t w) = t"
  shows "store_client sample_errs name_of (\<lambda>f. f) (\<lambda>w. map_of (get w)) (table_client name_of get put)"
  unfolding store_client_def
  by (auto simp: table_client_def assms update_conv' delete_conv' split: option.split)

definition table_policies ::
  "('w \<Rightarrow> (string \<times> BackendTrafficPolicy) list) \<Rightarrow> ((string \<times> BackendTrafficPolicy) list \<Rightarrow> 'w \<Rightarrow> 'w) \<Rightarrow>
     'w policy_client" where
  "table_policies get put = \<lparr>
     dy_Get = (\<lambda>n w. (case map_of (get w) n of None \<Rightarrow> Inl (no_such n) | Some p \<Rightarrow> Inr p, w)),
     dy_List = (\<lambda>w. (Inr (map snd (get w)), w)),
     dy_Create = (\<lambda>p w. (Inr (Some p), put (AList.update (tp_Name p) p (get w)) w)),
     dy_Update = (\<lambda>p w. (Inr (Some p), put (AList.update (tp_Name p) p (get w)) w)),
     dy_Delete = (\<lambda>n w. (Inr (), put (AList.delete n (get w)) w)) \<rparr>"

lemma table_policies_store:
  assumes "\<And>t w. get (put t w) = t"
  shows "policy_store sample_errs (\<lambda>p. p) (\<lambda>w. map_of (get w)) (table_policies get put)"
  unfolding policy_store_def
  by (auto simp: table_policies_def assms update_conv' delete_conv' split: option.split)

lemma table_policies_keeps:
  "(\<And>t w. objects (put t w) = objects w) \<Longrightarrow> policy_client_keeps objects (table_policies get put)"
  unfolding policy_client_keeps_def by (simp add: table_policies_def)

subsection \<open>The cluster\<close>

record sample_world =
  sm_ConfigMaps :: "(string \<times> v1_ConfigMap) list"
  sm_Secrets :: "(string \<times> v1_Secret) list"
  sm_Services :: "(string \<times> v1_Service) list"
  sm_ServiceAccounts :: "(string \<times> v1_ServiceAccount) list"
  sm_Namespaces :: "(string \<times> ObjectMeta) list"
  sm_Certificates :: "(string \<times> cm_Certificate) list"
  sm_Deployments :: "(string \<times> v1_Deployment) list"
  sm_NetIngresses :: "(string \<times> net_Ingress) list"
  sm_ExtIngresses :: "(string \<times> v1beta1_Ingress) list"
  sm_HTTPRoutes :: "(string \<times> HTTPRoute) list"
  sm_GRPCRoutes :: "(string \<times> GRPCRoute) list"
  sm_Policies :: "(string \<times> BackendTrafficPolicy) list"

definition empty_world :: sample_world where
  "empty_world = \<lparr> sm_ConfigMaps = [], sm_Secrets = [], sm_Services = [], sm_ServiceAccounts = [],
     sm_Namespaces = [], sm_Certificates = [], sm_Deployments = [], sm_NetIngresses = [],
     sm_ExtIngresses = [], sm_HTTPRoutes = [], sm_GRPCRoutes = [], sm_Policies = [] \<rparr>"

definition gateway_mode :: GatewaySystem where
  "gateway_mode = \<lparr> gs_Type = GatewayApiDefault, gs_Namespace = ''gateway-system'', gs_Name = ''gw'' \<rparr>"

definition dual_mode :: GatewaySystem where
  "dual_mode = gateway_mode\<lparr>gs_Type := ''gateway-api-default,legacy-ingress''\<rparr>"

definition sample_kube :: "GatewaySystem \<Rightarrow> (sample_world, unit) Kubernetes" where
  "sample_kube system = \<lparr>
     k_errs = sample_errs, k_labels_String = (\<lambda>_. []), k_namespace = ''ns'', k_Cache = no_caches,
     k_UseNetworkingV1Ingress = True, k_BG2Enabled = None, k_GatewaySystem = system,
     k_HTTPRouteRequestIdleTimeout = [],
     k_ConfigMaps = (\<lambda>_. table_client (\<lambda>x. om_Name (vcm_Meta x)) sm_ConfigMaps (\<lambda>t. sm_ConfigMaps_update (\<lambda>_. t))),
     k_Secrets = (\<lambda>_. table_client (\<lambda>x. om_Name (vsec_Meta x)) sm_Secrets (\<lambda>t. sm_Secrets_update (\<lambda>_. t))),
     k_Services = (\<lambda>_. table_client (\<lambda>x. om_Name (vsvc_Meta x)) sm_Services (\<lambda>t. sm_Services_update (\<lambda>_. t))),
     k_ServiceAccounts = (\<lambda>_. table_client (\<lambda>x. om_Name (vsa_Meta x)) sm_ServiceAccounts
       (\<lambda>t. sm_ServiceAccounts_update (\<lambda>_. t))),
     k_Namespaces = table_client om_Name sm_Namespaces (\<lambda>t. sm_Namespaces_update (\<lambda>_. t)),
     k_Certificates = (\<lambda>_. table_client (\<lambda>x. om_Name (cmc_Meta x)) sm_Certificates
       (\<lambda>t. sm_Certificates_update (\<lambda>_. t))),
     k_Deployments = (\<lambda>_. table_client (\<lambda>x. om_Name (vdep_Meta x)) sm_Deployments
       (\<lambda>t. sm_Deployments_update (\<lambda>_. t))),
     k_NetIngresses = (\<lambda>_. table_client (\<lambda>x. om_Name (ni_Meta x)) sm_NetIngresses
       (\<lambda>t. sm_NetIngresses_update (\<lambda>_. t))),
     k_ExtIngresses = (\<lambda>_. table_client (\<lambda>x. om_Name (bi_Meta x)) sm_ExtIngresses
       (\<lambda>t. sm_ExtIngresses_update (\<lambda>_. t))),
     k_HTTPRoutes = (\<lambda>_. table_client (\<lambda>x. om_Name (ht_Meta x)) sm_HTTPRoutes
       (\<lambda>t. sm_HTTPRoutes_update (\<lambda>_. t))),
     k_GRPCRoutes = (\<lambda>_. table_client (\<lambda>x. om_Name (gr_Meta x)) sm_GRPCRoutes
       (\<lambda>t. sm_GRPCRoutes_update (\<lambda>_. t))),
     k_dynamic = Some (\<lambda>_. table_policies sm_Policies (\<lambda>t. sm_Policies_update (\<lambda>_. t))) \<rparr>"

definition sample_state :: "(sample_world, unit) kstate" where
  "sample_state = \<lparr> ks_world = empty_world, ks_cache = () \<rparr>"

lemma sample_modes [simp]:
  "IsGatewayAPIEnabled gateway_mode" "\<not> IsIngressEnabled gateway_mode"
  "IsGatewayAPIEnabled dual_mode" "IsIngressEnabled dual_mode"
  by code_simp+

lemma sample_kube_sel [simp]:
  "k_errs (sample_kube g) = sample_errs" "k_GatewaySystem (sample_kube g) = g"
  "k_HTTPRouteRequestIdleTimeout (sample_kube g) = []"
  by (simp_all add: sample_kube_def)

lemma sample_route_cluster [simp]:
  "route_cluster (sample_kube g) ns (\<lambda>h. h) (\<lambda>w. map_of (sm_HTTPRoutes w)) (\<lambda>p. p) (\<lambda>w. map_of (sm_Policies w))"
proof -
  have "store_client sample_errs (\<lambda>h. om_Name (ht_Meta h)) (\<lambda>h. h) (\<lambda>w. map_of (sm_HTTPRoutes w))
      (table_client (\<lambda>x. om_Name (ht_Meta x)) sm_HTTPRoutes (\<lambda>t. sm_HTTPRoutes_update (\<lambda>_. t)))"
    by (rule table_client_store) simp
  moreover have "policy_store sample_errs (\<lambda>p. p) (\<lambda>w. map_of (sm_Policies w))
      (table_policies sm_Policies (\<lambda>t. sm_Policies_update (\<lambda>_. t)))"
    by (rule table_policies_store) simp
  moreover have "policy_client_keeps (\<lambda>w. map_of (sm_HTTPRoutes w))
      (table_policies sm_Policies (\<lambda>t. sm_Policies_update (\<lambda>_. t)))"
    by (rule table_policies_keeps) simp
  ultimately show ?thesis
    by (simp add: route_cluster_def sample_kube_def backendTrafficPolicyClient_def)
qed

text \<open>A client of an empty cluster, to be given the API client an example is about.\<close>

definition bare_kube :: "('w, 'c) Kubernetes" where
  "bare_kube = \<lparr>
     k_errs = sample_errs, k_labels_String = (\<lambda>_. []), k_namespace = ''ns'', k_Cache = no_caches,
     k_UseNetworkingV1Ingress = True, k_BG2Enabled = None, k_GatewaySystem = gateway_mode,
     k_HTTPRouteRequestIdleTimeout = [],
     k_ConfigMaps = (\<lambda>_. table_client (\<lambda>x. om_Name (vcm_Meta x)) (\<lambda>_. []) (\<lambda>_ w. w)),
     k_Secrets = (\<lambda>_. table_client (\<lambda>x. om_Name (vsec_Meta x)) (\<lambda>_. []) (\<lambda>_ w. w)),
     k_Services = (\<lambda>_. table_client (\<lambda>x. om_Name (vsvc_Meta x)) (\<lambda>_. []) (\<lambda>_ w. w)),
     k_ServiceAccounts = (\<lambda>_. table_client (\<lambda>x. om_Name (vsa_Meta x)) (\<lambda>_. []) (\<lambda>_ w. w)),
     k_Namespaces = table_client om_Name (\<lambda>_. []) (\<lambda>_ w. w),
     k_Certificates = (\<lambda>_. table_client (\<lambda>x. om_Name (cmc_Meta x)) (\<lambda>_. []) (\<lambda>_ w. w)),
     k_Deployments = (\<lambda>_. table_client (\<lambda>x. om_Name (vdep_Meta x)) (\<lambda>_. []) (\<lambda>_ w. w)),
     k_NetIngresses = (\<lambda>_. table_client (\<lambda>x. om_Name (ni_Meta x)) (\<lambda>_. []) (\<lambda>_ w. w)),
     k_ExtIngresses = (\<lambda>_. table_client (\<lambda>x. om_Name (bi_Meta x)) (\<lambda>_. []) (\<lambda>_ w. w)),
     k_HTTPRoutes = (\<lambda>_. table_client (\<lambda>x. om_Name (ht_Meta x)) (\<lambda>_. []) (\<lambda>_ w. w)),
     k_GRPCRoutes = (\<lambda>_. table_client (\<lambda>x. om_Name (gr_Meta x)) (\<lambda>_. []) (\<lambda>_ w. w)),
     k_dynamic = None \<rparr>"

text \<open>A route with an idle timeout and the GRPC annotation.\<close>

definition sample_route :: Route where
  "sample_route = \<lparr>
     rt_Metadata = FromObjectMeta ''Route'' \<lparr> om_Name = ''shop'', om_Namespace = ''ns'', om_UID = [],
       om_Generation = 1, om_ResourceVersion = [],
       om_Annotations = Some [(AnnotationBackendProtocol, ''GRPC''), (''team'', ''blue'')],
       om_Labels = None, om_Rest = [] \<rparr>,
     rt_Spec = zero_RouteSpec\<lparr>rs_Host := ''shop.example'', rs_Service := ''shop'', rs_StreamIdleTimeout := ''30s''\<rparr> \<rparr>"

end
