(* ===== verification/Route_Guarantees.thy ===== *)
theory Route_Guarantees
  imports Sample_Cluster
begin

section \<open>What the route operations guarantee\<close>

text \<open>
  The properties of \<open>service/internal/kubernetes/route.go\<close>, \<open>backend_traffic_policy.go\<close> and of the
  Gateway API conversions of \<open>entity/route.go\<close>, each with an example on the cluster of
  \<open>Sample_Cluster\<close> where it has hypotheses.
\<close>

subsection \<open>Updating and reading\<close>


lemma sample_server_keeps: "server_keeps (\<lambda>h. h) (\<lambda>p. p)"
  by (simp add: server_keeps_def)

lemma sample_writes_keep:
  "writes_keep (\<lambda>w. map_of (sm_Policies w)) (k_HTTPRoutes (sample_kube g) ns)"
  by (auto simp: writes_keep_def sample_kube_def table_client_def split: option.split)

definition sample_updated :: "(Route option res \<times> (sample_world, unit) kstate)" where
  "sample_updated = UpdateOrCreateRoute (sample_kube gateway_mode) sample_route ''ns'' sample_state"

definition sample_answer :: "Route option" where
  "sample_answer = (case fst sample_updated of Ok r \<Rightarrow> r | _ \<Rightarrow> None)"

lemma sample_updated_ok:
  "UpdateOrCreateRoute (sample_kube gateway_mode) sample_route ''ns'' sample_state = (Ok sample_answer, snd sample_updated)"
proof -
  have "(case fst sample_updated of Ok r \<Rightarrow> True | _ \<Rightarrow> False)" by code_simp
  then show ?thesis
    by (cases sample_updated; cases "fst sample_updated")
      (auto simp: sample_answer_def sample_updated_def)
qed


subsection \<open>The round trip through HTTPRoute and policy\<close>

text \<open>
  C22: reading a route back from the HTTPRoute and the policy it was written as loses nothing the
  Gateway API keeps: written again it gives the same policy and the same HTTPRoute, except that
  session persistence is gone.
\<close>

theorem reread_route_writes_the_same:
  assumes "ToBackendTrafficPolicy r d = Inr pol"
  shows "ToBackendTrafficPolicy (reread_route ns gw r pol) d = Inr pol \<and>
    ToHTTPRoute ns gw (reread_route ns gw r pol) = (ToHTTPRoute ns gw r)\<lparr>ht_Rules :=
       map (\<lambda>rule. rule\<lparr>hr_SessionPersistence := None\<rparr>) (ht_Rules (ToHTTPRoute ns gw r))\<rparr>"
  using reread_route_policy [OF assms] reread_route_httproute [OF assms] by blast

text \<open>A route with cookie affinity.\<close>

definition sticky_route :: Route where
  "sticky_route = sample_route\<lparr>rt_Metadata := (rt_Metadata sample_route)\<lparr>md_Annotations :=
     Some [(AnnotationAffinity, ''cookie''), (AnnotationSessionCookieName, ''sid''),
           (AnnotationBackendProtocol, ''grpc'')]\<rparr>\<rparr>"

theorem reread_route_writes_the_same_witness:
  "\<exists>pol. ToBackendTrafficPolicy sticky_route [] = Inr (Some pol) \<and>
     ToBackendTrafficPolicy (reread_route ''gns'' ''gw'' sticky_route (Some pol)) [] = Inr (Some pol) \<and>
     map hr_SessionPersistence (ht_Rules (ToHTTPRoute ''gns'' ''gw'' sticky_route)) \<noteq> [None] \<and>
     map hr_SessionPersistence
       (ht_Rules (ToHTTPRoute ''gns'' ''gw'' (reread_route ''gns'' ''gw'' sticky_route (Some pol)))) = [None]"
proof -
  have "(case ToBackendTrafficPolicy sticky_route [] of Inr (Some p) \<Rightarrow> True | _ \<Rightarrow> False)" by code_simp
  then obtain pol where p: "ToBackendTrafficPolicy sticky_route [] = Inr (Some pol)"
    by (auto split: sum.splits option.splits)
  have one: "length (ht_Rules (ToHTTPRoute ''gns'' ''gw'' sticky_route)) = 1"
    and sp: "map hr_SessionPersistence (ht_Rules (ToHTTPRoute ''gns'' ''gw'' sticky_route)) \<noteq> [None]"
    by code_simp+
  then obtain rule where "ht_Rules (ToHTTPRoute ''gns'' ''gw'' sticky_route) = [rule]"
    by (auto simp: length_Suc_conv)
  with reread_route_writes_the_same [OF p, of "''gns''" "''gw''"] p sp show ?thesis by auto
qed

subsection \<open>Both gateway systems\<close>

text \<open>
  C2: in dual mode a creation answers with the route of the Ingress exactly when both backends
  accepted the route; otherwise the error wraps the error of every backend that failed, and what
  the other backend did stays done.
\<close>

theorem CreateRoute_dual:
  assumes "IsGatewayAPIEnabled (k_GatewaySystem k)" and "IsIngressEnabled (k_GatewaySystem k)"
    and "createHTTPRoute k r ns s = (rh, s1)" and "rh \<noteq> Crash"
    and "createRouteLegacyIngress k r ns s1 = (ri, s2)" and "ri \<noteq> Crash"
  shows "\<exists>answer. CreateRoute k r ns s = (answer, s2) \<and>
    (\<forall>h i. rh = Ok h \<longrightarrow> ri = Ok i \<longrightarrow> answer = Ok (Some i)) \<and>
    (\<forall>e. rh = Err e \<or> ri = Err e \<longrightarrow> (\<exists>err. answer = Err err \<and> wraps err e))"
  using assms
  by (cases rh; cases ri)
    (auto simp: CreateRoute_def IsRouteCreationAllowed_def Let_def try_act_def bind_act_def result_of_def
      resolveRouteResult_def finishRouteOperation_def pickDualModeRouteResult_def dualModeRouteError_def)

definition sample_http :: "Route res \<times> (sample_world, unit) kstate" where
  "sample_http = createHTTPRoute (sample_kube dual_mode) sample_route ''ns'' sample_state"

definition sample_ingress :: "Route res \<times> (sample_world, unit) kstate" where
  "sample_ingress = createRouteLegacyIngress (sample_kube dual_mode) sample_route ''ns'' (snd sample_http)"

theorem CreateRoute_dual_witness:
  "\<exists>i. CreateRoute (sample_kube dual_mode) sample_route ''ns'' sample_state = (Ok (Some i), snd sample_ingress)"
proof -
  have h: "(case fst sample_http of Ok x \<Rightarrow> True | _ \<Rightarrow> False)"
    and i: "(case fst sample_ingress of Ok x \<Rightarrow> True | _ \<Rightarrow> False)" by code_simp+
  from h obtain a where a: "fst sample_http = Ok a" by (cases "fst sample_http") auto
  from i obtain b where b: "fst sample_ingress = Ok b" by (cases "fst sample_ingress") auto
  have eqs: "createHTTPRoute (sample_kube dual_mode) sample_route ''ns'' sample_state = (Ok a, snd sample_http)"
    "createRouteLegacyIngress (sample_kube dual_mode) sample_route ''ns'' (snd sample_http) = (Ok b, snd sample_ingress)"
    using a b by (simp_all add: sample_http_def sample_ingress_def prod_eq_iff)
  from CreateRoute_dual [OF _ _ eqs(1) _ eqs(2)] show ?thesis by auto
qed

text \<open>
  C15: in dual mode a deletion succeeds exactly when neither backend failed for another reason than
  that the object is missing and at least one object was there; it reports a missing route exactly
  when both objects were missing.
\<close>

theorem DeleteRoute_dual:
  assumes "errlib_ok (k_errs k)"
    and "IsGatewayAPIEnabled (k_GatewaySystem k)" and "IsIngressEnabled (k_GatewaySystem k)"
    and "deleteRouteHTTPRoute k name ns s = (Ok h, s1)" and "deleteRouteLegacyIngress k name ns s1 = (Ok i, s2)"
  shows "\<exists>answer. DeleteRoute k name ns s = (answer, s2) \<and>
    (answer = Ok () \<longleftrightarrow> (h = None \<or> i = None) \<and>
       (\<forall>e. h = Some e \<or> i = Some e \<longrightarrow> IsNotFound (k_errs k) e)) \<and>
    (\<forall>e. answer = Err e \<longrightarrow> (IsNotFound (k_errs k) e \<longleftrightarrow>
       (\<exists>eh ei. h = Some eh \<and> i = Some ei \<and> IsNotFound (k_errs k) eh \<and> IsNotFound (k_errs k) ei)))"
proof -
  let ?res = "resolveDeleteRouteResult (k_errs k) True True name h i"
  have d: "DeleteRoute k name ns s = (case ?res of None \<Rightarrow> (Ok (), s2) | Some e \<Rightarrow> (Err e, s2))"
    using assms(2-5) by (simp add: DeleteRoute_def Let_def bind_act_def split: option.split)
  show ?thesis
  proof (cases ?res)
    case None
    with d resolveDelete_dual_None [of "k_errs k" name h i] show ?thesis
      by (auto simp: isDeleteFailure_def split: option.splits)
  next
    case (Some e)
    with d resolveDelete_dual_None [of "k_errs k" name h i] resolveDelete_dual_NotFound [OF assms(1) Some]
    show ?thesis by (auto simp: isDeleteFailure_def is_notfound_def split: option.splits)
  qed
qed

definition delete_http :: "go_error option res \<times> (sample_world, unit) kstate" where
  "delete_http = deleteRouteHTTPRoute (sample_kube dual_mode) ''shop'' ''ns'' sample_state"

definition delete_ingress :: "go_error option res \<times> (sample_world, unit) kstate" where
  "delete_ingress = deleteRouteLegacyIngress (sample_kube dual_mode) ''shop'' ''ns'' (snd delete_http)"

theorem DeleteRoute_dual_witness:
  "\<exists>e. DeleteRoute (sample_kube dual_mode) ''shop'' ''ns'' sample_state = (Err e, snd delete_ingress) \<and>
     reason_is ''NotFound'' e"
proof -
  have f: "fst delete_http = Ok (Some (no_such ''shop''))" "fst delete_ingress = Ok (Some (no_such ''shop''))"
    by code_simp+
  have eqs: "deleteRouteHTTPRoute (sample_kube dual_mode) ''shop'' ''ns'' sample_state =
      (Ok (Some (no_such ''shop'')), snd delete_http)"
    "deleteRouteLegacyIngress (sample_kube dual_mode) ''shop'' ''ns'' (snd delete_http) =
      (Ok (Some (no_such ''shop'')), snd delete_ingress)"
    using f by (simp_all add: delete_http_def delete_ingress_def prod_eq_iff)
  from DeleteRoute_dual [OF _ _ _ eqs] obtain answer where
    a: "DeleteRoute (sample_kube dual_mode) ''shop'' ''ns'' sample_state = (answer, snd delete_ingress)"
      "answer \<noteq> Ok ()" "\<forall>e. answer = Err e \<longrightarrow> reason_is ''NotFound'' e" by auto
  moreover have "(case fst (DeleteRoute (sample_kube dual_mode) ''shop'' ''ns'' sample_state) of Crash \<Rightarrow> False | _ \<Rightarrow> True)"
    by code_simp
  ultimately show ?thesis by (cases answer) auto
qed

subsection \<open>Rejected routes\<close>

text \<open>
  C25: with the Gateway API alone, a route with an nginx annotation that cannot be carried over, or
  with a backend protocol other than GRPC, is refused before anything is written: neither the
  cluster nor the cache changes.
\<close>

theorem CreateRoute_rejected:
  assumes "IsGatewayAPIEnabled (k_GatewaySystem k)" and "\<not> IsIngressEnabled (k_GatewaySystem k)"
    and "(\<exists>key \<in> fst ` set criticalAnnotations. gm_str (md_Annotations (rt_Metadata r)) key \<noteq> []) \<or>
      (gm_str (md_Annotations (rt_Metadata r)) AnnotationBackendProtocol \<noteq> [] \<and>
       \<not> EqualFold (gm_str (md_Annotations (rt_Metadata r)) AnnotationBackendProtocol) ''GRPC'')"
  shows "\<exists>e. CreateRoute k r ns s = (Err e, s)"
proof -
  from assms(3) have "annotation_errors (md_Annotations (rt_Metadata r)) \<noteq> []"
    by (auto simp: annotation_errors_Nil)
  then obtain e where "backendTrafficPolicyFromRoute k r ns = Inl e"
    using backendTrafficPolicyFromRoute_invalid by blast
  then have "createHTTPRoute k r ns s = (Err e, s)" by (rule createHTTPRoute_invalid)
  with assms(1,2) show ?thesis by (simp add: CreateRoute_gateway)
qed

definition https_route :: Route where
  "https_route = sample_route\<lparr>rt_Metadata := (rt_Metadata sample_route)\<lparr>md_Annotations :=
     Some [(AnnotationBackendProtocol, ''HTTPS'')]\<rparr>\<rparr>"

theorem CreateRoute_rejected_witness:
  "\<exists>e. CreateRoute (sample_kube gateway_mode) https_route ''ns'' sample_state = (Err e, sample_state)"
proof (rule CreateRoute_rejected)
  have "gm_str (md_Annotations (rt_Metadata https_route)) AnnotationBackendProtocol \<noteq> [] \<and>
      \<not> EqualFold (gm_str (md_Annotations (rt_Metadata https_route)) AnnotationBackendProtocol) ''GRPC''"
    by code_simp
  then show "(\<exists>key \<in> fst ` set criticalAnnotations. gm_str (md_Annotations (rt_Metadata https_route)) key \<noteq> []) \<or>
      (gm_str (md_Annotations (rt_Metadata https_route)) AnnotationBackendProtocol \<noteq> [] \<and>
       \<not> EqualFold (gm_str (md_Annotations (rt_Metadata https_route)) AnnotationBackendProtocol) ''GRPC'')"
    by blast
qed simp_all

subsection \<open>Policies of others\<close>

text \<open>
  C28: a BackendTrafficPolicy that does not carry the label of this library is never changed:
  writing a route leaves it and returns it, deleting the route leaves it.
\<close>

theorem unmanaged_policy_untouched:
  assumes "policy_store (k_errs k) admit policies cl" and "backendTrafficPolicyClient k ns = Some cl"
    and "policies (ks_world s) name = Some q" and "gm_str (tp_Labels q) ManagedByLabel \<noteq> ManagedByPaasMediation"
  shows "applyBackendTrafficPolicy k policy name ns s = (Ok (Some q), s) \<and>
    deleteBackendTrafficPolicy k name ns s = (Ok (Some q), s)"
proof -
  have u: "\<not> isManagedBackendTrafficPolicy q"
    using assms(4) by (simp add: isManagedBackendTrafficPolicy_def)
  note g = policy_storeD(1) [OF assms(1,3)]
  have "deleteBackendTrafficPolicy k name ns s = (Ok (Some q), s)"
    using g u assms(2) by (simp add: deleteBackendTrafficPolicy_def act_defs)
  moreover have "applyBackendTrafficPolicy k (Some p) name ns s = (Ok (Some q), s)" for p
    using g u assms(2) by (simp add: applyBackendTrafficPolicy_def act_defs)
  ultimately show ?thesis
    using assms(2) by (cases policy) (simp_all add: applyBackendTrafficPolicy_def)
qed

definition foreign_policy :: BackendTrafficPolicy where
  "foreign_policy = \<lparr> tp_APIVersion = BackendTrafficPolicyAPIVersion, tp_Kind = BackendTrafficPolicyKind,
     tp_Name = ''shop'', tp_Namespace = ''ns'', tp_Labels = Some [(ManagedByLabel, ''somebody'')],
     tp_ResourceVersion = ''7'', tp_MergeType = Absent, tp_TargetRefs = Absent,
     tp_UseClientProtocol = Absent, tp_StreamIdleTimeout = Found ''5s'' \<rparr>"

definition foreign_state :: "(sample_world, unit) kstate" where
  "foreign_state = sample_state\<lparr>ks_world := empty_world\<lparr>sm_Policies := [(''shop'', foreign_policy)]\<rparr>\<rparr>"

theorem unmanaged_policy_untouched_witness:
  "deleteBackendTrafficPolicy (sample_kube gateway_mode) ''shop'' ''ns'' foreign_state =
     (Ok (Some foreign_policy), foreign_state)"
proof -
  have cl: "backendTrafficPolicyClient (sample_kube gateway_mode) ''ns'' =
      Some (table_policies sm_Policies (\<lambda>t. sm_Policies_update (\<lambda>_. t)))"
    by (simp add: backendTrafficPolicyClient_def sample_kube_def)
  have st: "policy_store (k_errs (sample_kube gateway_mode)) (\<lambda>p. p) (\<lambda>w. map_of (sm_Policies w))
      (table_policies sm_Policies (\<lambda>t. sm_Policies_update (\<lambda>_. t)))"
    unfolding sample_kube_sel by (rule table_policies_store) simp
  have there: "map_of (sm_Policies (ks_world foreign_state)) ''shop'' = Some foreign_policy"
    by (simp add: foreign_state_def)
  have "gm_str (tp_Labels foreign_policy) ManagedByLabel \<noteq> ManagedByPaasMediation" by code_simp
  from unmanaged_policy_untouched [OF st cl there this] show ?thesis by blast
qed

subsection \<open>Deleting and reading\<close>

text \<open>
  C30: with the Gateway API alone, after a deletion that succeeded the HTTPRoute is gone and
  reading the name is an error (not nil, which the interface documents for a missing route).
\<close>

theorem delete_then_get_route:
  assumes "route_cluster k ns admit objects admit_policy policies"
    and "IsGatewayAPIEnabled (k_GatewaySystem k)" and "\<not> IsIngressEnabled (k_GatewaySystem k)"
    and "objects (ks_world s) name \<noteq> None"
    and "DeleteRoute k name ns s = (Ok (), s')"
  shows "objects (ks_world s') name = None \<and>
    GetRoute k name ns s' = (Err (Errorf (''HTTPRoute '' @ name @ '' not found in namespace '' @ ns) []), s')"
proof -
  from assms(1) have st: "store_client (k_errs k) (\<lambda>h. om_Name (ht_Meta h)) admit objects (k_HTTPRoutes k ns)"
    by (simp add: route_cluster_def)
  from store_clientD(5) [OF st assms(4)] obtain w where
    d: "cl_Delete (k_HTTPRoutes k ns) name (ks_world s) = (Inr (), w)"
    and o: "objects w = (objects (ks_world s))(name := None)" by blast
  have keep: "keeps_objects objects (deleteBackendTrafficPolicy k name ns)"
    using assms(1) by (intro keeps_objects_policy) (auto simp: route_cluster_def)
  obtain c where s': "s' = snd (deleteBackendTrafficPolicy k name ns \<lparr>ks_world = w, ks_cache = c\<rparr>)"
  proof -
    let ?t = "case ch_HTTPRoute (k_Cache k) of None \<Rightarrow> s\<lparr>ks_world := w\<rparr>
      | Some rc \<Rightarrow> s\<lparr>ks_world := w, ks_cache := cache_Delete rc ns name (ks_cache s)\<rparr>"
    have t: "?t = \<lparr>ks_world = w, ks_cache = ks_cache ?t\<rparr>" by (cases s) (simp split: option.split)
    have "s' = snd (deleteBackendTrafficPolicy k name ns ?t)"
      using assms(2,3,5) d
      by (auto simp: DeleteRoute_def deleteRouteHTTPRoute_def act_defs Let_def isDeleteFailure_def
          split: option.splits prod.splits res.splits)
    with t that show thesis by metis
  qed
  then have none: "objects (ks_world s') name = None"
    using keep o by (simp add: keeps_objects_def)
  with store_clientD(2) [OF st none] assms(2) show ?thesis
    by (auto simp: GetRoute_def GetWrapper_def act_defs)
qed

definition deleted_state :: "(sample_world, unit) kstate" where
  "deleted_state = snd (DeleteRoute (sample_kube gateway_mode) ''shop'' ''ns'' (snd sample_updated))"

theorem delete_then_get_route_witness:
  "GetRoute (sample_kube gateway_mode) ''shop'' ''ns'' deleted_state =
     (Err (Errorf ''HTTPRoute shop not found in namespace ns'' []), deleted_state)"
proof -
  have "map_of (sm_HTTPRoutes (ks_world (snd sample_updated))) ''shop'' \<noteq> None"
    and "fst (DeleteRoute (sample_kube gateway_mode) ''shop'' ''ns'' (snd sample_updated)) = Ok ()"
    by code_simp+
  with delete_then_get_route [OF sample_route_cluster, of gateway_mode "snd sample_updated" "''shop''" "''ns''" deleted_state]
  show ?thesis by (simp add: deleted_state_def prod_eq_iff)
qed

subsection \<open>Shared annotation maps\<close>

text \<open>
  in dual mode the annotation that keeps a converter away from the Ingress is written into the
  caller's own route when that has annotations: if the caller writes the same route again, its
  HTTPRoute carries the annotation too, which the first one did not.
\<close>

theorem ignore_annotation_reaches_the_httproute:
  assumes "IsBothGatewaySystemsEnabled (k_GatewaySystem k)"
    and "md_Annotations (rt_Metadata r) = Some al"
    and "map_of al IgnoreApiConverterAnnotation = None"
  shows "gm_get (om_Annotations (ht_Meta (ToHTTPRoute ns gw r))) IgnoreApiConverterAnnotation = None \<and>
    gm_get (om_Annotations (ht_Meta (ToHTTPRoute ns gw (route_after_configureIngress k r))))
      IgnoreApiConverterAnnotation = Some ''true''"
proof -
  have p: "\<not> HasPrefix IgnoreApiConverterAnnotation nginx_prefix" by code_simp
  show ?thesis
    using assms p
    by (simp add: ToHTTPRoute_def Let_def httpRouteMetadataAnnotations_get route_after_configureIngress_def)
qed

theorem ignore_annotation_reaches_the_httproute_witness:
  "gm_get (om_Annotations (ht_Meta (ToHTTPRoute ''gns'' ''gw''
     (route_after_configureIngress (sample_kube dual_mode) sample_route)))) IgnoreApiConverterAnnotation = Some ''true''"
proof -
  have "IsBothGatewaySystemsEnabled (k_GatewaySystem (sample_kube dual_mode))"
    unfolding sample_kube_sel by code_simp
  moreover have "md_Annotations (rt_Metadata sample_route) = Some [(AnnotationBackendProtocol, ''GRPC''), (''team'', ''blue'')]"
    by (simp add: sample_route_def FromObjectMeta_def)
  moreover have "map_of [(AnnotationBackendProtocol, ''GRPC''), (''team'', ''blue'')] IgnoreApiConverterAnnotation = None"
    by code_simp
  ultimately show ?thesis using ignore_annotation_reaches_the_httproute by blast
qed

text \<open>
  an HTTPRoute that has annotations and a managed policy with the GRPC setting is put into the
  cache with the nginx annotation the conversion wrote into its map, although the HTTPRoute in the
  cluster has no such annotation.
\<close>

theorem cached_httproute_differs:
  assumes "om_Annotations (ht_Meta h) = Some al" and "map_of al AnnotationBackendProtocol = None"
    and "gm_str (tp_Labels p) ManagedByLabel = ManagedByPaasMediation"
    and "tp_UseClientProtocol p = Found True"
  shows "gm_get (om_Annotations (ht_Meta (HTTPRoute_after_conversion h (Some p)))) AnnotationBackendProtocol
      = Some ''GRPC'' \<and> HTTPRoute_after_conversion h (Some p) \<noteq> h"
proof -
  have "gm_get (om_Annotations (ht_Meta (HTTPRoute_after_conversion h (Some p)))) AnnotationBackendProtocol
      = Some ''GRPC''"
    using assms
    by (simp add: HTTPRoute_after_conversion_def RouteFromHTTPRouteWithPolicy_apply
        applyManagedBackendTrafficPolicy_def Let_def split: nested.split)
  moreover have "gm_get (om_Annotations (ht_Meta h)) AnnotationBackendProtocol = None"
    using assms(1,2) by simp
  ultimately show ?thesis by auto
qed

definition stored_httproute :: HTTPRoute where
  "stored_httproute = ToHTTPRoute ''gns'' ''gw'' sample_route"

definition grpc_policy :: BackendTrafficPolicy where
  "grpc_policy = foreign_policy\<lparr>tp_Labels := Some [(ManagedByLabel, ManagedByPaasMediation)],
     tp_UseClientProtocol := Found True\<rparr>"

theorem cached_httproute_differs_witness:
  "HTTPRoute_after_conversion stored_httproute (Some grpc_policy) \<noteq> stored_httproute"
proof -
  have "om_Annotations (ht_Meta stored_httproute) = Some [(''team'', ''blue'')]"
    and "map_of [(''team'', ''blue'')] AnnotationBackendProtocol = None"
    and "gm_str (tp_Labels grpc_policy) ManagedByLabel = ManagedByPaasMediation"
    and "tp_UseClientProtocol grpc_policy = Found True" by code_simp+
  then show ?thesis using cached_httproute_differs by blast
qed

subsection \<open>Idle timeouts\<close>

text \<open>
  the durations the code accepts are those of the Gateway API: one to four groups of one to
  five digits and a unit.
\<close>

theorem gateway_durations:
  "IsValidGatewayAPIDuration s \<longleftrightarrow>
     (\<exists>groups. groups \<noteq> [] \<and> length groups \<le> 4 \<and> s = concat groups \<and>
        (\<forall>g \<in> set groups. \<exists>ds u. g = ds @ u \<and> ds \<noteq> [] \<and> length ds \<le> 5 \<and> (\<forall>c \<in> set ds. is_digit c) \<and>
           u \<in> {''h'', ''m'', ''s'', ''ms''}))"
proof -
  have "1 \<le> length gs \<longleftrightarrow> gs \<noteq> []" for gs :: "string list" by (cases gs) auto
  then show ?thesis
    by (simp add: IsValid_iff list_all_iff duration_part_def conj_ac)
qed

theorem gateway_durations_witness:
  "\<not> IsValidGatewayAPIDuration ''100000s'' \<and> IsValidGatewayAPIDuration ''1h30m''"
proof -
  have "\<exists>groups. groups \<noteq> [] \<and> length groups \<le> 4 \<and> ''1h30m'' = concat groups \<and>
      (\<forall>g \<in> set groups. \<exists>ds u. g = ds @ u \<and> ds \<noteq> [] \<and> length ds \<le> 5 \<and> (\<forall>c \<in> set ds. is_digit c) \<and>
         u \<in> {''h'', ''m'', ''s'', ''ms''})"
    by (rule exI [of _ "[''1h'', ''30m'']"]) (auto simp: is_digit_def intro: exI [of _ "''1''"] exI [of _ "''30''"])
  moreover have "\<not> IsValidGatewayAPIDuration ''100000s''" by code_simp
  ultimately show ?thesis using gateway_durations [of "''1h30m''"] by blast
qed

text \<open>
  the idle timeout of a route is the explicit one, else the default, else the larger of the
  two legacy annotations in seconds; it is accepted exactly when it is empty or a Gateway API
  duration, so a policy never holds an invalid one.
\<close>

theorem idle_timeout_resolution:
  "resolveStreamIdleTimeout r d = Inr t \<longleftrightarrow>
     t = (if rs_StreamIdleTimeout (rt_Spec r) \<noteq> [] then rs_StreamIdleTimeout (rt_Spec r)
          else if TrimSpace d \<noteq> [] then TrimSpace d
          else if legacy_seconds r = 0 then [] else Itoa (legacy_seconds r) @ ''s'') \<and>
     (t = [] \<or> IsValidGatewayAPIDuration t)"
  by (rule resolve_iff)

text \<open>
  Legacy timeouts alone are always accepted below 100000 seconds and always an error from
  there on: the route is then refused before anything is written.
\<close>

theorem legacy_timeout_limit:
  assumes "rs_StreamIdleTimeout (rt_Spec r) = []" and "TrimSpace d = []"
  shows "isl (ToBackendTrafficPolicy r d) \<longleftrightarrow> 100000 \<le> legacy_seconds r"
proof (cases "legacy_seconds r < 100000")
  case True
  then obtain t where "resolveStreamIdleTimeout r d = Inr t"
    using resolve_legacy [OF assms] by blast
  with True show ?thesis by (simp add: ToBackendTrafficPolicy_def Let_def split: if_split)
next
  case False
  then have "resolveStreamIdleTimeout r d \<noteq> Inr t" for t
    using IsValid_Itoa_seconds [of "legacy_seconds r"] assms by (simp add: resolve_iff)
  then obtain e where "resolveStreamIdleTimeout r d = Inl e" by (cases "resolveStreamIdleTimeout r d") auto
  with False show ?thesis by (simp add: ToBackendTrafficPolicy_def Let_def)
qed

definition slow_route :: Route where
  "slow_route = \<lparr> rt_Metadata = (rt_Metadata sample_route)\<lparr>md_Annotations :=
     Some [(AnnotationProxyReadTimeout, ''60''), (AnnotationProxySendTimeout, ''100000'')]\<rparr>,
     rt_Spec = zero_RouteSpec \<rparr>"

theorem legacy_timeout_limit_witness: "isl (ToBackendTrafficPolicy slow_route '' '')"
proof -
  have "TrimSpace ''100000'' = ''100000''" by code_simp
  then have "parseTimeoutSeconds ''100000'' = 100000"
    by (simp add: parseTimeoutSeconds_def Atoi_def Let_def nat_of_dec_def digit_val_def is_digit_def int_min_def
        int_max_def)
  moreover have "gm_str (md_Annotations (rt_Metadata slow_route)) AnnotationProxySendTimeout = ''100000''"
    by (simp add: slow_route_def AnnotationProxyReadTimeout_def AnnotationProxySendTimeout_def gm_str_def)
  ultimately have "100000 \<le> legacy_seconds slow_route" by (simp add: legacy_seconds_def)
  moreover have "rs_StreamIdleTimeout (rt_Spec slow_route) = []" "TrimSpace '' '' = []" by code_simp+
  ultimately show ?thesis using legacy_timeout_limit by blast
qed

end
