(* ===== verification/Entity_Guarantees.thy ===== *)
theory Entity_Guarantees
  imports Route_Laws Certificate_Entity Deployment_Entity
begin

section \<open>What the conversions guarantee\<close>

text \<open>The properties of the conversions between API objects and the entities of \<open>entity/\<close>.\<close>


text \<open>
  a route written as an Ingress of \<open>networking.k8s.io/v1\<close> is read back with its
  kind, path type, path and port filled in and without filters and idle timeout, which an Ingress
  does not hold.
\<close>

theorem ingress_round_trip:
  "RouteFromIngressNetworkingV1 (ToIngressNetworkingV1 r) = Ret \<lparr>
     rt_Metadata = (rt_Metadata r)\<lparr>md_Kind := ''Route''\<rparr>,
     rt_Spec = (rt_Spec r)\<lparr>
       rs_PathType := (if rs_PathType (rt_Spec r) = [] then ''Prefix'' else rs_PathType (rt_Spec r)),
       rs_Path := routePathValue (rs_Path (rt_Spec r)),
       rs_Port := routeBackendPort (rs_Port (rt_Spec r)), rs_Filters := [], rs_StreamIdleTimeout := []\<rparr> \<rparr>"
  by (rule RouteFromIngressNetworkingV1_ToIngressNetworkingV1)

text \<open>
  reading an Ingress panics exactly when the first path of its first rule has a backend that
  is not a service, or no path type; so one such Ingress in a namespace makes every listing of
  routes there panic.
\<close>

theorem ingress_list_panics:
  "RouteListFromIngressListNetworkingV1 ingresses = Panic \<longleftrightarrow>
     (\<exists>i \<in> set ingresses. \<exists>r rs p ps. ni_Rules i = r # rs \<and> nr_HTTP r = Some (p # ps) \<and>
        (np_Service p = None \<or> np_PathType p = None))"
  by (simp add: RouteListFromIngressListNetworkingV1_map_run bind_run_eq_Panic map_run_eq_Panic
      RouteFromIngressNetworkingV1_Panic_iff)

text \<open>
  a list of pods can be converted exactly when every secret volume in it has a default mode;
  the conversion panics otherwise.
\<close>

theorem pod_list_panics:
  "NewPodList pods = Panic \<longleftrightarrow>
     (\<exists>p \<in> set pods. \<exists>v \<in> set (vps_Volumes (vpod_Spec p)). \<exists>s. vvol_Secret v = Some s \<and> vsv_DefaultMode s = None)"
  by (simp add: NewPodList_def map_run_eq_Panic PodFromOsPod_Panic_iff)

text \<open>
  the readiness of a pod is the same whether it is read off the API object or off its entity,
  and it is that of the last condition of type Ready.
\<close>

theorem pod_readiness:
  assumes "PodFromOsPod p = Ret e"
  shows "NewRolledOutPod e = NewRolloutedPod p \<and>
    rp_Status (NewRolloutedPod p) =
      (case rev (filter (\<lambda>c. vpc_Type c = ''Ready'') (vpst_Conditions (vpod_Status p))) of
         [] \<Rightarrow> []
       | c # _ \<Rightarrow> if vpc_Status c = ''True'' then ''Ready'' else ''Not ready'')"
  using NewRolledOutPod_entity [OF assms]
  by (simp add: NewRolloutedPod_def ready_loop_eq split: list.split)

definition sample_pod :: v1_Pod where
  "sample_pod = \<lparr>
     vpod_Meta = \<lparr> om_Name = ''shop-1'', om_Namespace = ''ns'', om_UID = [], om_Generation = 1,
       om_ResourceVersion = ''3'', om_Annotations = None, om_Labels = None, om_Rest = [] \<rparr>,
     vpod_Spec = zero_PodSpec,
     vpod_Status = \<lparr> vpst_Phase = ''Running'',
       vpst_Conditions = [\<lparr> vpc_Type = ''Ready'', vpc_Status = ''True'',
         vpc_LastProbeTime = \<lparr> gt_sec = 0, gt_nsec = 0, gt_off = 0 \<rparr>,
         vpc_LastTransitionTime = \<lparr> gt_sec = 0, gt_nsec = 0, gt_off = 0 \<rparr> \<rparr>],
       vpst_HostIP = [], vpst_PodIP = [], vpst_StartTime = None, vpst_ContainerStatuses = [] \<rparr> \<rparr>"

theorem pod_readiness_witness:
  "\<exists>e. PodFromOsPod sample_pod = Ret e \<and> NewRolledOutPod e = NewRolloutedPod sample_pod \<and>
     rp_Status (NewRolloutedPod sample_pod) = ''Ready''"
proof -
  have "PodFromOsPod sample_pod \<noteq> Panic"
    by (simp add: PodFromOsPod_Panic_iff sample_pod_def zero_PodSpec_def)
  then obtain e where e: "PodFromOsPod sample_pod = Ret e" by (cases "PodFromOsPod sample_pod") auto
  have "filter (\<lambda>c. vpc_Type c = ''Ready'') (vpst_Conditions (vpod_Status sample_pod)) =
      vpst_Conditions (vpod_Status sample_pod)" by (simp add: sample_pod_def)
  with e pod_readiness [OF e] show ?thesis by (simp add: sample_pod_def)
qed

text \<open>
  A deployment config with a template becomes the same entity as the deployment with the same
  data, but for the kind.
\<close>

theorem deployment_config_as_deployment:
  assumes "odcs_Template (odc_Spec d) = Some t"
  shows "NewDeploymentConfig d =
     bind_run (NewDeployment \<lparr> vdep_Meta = odc_Meta d,
         vdep_Spec = \<lparr> vdsp_Replicas = Some (odcs_Replicas (odc_Spec d)),
           vdsp_RevisionHistoryLimit = odcs_RevisionHistoryLimit (odc_Spec d), vdsp_Template = t,
           vdsp_StrategyType = odcs_StrategyType (odc_Spec d) \<rparr>,
         vdep_Status = odc_Status d \<rparr>)
       (\<lambda>e. Ret (e\<lparr>dep_Metadata := (dep_Metadata e)\<lparr>md_Kind := ''DeploymentConfig''\<rparr>\<rparr>))"
  by (rule NewDeploymentConfig_as_Deployment [OF assms])

definition sample_config :: os_DeploymentConfig where
  "sample_config = \<lparr> odc_Meta = vpod_Meta sample_pod,
     odc_Spec = \<lparr> odcs_Replicas = 2, odcs_RevisionHistoryLimit = None,
       odcs_Template = Some \<lparr> vpt_Labels = None, vpt_Spec = zero_PodSpec \<rparr>, odcs_StrategyType = ''Rolling'' \<rparr>,
     odc_Status = \<lparr> vds_AvailableReplicas = 1, vds_Conditions = [], vds_ObservedGeneration = 4,
       vds_ReadyReplicas = 1, vds_Replicas = 2, vds_UpdatedReplicas = 2 \<rparr> \<rparr>"

theorem deployment_config_as_deployment_witness:
  "NewDeploymentConfig sample_config =
     bind_run (NewDeployment \<lparr> vdep_Meta = vpod_Meta sample_pod,
         vdep_Spec = \<lparr> vdsp_Replicas = Some 2, vdsp_RevisionHistoryLimit = None,
           vdsp_Template = \<lparr> vpt_Labels = None, vpt_Spec = zero_PodSpec \<rparr>, vdsp_StrategyType = ''Rolling'' \<rparr>,
         vdep_Status = odc_Status sample_config \<rparr>)
       (\<lambda>e. Ret (e\<lparr>dep_Metadata := (dep_Metadata e)\<lparr>md_Kind := ''DeploymentConfig''\<rparr>\<rparr>))"
  using deployment_config_as_deployment [of sample_config "\<lparr> vpt_Labels = None, vpt_Spec = zero_PodSpec \<rparr>"]
  by (simp add: sample_config_def)

text \<open>
  The status of a rollout is nil as soon as one pod is not ready, and lists the pods of every
  deployment otherwise.
\<close>

theorem deployments_status_all_or_nothing:
  "NewDeploymentsStatus m =
     (if list_all (\<lambda>(name, pods). list_all (\<lambda>p. rp_Status (NewRolloutedPod p) = ''Ready'') pods) m
      then Some (map (\<lambda>(name, pods). (name, map NewRolloutedPod pods)) m) else None)"
  by (simp add: NewDeploymentsStatus_eq list_all_iff)

end
