(* ===== verification/Watch_Notifier.thy ===== *)
theory Watch_Notifier
  imports Meta_Data Crud_Adapter
begin

section \<open>Notifying the clients of a shared watch\<close>

text \<open>
  \<open>resourceVersionAwareClientNotifier\<close> of \<open>service/internal/kubernetes/kubeWatchServiceShared.go\<close>.
  All clients that watch a kind of resource in a namespace share one watch on the API server. A
  new client restarts that watch, so that it is told of the resources there are; its notifier
  comes in front of the previous ones, which keep their clients and what these have seen until a
  bookmark says that the initial state is complete. A chain of notifiers is the list from the
  current one back along \<open>previousNotifier\<close>.

  A client's channel is outside the model: whether a client takes an event before the timeout is
  a parameter, and sends and closes are outputs. Maps are association lists in the order in which
  the code's \<open>range\<close> loop meets them.
\<close>

subsection \<open>Events\<close>

text \<open>The object of an event is an entity, or a text in an error event.\<close>

datatype 't payload = Entity 't | Text string

record 't ApiEvent =
  ae_Type :: string
  ae_Object :: "'t payload"

subsection \<open>Filters\<close>

definition matchMeta :: "string gomap \<Rightarrow> string gomap \<Rightarrow> bool" where
  "matchMeta expected actual =
     list_all (\<lambda>(expectedK, expectedV).
       case gm_get actual expectedK of
         None \<Rightarrow> False
       | Some actualV \<Rightarrow> \<not> (actualV \<noteq> expectedV \<and> expectedV \<noteq> anyValue))
     (gm_entries expected)"

definition acceptMeta :: "Metadata \<Rightarrow> filter_Meta \<Rightarrow> bool" where
  "acceptMeta meta metaFilter =
     (matchMeta (fm_Labels metaFilter) (md_Labels meta) \<and>
      matchMeta (fm_Annotations metaFilter) (md_Annotations meta))"

text \<open>The watch filter and the list filter select the same objects.\<close>

lemma matchMeta_containsAll: "matchMeta expected actual = containsAll actual expected"
  unfolding matchMeta_def containsAll_def
  by (intro arg_cong2 [where f = list_all] ext refl) (auto split: option.splits)

subsection \<open>Notifiers\<close>

text \<open>A \<open>sharedHandlerHolder\<close> is its filter; its identifier is its key in the client map.\<close>

type_synonym clients = "(string \<times> filter_Meta) list"

record versionAndType =
  vt_resourceVersion :: string
  vt_eventType :: string

type_synonym versions = "((string \<times> string) \<times> versionAndType) list"

record notifier =
  nt_id :: string
  nt_clients :: clients
  nt_versions :: versions

datatype 't signal = Sent string "'t ApiEvent" | Closed string

text \<open>
  \<open>sendToClients\<close>: a client that does not take the event in time is closed and removed, and the
  function returns; the clients after it in the loop do not get the event.
\<close>

fun sendToClients ::
  "(string \<Rightarrow> bool) \<Rightarrow> 't ApiEvent \<Rightarrow> (filter_Meta \<Rightarrow> bool) \<Rightarrow> clients \<Rightarrow> clients \<times> 't signal list" where
  "sendToClients slow event accept [] = ([], [])"
| "sendToClients slow event accept ((cid, f) # cs) =
     (if accept f then
        if slow cid then (cs, [Closed cid])
        else (case sendToClients slow event accept cs of (cs', out) \<Rightarrow> ((cid, f) # cs', Sent cid event # out))
      else (case sendToClients slow event accept cs of (cs', out) \<Rightarrow> ((cid, f) # cs', out)))"

fun drainPrevious :: "notifier list \<Rightarrow> clients" where
  "drainPrevious [] = []"
| "drainPrevious (n # prev) =
     (if prev = [] then nt_clients n
      else foldl (\<lambda>r (k, v). AList.update k v r)
             (foldl (\<lambda>r (k, v). AList.update k v r) [] (drainPrevious prev)) (nt_clients n))"

definition zero_version :: versionAndType where
  "zero_version = \<lparr> vt_resourceVersion = [], vt_eventType = [] \<rparr>"

text \<open>
  \<open>acceptEvent\<close> gives the chain after the event, the outputs in their order, and the event: it is
  passed by reference, and resolving the internal type \<open>PREVIOUS\<close> changes it for the caller.
\<close>

fun acceptEvent ::
  "('t \<Rightarrow> Metadata) \<Rightarrow> (string \<Rightarrow> bool) \<Rightarrow> 't ApiEvent \<Rightarrow> notifier list \<Rightarrow>
     notifier list \<times> 't signal list \<times> 't ApiEvent" where
  "acceptEvent getMeta slow event [] = ([], [], event)"
| "acceptEvent getMeta slow event (this # prev) =
     (case ae_Object event of
        Text s \<Rightarrow> (this # prev, [], event)
      | Entity obj \<Rightarrow>
          let meta = getMeta obj
          in if ae_Type event = ''BOOKMARK'' then
               let clients = drainPrevious (this # prev);
                   updatedMap = filter (\<lambda>(k, v). vt_eventType v \<noteq> ''DELETED'') (nt_versions this);
                   (clients', out) = sendToClients slow event (\<lambda>f. fm_WatchBookmark f) clients
               in ([this\<lparr>nt_clients := clients', nt_versions := updatedMap\<rparr>], out, event)
             else
               let (prev', out1, event1) =
                     (if prev = [] then ([], [], event)
                      else if ae_Type event = ''ADDED'' \<and> md_Generation meta > 1
                      then (case acceptEvent getMeta slow (event\<lparr>ae_Type := ''PREVIOUS''\<rparr>) prev of
                              (p, o', _) \<Rightarrow> (p, o', event))
                      else acceptEvent getMeta slow event prev);
                   key = (md_Namespace meta, md_Name meta);
                   found = map_of (nt_versions this) key;
                   verAndType = (case found of None \<Rightarrow> zero_version | Some v \<Rightarrow> v)
               in if found \<noteq> None \<and> vt_resourceVersion verAndType = md_ResourceVersion meta
                  then (this # prev', out1, event1)
                  else
                    let event2 = (if ae_Type event1 = ''PREVIOUS''
                           then event1\<lparr>ae_Type :=
                             (if vt_resourceVersion verAndType = [] then ''ADDED'' else ''MODIFIED'')\<rparr>
                           else event1);
                        versions' = AList.update key
                          \<lparr> vt_resourceVersion = md_ResourceVersion meta, vt_eventType = ae_Type event2 \<rparr>
                          (nt_versions this);
                        (clients', out2) = sendToClients slow event2 (\<lambda>f. acceptMeta meta f) (nt_clients this)
                    in (this\<lparr>nt_clients := clients', nt_versions := versions'\<rparr> # prev', out1 @ out2, event2))"

definition deleteClient :: "string \<Rightarrow> notifier list \<Rightarrow> notifier list" where
  "deleteClient cid chain = map (\<lambda>n. n\<lparr>nt_clients := AList.delete cid (nt_clients n)\<rparr>) chain"

text \<open>\<open>cleanup\<close> closes the clients of the previous notifiers first.\<close>

fun cleanup :: "notifier list \<Rightarrow> notifier list \<times> 't signal list" where
  "cleanup [] = ([], [])"
| "cleanup (this # prev) =
     (case cleanup prev of (prev', out) \<Rightarrow>
        (this\<lparr>nt_clients := []\<rparr> # prev', out @ map (\<lambda>(cid, f). Closed cid) (nt_clients this)))"

fun clientsCount :: "notifier list \<Rightarrow> nat" where
  "clientsCount [] = 0"
| "clientsCount (this # prev) = length (nt_clients this) + clientsCount prev"

subsection \<open>Laws of sending\<close>

fun sent_types :: "'t signal list \<Rightarrow> string list" where
  "sent_types [] = []"
| "sent_types (Sent cid e # out) = ae_Type e # sent_types out"
| "sent_types (Closed cid # out) = sent_types out"

definition closed_ids :: "'t signal list \<Rightarrow> string list" where
  "closed_ids out = concat (map (\<lambda>s. case s of Sent cid e \<Rightarrow> [] | Closed cid \<Rightarrow> [cid]) out)"

definition signal_id :: "'t signal \<Rightarrow> string" where
  "signal_id s = (case s of Sent cid e \<Rightarrow> cid | Closed cid \<Rightarrow> cid)"

lemma signal_simps [simp]:
  "closed_ids [] = []"
  "closed_ids (Sent cid e # out) = closed_ids out"
  "closed_ids (Closed cid # out) = cid # closed_ids out"
  "signal_id (Sent cid e) = cid"
  "signal_id (Closed cid) = cid"
  "closed_ids (a @ b) = closed_ids a @ closed_ids b"
  "sent_types (a @ b) = sent_types a @ sent_types b"
  subgoal by (simp add: closed_ids_def)
  subgoal by (simp add: closed_ids_def)
  subgoal by (simp add: closed_ids_def)
  subgoal by (simp add: signal_id_def)
  subgoal by (simp add: signal_id_def)
  subgoal by (simp add: closed_ids_def)
  subgoal by (induction a rule: sent_types.induct) simp_all
  done

lemma sendToClients_Sent:
  "sendToClients slow e acc cs = (cs', out) \<Longrightarrow> Sent cid e' \<in> set out \<Longrightarrow>
     e' = e \<and> \<not> slow cid \<and> (\<exists>f. (cid, f) \<in> set cs \<and> acc f)"
  by (induction slow e acc cs arbitrary: cs' out rule: sendToClients.induct)
    (auto split: if_splits prod.splits)

lemma sendToClients_ids:
  "sendToClients slow e acc cs = (cs', out) \<Longrightarrow> signal_id ` set out \<subseteq> fst ` set cs"
  by (induction slow e acc cs arbitrary: cs' out rule: sendToClients.induct)
    (auto split: if_splits prod.splits)

lemma sendToClients_types:
  "sendToClients slow e acc cs = (cs', out) \<Longrightarrow> set (sent_types out) \<subseteq> {ae_Type e}"
  by (induction slow e acc cs arbitrary: cs' out rule: sendToClients.induct)
    (auto split: if_splits prod.splits)

text \<open>At most one client is closed; it is the only one removed.\<close>

lemma sendToClients_split:
  "sendToClients slow e acc cs = (cs', out) \<Longrightarrow>
     (closed_ids out = [] \<and> cs' = cs) \<or>
     (\<exists>cid f cs1 cs2. closed_ids out = [cid] \<and> cs = cs1 @ (cid, f) # cs2 \<and> cs' = cs1 @ cs2)"
proof (induction slow e acc cs arbitrary: cs' out rule: sendToClients.induct)
  case (1 slow e acc)
  then show ?case by simp
next
  case (2 slow e acc cid f cs)
  show ?case
  proof (cases "acc f \<and> slow cid")
    case True
    with 2(3) have "out = [Closed cid]" "cs' = cs" by auto
    then show ?thesis by (intro disjI2 exI [of _ cid] exI [of _ f] exI [of _ "[]"] exI [of _ cs]) simp
  next
    case False
    obtain cs1 out1 where r: "sendToClients slow e acc cs = (cs1, out1)" by force
    with False 2(3) have o: "cs' = (cid, f) # cs1" "closed_ids out = closed_ids out1"
      by (auto split: if_splits)
    from False 2(1,2) r have
      "(closed_ids out1 = [] \<and> cs1 = cs) \<or>
       (\<exists>cid' f' a b. closed_ids out1 = [cid'] \<and> cs = a @ (cid', f') # b \<and> cs1 = a @ b)" by auto
    with o show ?thesis by (metis append_Cons)
  qed
qed

text \<open>When every client is fast enough all matching clients get the event.\<close>

lemma sendToClients_fast:
  "\<forall>(cid, f) \<in> set cs. acc f \<longrightarrow> \<not> slow cid \<Longrightarrow>
   sendToClients slow e acc cs =
     (cs, map (\<lambda>(cid, f). Sent cid e) (filter (\<lambda>(cid, f). acc f) cs))"
  by (induction slow e acc cs rule: sendToClients.induct) auto

text \<open>What the early return costs: the clients after the first slow one.\<close>

lemma sendToClients_slow:
  assumes "\<forall>(i, g) \<in> set cs1. acc g \<longrightarrow> \<not> slow i" and "acc f" and "slow cid"
  shows "sendToClients slow e acc (cs1 @ (cid, f) # cs2) =
     (cs1 @ cs2, map (\<lambda>(i, g). Sent i e) (filter (\<lambda>(i, g). acc g) cs1) @ [Closed cid])"
  using assms(1)
proof (induction cs1)
  case Nil
  with assms(2,3) show ?case by simp
next
  case (Cons c cs1)
  obtain i g where c: "c = (i, g)" by force
  with Cons show ?case by auto
qed

subsection \<open>Laws of a chain\<close>

definition chain_ids :: "notifier list \<Rightarrow> string list" where
  "chain_ids chain = concat (map (\<lambda>n. map fst (nt_clients n)) chain)"

lemma chain_ids_simps [simp]:
  "chain_ids [] = []"
  "chain_ids (n # ns) = map fst (nt_clients n) @ chain_ids ns"
  by (simp_all add: chain_ids_def)

lemma clientsCount_chain_ids: "clientsCount chain = length (chain_ids chain)"
  by (induction chain) simp_all

text \<open>A resolution of \<open>PREVIOUS\<close> never reaches a client.\<close>

lemma acceptEvent_no_PREVIOUS:
  "acceptEvent getMeta slow ev chain = (chain', out, ev') \<Longrightarrow> ''PREVIOUS'' \<notin> set (sent_types out)"
proof (induction getMeta slow ev chain arbitrary: chain' out ev' rule: acceptEvent.induct)
  case (1 getMeta slow event)
  then show ?case by simp
next
  case (2 getMeta slow event this prev)
  show ?case
  proof (cases "ae_Object event")
    case (Text s)
    with 2(3) show ?thesis by simp
  next
    case (Entity obj)
    let ?m = "getMeta obj"
    show ?thesis
    proof (cases "ae_Type event = ''BOOKMARK''")
      case True
      with 2(3) Entity show ?thesis
        by (auto simp: Let_def split: prod.splits dest!: sendToClients_types)
    next
      case False
      obtain prev1 out1 ev1 where p: "(if prev = [] then ([], [], event)
          else if ae_Type event = ''ADDED'' \<and> md_Generation ?m > 1
          then (case acceptEvent getMeta slow (event\<lparr>ae_Type := ''PREVIOUS''\<rparr>) prev of (p, o', _) \<Rightarrow> (p, o', event))
          else acceptEvent getMeta slow event prev) = (prev1, out1, ev1)"
        by (metis prod_cases3)
      have o1: "''PREVIOUS'' \<notin> set (sent_types out1)"
      proof (cases "prev = []")
        case True
        with p show ?thesis by auto
      next
        case np: False
        show ?thesis
        proof (cases "ae_Type event = ''ADDED'' \<and> md_Generation ?m > 1")
          case True
          with p np obtain e2 where
            "acceptEvent getMeta slow (event\<lparr>ae_Type := ''PREVIOUS''\<rparr>) prev = (prev1, out1, e2)"
            by (auto split: prod.splits)
          with 2(1) [OF Entity refl False np True] show ?thesis by blast
        next
          case na: False
          with p np have "acceptEvent getMeta slow event prev = (prev1, out1, ev1)" by (simp only: if_False)
          with 2(2) [OF Entity refl False np na] show ?thesis by blast
        qed
      qed
      with 2(3) Entity False p show ?thesis
        by (auto simp: Let_def split: prod.splits if_splits dest!: sendToClients_types)
    qed
  qed
qed

subsection \<open>Identities of clients\<close>

text \<open>What every operation on clients with distinct identifiers does with them.\<close>

definition tidy :: "string list \<Rightarrow> string list \<Rightarrow> 't signal list \<Rightarrow> bool" where
  "tidy ids ids' out \<longleftrightarrow> distinct (map signal_id out) \<and> distinct ids' \<and>
     set (map signal_id out) \<subseteq> set ids \<and> set ids' = set ids - set (closed_ids out)"

lemma closed_ids_signal_ids: "set (closed_ids out) \<subseteq> signal_id ` set out"
  by (induction out) (auto simp: closed_ids_def signal_id_def split: signal.splits)

lemma sendToClients_tidy:
  "distinct (map fst cs) \<Longrightarrow> sendToClients slow e acc cs = (cs', out) \<Longrightarrow>
   tidy (map fst cs) (map fst cs') out"
proof (induction slow e acc cs arbitrary: cs' out rule: sendToClients.induct)
  case (1 slow e acc)
  then show ?case by (simp add: tidy_def)
next
  case (2 slow e acc cid f cs)
  show ?case
  proof (cases "acc f \<and> slow cid")
    case True
    with 2(3,4) show ?thesis by (force simp: tidy_def)
  next
    case False
    obtain cs1 out1 where r: "sendToClients slow e acc cs = (cs1, out1)" by force
    with False 2(1-3) have ih: "tidy (map fst cs) (map fst cs1) out1" by auto
    have o: "cs' = (cid, f) # cs1" "out = out1 \<or> out = Sent cid e # out1"
      using False 2(4) r by (auto split: if_splits)
    from ih 2(3) have "cid \<notin> signal_id ` set out1" by (auto simp: tidy_def)
    with ih o 2(3) closed_ids_signal_ids [of out1] show ?thesis
      by (elim disjE) (auto simp: tidy_def)
  qed
qed

lemma update_fresh: "k \<notin> fst ` set al \<Longrightarrow> AList.update k v al = al @ [(k, v)]"
  by (induction al) auto

lemma foldl_update_append:
  "distinct (map fst (al @ kvs)) \<Longrightarrow> foldl (\<lambda>r (k, v). AList.update k v r) al kvs = al @ kvs"
proof (induction kvs arbitrary: al)
  case Nil
  then show ?case by simp
next
  case (Cons kv kvs)
  obtain k v where kv: "kv = (k, v)" by force
  with Cons.prems have "k \<notin> fst ` set al" by auto
  then have u: "AList.update k v al = al @ [(k, v)]" by (rule update_fresh)
  from Cons.prems kv have "distinct (map fst ((al @ [(k, v)]) @ kvs))" by auto
  from Cons.IH [OF this] kv u show ?case by simp
qed

lemma drainPrevious_concat:
  "distinct (chain_ids chain) \<Longrightarrow>
   drainPrevious chain = concat (map nt_clients (rev chain))"
proof (induction chain)
  case Nil
  then show ?case by simp
next
  case (Cons n prev)
  show ?case
  proof (cases "prev = []")
    case True
    then show ?thesis by simp
  next
    case False
    from Cons have d: "drainPrevious prev = concat (map nt_clients (rev prev))" by simp
    have s: "set (map fst (concat (map nt_clients (rev ns)))) = set (chain_ids ns)"
      and dd: "distinct (map fst (concat (map nt_clients (rev ns)))) = distinct (chain_ids ns)" for ns :: "notifier list"
    proof -
      show "set (map fst (concat (map nt_clients (rev ns)))) = set (chain_ids ns)" by (induction ns) auto
      then show "distinct (map fst (concat (map nt_clients (rev ns)))) = distinct (chain_ids ns)"
      proof (induction ns)
        case Nil
        then show ?case by simp
      next
        case (Cons m ms)
        have "set (map fst (concat (map nt_clients (rev ms)))) = set (chain_ids ms)" by (induction ms) auto
        moreover from Cons.IH [OF this] have
          "distinct (map fst (concat (map nt_clients (rev ms)))) = distinct (chain_ids ms)" .
        ultimately show ?case by auto
      qed
    qed
    from Cons.prems have dist: "distinct (map fst (concat (map nt_clients (rev prev)) @ nt_clients n))"
      using s [of prev] dd [of prev] by auto
    then have "foldl (\<lambda>r (k, v). AList.update k v r) [] (concat (map nt_clients (rev prev))) =
        concat (map nt_clients (rev prev))"
      using foldl_update_append [of "[]" "concat (map nt_clients (rev prev))"] by simp
    with d foldl_update_append [OF dist] False show ?thesis by simp
  qed
qed

lemma drainPrevious_ids:
  assumes "distinct (chain_ids chain)"
  shows "distinct (map fst (drainPrevious chain))" "fst ` set (drainPrevious chain) = set (chain_ids chain)"
proof -
  have s: "fst ` set (concat (map nt_clients (rev ns))) = set (chain_ids ns)" for ns :: "notifier list"
    by (induction ns) (auto simp: image_Un)
  show "fst ` set (drainPrevious chain) = set (chain_ids chain)"
    unfolding drainPrevious_concat [OF assms] by (rule s)
  have "distinct (chain_ids ns) \<Longrightarrow> distinct (map fst (concat (map nt_clients (rev ns))))" for ns :: "notifier list"
  proof (induction ns)
    case (Cons m ms)
    with s [of ms] show ?case by auto
  qed simp
  from this [OF assms] show "distinct (map fst (drainPrevious chain))"
    unfolding drainPrevious_concat [OF assms] .
qed

lemma tidy_append:
  assumes "tidy a a' x" and "tidy b b' y" and "set a \<inter> set b = {}"
  shows "tidy (b @ a) (b' @ a') (x @ y)"
proof -
  have "set (closed_ids x) \<subseteq> set a" "set (closed_ids y) \<subseteq> set b"
    using assms(1,2) closed_ids_signal_ids [of x] closed_ids_signal_ids [of y] by (auto simp: tidy_def)
  moreover have "set (map signal_id x) \<inter> set (map signal_id y) = {}"
    using assms by (auto simp only: tidy_def)
  ultimately show ?thesis using assms unfolding tidy_def
    by (simp only: map_append distinct_append set_append signal_simps) blast
qed

lemma tidy_Nil [simp]: "tidy a a [] \<longleftrightarrow> distinct a"
  by (simp add: tidy_def)

lemma acceptEvent_tidy:
  "distinct (chain_ids chain) \<Longrightarrow> acceptEvent getMeta slow ev chain = (chain', out, ev') \<Longrightarrow>
   tidy (chain_ids chain) (chain_ids chain') out"
proof (induction getMeta slow ev chain arbitrary: chain' out ev' rule: acceptEvent.induct)
  case (1 getMeta slow event)
  then show ?case by simp
next
  case (2 getMeta slow event this prev)
  show ?case
  proof (cases "ae_Object event")
    case (Text s)
    with 2(3,4) show ?thesis by (simp del: chain_ids_simps)
  next
    case (Entity obj)
    let ?m = "getMeta obj"
    show ?thesis
    proof (cases "ae_Type event = ''BOOKMARK''")
      case True
      obtain cs' out' where s: "sendToClients slow event (\<lambda>f. fm_WatchBookmark f)
          (drainPrevious (this # prev)) = (cs', out')" by force
      from sendToClients_tidy [OF drainPrevious_ids(1) [OF 2(3)] s] drainPrevious_ids(2) [OF 2(3)]
      have "tidy (chain_ids (this # prev)) (map fst cs') out'"
        by (simp add: tidy_def del: chain_ids_simps drainPrevious.simps)
      with True 2(4) Entity s show ?thesis
        by (auto simp: Let_def simp del: drainPrevious.simps split: prod.splits)
    next
      case False
      obtain prev1 out1 ev1 where p: "(if prev = [] then ([], [], event)
          else if ae_Type event = ''ADDED'' \<and> md_Generation ?m > 1
          then (case acceptEvent getMeta slow (event\<lparr>ae_Type := ''PREVIOUS''\<rparr>) prev of (p, o', _) \<Rightarrow> (p, o', event))
          else acceptEvent getMeta slow event prev) = (prev1, out1, ev1)"
        by (metis prod_cases3)
      from 2(3) have dp: "distinct (chain_ids prev)" and dt: "distinct (map fst (nt_clients this))"
        and disj: "set (chain_ids prev) \<inter> set (map fst (nt_clients this)) = {}" by auto
      have t1: "tidy (chain_ids prev) (chain_ids prev1) out1"
      proof (cases "prev = []")
        case True
        with p show ?thesis by auto
      next
        case np: False
        show ?thesis
        proof (cases "ae_Type event = ''ADDED'' \<and> md_Generation ?m > 1")
          case True
          with p np obtain e2 where
            "acceptEvent getMeta slow (event\<lparr>ae_Type := ''PREVIOUS''\<rparr>) prev = (prev1, out1, e2)"
            by (auto split: prod.splits)
          with 2(1) [OF Entity refl False np True dp] show ?thesis by blast
        next
          case na: False
          with p np have "acceptEvent getMeta slow event prev = (prev1, out1, ev1)" by (simp only: if_False)
          with 2(2) [OF Entity refl False np na dp] show ?thesis by blast
        qed
      qed
      consider "chain' = this # prev1" "out = out1"
        | e2 vs cs' out2 where "sendToClients slow e2 (\<lambda>f. acceptMeta ?m f) (nt_clients this) = (cs', out2)"
          "chain' = this\<lparr>nt_clients := cs', nt_versions := vs\<rparr> # prev1" "out = out1 @ out2"
        using 2(4) Entity False p by (auto simp: Let_def split: prod.splits if_splits)
      then show ?thesis
      proof cases
        case 1
        with tidy_append [OF t1 _ disj, of "map fst (nt_clients this)" "[]"] dt show ?thesis by simp
      next
        case 2
        with tidy_append [OF t1 sendToClients_tidy [OF dt 2(1)] disj] show ?thesis by simp
      qed
    qed
  qed
qed

lemma closed_all:
  "map signal_id (map (\<lambda>(cid, f). Closed cid) cs) = map fst cs"
  "closed_ids (map (\<lambda>(cid, f). Closed cid) cs) = map fst cs"
  "map (signal_id \<circ> (\<lambda>(cid, f). Closed cid)) cs = map fst cs"
  "signal_id ` (\<lambda>(cid, f). Closed cid) ` set cs = fst ` set cs"
  subgoal by (induction cs) auto
  subgoal by (induction cs) auto
  subgoal by (induction cs) auto
  subgoal by (force simp: image_iff)
  done

lemma cleanup_tidy:
  "distinct (chain_ids chain) \<Longrightarrow> cleanup chain = (chain', out :: 't signal list) \<Longrightarrow>
   tidy (chain_ids chain) (chain_ids chain') out \<and> chain_ids chain' = []"
proof (induction chain arbitrary: chain' out)
  case Nil
  then show ?case by simp
next
  case (Cons n prev)
  obtain p and o1 :: "'t signal list" where c: "cleanup prev = (p, o1)" by force
  from Cons.prems(1) have "distinct (chain_ids prev)" by simp
  from Cons.IH [OF this c] have ih: "tidy (chain_ids prev) (chain_ids p) o1" "chain_ids p = []" by auto
  have "tidy (map fst (nt_clients n)) [] (map (\<lambda>(cid, f). Closed cid) (nt_clients n) :: 't signal list)"
    using Cons.prems by (simp add: tidy_def closed_all)
  moreover from Cons.prems(1) have "set (chain_ids prev) \<inter> set (map fst (nt_clients n)) = {}" by auto
  ultimately show ?case using tidy_append [OF ih(1)] Cons.prems(2) c ih(2) by auto
qed

lemma deleteClient_ids:
  "set (chain_ids (deleteClient cid chain)) = set (chain_ids chain) - {cid}"
  "distinct (chain_ids chain) \<Longrightarrow> distinct (chain_ids (deleteClient cid chain))"
proof -
  have d: "set (map fst (AList.delete cid al)) = set (map fst al) - {cid}" for al :: clients
    by (auto simp: AList.delete_eq)
  show s: "set (chain_ids (deleteClient cid ns)) = set (chain_ids ns) - {cid}" for ns
    by (induction ns) (auto simp: deleteClient_def d simp del: set_map)
  show "distinct (chain_ids chain) \<Longrightarrow> distinct (chain_ids (deleteClient cid chain))"
  proof (induction chain)
    case (Cons n ns)
    have "distinct (map fst (AList.delete cid (nt_clients n)))"
      using Cons.prems by (auto simp: distinct_delete)
    with Cons s [of ns] d [of "nt_clients n"] show ?case
      by (auto simp: deleteClient_def)
  qed (simp add: deleteClient_def)
qed

subsection \<open>Who gets an event\<close>

text \<open>The two cases of \<open>acceptEvent\<close> at an event that is not a bookmark.\<close>

definition pass_on ::
  "('t \<Rightarrow> Metadata) \<Rightarrow> (string \<Rightarrow> bool) \<Rightarrow> 't ApiEvent \<Rightarrow> Metadata \<Rightarrow> notifier list \<Rightarrow>
     notifier list \<times> 't signal list \<times> 't ApiEvent" where
  "pass_on getMeta slow event meta prev =
     (if prev = [] then ([], [], event)
      else if ae_Type event = ''ADDED'' \<and> md_Generation meta > 1
      then (case acceptEvent getMeta slow (event\<lparr>ae_Type := ''PREVIOUS''\<rparr>) prev of (p, o', _) \<Rightarrow> (p, o', event))
      else acceptEvent getMeta slow event prev)"

definition take_event ::
  "(string \<Rightarrow> bool) \<Rightarrow> Metadata \<Rightarrow> notifier \<Rightarrow> notifier list \<Rightarrow> 't signal list \<Rightarrow> 't ApiEvent \<Rightarrow>
     notifier list \<times> 't signal list \<times> 't ApiEvent" where
  "take_event slow meta self prev out event =
     (let key = (md_Namespace meta, md_Name meta);
          found = map_of (nt_versions self) key;
          v = (case found of None \<Rightarrow> zero_version | Some v \<Rightarrow> v)
      in if found \<noteq> None \<and> vt_resourceVersion v = md_ResourceVersion meta then (self # prev, out, event)
         else
           let event2 = (if ae_Type event = ''PREVIOUS''
                  then event\<lparr>ae_Type := (if vt_resourceVersion v = [] then ''ADDED'' else ''MODIFIED'')\<rparr>
                  else event);
               (clients', out2) = sendToClients slow event2 (\<lambda>f. acceptMeta meta f) (nt_clients self)
           in (self\<lparr>nt_clients := clients', nt_versions := AList.update key
                  \<lparr> vt_resourceVersion = md_ResourceVersion meta, vt_eventType = ae_Type event2 \<rparr>
                  (nt_versions self)\<rparr> # prev, out @ out2, event2))"

lemma acceptEvent_entity:
  assumes "ae_Object event = Entity obj" and "ae_Type event \<noteq> ''BOOKMARK''"
  shows "acceptEvent getMeta slow event (self # prev) =
    (case pass_on getMeta slow event (getMeta obj) prev of
       (prev', out1, event1) \<Rightarrow> take_event slow (getMeta obj) self prev' out1 event1)"
  using assms by (simp add: pass_on_def take_event_def Let_def split: prod.split)

lemma pass_on_object:
  assumes "pass_on getMeta slow event meta prev = (prev', out, event')"
    and "\<And>e p o' e'. acceptEvent getMeta slow e prev = (p, o', e') \<Longrightarrow> ae_Object e = Entity obj \<Longrightarrow>
      ae_Type e \<noteq> ''BOOKMARK'' \<Longrightarrow> ae_Object e' = Entity obj \<and> ae_Type e' \<noteq> ''BOOKMARK''"
    and "ae_Object event = Entity obj" and "ae_Type event \<noteq> ''BOOKMARK''"
  shows "ae_Object event' = Entity obj \<and> ae_Type event' \<noteq> ''BOOKMARK''"
  using assms by (auto simp: pass_on_def split: if_splits prod.splits)

text \<open>An event reaches clients that accept its object, and no slow one.\<close>

lemma acceptEvent_Sent:
  "acceptEvent getMeta slow event chain = (chain', out, event') \<Longrightarrow> ae_Object event = Entity obj \<Longrightarrow>
   ae_Type event \<noteq> ''BOOKMARK'' \<Longrightarrow> Sent cid e \<in> set out \<Longrightarrow>
   \<not> slow cid \<and> (\<exists>n f. n \<in> set chain \<and> (cid, f) \<in> set (nt_clients n) \<and> acceptMeta (getMeta obj) f)"
proof (induction chain arbitrary: event chain' out event')
  case Nil
  then show ?case by simp
next
  case (Cons self prev)
  obtain prev' out1 event1 where p: "pass_on getMeta slow event (getMeta obj) prev = (prev', out1, event1)"
    by (metis prod_cases3)
  have t: "take_event slow (getMeta obj) self prev' out1 event1 = (chain', out, event')"
    using Cons.prems(1) p by (simp add: acceptEvent_entity [OF Cons.prems(2,3)] del: acceptEvent.simps)
  show ?case
  proof (cases "Sent cid e \<in> set out1")
    case True
    with p Cons.prems(2,3) obtain e2 p2 e3 where "acceptEvent getMeta slow e2 prev = (p2, out1, e3)"
      "ae_Object e2 = Entity obj" "ae_Type e2 \<noteq> ''BOOKMARK''"
      by (auto simp: pass_on_def split: if_splits prod.splits)
    from Cons.IH [OF this True] show ?thesis by auto
  next
    case False
    with t Cons.prems(4) obtain e2 cs out2 where
      "sendToClients slow e2 (\<lambda>f. acceptMeta (getMeta obj) f) (nt_clients self) = (cs, out2)" "Sent cid e \<in> set out2"
      by (auto simp: take_event_def Let_def split: if_splits prod.splits)
    from sendToClients_Sent [OF this] show ?thesis by auto
  qed
qed

text \<open>An object whose version was seen before is not announced again, by no notifier of the chain.\<close>

lemma take_event_known:
  "map_of (nt_versions self) (md_Namespace meta, md_Name meta) = Some v \<Longrightarrow>
   vt_resourceVersion v = md_ResourceVersion meta \<Longrightarrow>
   take_event slow meta self prev out event = (self # prev, out, event)"
  by (simp add: take_event_def)

lemma take_event_records:
  assumes "take_event slow meta self prev out event = (chain', out', event')"
  shows "\<exists>self' v. chain' = self' # prev \<and>
    map_of (nt_versions self') (md_Namespace meta, md_Name meta) = Some v \<and>
    vt_resourceVersion v = md_ResourceVersion meta"
proof (cases "\<exists>v. map_of (nt_versions self) (md_Namespace meta, md_Name meta) = Some v \<and>
    vt_resourceVersion v = md_ResourceVersion meta")
  case True
  then obtain v where v: "map_of (nt_versions self) (md_Namespace meta, md_Name meta) = Some v"
    "vt_resourceVersion v = md_ResourceVersion meta" by blast
  from assms have "chain' = self # prev" unfolding take_event_known [OF v] by simp
  with v show ?thesis by blast
next
  case False
  with assms show ?thesis
    by (auto simp: take_event_def Let_def update_conv' split: if_splits prod.splits)
qed

lemma acceptEvent_known:
  "acceptEvent getMeta slow event chain = (chain', out, event') \<Longrightarrow> ae_Object event = Entity obj \<Longrightarrow>
   ae_Type event \<noteq> ''BOOKMARK'' \<Longrightarrow> ae_Object again = Entity obj' \<Longrightarrow> ae_Type again \<noteq> ''BOOKMARK'' \<Longrightarrow>
   md_Namespace (getMeta obj') = md_Namespace (getMeta obj) \<Longrightarrow> md_Name (getMeta obj') = md_Name (getMeta obj) \<Longrightarrow>
   md_ResourceVersion (getMeta obj') = md_ResourceVersion (getMeta obj) \<Longrightarrow>
   acceptEvent getMeta slow' again chain' = (chain', [], again)"
proof (induction chain arbitrary: event chain' out event' again)
  case Nil
  then show ?case by simp
next
  case (Cons self prev)
  obtain prev' out1 event1 where p: "pass_on getMeta slow event (getMeta obj) prev = (prev', out1, event1)"
    by (metis prod_cases3)
  have "take_event slow (getMeta obj) self prev' out1 event1 = (chain', out, event')"
    using Cons.prems(1) p by (simp add: acceptEvent_entity [OF Cons.prems(2,3)] del: acceptEvent.simps)
  from take_event_records [OF this] obtain self' v where c: "chain' = self' # prev'"
    and v: "map_of (nt_versions self') (md_Namespace (getMeta obj), md_Name (getMeta obj)) = Some v"
      "vt_resourceVersion v = md_ResourceVersion (getMeta obj)" by blast
  have silent: "prev \<noteq> [] \<Longrightarrow> acceptEvent getMeta slow' a prev' = (prev', [], a)"
    if "ae_Object a = Entity obj'" "ae_Type a \<noteq> ''BOOKMARK''" for a
  proof -
    assume "prev \<noteq> []"
    with p Cons.prems(2,3) obtain e2 o2 e3 where "acceptEvent getMeta slow e2 prev = (prev', o2, e3)"
      "ae_Object e2 = Entity obj" "ae_Type e2 \<noteq> ''BOOKMARK''"
      by (auto simp: pass_on_def split: if_splits prod.splits)
    from Cons.IH [OF this that Cons.prems(6-8)] show ?thesis .
  qed
  have "prev = [] \<Longrightarrow> prev' = []" using p by (simp add: pass_on_def)
  with silent [OF Cons.prems(4,5)] silent [of "again\<lparr>ae_Type := ''PREVIOUS''\<rparr>"] Cons.prems(4)
  have "pass_on getMeta slow' again (getMeta obj') prev' = (prev', [], again)"
    by (cases "prev = []") (auto simp: pass_on_def)
  then show ?case
    using v Cons.prems(6-8) by (simp add: c acceptEvent_entity [OF Cons.prems(4,5)] take_event_known del: acceptEvent.simps)
qed

end
