(* ===== verification/Cache_Adapter.thy ===== *)
theory Cache_Adapter
  imports Cache_Setup Watch_Notifier
begin

section \<open>Keeping the cache up to date\<close>

text \<open>
  \<open>service/internal/kubernetes/adapterForCache.go\<close>: a cache adapter watches a kind of resource and
  applies the events to the cache. Its goroutine is a function of what it receives, in order.
\<close>

definition getNamespaceAndName :: "('t \<Rightarrow> Metadata) \<Rightarrow> 't \<Rightarrow> string \<times> string" where
  "getNamespaceAndName GetMetadata resource =
     (let metadata = GetMetadata resource in (md_Namespace metadata, md_Name metadata))"

text \<open>A \<open>Set\<close> that fails is only logged.\<close>

definition OnWatchEvent ::
  "('t \<Rightarrow> Metadata) \<Rightarrow> ('c, 't) ResourceCache \<Rightarrow> string \<Rightarrow> 't \<Rightarrow> 'c \<Rightarrow> 'c" where
  "OnWatchEvent GetMetadata cache event resource c =
     (if event = ''ADDED'' then snd (cache_Set GetMetadata cache resource c)
      else if event = ''MODIFIED'' then
        (case getNamespaceAndName GetMetadata resource of (namespace, name) \<Rightarrow>
           snd (cache_Set GetMetadata cache resource (cache_Delete cache namespace name c)))
      else if event = ''DELETED'' then
        (case getNamespaceAndName GetMetadata resource of (namespace, name) \<Rightarrow>
           cache_Delete cache namespace name c)
      else c)"

text \<open>
  \<open>watchloop\<close> after its first \<open>Watch\<close>: it is cancelled, gets an event, or finds the channel closed
  and watches again, with the error of that call if it fails. After such an error the handler is
  nil, and the next round dereferences it.
\<close>

datatype 't adapter_input =
    AdapterDone
  | AdapterEvent string 't
  | AdapterClosed "go_error option"

fun watchloop ::
  "('t \<Rightarrow> Metadata) \<Rightarrow> ('c, 't) ResourceCache \<Rightarrow> 't adapter_input list \<Rightarrow> 'c \<Rightarrow> 'c run" where
  "watchloop GetMetadata cache [] c = Ret c"
| "watchloop GetMetadata cache (AdapterDone # inputs) c = Ret c"
| "watchloop GetMetadata cache (AdapterEvent event resource # inputs) c =
     watchloop GetMetadata cache inputs (OnWatchEvent GetMetadata cache event resource c)"
| "watchloop GetMetadata cache (AdapterClosed None # inputs) c = watchloop GetMetadata cache inputs c"
| "watchloop GetMetadata cache (AdapterClosed (Some err) # inputs) c = Panic"

subsection \<open>Starting the adapters\<close>

text \<open>The argument is the error of the first \<open>Watch\<close>.\<close>

definition newCacheAdapter :: "go_error option \<Rightarrow> go_error + unit" where
  "newCacheAdapter watchErr =
     (case watchErr of
        None \<Rightarrow> Inr ()
      | Some err \<Rightarrow> Inl (Errorf (''faield to start watch handler for cache: '' @ err_text err) [err]))"

text \<open>Without the right to watch, the cache of gateway routes goes without an adapter.\<close>

definition startGatewayRouteCacheAdapter :: "errlib \<Rightarrow> go_error option \<Rightarrow> go_error + unit option" where
  "startGatewayRouteCacheAdapter errs watchErr =
     (case newCacheAdapter watchErr of
        Inr a \<Rightarrow> Inr (Some a)
      | Inl err \<Rightarrow> if IsForbidden errs err then Inr None else Inl err)"

text \<open>The kinds whose adapter runs.\<close>

datatype adapter_kind = Certificates | ConfigMaps | Secrets | Services | IngressesNetworkingV1 | HTTPRouteV1 | GRPCRouteV1

text \<open>
  \<open>NewCacheAdapters\<close>: one after the other for each cache that is there and has a watch handler;
  the first error ends it. \<open>handlers\<close> says which watch handlers are there, \<open>watch\<close> what their
  \<open>Watch\<close> answers. The result is the adapters that were started, which go on running, and the
  error.
\<close>

fun start_adapters ::
  "(adapter_kind \<Rightarrow> go_error option \<Rightarrow> go_error + unit option) \<Rightarrow> (adapter_kind \<Rightarrow> go_error option) \<Rightarrow>
     (adapter_kind \<times> bool) list \<Rightarrow> adapter_kind list \<times> go_error option" where
  "start_adapters start watch [] = ([], None)"
| "start_adapters start watch ((kind, present) # kinds) =
     (if present then
        (case start kind (watch kind) of
           Inl err \<Rightarrow> ([], Some err)
         | Inr None \<Rightarrow> start_adapters start watch kinds
         | Inr (Some _) \<Rightarrow>
             (case start_adapters start watch kinds of (started, e) \<Rightarrow> (kind # started, e)))
      else start_adapters start watch kinds)"

definition cached_kinds :: "'c ResourcesCache \<Rightarrow> (adapter_kind \<times> bool) list" where
  "cached_kinds cache =
     [(Certificates, ch_Certificates cache \<noteq> None), (ConfigMaps, ch_ConfigMaps cache \<noteq> None),
      (Secrets, ch_Secrets cache \<noteq> None), (Services, ch_Services cache \<noteq> None),
      (IngressesNetworkingV1, ch_Ingresses cache \<noteq> None), (HTTPRouteV1, ch_HTTPRoute cache \<noteq> None),
      (GRPCRouteV1, ch_GRPCRoute cache \<noteq> None)]"

definition start_kind :: "errlib \<Rightarrow> adapter_kind \<Rightarrow> go_error option \<Rightarrow> go_error + unit option" where
  "start_kind errs kind watchErr =
     (if kind = HTTPRouteV1 \<or> kind = GRPCRouteV1 then startGatewayRouteCacheAdapter errs watchErr
      else map_sum id Some (newCacheAdapter watchErr))"

definition NewCacheAdapters ::
  "errlib \<Rightarrow> 'c ResourcesCache \<Rightarrow> (adapter_kind \<Rightarrow> bool) \<Rightarrow> (adapter_kind \<Rightarrow> go_error option) \<Rightarrow>
     adapter_kind list \<times> go_error option" where
  "NewCacheAdapters errs cache handlers watch =
     start_adapters (start_kind errs) watch
       (map (\<lambda>(kind, cached). (kind, cached \<and> handlers kind)) (cached_kinds cache))"

subsection \<open>The cache follows the cluster\<close>

text \<open>The resources of a kind as the events describe them.\<close>

type_synonym 't cluster_view = "string \<times> string \<Rightarrow> 't option"

fun view_event :: "('t \<Rightarrow> Metadata) \<Rightarrow> string \<Rightarrow> 't \<Rightarrow> 't cluster_view \<Rightarrow> 't cluster_view" where
  "view_event GetMetadata event x m =
     (if event = ''ADDED'' \<or> event = ''MODIFIED'' then m(getNamespaceAndName GetMetadata x \<mapsto> x)
      else if event = ''DELETED'' then m(getNamespaceAndName GetMetadata x := None)
      else m)"

fun view_events :: "('t \<Rightarrow> Metadata) \<Rightarrow> 't adapter_input list \<Rightarrow> 't cluster_view \<Rightarrow> 't cluster_view" where
  "view_events GetMetadata [] m = m"
| "view_events GetMetadata (AdapterEvent ty x # is) m = view_events GetMetadata is (view_event GetMetadata ty x m)"
| "view_events GetMetadata (AdapterDone # is) m = m"
| "view_events GetMetadata (AdapterClosed e # is) m = view_events GetMetadata is m"

text \<open>
  Inputs of an adapter that is never left without a watch: resources have namespaces without a
  slash and are added once.
\<close>

fun regular :: "('t \<Rightarrow> Metadata) \<Rightarrow> 't adapter_input list \<Rightarrow> 't cluster_view \<Rightarrow> bool" where
  "regular GetMetadata [] m = True"
| "regular GetMetadata (AdapterDone # is) m = True"
| "regular GetMetadata (AdapterEvent ty x # is) m =
     (CHR ''/'' \<notin> set (md_Namespace (GetMetadata x)) \<and>
      (ty = ''ADDED'' \<longrightarrow> m (getNamespaceAndName GetMetadata x) = None) \<and>
      regular GetMetadata is (view_event GetMetadata ty x m))"
| "regular GetMetadata (AdapterClosed e # is) m = (e = None \<and> regular GetMetadata is m)"

text \<open>What the cache holds of a kind is what the view holds, as JSON keeps it.\<close>

definition cache_agrees ::
  "'c ristrettoCacheAdapter \<Rightarrow> 't json \<Rightarrow> string \<Rightarrow> 'c \<Rightarrow> 't cluster_view \<Rightarrow> bool" where
  "cache_agrees ad js kind c m \<longleftrightarrow> ristretto_ok (ra_cache ad) \<and>
     (\<forall>ns name. CHR ''/'' \<notin> set ns \<longrightarrow>
        cache_Get (NewResourceCache kind (newEntityAdapter js ad)) ns name c = None \<or>
        cache_Get (NewResourceCache kind (newEntityAdapter js ad)) ns name c =
          map_option (json_stored js) (m (ns, name)))"

text \<open>The keys of one kind: the contract of the whole cache gives that of each kind.\<close>

interpretation kind_cache: limited_cache parts_Set parts_Get parts_Del parts_stored
  "\<lambda>k. ok_cacheKey k \<and> ck_kind k = kind" parts_invar for kind
proof (unfold_locales, goal_cases)
  case (1 a k v ok a')
  then show ?case by (rule entity_cache.set_invar)
next
  case (2 a k)
  then show ?case by (rule entity_cache.del_invar)
next
  case (3 a k v ok a')
  then show ?case by (rule entity_cache.get_set_same)
next
  case (4 a k k' v ok a')
  then show ?case by (intro entity_cache.get_set_other [of a k k' v ok a']) auto
next
  case (5 a k)
  then show ?case by (rule entity_cache.get_del_same)
next
  case (6 a k k')
  then show ?case by (intro entity_cache.get_del_other [of a k k']) auto
qed

definition kind_view :: "'t cluster_view \<Rightarrow> cacheKey \<Rightarrow> 't option" where
  "kind_view m k = m (ck_namespace k, ck_name k)"

lemma cache_agrees_iff:
  assumes "CHR ''/'' \<notin> set kind"
  shows "cache_agrees ad js kind c m \<longleftrightarrow> kind_cache.agrees kind (ad, js, c) (kind_view m)"
proof
  assume "cache_agrees ad js kind c m"
  then show "kind_cache.agrees kind (ad, js, c) (kind_view m)"
    unfolding cache_agrees_def kind_cache.agrees_def
    by (auto simp: parts_defs kind_view_def cache_Get_def NewResourceCache_def newEntityAdapter_def ok_cacheKey_def)
next
  assume a: "kind_cache.agrees kind (ad, js, c) (kind_view m)"
  have "entity_Get ad js kind ns name c = None
      \<or> entity_Get ad js kind ns name c = map_option (json_stored js) (m (ns, name))"
    if "CHR ''/'' \<notin> set ns" for ns name
  proof -
    let ?k = "toCacheKey kind ns name"
    have "ok_cacheKey ?k \<and> ck_kind ?k = kind"
      using that assms by (simp add: ok_cacheKey_def toCacheKey_def)
    with a show ?thesis
      unfolding kind_cache.agrees_def by (auto simp: parts_defs kind_view_def toCacheKey_def dest!: spec [of _ ?k])
  qed
  with a show "cache_agrees ad js kind c m"
    by (auto simp: cache_agrees_def kind_cache.agrees_def parts_invar_def cache_Get_def NewResourceCache_def
        newEntityAdapter_def)
qed

lemma cache_Set_parts:
  "snd (cache_Set gm (NewResourceCache kind (newEntityAdapter js ad)) x c) =
     snd (snd (snd (parts_Set (toCacheKey kind (md_Namespace (gm x)) (md_Name (gm x))) x (ad, js, c))))"
  by (simp add: cache_Set_def NewResourceCache_def newEntityAdapter_def parts_Set_def toCacheKey_def Let_def
      split: prod.split)

lemma parts_Set_shape: "parts_Set k v (ad, js, c) = (ok, a') \<Longrightarrow> a' = (ad, js, snd (snd a'))"
  by (auto simp: parts_Set_def split: prod.splits)

lemma kind_view_upd [simp]:
  "kind_view (m((ns, name) \<mapsto> x)) = (\<lambda>k. if ck_namespace k = ns \<and> ck_name k = name then Some x else kind_view m k)"
  "kind_view (m((ns, name) := None)) = (\<lambda>k. if ck_namespace k = ns \<and> ck_name k = name then None else kind_view m k)"
  by (auto simp: kind_view_def fun_eq_iff)

lemma kind_agrees_cong:
  assumes "kind_cache.agrees kind a m" and "\<And>k. ck_kind k = kind \<Longrightarrow> m k = m' k"
  shows "kind_cache.agrees kind a m'"
  using assms by (auto simp: kind_cache.agrees_def)

lemma OnWatchEvent_agrees:
  assumes kind: "CHR ''/'' \<notin> set kind" and ns: "CHR ''/'' \<notin> set (md_Namespace (gm x))"
    and a: "cache_agrees ad js kind c m"
    and new: "ty = ''ADDED'' \<Longrightarrow> m (getNamespaceAndName gm x) = None"
  shows "cache_agrees ad js kind (OnWatchEvent gm (NewResourceCache kind (newEntityAdapter js ad)) ty x c)
    (view_event gm ty x m)"
proof -
  let ?rc = "NewResourceCache kind (newEntityAdapter js ad)"
  let ?k = "toCacheKey kind (md_Namespace (gm x)) (md_Name (gm x))"
  have k: "ok_cacheKey ?k \<and> ck_kind ?k = kind" using kind ns by (simp add: ok_cacheKey_def toCacheKey_def)
  from a have A: "kind_cache.agrees kind (ad, js, c) (kind_view m)" by (simp add: cache_agrees_iff kind)
  have nn: "getNamespaceAndName gm x = (md_Namespace (gm x), md_Name (gm x))"
    by (simp add: getNamespaceAndName_def Let_def)
  have del: "(ad, js, cache_Delete ?rc (md_Namespace (gm x)) (md_Name (gm x)) c') = parts_Del ?k (ad, js, c')" for c'
    by (simp add: cache_Delete_def NewResourceCache_def newEntityAdapter_def parts_Del_def toCacheKey_def)
  have view: "kind_cache.agrees kind a' ((kind_view m)(?k := v)) \<Longrightarrow>
      kind_cache.agrees kind a' (kind_view (m(getNamespaceAndName gm x := v)))" for a' v
    by (erule kind_agrees_cong) (auto simp: kind_view_def nn toCacheKey_def)
  have set: "kind_cache.agrees kind (ad, js, snd (cache_Set gm ?rc x c')) M"
    if "\<And>ok a'. parts_Set ?k x (ad, js, c') = (ok, a') \<Longrightarrow> kind_cache.agrees kind a' M" for c' M
  proof -
    obtain ok a' where s: "parts_Set ?k x (ad, js, c') = (ok, a')" by (rule prod.exhaust)
    from parts_Set_shape [OF s] s have "(ad, js, snd (cache_Set gm ?rc x c')) = a'"
      by (simp add: cache_Set_parts)
    with that [OF s] show ?thesis by simp
  qed
  consider "ty = ''ADDED''" | "ty = ''MODIFIED''" | "ty = ''DELETED''"
    | "ty \<noteq> ''ADDED''" "ty \<noteq> ''MODIFIED''" "ty \<noteq> ''DELETED''" by blast
  then have "kind_cache.agrees kind (ad, js, OnWatchEvent gm ?rc ty x c) (kind_view (view_event gm ty x m))"
  proof cases
    case 1
    with new have "kind_view m ?k = None" by (simp add: kind_view_def nn toCacheKey_def)
    from kind_cache.agrees_add_new [OF A k this]
    have "kind_cache.agrees kind (ad, js, snd (cache_Set gm ?rc x c)) ((kind_view m)(?k \<mapsto> x))" by (rule set)
    from view [OF this] 1 show ?thesis by (simp add: OnWatchEvent_def)
  next
    case 2
    have "kind_cache.agrees kind (ad, js, snd (cache_Set gm ?rc x
        (cache_Delete ?rc (md_Namespace (gm x)) (md_Name (gm x)) c))) ((kind_view m)(?k \<mapsto> x))"
      by (rule set) (use kind_cache.agrees_replace [OF A k] del in auto)
    from view [OF this] 2 show ?thesis by (simp add: OnWatchEvent_def nn)
  next
    case 3
    from kind_cache.agrees_del [OF A k] have "kind_cache.agrees kind
        (ad, js, cache_Delete ?rc (md_Namespace (gm x)) (md_Name (gm x)) c) ((kind_view m)(?k := None))"
      by (simp add: del)
    from view [OF this] 3 show ?thesis by (simp add: OnWatchEvent_def nn)
  next
    case 4
    with A show ?thesis by (simp add: OnWatchEvent_def)
  qed
  then show ?thesis by (simp add: cache_agrees_iff kind)
qed

lemma watchloop_agrees:
  assumes "CHR ''/'' \<notin> set kind"
  shows "cache_agrees ad js kind c m \<Longrightarrow> regular gm inputs m \<Longrightarrow>
    \<exists>c'. watchloop gm (NewResourceCache kind (newEntityAdapter js ad)) inputs c = Ret c' \<and>
      cache_agrees ad js kind c' (view_events gm inputs m)"
proof (induction inputs arbitrary: c m)
  case Nil
  then show ?case by simp
next
  case (Cons i inputs)
  show ?case
  proof (cases i)
    case AdapterDone
    with Cons.prems show ?thesis by simp
  next
    case (AdapterEvent ty x)
    with Cons.prems have "cache_agrees ad js kind
        (OnWatchEvent gm (NewResourceCache kind (newEntityAdapter js ad)) ty x c) (view_event gm ty x m)"
      by (intro OnWatchEvent_agrees assms) auto
    from Cons.IH [OF this] Cons.prems AdapterEvent show ?thesis by auto
  next
    case (AdapterClosed e)
    with Cons.prems Cons.IH [of c m] show ?thesis by simp
  qed
qed

text \<open>A read that the server fails is an error or what the view holds.\<close>

lemma GetWrapper_agrees:
  assumes "cache_agrees ad js kind (ks_cache s) m" and "CHR ''/'' \<notin> set ns"
    and "getf name (ks_world s) = (Inl e, w)" and "\<not> IsNotFound errs e"
  shows "\<exists>r. GetWrapper errs name ns getf (Some (cache_Get (NewResourceCache kind (newEntityAdapter js ad)))) conv s =
      (r, s\<lparr>ks_world := w\<rparr>) \<and>
    r \<in> insert (Err e) ((\<lambda>x. Ok (Some (json_stored js x))) ` set_option (m (ns, name)))"
proof -
  from assms(1,2) have "cache_Get (NewResourceCache kind (newEntityAdapter js ad)) ns name (ks_cache s) = None \<or>
      cache_Get (NewResourceCache kind (newEntityAdapter js ad)) ns name (ks_cache s) =
        map_option (json_stored js) (m (ns, name))"
    by (simp add: cache_agrees_def)
  then show ?thesis
    by (cases "m (ns, name)") (auto simp: GetWrapper_error [of getf name s e w, OF assms(3)] assms(4))
qed

subsection \<open>Values that do not fit\<close>

text \<open>An entity whose JSON is larger than an item may be: it cannot be placed, whatever the library does.\<close>

definition too_large :: "'c ristrettoCacheAdapter \<Rightarrow> 't json \<Rightarrow> 't \<Rightarrow> bool" where
  "too_large ad js x =
     (case Marshal js x of Inl e \<Rightarrow> False
      | Inr b \<Rightarrow> ra_maxItemSize ad > 0 \<and> int (length b) + 16 > ra_maxItemSize ad)"

lemma cache_Set_too_large:
  "too_large ad js x \<Longrightarrow>
   \<exists>e. cache_Set gm (NewResourceCache kind (newEntityAdapter js ad)) x c = (Inl e, c)"
  by (auto simp: too_large_def cache_Set_def NewResourceCache_def newEntityAdapter_def entity_Set_def Let_def
      split: sum.splits)

lemma cache_Get_Delete:
  "ristretto_ok (ra_cache ad) \<Longrightarrow>
   cache_Get (NewResourceCache kind (newEntityAdapter js ad)) ns name
     (cache_Delete (NewResourceCache kind (newEntityAdapter js ad)) ns name c) = None"
  by (simp add: cache_Get_def cache_Delete_def NewResourceCache_def newEntityAdapter_def entity_Get_def
      entity_Del_def shared_Get_def shared_Del_def Let_def ristretto_okD(4))

subsection \<open>Kinds do not disturb each other\<close>

lemma other_key_kept:
  assumes r: "ristretto_ok (ra_cache ad)"
    and ok: "ok_cacheKey (toCacheKey kind ns name)" "ok_cacheKey (toCacheKey kind' ns' name')"
    and diff: "(kind', ns', name') \<noteq> (kind, ns, name)"
    and s: "entity_Set ad js kind ns name x c = (b, c')"
  shows "entity_Get ad js' kind' ns' name' c' = None \<or>
    entity_Get ad js' kind' ns' name' c' = entity_Get ad js' kind' ns' name' c"
proof (cases "c' = c")
  case False
  with s obtain v cost where "shared_Set ad kind ns name v cost c = (b, c')"
    by (auto simp: entity_Set_def Let_def split: sum.splits if_splits)
  moreover from diff have "toCacheKey kind' ns' name' \<noteq> toCacheKey kind ns name"
    by (auto simp: toCacheKey_def)
  with ok have "key_String (toCacheKey kind' ns' name') \<noteq> key_String (toCacheKey kind ns name)"
    by (simp add: key_String_inject)
  ultimately have "shared_Get ad kind' ns' name' c' = None \<or>
      shared_Get ad kind' ns' name' c' = shared_Get ad kind' ns' name' c"
    using shared_Set_other [OF r] by blast
  then show ?thesis by (elim disjE) (simp_all add: entity_Get_def)
qed simp

subsection \<open>Starting\<close>

lemma start_adapters_ok:
  "snd (start_adapters start watch kinds) = None \<Longrightarrow>
   fst (start_adapters start watch kinds) =
     map fst (filter (\<lambda>(k, p). p \<and> start k (watch k) = Inr (Some ())) kinds)"
proof (induction start watch kinds rule: start_adapters.induct)
  case (2 start watch kind present kinds)
  then show ?case
    by (cases present) (auto split: sum.splits option.splits prod.splits)
qed simp

lemma start_adapters_error:
  "snd (start_adapters start watch kinds) = None \<longleftrightarrow>
     list_all (\<lambda>(k, p). \<not> (p \<and> isl (start k (watch k)))) kinds"
proof (induction start watch kinds rule: start_adapters.induct)
  case (2 start watch kind present kinds)
  then show ?case
    by (cases present) (auto split: sum.splits option.splits prod.splits)
qed simp

text \<open>The errors of a first \<open>Watch\<close> that are not forgiven.\<close>

definition fatal :: "errlib \<Rightarrow> adapter_kind \<Rightarrow> go_error option \<Rightarrow> bool" where
  "fatal errs kind watchErr =
     (case newCacheAdapter watchErr of
        Inr a \<Rightarrow> False
      | Inl err \<Rightarrow> \<not> (kind \<in> {HTTPRouteV1, GRPCRouteV1} \<and> IsForbidden errs err))"

lemma start_kind_iff:
  "start_kind errs kind w = Inr (Some ()) \<longleftrightarrow> w = None"
  "isl (start_kind errs kind w) \<longleftrightarrow> fatal errs kind w"
  by (cases w; auto simp: start_kind_def startGatewayRouteCacheAdapter_def newCacheAdapter_def fatal_def)+

lemma NewCacheAdapters_ok:
  "snd (NewCacheAdapters errs cache handlers watch) = None \<longleftrightarrow>
     list_all (\<lambda>(k, cached). \<not> (cached \<and> handlers k \<and> fatal errs k (watch k))) (cached_kinds cache)"
  "snd (NewCacheAdapters errs cache handlers watch) = None \<Longrightarrow>
   fst (NewCacheAdapters errs cache handlers watch) =
     map fst (filter (\<lambda>(k, cached). cached \<and> handlers k \<and> watch k = None) (cached_kinds cache))"
  unfolding NewCacheAdapters_def
  by (auto simp: start_adapters_error start_adapters_ok start_kind_iff list_all_iff filter_map comp_def
      case_prod_unfold)

end
