(* ===== verification/Cache_Guarantees.thy ===== *)
theory Cache_Guarantees
  imports Cache_Adapter Sample_Cluster
begin

section \<open>What the cache and the generic operations guarantee\<close>

text \<open>
  The properties of \<open>cache.go\<close>, \<open>adapterForCache.go\<close> and \<open>adapterForCrud.go\<close>. The examples use a
  cache that is a table and never loses an entry.
\<close>

definition table_ristretto :: "(string \<times> string) list ristretto" where
  "table_ristretto = \<lparr>
     SetWithTTL = (\<lambda>k v cost ttl c. (True, AList.update k v c)), Wait = (\<lambda>c. c),
     rGet = (\<lambda>k c. map_of c k), rDel = (\<lambda>k c. AList.delete k c) \<rparr>"

lemma table_ristretto_ok: "ristretto_ok table_ristretto"
  by (subst ristretto_ok_def) (simp add: table_ristretto_def update_conv' delete_conv')

definition table_adapter :: "(string \<times> string) list ristrettoCacheAdapter" where
  "table_adapter = \<lparr> ra_cache = table_ristretto, ra_maxItemSize = 20, ra_ttl = 0 \<rparr>"

text \<open>An encoding that keeps the resource version of a namespace only.\<close>

definition version_json :: "Namespace json" where
  "version_json = \<lparr> Marshal = (\<lambda>n. Inr (md_ResourceVersion (ns_Metadata n))),
     Unmarshal = (\<lambda>b. \<lparr> ns_Metadata = NewMetadata [] [] [] [] 0 b None None \<rparr>) \<rparr>"

definition namespace_at :: "string \<Rightarrow> Namespace" where
  "namespace_at version = \<lparr> ns_Metadata = NewMetadata ''Namespace'' ''shop'' ''ns'' [] 0 version None None \<rparr>"

definition namespace_cache :: "((string \<times> string) list, Namespace) ResourceCache" where
  "namespace_cache = NewResourceCache ''Namespace'' (newEntityAdapter version_json table_adapter)"

lemma empty_agrees: "cache_agrees table_adapter js kind [] (\<lambda>_. None)"
proof -
  have "ristretto_ok (ra_cache table_adapter)" by (simp add: table_adapter_def table_ristretto_ok)
  then show ?thesis
    unfolding cache_agrees_def
    by (simp add: cache_Get_def NewResourceCache_def newEntityAdapter_def entity_Get_def shared_Get_def
        table_adapter_def table_ristretto_def Let_def)
qed

subsection \<open>The cache follows the cluster\<close>

text \<open>
  C7: as long as resources are added once and a lost watch can be restarted, a cache adapter does
  not panic, and whatever the cache library drops, the cache gives for a name either nothing or the
  resource as the last event described it.
\<close>

theorem cache_follows_cluster:
  assumes "CHR ''/'' \<notin> set kind" and "CHR ''/'' \<notin> set ns"
    and "cache_agrees ad js kind c m" and "regular gm inputs m"
  shows "\<exists>c'. watchloop gm (NewResourceCache kind (newEntityAdapter js ad)) inputs c = Ret c' \<and>
    (\<forall>x. cache_Get (NewResourceCache kind (newEntityAdapter js ad)) ns name c' = Some x \<longrightarrow>
       (\<exists>y. view_events gm inputs m (ns, name) = Some y \<and> x = json_stored js y))"
proof -
  from watchloop_agrees [OF assms(1,3,4)] obtain c' where
    w: "watchloop gm (NewResourceCache kind (newEntityAdapter js ad)) inputs c = Ret c'"
    and a: "cache_agrees ad js kind c' (view_events gm inputs m)" by blast
  from a assms(2) have "cache_Get (NewResourceCache kind (newEntityAdapter js ad)) ns name c' = None \<or>
      cache_Get (NewResourceCache kind (newEntityAdapter js ad)) ns name c' =
        map_option (json_stored js) (view_events gm inputs m (ns, name))"
    unfolding cache_agrees_def by blast
  with w show ?thesis by (cases "view_events gm inputs m (ns, name)") auto
qed

definition two_events :: "Namespace adapter_input list" where
  "two_events = [AdapterEvent ''ADDED'' (namespace_at ''1''), AdapterEvent ''MODIFIED'' (namespace_at ''2'')]"

theorem cache_follows_cluster_witness:
  "\<exists>c'. watchloop ns_Metadata namespace_cache two_events [] = Ret c' \<and>
    (\<forall>x. cache_Get namespace_cache ''ns'' ''shop'' c' = Some x \<longrightarrow> x = json_stored version_json (namespace_at ''2''))"
proof -
  have "regular ns_Metadata two_events (\<lambda>_. None)"
    by (simp add: two_events_def namespace_at_def NewMetadata_def)
  with cache_follows_cluster [of "''Namespace''" "''ns''" table_adapter version_json "[]" "\<lambda>_. None" ns_Metadata
      two_events "''shop''"] empty_agrees [of version_json "''Namespace''"]
  have "\<exists>c'. watchloop ns_Metadata namespace_cache two_events [] = Ret c' \<and>
    (\<forall>x. cache_Get namespace_cache ''ns'' ''shop'' c' = Some x \<longrightarrow>
       (\<exists>y. view_events ns_Metadata two_events (\<lambda>_. None) (''ns'', ''shop'') = Some y \<and> x = json_stored version_json y))"
    by (simp add: namespace_cache_def)
  moreover have "view_events ns_Metadata two_events (\<lambda>_. None) (''ns'', ''shop'') = Some (namespace_at ''2'')"
    by (simp add: two_events_def namespace_at_def NewMetadata_def getNamespaceAndName_def)
  ultimately show ?thesis by auto
qed

text \<open>
  an event for a resource that has become too large for the cache: if it says that the
  resource was modified, the old value is dropped; if it says that it was added, as after a
  reconnection, the old value stays and goes on being served.
\<close>

theorem too_large_resource:
  assumes "ristretto_ok (ra_cache ad)" and "too_large ad js x"
  shows "OnWatchEvent gm (NewResourceCache kind (newEntityAdapter js ad)) ''ADDED'' x c = c \<and>
    cache_Get (NewResourceCache kind (newEntityAdapter js ad)) (md_Namespace (gm x)) (md_Name (gm x))
      (OnWatchEvent gm (NewResourceCache kind (newEntityAdapter js ad)) ''MODIFIED'' x c) = None"
proof -
  from cache_Set_too_large [OF assms(2), of gm kind c] cache_Set_too_large [OF assms(2), of gm kind
      "cache_Delete (NewResourceCache kind (newEntityAdapter js ad)) (md_Namespace (gm x)) (md_Name (gm x)) c"]
  show ?thesis using cache_Get_Delete [OF assms(1)]
    by (auto simp: OnWatchEvent_def getNamespaceAndName_def Let_def)
qed

theorem too_large_resource_witness:
  "map_option (\<lambda>n. md_ResourceVersion (ns_Metadata n)) (cache_Get namespace_cache ''ns'' ''shop''
     (OnWatchEvent ns_Metadata namespace_cache ''ADDED'' (namespace_at ''12345'')
       (OnWatchEvent ns_Metadata namespace_cache ''ADDED'' (namespace_at ''1'') []))) = Some ''1''"
proof -
  have "too_large table_adapter version_json (namespace_at ''12345'')"
    by (simp add: too_large_def table_adapter_def version_json_def namespace_at_def NewMetadata_def)
  from too_large_resource [OF _ this] have
    "OnWatchEvent ns_Metadata namespace_cache ''ADDED'' (namespace_at ''12345'') c = c" for c
    by (simp add: namespace_cache_def table_adapter_def table_ristretto_ok)
  moreover have "map_option (\<lambda>n. md_ResourceVersion (ns_Metadata n)) (cache_Get namespace_cache ''ns'' ''shop''
     (OnWatchEvent ns_Metadata namespace_cache ''ADDED'' (namespace_at ''1'') [])) = Some ''1''"
    by code_simp
  ultimately show ?thesis by simp
qed

text \<open>
  a cache adapter whose watch cannot be started again panics with its next step, whatever it
  received before: its handler is nil.
\<close>

theorem failed_restart_panics:
  assumes "list_all (\<lambda>i. case i of AdapterEvent ty x \<Rightarrow> True | AdapterClosed e \<Rightarrow> e = None | AdapterDone \<Rightarrow> False) before"
  shows "watchloop gm cache (before @ AdapterClosed (Some err) # later) c = Panic"
  using assms
proof (induction before arbitrary: c)
  case (Cons i before)
  then show ?case by (cases i) auto
qed simp

theorem failed_restart_panics_witness:
  "watchloop ns_Metadata namespace_cache (two_events @ AdapterClosed (Some (NewError ''refused'')) # [AdapterDone]) [] = Panic"
  by (rule failed_restart_panics) (simp add: two_events_def)

text \<open>
  resources share one cache without disturbing each other: storing one never changes what is
  read under another kind, namespace or name, except that it may be gone.
\<close>

theorem kinds_are_separate:
  assumes "ristretto_ok (ra_cache ad)"
    and "list_all (\<lambda>s. CHR ''/'' \<notin> set s) [kind, ns, kind', ns']"
    and "(kind', ns', name') \<noteq> (kind, ns, name)"
    and "entity_Set ad js kind ns name x c = (ok, c')"
  shows "entity_Get ad js' kind' ns' name' c' \<in> {None, entity_Get ad js' kind' ns' name' c}"
  using other_key_kept [OF assms(1) _ _ assms(3,4), of js'] assms(2)
  by (auto simp: ok_cacheKey_def toCacheKey_def)

theorem kinds_are_separate_witness:
  "entity_Get table_adapter version_json ''Route'' ''ns'' ''shop''
     (snd (entity_Set table_adapter version_json ''Namespace'' ''ns'' ''shop'' (namespace_at ''1'') [])) = None"
proof -
  have "entity_Get table_adapter version_json ''Route'' ''ns'' ''shop''
      (snd (entity_Set table_adapter version_json ''Namespace'' ''ns'' ''shop'' (namespace_at ''1'') []))
      \<in> {None, entity_Get table_adapter version_json ''Route'' ''ns'' ''shop'' []}"
    by (rule kinds_are_separate [of _ "''Namespace''" "''ns''" _ _ _ "''shop''" version_json "namespace_at ''1''" "[]"
          "fst (entity_Set table_adapter version_json ''Namespace'' ''ns'' ''shop'' (namespace_at ''1'') [])"])
      (simp_all add: table_adapter_def table_ristretto_ok)
  moreover have "entity_Get table_adapter version_json ''Route'' ''ns'' ''shop'' [] = None" by code_simp
  ultimately show ?thesis by auto
qed

subsection \<open>Setting up\<close>

text \<open>
  exactly the caches that are named are switched on, the basic ones when none is named; naming
  the certificates has no effect.
\<close>

theorem enabled_caches:
  assumes "NewResourcesCache NewCache js numItems maxSize maxItem ttl names = Inr (rc, c)"
  defines "on \<equiv> (if names = [] then BasicCaches else names)"
  shows "(ch_ConfigMaps rc \<noteq> None \<longleftrightarrow> ConfigMapCache \<in> set on) \<and>
    (ch_Ingresses rc \<noteq> None \<longleftrightarrow> RouteCache \<in> set on) \<and> (ch_Secrets rc \<noteq> None \<longleftrightarrow> SecretCache \<in> set on) \<and>
    (ch_Services rc \<noteq> None \<longleftrightarrow> ServiceCache \<in> set on) \<and> (ch_Namespaces rc \<noteq> None \<longleftrightarrow> NamespaceCache \<in> set on) \<and>
    (ch_HTTPRoute rc \<noteq> None \<longleftrightarrow> HttpRouteCache \<in> set on) \<and> (ch_GRPCRoute rc \<noteq> None \<longleftrightarrow> GrpcRouteCache \<in> set on) \<and>
    ch_Certificates rc = None"
proof -
  from assms(1) obtain ad where "rc = foldl (\<lambda>rc n. enable_cache js ad n rc) no_caches on"
    unfolding on_def NewResourcesCache_def by (auto simp: Let_def split: sum.splits)
  then show ?thesis by (simp add: foldl_enable_cache no_caches_def)
qed

theorem enabled_caches_witness:
  "\<forall>js. \<exists>rc :: (string \<times> string) list ResourcesCache.
     NewResourcesCache (\<lambda>_. Inr (table_ristretto, [])) js 100 1000 20 0 [] = Inr (rc, []) \<and>
     ch_Ingresses rc \<noteq> None \<and> ch_HTTPRoute rc = None \<and> ch_Certificates rc = None"
proof
  fix js
  obtain rc :: "(string \<times> string) list ResourcesCache" where
    r: "NewResourcesCache (\<lambda>_. Inr (table_ristretto, [])) js 100 1000 20 0 [] = Inr (rc, [])"
    by (simp add: NewResourcesCache_def Let_def)
  from enabled_caches [OF r] r show "\<exists>rc :: (string \<times> string) list ResourcesCache.
     NewResourcesCache (\<lambda>_. Inr (table_ristretto, [])) js 100 1000 20 0 [] = Inr (rc, []) \<and>
     ch_Ingresses rc \<noteq> None \<and> ch_HTTPRoute rc = None \<and> ch_Certificates rc = None"
    by (auto simp: BasicCaches_def)
qed

text \<open>
  starting the cache adapters succeeds unless a watch fails for another reason than missing
  rights on gateway routes; then the adapters of all caches that are there and have a handler run,
  save those of gateway routes that may not be watched.
\<close>

theorem cache_adapters_started:
  assumes "NewCacheAdapters errs cache handlers watch = (started, e)"
  shows "(e = None \<longleftrightarrow>
      list_all (\<lambda>(k, cached). \<not> (cached \<and> handlers k \<and> fatal errs k (watch k))) (cached_kinds cache)) \<and>
    (e = None \<longrightarrow>
      started = map fst (filter (\<lambda>(k, cached). cached \<and> handlers k \<and> watch k = None) (cached_kinds cache)))"
  using NewCacheAdapters_ok [of errs cache handlers watch] assms by simp

theorem cache_adapters_started_witness:
  "NewCacheAdapters sample_errs
     (no_caches\<lparr>ch_Namespaces := Some namespace_cache,
        ch_HTTPRoute := Some \<lparr> rc_Kind = ''HttpRoute'', rc_Cache = \<lparr> lc_Set = (\<lambda>_ _ _ _ c. (False, c)),
          lc_Get = (\<lambda>_ _ _ _. None), lc_Del = (\<lambda>_ _ _ c. c) \<rparr> \<rparr>\<rparr>)
     (\<lambda>_. True) (\<lambda>_. Some (LibError (status_error ''Forbidden'' 403 ''no rights''))) = ([], None)"
  (is "NewCacheAdapters sample_errs ?cache ?h ?w = _")
proof -
  obtain started e where n: "NewCacheAdapters sample_errs ?cache ?h ?w = (started, e)" by (rule prod.exhaust)
  have "list_all (\<lambda>(k, cached). \<not> (cached \<and> ?h k \<and> fatal sample_errs k (?w k))) (cached_kinds ?cache)"
    by (simp add: cached_kinds_def no_caches_def fatal_def newCacheAdapter_def reason_is_def status_error_def)
  moreover have "map fst (filter (\<lambda>(k, cached). cached \<and> ?h k \<and> ?w k = None) (cached_kinds ?cache)) = []"
    by (simp add: cached_kinds_def)
  ultimately show ?thesis using cache_adapters_started [OF n] n by simp
qed

end
