(* ===== verification/Resource_Guarantees.thy ===== *)
theory Resource_Guarantees
  imports Cache_Guarantees
begin

section \<open>What the operations on plain resources guarantee\<close>

text \<open>
  The properties of \<open>adapterForCrud.go\<close>, stated for the operations on config maps, which are those
  on every plain resource at another type.
\<close>

subsection \<open>Writing and reading\<close>

text \<open>
  updating or creating a config map leaves in the cluster what the server admits of it,
  changes no other config map, returns what is stored, and reading the name afterwards gives the
  same.
\<close>

theorem update_then_get_configmap:
  assumes "store_client (k_errs k) (\<lambda>m. om_Name (vcm_Meta m)) admit objects (k_ConfigMaps k ns)"
  shows "\<exists>w'. UpdateOrCreateConfigMap k cm ns s =
      (Ok (NewConfigMap (admit (ToConfigMap cm))), s\<lparr>ks_world := w'\<rparr>) \<and>
    objects w' = (objects (ks_world s))(md_Name (cm_Metadata cm) \<mapsto> admit (ToConfigMap cm)) \<and>
    GetConfigMap k (md_Name (cm_Metadata cm)) ns (s\<lparr>ks_world := w'\<rparr>) =
      (Ok (Some (NewConfigMap (admit (ToConfigMap cm)))), s\<lparr>ks_world := w'\<rparr>)"
proof -
  obtain w' where u: "UpdateOrCreateConfigMap k cm ns s =
      (Ok (NewConfigMap (admit (ToConfigMap cm))), s\<lparr>ks_world := w'\<rparr>)"
    and o: "objects w' = (objects (ks_world s))(md_Name (cm_Metadata cm) \<mapsto> admit (ToConfigMap cm))"
    using UpdateOrCreateWrapper_store [OF assms, of ToConfigMap cm cm_Metadata NewConfigMap s]
    by (auto simp: UpdateOrCreateConfigMap_def cm_codec.to_api_name Let_def)
  then have "objects w' (md_Name (cm_Metadata cm)) = Some (admit (ToConfigMap cm))" by simp
  from store_clientD(1) [OF assms this] have "GetConfigMap k (md_Name (cm_Metadata cm)) ns (s\<lparr>ks_world := w'\<rparr>) =
      (Ok (Some (NewConfigMap (admit (ToConfigMap cm)))), s\<lparr>ks_world := w'\<rparr>)"
    by (simp add: GetConfigMap_def GetWrapper_ok total_def)
  with u o show ?thesis by blast
qed

definition sample_configmap :: ConfigMap where
  "sample_configmap = \<lparr> cm_Metadata = NewMetadata ''ConfigMap'' ''settings'' ''ns'' [] 0 [] None None,
     cm_Data = Some [(''mode'', ''blue'')] \<rparr>"

theorem update_then_get_configmap_witness:
  "\<exists>w'. GetConfigMap (sample_kube gateway_mode) ''settings'' ''ns'' (sample_state\<lparr>ks_world := w'\<rparr>) =
     (Ok (Some sample_configmap), sample_state\<lparr>ks_world := w'\<rparr>)"
proof -
  have st: "store_client (k_errs (sample_kube gateway_mode)) (\<lambda>m. om_Name (vcm_Meta m)) (\<lambda>m. m)
      (\<lambda>w. map_of (sm_ConfigMaps w)) (k_ConfigMaps (sample_kube gateway_mode) ''ns'')"
    by (simp add: sample_kube_def table_client_store)
  have "NewConfigMap (ToConfigMap sample_configmap) = sample_configmap"
    by (rule cm_codec.from_to) (simp add: sample_configmap_def NewMetadata_def)
  with update_then_get_configmap [OF st, of sample_configmap sample_state] show ?thesis
    by (auto simp: sample_configmap_def NewMetadata_def)
qed

subsection \<open>Listing\<close>


text \<open>
  A server with two config maps in pages of one, whose world counts the requests: the second
  request finds its token expired, or every second one does.
\<close>

definition small_map :: "string \<Rightarrow> v1_ConfigMap" where
  "small_map name = ToConfigMap (sample_configmap\<lparr>cm_Metadata := NewMetadata ''ConfigMap'' name ''ns'' [] 0 [] None None\<rparr>)"

definition expired :: go_error where
  "expired = LibError (status_error ''Expired'' 410 ''the provided continue parameter is too old'')"

definition paged_list :: "(nat \<Rightarrow> bool) \<Rightarrow> ListOptions \<Rightarrow> (nat, v1_ConfigMap page) io" where
  "paged_list fails opts w =
     (if fails w then Inl expired
      else if lo_Continue opts = [] then Inr \<lparr> pg_Items = [small_map ''a''], pg_Continue = ''b'' \<rparr>
      else Inr \<lparr> pg_Items = [small_map ''b''], pg_Continue = [] \<rparr>, w + 1)"

definition paged_kube :: "(nat \<Rightarrow> bool) \<Rightarrow> (nat, unit) Kubernetes" where
  "paged_kube fails = bare_kube\<lparr>k_ConfigMaps := \<lambda>_. (table_client (\<lambda>x. om_Name (vcm_Meta x)) (\<lambda>_. []) (\<lambda>_ w. w))
     \<lparr>cl_List := paged_list fails\<rparr>\<rparr>"

lemma paged_kube_sel [simp]:
  "k_errs (paged_kube fails) = sample_errs" "cl_List (k_ConfigMaps (paged_kube fails) ns) = paged_list fails"
  "k_labels_String (paged_kube fails) x = []"
  by (simp_all add: paged_kube_def bare_kube_def)

lemma is_gone_expired: "is_gone sample_errs expired"
  by (simp add: is_gone_def expired_def status_error_def)

definition no_filter :: filter_Meta where
  "no_filter = \<lparr> fm_Labels = None, fm_Annotations = None, fm_WatchBookmark = False \<rparr>"

lemma list_options_no_filter: "list_options ls no_filter = \<lparr> lo_LabelSelector = [], lo_Continue = [] \<rparr>"
  by (simp add: list_options_def no_filter_def)

lemma paged_pages:
  "\<not> fails n \<Longrightarrow> \<not> fails (n + 1) \<Longrightarrow>
   pages (paged_list fails) \<lparr> lo_LabelSelector = [], lo_Continue = [] \<rparr> n [[small_map ''a''], [small_map ''b'']] (n + 2)"
  by (rule pages.more_pages [where p = "\<lparr> pg_Items = [small_map ''a''], pg_Continue = ''b'' \<rparr>" and ?w1.0 = "n + 1", simplified];
      (rule pages.last_page [where p = "\<lparr> pg_Items = [small_map ''b''], pg_Continue = [] \<rparr>", simplified])?)
    (simp_all add: paged_list_def)

lemma paged_fails:
  "\<not> fails n \<Longrightarrow> fails (n + 1) \<Longrightarrow>
   pages_fail (paged_list fails) \<lparr> lo_LabelSelector = [], lo_Continue = [] \<rparr> n expired (n + 2)"
  by (rule pages_fail.later_fails [where p = "\<lparr> pg_Items = [small_map ''a''], pg_Continue = ''b'' \<rparr>" and ?w1.0 = "n + 1"])
    (auto simp: paged_list_def intro!: pages_fail.this_fails)


text \<open>
  when the token of the third attempt has expired as well, the listing is an error, which is
  that of the server.
\<close>

theorem list_gives_up:
  assumes "gone (k_errs k) (cl_List (k_ConfigMaps k ns)) (list_options (k_labels_String k) f) 3 (ks_world s) e w"
  shows "GetConfigMapList k ns f s = Some (Err e, s\<lparr>ks_world := w\<rparr>)"
  unfolding GetConfigMapList_def
  by (rule ListWrapper_gone [where g = NewConfigMap, OF _ assms]) (simp add: convert_items_def)

theorem list_gives_up_witness:
  "GetConfigMapList (paged_kube odd) ''ns'' no_filter \<lparr> ks_world = 0, ks_cache = () \<rparr> =
     Some (Err expired, \<lparr> ks_world = 6, ks_cache = () \<rparr>)"
proof -
  let ?l = "paged_list odd" and ?o = "\<lparr> lo_LabelSelector = [], lo_Continue = [] \<rparr>"
  have f: "pages_fail ?l ?o n expired m" if "even n" "m = n + 2" for n m
    unfolding that(2) using that(1) by (intro paged_fails) simp_all
  have "gone sample_errs ?l ?o (Suc (Suc (Suc 0))) 0 expired 6"
    by (rule gone.gone_Suc [OF f [of 0 2] is_gone_expired
          gone.gone_Suc [OF f [of 2 4] is_gone_expired gone.gone_1 [OF f [of 4 6] is_gone_expired]]]) simp_all
  with list_gives_up [of "paged_kube odd" "''ns''" no_filter "\<lparr> ks_world = 0, ks_cache = () \<rparr>" expired 6]
  show ?thesis by (simp add: list_options_no_filter numeral_3_eq_3)
qed

subsection \<open>Reading when the server fails\<close>

text \<open>
  when the server answers a read with an error other than that the resource is missing, the
  caller gets that error or, from the cache, the resource as the watch last described it; a
  resource the server says is missing is nil, whatever the cache holds.
\<close>

theorem read_during_outage:
  assumes "cache_agrees ad js kind (ks_cache s) m" and "CHR ''/'' \<notin> set ns"
    and "getf name (ks_world s) = (Inl e, w)"
    and "GetWrapper errs name ns getf (cache_reader (Some (NewResourceCache kind (newEntityAdapter js ad)))) conv s = (r, s')"
  shows "(if IsNotFound errs e then r = Ok None
     else r = Err e \<or> (\<exists>x. m (ns, name) = Some x \<and> r = Ok (Some (json_stored js x)))) \<and>
    s' = s\<lparr>ks_world := w\<rparr>"
proof (cases "IsNotFound errs e")
  case True
  with assms(4) show ?thesis by (simp add: GetWrapper_error [of getf name s e w, OF assms(3)])
next
  case False
  from GetWrapper_agrees [OF assms(1,2), of getf name e w errs conv, OF assms(3) False] assms(4) False
  show ?thesis by (auto simp: cache_reader_def)
qed

theorem read_during_outage_witness:
  "fst (GetWrapper sample_errs ''shop'' ''ns'' (\<lambda>_ w. (Inl (NewError ''timeout''), w))
     (cache_reader (Some namespace_cache)) (total NewNamespace)
     \<lparr> ks_world = (), ks_cache = OnWatchEvent ns_Metadata namespace_cache ''ADDED'' (namespace_at ''1'') [] \<rparr>)
   \<in> {Err (NewError ''timeout''), Ok (Some (json_stored version_json (namespace_at ''1'')))}"
proof -
  let ?c = "OnWatchEvent ns_Metadata namespace_cache ''ADDED'' (namespace_at ''1'') []"
  let ?s = "\<lparr> ks_world = (), ks_cache = ?c \<rparr>"
  let ?m = "view_event ns_Metadata ''ADDED'' (namespace_at ''1'') (\<lambda>_. None)"
  have a: "cache_agrees table_adapter version_json ''Namespace'' (ks_cache ?s) ?m"
    using OnWatchEvent_agrees [OF _ _ empty_agrees [of version_json "''Namespace''"], of ns_Metadata "namespace_at ''1''" "''ADDED''"]
    by (simp add: namespace_cache_def namespace_at_def NewMetadata_def)
  obtain r s' where g: "GetWrapper sample_errs ''shop'' ''ns'' (\<lambda>_ w. (Inl (NewError ''timeout''), w))
     (cache_reader (Some (NewResourceCache ''Namespace'' (newEntityAdapter version_json table_adapter))))
     (total NewNamespace) ?s = (r, s')" by (rule prod.exhaust)
  have m: "?m (''ns'', ''shop'') = Some (namespace_at ''1'')"
    by (simp add: getNamespaceAndName_def namespace_at_def NewMetadata_def)
  from read_during_outage [OF a _ _ g] m g show ?thesis
    by (auto simp: reason_is_def namespace_cache_def)
qed

end
