(* ===== verification/Shared_Watch.thy ===== *)
theory Shared_Watch
  imports Watch_Notifier
begin

section \<open>A watch shared by its clients\<close>

text \<open>
  \<open>sharedNamespaceWatchHandler\<close> and \<open>SharedWatchHandler\<close> of
  \<open>service/internal/kubernetes/kubeWatchServiceShared.go\<close> as a state machine. Its steps are the
  calls of \<open>Watch\<close> and \<open>StopWatching\<close> (which hold the mutex of the handler) and what the loop of
  the current watch on the API server receives. The loop of a replaced watch has lost its context
  and is taken to have ended; \<open>Overlapping_Loops\<close> has the events it may still process.
\<close>

text \<open>\<open>fmt.Sprintf("%06d", n)\<close>.\<close>

definition pad6 :: "nat \<Rightarrow> string" where
  "pad6 n = replicate (6 - length (dec_of_nat n)) (CHR ''0'') @ dec_of_nat n"

text \<open>
  \<open>sw_session\<close> is the number of the call whose watch is the current event handler; it is nil after
  a call whose watch could not be started.
\<close>

record shared_watch =
  sw_clientCount :: nat
  sw_chain :: "notifier list"
  sw_session :: "nat option"
  sw_stopped :: "nat list"

definition newSharedNamespaceWatchHandler :: shared_watch where
  "newSharedNamespaceWatchHandler =
     \<lparr> sw_clientCount = 0, sw_chain = [], sw_session = None, sw_stopped = [] \<rparr>"

text \<open>\<open>started\<close> is the answer of the provider's \<open>Watch\<close>: nil or an error.\<close>

definition shared_Watch ::
  "filter_Meta \<Rightarrow> go_error option \<Rightarrow> shared_watch \<Rightarrow> (go_error + string) \<times> shared_watch" where
  "shared_Watch metaFilter started this =
     (let n = sw_clientCount this + 1;
          cid = pad6 n
      in case started of
           Some err \<Rightarrow>
             (Inl (Errorf (''failed to initiate handler watch handler: '' @ err_text err) [err]),
              this\<lparr>sw_clientCount := n, sw_session := None\<rparr>)
         | None \<Rightarrow>
             (Inr cid, this\<lparr>sw_clientCount := n,
                sw_chain := \<lparr> nt_id = cid, nt_clients = [(cid, metaFilter)], nt_versions = [] \<rparr> # sw_chain this,
                sw_session := Some n\<rparr>))"

text \<open>The method \<open>delete\<close>; it panics on a nil notifier or a nil event handler.\<close>

definition shared_delete :: "string \<Rightarrow> shared_watch \<Rightarrow> shared_watch run" where
  "shared_delete cid this =
     (if sw_chain this = [] then Panic
      else
        let this' = this\<lparr>sw_chain := deleteClient cid (sw_chain this)\<rparr>
        in if clientsCount (sw_chain this') = 0
           then (case sw_session this' of
                   None \<Rightarrow> Panic
                 | Some n \<Rightarrow> Ret (this'\<lparr>sw_stopped := n # sw_stopped this'\<rparr>))
           else Ret this')"

text \<open>The loop \<open>processServerChannel\<close>: an event, or the channel was closed.\<close>

definition process_event ::
  "('t \<Rightarrow> Metadata) \<Rightarrow> (string \<Rightarrow> bool) \<Rightarrow> 't ApiEvent \<Rightarrow> shared_watch \<Rightarrow> shared_watch \<times> 't signal list" where
  "process_event getMeta slow event this =
     (case ae_Object event of
        Text s \<Rightarrow> (this, [])
      | Entity obj \<Rightarrow>
          (case acceptEvent getMeta slow event (sw_chain this) of
             (chain, out, _) \<Rightarrow> (this\<lparr>sw_chain := chain\<rparr>, out)))"

definition process_closed :: "shared_watch \<Rightarrow> shared_watch \<times> 't signal list" where
  "process_closed this =
     (case cleanup (sw_chain this) of (chain, out) \<Rightarrow> (this\<lparr>sw_chain := chain\<rparr>, out))"

subsection \<open>Steps\<close>

datatype 't sw_input =
    DoWatch filter_Meta "go_error option"
  | DoDelete string
  | ServerEvent "string \<Rightarrow> bool" "'t ApiEvent"
  | ServerClosed

fun sw_step :: "('t \<Rightarrow> Metadata) \<Rightarrow> 't sw_input \<Rightarrow> shared_watch \<Rightarrow> (shared_watch \<times> 't signal list) run" where
  "sw_step getMeta (DoWatch f started) st = Ret (snd (shared_Watch f started st), [])"
| "sw_step getMeta (DoDelete cid) st = bind_run (shared_delete cid st) (\<lambda>st'. Ret (st', []))"
| "sw_step getMeta (ServerEvent slow ev) st =
     (if sw_session st = None then Ret (st, []) else Ret (process_event getMeta slow ev st))"
| "sw_step getMeta ServerClosed st =
     (if sw_session st = None then Ret (st, []) else Ret (process_closed st))"

text \<open>A run of the handler with the log of all its sends and closes.\<close>

inductive sw_run :: "('t \<Rightarrow> Metadata) \<Rightarrow> shared_watch \<Rightarrow> 't signal list \<Rightarrow> bool" for getMeta where
  sw_init: "sw_run getMeta newSharedNamespaceWatchHandler []"
| sw_next: "sw_run getMeta st log \<Longrightarrow> sw_step getMeta inp st = Ret (st', out) \<Longrightarrow>
    sw_run getMeta st' (log @ out)"

text \<open>A map from namespaces to handlers stands in front.\<close>

definition SharedWatchHandler_Watch ::
  "string \<Rightarrow> filter_Meta \<Rightarrow> go_error option \<Rightarrow> (string \<rightharpoonup> shared_watch) \<Rightarrow>
     (go_error + string) \<times> (string \<rightharpoonup> shared_watch)" where
  "SharedWatchHandler_Watch namespace metaFilter started handlers =
     (let h = (case handlers namespace of Some h \<Rightarrow> h | None \<Rightarrow> newSharedNamespaceWatchHandler);
          (r, h') = shared_Watch metaFilter started h
      in (r, handlers(namespace \<mapsto> h')))"

subsection \<open>Identifiers\<close>

lemma digit_val_zero [simp]: "digit_val (CHR ''0'') = 0"
  by (simp add: digit_val_def)

lemma nat_of_dec_zeros: "nat_of_dec (replicate k (CHR ''0'') @ s) = nat_of_dec s"
  by (induction k) (simp_all add: nat_of_dec_def)

lemma nat_of_dec_pad6 [simp]: "nat_of_dec (pad6 n) = n"
  by (simp add: pad6_def nat_of_dec_zeros)

lemma pad6_inject [simp]: "pad6 a = pad6 b \<longleftrightarrow> a = b"
  by (metis nat_of_dec_pad6)

subsection \<open>No channel is used after it was closed\<close>

text \<open>Sending on a closed Go channel, or closing it again, panics.\<close>

fun safe_log :: "string set \<Rightarrow> 't signal list \<Rightarrow> bool" where
  "safe_log closed [] = True"
| "safe_log closed (Sent cid e # log) = (cid \<notin> closed \<and> safe_log closed log)"
| "safe_log closed (Closed cid # log) = (cid \<notin> closed \<and> safe_log (insert cid closed) log)"

lemma safe_log_append:
  "safe_log C (a @ b) \<longleftrightarrow> safe_log C a \<and> safe_log (C \<union> set (closed_ids a)) b"
proof (induction a arbitrary: C)
  case (Cons s a)
  then show ?case by (cases s) auto
qed simp

lemma safe_log_distinct:
  "distinct (map signal_id out) \<Longrightarrow> set (map signal_id out) \<inter> C = {} \<Longrightarrow> safe_log C out"
proof (induction out arbitrary: C)
  case (Cons s out)
  then show ?case by (cases s) auto
qed simp

text \<open>
  The invariant: the clients in the chain are distinct, were numbered before, and their channels
  are open.
\<close>

definition sw_invar :: "shared_watch \<Rightarrow> 't signal list \<Rightarrow> bool" where
  "sw_invar st log \<longleftrightarrow>
     distinct (chain_ids (sw_chain st)) \<and>
     set (chain_ids (sw_chain st)) \<union> set (closed_ids log) \<subseteq> pad6 ` {1..sw_clientCount st} \<and>
     set (chain_ids (sw_chain st)) \<inter> set (closed_ids log) = {} \<and>
     safe_log {} log"

lemma sw_invar_tidy:
  assumes inv: "sw_invar st log" and t: "tidy (chain_ids (sw_chain st)) (chain_ids chain') out"
    and st': "sw_chain st' = chain'" "sw_clientCount st' = sw_clientCount st"
  shows "sw_invar st' (log @ out)"
proof -
  have s: "set (map signal_id out) \<subseteq> set (chain_ids (sw_chain st))"
    and c: "set (closed_ids out) \<subseteq> set (chain_ids (sw_chain st))"
    using t closed_ids_signal_ids [of out] by (auto simp: tidy_def)
  with inv have "set (map signal_id out) \<inter> set (closed_ids log) = {}" by (auto simp: sw_invar_def)
  then have "safe_log (set (closed_ids log)) out"
    using t by (intro safe_log_distinct) (simp_all add: tidy_def)
  with inv t st' c show ?thesis
    unfolding sw_invar_def tidy_def by (auto simp: safe_log_append)
qed

lemma sw_invar_shared_Watch:
  assumes inv: "sw_invar st log"
  shows "sw_invar (snd (shared_Watch f started st)) log"
proof (cases started)
  case None
  let ?n = "sw_clientCount st + 1"
  have sub: "pad6 ` {1..sw_clientCount st} \<subseteq> pad6 ` {1..?n}" by auto
  have fresh: "pad6 ?n \<notin> pad6 ` {1..sw_clientCount st}" by auto
  with inv have "pad6 ?n \<notin> set (chain_ids (sw_chain st))" "pad6 ?n \<notin> set (closed_ids log)"
    by (auto simp: sw_invar_def)
  moreover have "pad6 ?n \<in> pad6 ` {1..?n}" by auto
  ultimately show ?thesis
    using inv sub None by (auto simp: shared_Watch_def Let_def sw_invar_def)
next
  case (Some e)
  have "pad6 ` {1..sw_clientCount st} \<subseteq> pad6 ` {1..sw_clientCount st + 1}" by auto
  with inv Some show ?thesis
    by (auto simp: shared_Watch_def Let_def sw_invar_def)
qed

lemma sw_invar_delete:
  assumes "sw_invar st log" and "shared_delete cid st = Ret st'"
  shows "sw_invar st' log"
proof -
  from assms(2) have "sw_chain st' = deleteClient cid (sw_chain st)" "sw_clientCount st' = sw_clientCount st"
    by (auto simp: shared_delete_def Let_def split: if_splits option.splits)
  with assms(1) deleteClient_ids [where cid = cid and chain = "sw_chain st"] show ?thesis
    by (auto simp: sw_invar_def)
qed

lemma sw_step_invar:
  assumes "sw_invar st log" and "sw_step getMeta inp st = Ret (st', out)"
  shows "sw_invar st' (log @ out)"
proof (cases inp)
  case (DoWatch f started)
  with assms sw_invar_shared_Watch [OF assms(1)] show ?thesis by auto
next
  case (DoDelete cid)
  with assms sw_invar_delete [OF assms(1)] show ?thesis by (auto simp: bind_run_eq_Ret)
next
  case (ServerEvent slow ev)
  show ?thesis
  proof (cases "sw_session st = None \<or> (\<exists>s. ae_Object ev = Text s)")
    case True
    with assms ServerEvent show ?thesis by (auto simp: process_event_def split: if_splits)
  next
    case False
    obtain chain' o' e' where a: "acceptEvent getMeta slow ev (sw_chain st) = (chain', o', e')"
      by (metis prod_cases3)
    from assms(1) have d: "distinct (chain_ids (sw_chain st))" by (simp add: sw_invar_def)
    from False assms(2) ServerEvent a have "st' = st\<lparr>sw_chain := chain'\<rparr>" "out = o'"
      by (auto simp: process_event_def split: payload.splits)
    with sw_invar_tidy [OF assms(1) acceptEvent_tidy [OF d a], of st'] show ?thesis by simp
  qed
next
  case ServerClosed
  show ?thesis
  proof (cases "sw_session st = None")
    case True
    with assms ServerClosed show ?thesis by simp
  next
    case False
    obtain chain' and o' :: "'a signal list" where c: "cleanup (sw_chain st) = (chain', o')" by force
    from assms(1) have d: "distinct (chain_ids (sw_chain st))" by (simp add: sw_invar_def)
    from False assms(2) ServerClosed c have "st' = st\<lparr>sw_chain := chain'\<rparr>" "out = o'"
      by (auto simp: process_closed_def)
    with sw_invar_tidy [OF assms(1) cleanup_tidy [OF d c, THEN conjunct1], of st'] show ?thesis by simp
  qed
qed

lemma sw_run_invar: "sw_run getMeta st log \<Longrightarrow> sw_invar st log"
proof (induction rule: sw_run.induct)
  case sw_init
  then show ?case by (simp add: sw_invar_def newSharedNamespaceWatchHandler_def)
next
  case (sw_next st log inp st' out)
  then show ?case by (blast intro: sw_step_invar)
qed

end
