(* ===== verification/Private_Watch.thy ===== *)
theory Private_Watch
  imports Shared_Watch
begin

section \<open>A shared watch as each of its clients sees it\<close>

text \<open>
  The abstract specification of the notifier of \<open>kubeWatchServiceShared.go\<close>: what a client would get
  from a watch of its own on the same events, with the same knowledge of versions and its own
  filter; and the simulation between the two.
\<close>

type_synonym known = "string \<times> string \<Rightarrow> versionAndType option"

definition forget_deleted :: "known \<Rightarrow> known" where
  "forget_deleted known key =
     (case known key of None \<Rightarrow> None | Some v \<Rightarrow> if vt_eventType v = ''DELETED'' then None else Some v)"

fun private_watch :: "('t \<Rightarrow> Metadata) \<Rightarrow> filter_Meta \<Rightarrow> known \<Rightarrow> 't ApiEvent list \<Rightarrow> 't ApiEvent list" where
  "private_watch getMeta f known [] = []"
| "private_watch getMeta f known (ev # evs) =
     (case ae_Object ev of
        Text s \<Rightarrow> private_watch getMeta f known evs
      | Entity obj \<Rightarrow>
          if ae_Type ev = ''BOOKMARK'' then
            (if fm_WatchBookmark f then [ev] else []) @ private_watch getMeta f (forget_deleted known) evs
          else if map_option vt_resourceVersion (known (md_Namespace (getMeta obj), md_Name (getMeta obj))) =
                  Some (md_ResourceVersion (getMeta obj))
          then private_watch getMeta f known evs
          else (if acceptMeta (getMeta obj) f then [ev] else []) @
            private_watch getMeta f (known((md_Namespace (getMeta obj), md_Name (getMeta obj)) \<mapsto>
              \<lparr> vt_resourceVersion = md_ResourceVersion (getMeta obj), vt_eventType = ae_Type ev \<rparr>)) evs)"

text \<open>A chain of notifiers over a sequence of events, and what was sent to a client.\<close>

fun accept_all :: "('t \<Rightarrow> Metadata) \<Rightarrow> (string \<Rightarrow> bool) \<Rightarrow> 't ApiEvent list \<Rightarrow> notifier list \<Rightarrow>
    notifier list \<times> 't signal list" where
  "accept_all getMeta slow [] chain = (chain, [])"
| "accept_all getMeta slow (ev # evs) chain =
     (case acceptEvent getMeta slow ev chain of
        (chain', out, ev') \<Rightarrow>
          (case accept_all getMeta slow evs chain' of (chain'', outs) \<Rightarrow> (chain'', out @ outs)))"

fun events_for :: "string \<Rightarrow> 't signal list \<Rightarrow> 't ApiEvent list" where
  "events_for cid [] = []"
| "events_for cid (Sent c e # out) = (if c = cid then e # events_for cid out else events_for cid out)"
| "events_for cid (Closed c # out) = events_for cid out"

subsection \<open>Laws\<close>

lemma events_for_append: "events_for cid (a @ b) = events_for cid a @ events_for cid b"
  by (induction cid a rule: events_for.induct) simp_all

lemma events_for_none: "cid \<notin> fst ` set cs \<Longrightarrow> events_for cid (map (\<lambda>(c, f). Sent c e) (filter P cs)) = []"
  by (induction cs) (auto simp: image_iff)

lemma events_for_sent:
  "(cid, f) \<in> set cs \<Longrightarrow> distinct (map fst cs) \<Longrightarrow>
   events_for cid (map (\<lambda>(c, f). Sent c e) (filter (\<lambda>(c, f). acc f) cs)) = (if acc f then [e] else [])"
proof (induction cs)
  case (Cons c cs)
  obtain c1 f1 where c: "c = (c1, f1)" by force
  show ?case
  proof (cases "c1 = cid")
    case True
    with Cons.prems c have n: "cid \<notin> fst ` set cs" by auto
    with Cons.prems c True have "f1 = f" by (force simp: image_iff)
    with c True events_for_none [OF n] show ?thesis by simp
  next
    case False
    with Cons c show ?thesis by auto
  qed
qed simp

lemma map_of_forget:
  "distinct (map fst al) \<Longrightarrow>
   map_of (filter (\<lambda>(k, v). vt_eventType v \<noteq> ''DELETED'') al) = forget_deleted (map_of al)"
proof (induction al)
  case Nil
  then show ?case by (simp add: forget_deleted_def fun_eq_iff)
next
  case (Cons p al)
  obtain k v where p: "p = (k, v)" by (cases p)
  with Cons have "map_of al k = None" by (simp add: map_of_eq_None_iff)
  with p Cons show ?case by (auto simp: forget_deleted_def fun_eq_iff)
qed

lemma distinct_forget:
  "distinct (map fst al) \<Longrightarrow> distinct (map fst (filter P al))"
  by (induction al) auto

text \<open>One event, while a single notifier serves clients that keep up.\<close>

lemma acceptEvent_alone:
  assumes "\<And>cid. cid \<in> fst ` set (nt_clients n) \<Longrightarrow> \<not> slow cid"
    and "distinct (map fst (nt_clients n))" and "distinct (map fst (nt_versions n))"
    and "ae_Type ev \<noteq> ''PREVIOUS''"
  shows "\<exists>n' out. acceptEvent getMeta slow ev [n] = ([n'], out, ev) \<and> nt_clients n' = nt_clients n \<and>
    distinct (map fst (nt_versions n')) \<and> closed_ids out = [] \<and>
    (\<forall>cid f evs. (cid, f) \<in> set (nt_clients n) \<longrightarrow> private_watch getMeta f (map_of (nt_versions n)) (ev # evs) =
      events_for cid out @ private_watch getMeta f (map_of (nt_versions n')) evs)"
proof -
  have no_close: "closed_ids (map (\<lambda>(c, f). Sent c e) xs) = []" for xs :: clients and e :: "'a ApiEvent"
    by (induction xs) auto
  have send: "sendToClients slow ev acc (nt_clients n) =
      (nt_clients n, map (\<lambda>(cid, f). Sent cid ev) (filter (\<lambda>(cid, f). acc f) (nt_clients n)))" for acc
    by (rule sendToClients_fast) (use assms(1) in force)
  note sent = events_for_sent [OF _ assms(2), of _ _ ev]
  show ?thesis
  proof (cases "ae_Object ev")
    case (Text s)
    with assms(3) show ?thesis by simp
  next
    case (Entity obj)
    show ?thesis
    proof (cases "ae_Type ev = ''BOOKMARK''")
      case True
      with Entity send assms(3) show ?thesis
        by (simp add: Let_def no_close sent map_of_forget distinct_forget)
    next
      case False
      with Entity have a: "acceptEvent getMeta slow ev [n] = take_event slow (getMeta obj) n [] [] ev"
        by (simp add: acceptEvent_entity pass_on_def del: acceptEvent.simps)
      show ?thesis
      proof (cases "map_option vt_resourceVersion (map_of (nt_versions n)
          (md_Namespace (getMeta obj), md_Name (getMeta obj))) = Some (md_ResourceVersion (getMeta obj))")
        case True
        then obtain v where "map_of (nt_versions n) (md_Namespace (getMeta obj), md_Name (getMeta obj)) = Some v"
          "vt_resourceVersion v = md_ResourceVersion (getMeta obj)" by auto
        with a Entity False assms(3) show ?thesis by (simp add: take_event_known)
      next
        case unknown: False
        let ?v = "\<lparr> vt_resourceVersion = md_ResourceVersion (getMeta obj), vt_eventType = ae_Type ev \<rparr>"
        have "take_event slow (getMeta obj) n [] [] ev =
            ([n\<lparr>nt_clients := nt_clients n, nt_versions :=
               AList.update (md_Namespace (getMeta obj), md_Name (getMeta obj)) ?v (nt_versions n)\<rparr>],
             map (\<lambda>(cid, f). Sent cid ev) (filter (\<lambda>(cid, f). acceptMeta (getMeta obj) f) (nt_clients n)), ev)"
          using unknown assms(4) send by (auto simp: take_event_def Let_def)
        moreover have "private_watch getMeta f (map_of (nt_versions n)) (ev # evs) =
            (if acceptMeta (getMeta obj) f then [ev] else []) @
              private_watch getMeta f ((map_of (nt_versions n))((md_Namespace (getMeta obj), md_Name (getMeta obj)) \<mapsto> ?v)) evs"
          for f evs
          unfolding private_watch.simps Entity payload.case using False unknown by (simp only: if_False)
        ultimately show ?thesis
          using a assms(3) by (simp add: no_close sent update_conv' distinct_update
            del: acceptEvent.simps private_watch.simps map_of_eq_Some_iff)
      qed
    qed
  qed
qed

lemma accept_all_alone:
  "\<forall>cid \<in> fst ` set (nt_clients n). \<not> slow cid \<Longrightarrow> distinct (map fst (nt_clients n)) \<Longrightarrow>
   distinct (map fst (nt_versions n)) \<Longrightarrow> \<forall>ev \<in> set evs. ae_Type ev \<noteq> ''PREVIOUS'' \<Longrightarrow>
   \<exists>n' out. accept_all getMeta slow evs [n] = ([n'], out) \<and> nt_clients n' = nt_clients n \<and> closed_ids out = [] \<and>
     (\<forall>cid f. (cid, f) \<in> set (nt_clients n) \<longrightarrow>
        events_for cid out = private_watch getMeta f (map_of (nt_versions n)) evs)"
proof (induction evs arbitrary: n)
  case Nil
  then show ?case by simp
next
  case (Cons ev evs)
  from acceptEvent_alone [of n slow ev getMeta] Cons.prems obtain n1 out1
    where 1: "acceptEvent getMeta slow ev [n] = ([n1], out1, ev)" "nt_clients n1 = nt_clients n"
      "distinct (map fst (nt_versions n1))" "closed_ids out1 = []"
      "\<And>cid f. (cid, f) \<in> set (nt_clients n) \<Longrightarrow> private_watch getMeta f (map_of (nt_versions n)) (ev # evs) =
         events_for cid out1 @ private_watch getMeta f (map_of (nt_versions n1)) evs" by auto
  from Cons.IH [of n1] Cons.prems 1(2,3) obtain n2 out2
    where "accept_all getMeta slow evs [n1] = ([n2], out2)" "nt_clients n2 = nt_clients n" "closed_ids out2 = []"
      "\<And>cid f. (cid, f) \<in> set (nt_clients n) \<Longrightarrow>
         events_for cid out2 = private_watch getMeta f (map_of (nt_versions n1)) evs" by auto
  with 1 show ?case
    by (simp add: events_for_append del: acceptEvent.simps private_watch.simps)
qed

end
