(* ===== verification/Joining_Watch.thy ===== *)
theory Joining_Watch
  imports Private_Watch
begin

section \<open>A client joins a shared watch\<close>

text \<open>
  When a client joins, the watch on the API server starts anew and a notifier of its own, which knows
  nothing, comes in front of the one that serves the clients there are; the next bookmark joins the
  two. This theory says what both groups of clients see meanwhile and afterwards, in terms of the
  watch each would have of its own.
\<close>

subsection \<open>Specification\<close>

text \<open>What a watch of one's own knows after a sequence of events.\<close>

fun learn :: "('t \<Rightarrow> Metadata) \<Rightarrow> 't ApiEvent \<Rightarrow> known \<Rightarrow> known" where
  "learn getMeta ev known =
     (case ae_Object ev of
        Text s \<Rightarrow> known
      | Entity obj \<Rightarrow>
          if ae_Type ev = ''BOOKMARK'' then forget_deleted known
          else if map_option vt_resourceVersion (known (md_Namespace (getMeta obj), md_Name (getMeta obj))) =
                  Some (md_ResourceVersion (getMeta obj)) then known
          else known((md_Namespace (getMeta obj), md_Name (getMeta obj)) \<mapsto>
            \<lparr> vt_resourceVersion = md_ResourceVersion (getMeta obj), vt_eventType = ae_Type ev \<rparr>))"

declare learn.simps [simp del]

text \<open>
  The clients that were there are told of the announcements that the new watch begins with as what
  these mean to them: an object that was changed since it was created is new only if it is unknown.
\<close>

definition retyped :: "known \<Rightarrow> Metadata \<Rightarrow> 't ApiEvent \<Rightarrow> 't ApiEvent" where
  "retyped known meta ev =
     (if ae_Type ev = ''ADDED'' \<and> md_Generation meta > 1
      then ev\<lparr>ae_Type := (case known (md_Namespace meta, md_Name meta) of
          None \<Rightarrow> ''ADDED''
        | Some v \<Rightarrow> if vt_resourceVersion v = [] then ''ADDED'' else ''MODIFIED'')\<rparr>
      else ev)"

fun rewatched :: "('t \<Rightarrow> Metadata) \<Rightarrow> filter_Meta \<Rightarrow> known \<Rightarrow> 't ApiEvent list \<Rightarrow> 't ApiEvent list" where
  "rewatched getMeta f known [] = []"
| "rewatched getMeta f known (ev # evs) =
     (case ae_Object ev of
        Text s \<Rightarrow> rewatched getMeta f known evs
      | Entity obj \<Rightarrow>
          if map_option vt_resourceVersion (known (md_Namespace (getMeta obj), md_Name (getMeta obj))) =
             Some (md_ResourceVersion (getMeta obj)) then rewatched getMeta f known evs
          else (if acceptMeta (getMeta obj) f then [retyped known (getMeta obj) ev] else []) @
            rewatched getMeta f (learn getMeta (retyped known (getMeta obj) ev) known) evs)"

subsection \<open>One notifier takes an event\<close>

definition keeps_up :: "(string \<Rightarrow> bool) \<Rightarrow> notifier \<Rightarrow> bool" where
  "keeps_up slow n \<longleftrightarrow> (\<forall>cid \<in> fst ` set (nt_clients n). \<not> slow cid) \<and>
     distinct (map fst (nt_clients n)) \<and> distinct (map fst (nt_versions n))"

lemma closed_ids_sent [simp]: "closed_ids (map (\<lambda>(c, f). Sent c e) cs) = []"
  by (induction cs) auto

text \<open>The type an event gets: the internal one is resolved by what the notifier knows.\<close>

definition resolved :: "known \<Rightarrow> Metadata \<Rightarrow> 't ApiEvent \<Rightarrow> 't ApiEvent" where
  "resolved known meta ev =
     (if ae_Type ev = ''PREVIOUS''
      then ev\<lparr>ae_Type := (case known (md_Namespace meta, md_Name meta) of
          None \<Rightarrow> ''ADDED''
        | Some v \<Rightarrow> if vt_resourceVersion v = [] then ''ADDED'' else ''MODIFIED'')\<rparr>
      else ev)"

text \<open>What an event, with its final type, does to a notifier whose clients keep up.\<close>

definition served :: "(string \<Rightarrow> bool) \<Rightarrow> ('t \<Rightarrow> Metadata) \<Rightarrow> notifier \<Rightarrow> 't \<Rightarrow> 't ApiEvent \<Rightarrow> notifier \<Rightarrow> 't signal list \<Rightarrow> bool" where
  "served slow getMeta n obj ev n' out \<longleftrightarrow>
     nt_clients n' = nt_clients n \<and> keeps_up slow n' \<and> closed_ids out = [] \<and>
     map_of (nt_versions n') = learn getMeta ev (map_of (nt_versions n)) \<and>
     (\<forall>cid. cid \<notin> fst ` set (nt_clients n) \<longrightarrow> events_for cid out = []) \<and>
     (\<forall>cid f. (cid, f) \<in> set (nt_clients n) \<longrightarrow> events_for cid out =
        (if map_option vt_resourceVersion (map_of (nt_versions n) (md_Namespace (getMeta obj), md_Name (getMeta obj))) =
            Some (md_ResourceVersion (getMeta obj)) then []
         else if acceptMeta (getMeta obj) f then [ev] else []))"

lemma take_event_sent:
  fixes getMeta :: "'t \<Rightarrow> Metadata"
  assumes up: "keeps_up slow n" and ev: "ae_Object ev = Entity obj" "ae_Type ev \<noteq> ''BOOKMARK''"
  defines "ev' \<equiv> resolved (map_of (nt_versions n)) (getMeta obj) ev"
  obtains n' out' e where "take_event slow (getMeta obj) n rest out ev = (n' # rest, out @ out', e)"
    and "e \<in> {ev, ev'}" and "served slow getMeta n obj ev' n' out'"
proof -
  let ?key = "(md_Namespace (getMeta obj), md_Name (getMeta obj))"
  have ev': "ae_Object ev' = Entity obj" "ae_Type ev' \<noteq> ''BOOKMARK''"
    using ev by (auto simp: ev'_def resolved_def split: option.split)
  show ?thesis
  proof (cases "map_option vt_resourceVersion (map_of (nt_versions n) ?key) = Some (md_ResourceVersion (getMeta obj))")
    case True
    then obtain v where "map_of (nt_versions n) ?key = Some v" "vt_resourceVersion v = md_ResourceVersion (getMeta obj)"
      by auto
    with up ev' show ?thesis by (intro that [of n "[]" ev]) (simp_all add: take_event_known served_def learn.simps)
  next
    case False
    let ?v = "\<lparr> vt_resourceVersion = md_ResourceVersion (getMeta obj), vt_eventType = ae_Type ev' \<rparr>"
    have send: "sendToClients slow ev' (\<lambda>f. acceptMeta (getMeta obj) f) (nt_clients n) =
        (nt_clients n, map (\<lambda>(cid, f). Sent cid ev') (filter (\<lambda>(cid, f). acceptMeta (getMeta obj) f) (nt_clients n)))"
      by (rule sendToClients_fast) (use up in \<open>force simp: keeps_up_def\<close>)
    have t: "take_event slow (getMeta obj) n rest out ev =
        (n\<lparr>nt_clients := nt_clients n, nt_versions := AList.update ?key ?v (nt_versions n)\<rparr> # rest,
         out @ map (\<lambda>(cid, f). Sent cid ev') (filter (\<lambda>(cid, f). acceptMeta (getMeta obj) f) (nt_clients n)), ev')"
      using False send
      by (cases "map_of (nt_versions n) ?key") (auto simp: take_event_def Let_def ev'_def resolved_def zero_version_def)
    have "learn getMeta ev' (map_of (nt_versions n)) = (map_of (nt_versions n))(?key \<mapsto> ?v)"
      unfolding learn.simps ev'(1) payload.case using ev'(2) False by (simp only: if_False)
    moreover have "distinct (map fst (nt_clients n))" "distinct (map fst (nt_versions n))"
      using up by (simp_all add: keeps_up_def)
    moreover note events_for_none [of _ "nt_clients n"] events_for_sent [of _ _ "nt_clients n" ev']
    ultimately show ?thesis
      using False up by (intro that [OF t])
        (auto simp: served_def keeps_up_def update_conv' distinct_update simp del: map_of_eq_Some_iff)
  qed
qed

subsection \<open>Two notifiers\<close>

lemma resolved_PREVIOUS:
  "ae_Type ev = ''ADDED'' \<Longrightarrow> md_Generation meta > 1 \<Longrightarrow>
   resolved known meta (ev\<lparr>ae_Type := ''PREVIOUS''\<rparr>) = retyped known meta ev"
  by (simp add: resolved_def retyped_def split: option.split)

lemma resolved_other [simp]: "ae_Type ev \<noteq> ''PREVIOUS'' \<Longrightarrow> resolved known meta ev = ev"
  by (simp add: resolved_def)

lemma retyped_entity [simp]: "ae_Object (retyped known meta ev) = ae_Object ev"
  by (simp add: retyped_def)

text \<open>The older of two notifiers gets the event retyped; the newer one gets it as it is.\<close>

lemma pass_on_older:
  assumes "keeps_up slow p" and "ae_Object ev = Entity obj" and "ae_Type ev \<notin> {''BOOKMARK'', ''PREVIOUS''}"
  obtains p' out where "pass_on getMeta slow ev (getMeta obj) [p] = ([p'], out, ev)"
    and "served slow getMeta p obj (retyped (map_of (nt_versions p)) (getMeta obj) ev) p' out"
proof (cases "ae_Type ev = ''ADDED'' \<and> md_Generation (getMeta obj) > 1")
  case True
  let ?ev = "ev\<lparr>ae_Type := ''PREVIOUS''\<rparr>"
  have "ae_Object ?ev = Entity obj" "ae_Type ?ev \<noteq> ''BOOKMARK''" using assms(2) by simp_all
  from take_event_sent [OF assms(1) this, of getMeta "[]" "[]"] obtain p' out e where
    t: "take_event slow (getMeta obj) p [] [] ?ev = ([p'], [] @ out, e)" and
    "e \<in> {?ev, resolved (map_of (nt_versions p)) (getMeta obj) ?ev}" and
    s: "served slow getMeta p obj (resolved (map_of (nt_versions p)) (getMeta obj) ?ev) p' out" .
  have "acceptEvent getMeta slow ?ev [p] = take_event slow (getMeta obj) p [] [] ?ev"
    using assms(2) by (simp add: acceptEvent_entity [of ?ev obj] pass_on_def del: acceptEvent.simps)
  with t True have "pass_on getMeta slow ev (getMeta obj) [p] = ([p'], out, ev)"
    by (simp add: pass_on_def del: acceptEvent.simps)
  with s True resolved_PREVIOUS [of ev "getMeta obj"] show ?thesis by (metis that)
next
  case False
  from assms(3) have "ae_Type ev \<noteq> ''BOOKMARK''" by simp
  from take_event_sent [OF assms(1,2) this, of getMeta "[]" "[]"] obtain p' out e where
    "take_event slow (getMeta obj) p [] [] ev = ([p'], [] @ out, e)" and
    "e \<in> {ev, resolved (map_of (nt_versions p)) (getMeta obj) ev}" and
    "served slow getMeta p obj (resolved (map_of (nt_versions p)) (getMeta obj) ev) p' out" .
  with assms(3) have t: "take_event slow (getMeta obj) p [] [] ev = ([p'], out, ev)"
    and s: "served slow getMeta p obj ev p' out" by simp_all
  have "acceptEvent getMeta slow ev [p] = take_event slow (getMeta obj) p [] [] ev"
    using assms(2,3) by (simp add: acceptEvent_entity [of ev obj] pass_on_def del: acceptEvent.simps)
  with t False have "pass_on getMeta slow ev (getMeta obj) [p] = ([p'], out, ev)"
    by (auto simp: pass_on_def simp del: acceptEvent.simps)
  moreover from False have "retyped (map_of (nt_versions p)) (getMeta obj) ev = ev" by (auto simp: retyped_def)
  ultimately show ?thesis using s by (metis that)
qed

lemma acceptEvent_two:
  assumes "keeps_up slow n" and "keeps_up slow p" and "ae_Object ev = Entity obj"
    and "ae_Type ev \<notin> {''BOOKMARK'', ''PREVIOUS''}"
  obtains n' p' out1 out2 where "acceptEvent getMeta slow ev [n, p] = ([n', p'], out1 @ out2, ev)"
    and "served slow getMeta p obj (retyped (map_of (nt_versions p)) (getMeta obj) ev) p' out1"
    and "served slow getMeta n obj ev n' out2"
proof -
  from assms(4) have nb: "ae_Type ev \<noteq> ''BOOKMARK''" by simp
  from pass_on_older [OF assms(2-4)] obtain p' out1 where
    p: "pass_on getMeta slow ev (getMeta obj) [p] = ([p'], out1, ev)"
      "served slow getMeta p obj (retyped (map_of (nt_versions p)) (getMeta obj) ev) p' out1" .
  from take_event_sent [OF assms(1,3) nb, of getMeta "[p']" out1] obtain n' out2 e where
    "take_event slow (getMeta obj) n [p'] out1 ev = ([n', p'], out1 @ out2, e)" and
    "e \<in> {ev, resolved (map_of (nt_versions n)) (getMeta obj) ev}" and
    "served slow getMeta n obj (resolved (map_of (nt_versions n)) (getMeta obj) ev) n' out2" .
  with assms(4) have t: "take_event slow (getMeta obj) n [p'] out1 ev = ([n', p'], out1 @ out2, ev)"
    "served slow getMeta n obj ev n' out2" by simp_all
  show ?thesis
    by (rule that [OF _ p(2) t(2)]) (simp add: acceptEvent_entity [OF assms(3) nb] p(1) t(1) del: acceptEvent.simps)
qed

subsection \<open>Sequences of events\<close>

lemma retyped_bookmark: "ae_Type ev \<notin> {''BOOKMARK'', ''PREVIOUS''} \<Longrightarrow> ae_Type (retyped known meta ev) = ''BOOKMARK'' \<longleftrightarrow> False"
  by (simp add: retyped_def split: option.split)

lemma private_watch_Cons:
  "ae_Object ev = Entity obj \<Longrightarrow> ae_Type ev \<noteq> ''BOOKMARK'' \<Longrightarrow>
   private_watch getMeta f known (ev # evs) =
     (if map_option vt_resourceVersion (known (md_Namespace (getMeta obj), md_Name (getMeta obj))) =
         Some (md_ResourceVersion (getMeta obj)) then []
      else if acceptMeta (getMeta obj) f then [ev] else []) @ private_watch getMeta f (learn getMeta ev known) evs"
  by (cases "map_option vt_resourceVersion (known (md_Namespace (getMeta obj), md_Name (getMeta obj))) =
      Some (md_ResourceVersion (getMeta obj))")
    (simp_all only: private_watch.simps learn.simps payload.case if_True if_False append_Nil simp_thms)

lemma rewatched_Cons:
  "ae_Object ev = Entity obj \<Longrightarrow> ae_Type ev \<notin> {''BOOKMARK'', ''PREVIOUS''} \<Longrightarrow>
   rewatched getMeta f known (ev # evs) =
     (if map_option vt_resourceVersion (known (md_Namespace (getMeta obj), md_Name (getMeta obj))) =
         Some (md_ResourceVersion (getMeta obj)) then []
      else if acceptMeta (getMeta obj) f then [retyped known (getMeta obj) ev] else []) @
     rewatched getMeta f (learn getMeta (retyped known (getMeta obj) ev) known) evs"
  by (cases "map_option vt_resourceVersion (known (md_Namespace (getMeta obj), md_Name (getMeta obj))) =
      Some (md_ResourceVersion (getMeta obj))")
    (simp_all only: rewatched.simps learn.simps retyped_entity payload.case retyped_bookmark if_True if_False append_Nil simp_thms)

lemma private_watch_first:
  "private_watch getMeta f known (ev # evs) =
   private_watch getMeta f known [ev] @ private_watch getMeta f (learn getMeta ev known) evs"
proof (cases "ae_Object ev")
  case (Entity obj)
  show ?thesis
  proof (cases "ae_Type ev = ''BOOKMARK''")
    case True
    with Entity show ?thesis by (simp add: learn.simps)
  next
    case False
    show ?thesis by (simp only: private_watch_Cons [OF Entity False] private_watch.simps(1) append_Nil2 append_assoc)
  qed
qed (simp add: learn.simps)

lemma private_watch_append:
  "private_watch getMeta f known (evs @ evs') =
   private_watch getMeta f known evs @ private_watch getMeta f (fold (learn getMeta) evs known) evs'"
proof (induction evs arbitrary: known)
  case (Cons ev evs)
  from private_watch_first [of getMeta f known ev "evs @ evs'"] private_watch_first [of getMeta f known ev evs]
    Cons.IH [of "learn getMeta ev known"]
  show ?case by (simp del: private_watch.simps)
qed simp

lemma accept_all_append:
  "accept_all getMeta slow (evs @ evs') chain =
   (case accept_all getMeta slow evs chain of (chain', out) \<Rightarrow>
     case accept_all getMeta slow evs' chain' of (chain'', out') \<Rightarrow> (chain'', out @ out'))"
  by (induction evs arbitrary: chain) (simp_all split: prod.split)

lemma served_keeps: "served slow getMeta n obj ev n' out \<Longrightarrow> nt_clients n' = nt_clients n \<and> keeps_up slow n' \<and> closed_ids out = []"
  by (simp add: served_def)

lemma accept_all_two:
  "keeps_up slow n \<Longrightarrow> keeps_up slow p \<Longrightarrow> fst ` set (nt_clients n) \<inter> fst ` set (nt_clients p) = {} \<Longrightarrow>
   \<forall>ev \<in> set evs. ae_Type ev \<notin> {''BOOKMARK'', ''PREVIOUS''} \<Longrightarrow>
   \<exists>n' p' out. accept_all getMeta slow evs [n, p] = ([n', p'], out) \<and>
     nt_clients n' = nt_clients n \<and> nt_clients p' = nt_clients p \<and> keeps_up slow n' \<and> keeps_up slow p' \<and>
     closed_ids out = [] \<and> map_of (nt_versions n') = fold (learn getMeta) evs (map_of (nt_versions n)) \<and>
     (\<forall>cid f. (cid, f) \<in> set (nt_clients n) \<longrightarrow> events_for cid out = private_watch getMeta f (map_of (nt_versions n)) evs) \<and>
     (\<forall>cid f. (cid, f) \<in> set (nt_clients p) \<longrightarrow> events_for cid out = rewatched getMeta f (map_of (nt_versions p)) evs)"
proof (induction evs arbitrary: n p)
  case Nil
  then show ?case by simp
next
  case (Cons ev evs)
  show ?case
  proof (cases "ae_Object ev")
    case (Text s)
    with Cons.IH [of n p] Cons.prems show ?thesis by (auto simp: learn.simps)
  next
    case (Entity obj)
    from Cons.prems(4) have ty: "ae_Type ev \<notin> {''BOOKMARK'', ''PREVIOUS''}" "ae_Type ev \<noteq> ''BOOKMARK''" by auto
    from acceptEvent_two [OF Cons.prems(1,2) Entity ty(1)] obtain n1 p1 o1 o2 where
      a: "acceptEvent getMeta slow ev [n, p] = ([n1, p1], o1 @ o2, ev)" and
      sp: "served slow getMeta p obj (retyped (map_of (nt_versions p)) (getMeta obj) ev) p1 o1" and
      sn: "served slow getMeta n obj ev n1 o2" .
    from Cons.IH [of n1 p1] served_keeps [OF sp] served_keeps [OF sn] Cons.prems(3,4) obtain n2 p2 o3 where
      r: "accept_all getMeta slow evs [n1, p1] = ([n2, p2], o3)" "nt_clients n2 = nt_clients n" "nt_clients p2 = nt_clients p"
        "keeps_up slow n2" "keeps_up slow p2" "closed_ids o3 = []"
        "map_of (nt_versions n2) = fold (learn getMeta) evs (map_of (nt_versions n1))"
      and en: "\<And>cid f. (cid, f) \<in> set (nt_clients n) \<Longrightarrow> events_for cid o3 = private_watch getMeta f (map_of (nt_versions n1)) evs"
      and ep: "\<And>cid f. (cid, f) \<in> set (nt_clients p) \<Longrightarrow> events_for cid o3 = rewatched getMeta f (map_of (nt_versions p1)) evs"
      by auto
    have "events_for cid (o1 @ o2 @ o3) = private_watch getMeta f (map_of (nt_versions n)) (ev # evs)"
      if c: "(cid, f) \<in> set (nt_clients n)" for cid f
    proof -
      have "cid \<notin> fst ` set (nt_clients p)" using Cons.prems(3) imageI [OF c, of fst] by auto
      with c sp sn en [OF c] show ?thesis
        unfolding private_watch_Cons [OF Entity ty(2)] by (simp add: events_for_append served_def)
    qed
    moreover have "events_for cid (o1 @ o2 @ o3) = rewatched getMeta f (map_of (nt_versions p)) (ev # evs)"
      if c: "(cid, f) \<in> set (nt_clients p)" for cid f
    proof -
      have "cid \<notin> fst ` set (nt_clients n)" using Cons.prems(3) imageI [OF c, of fst] by auto
      with c sp sn ep [OF c] show ?thesis
        unfolding rewatched_Cons [OF Entity ty(1)] by (simp add: events_for_append served_def)
    qed
    moreover have "accept_all getMeta slow (ev # evs) [n, p] = ([n2, p2], o1 @ o2 @ o3)"
      using a r(1) by (simp del: acceptEvent.simps)
    moreover have "map_of (nt_versions n2) = fold (learn getMeta) (ev # evs) (map_of (nt_versions n))"
      using r(7) sn by (simp add: served_def)
    moreover have "closed_ids (o1 @ o2 @ o3) = []" using r(6) served_keeps [OF sp] served_keeps [OF sn] by simp
    ultimately show ?thesis using r(2-5) by (intro exI conjI) (assumption | blast)+
  qed
qed

subsection \<open>The bookmark\<close>

lemma acceptEvent_bookmark:
  assumes "distinct (chain_ids (self # prev))"
    and "ae_Type event = ''BOOKMARK''" and "ae_Object event = Entity obj"
    and "\<forall>(cid, f) \<in> set (concat (map nt_clients (self # prev))). fm_WatchBookmark f \<longrightarrow> \<not> slow cid"
  shows "acceptEvent getMeta slow event (self # prev) =
    ([self\<lparr>nt_clients := concat (map nt_clients (rev (self # prev))),
       nt_versions := filter (\<lambda>(k, v). vt_eventType v \<noteq> ''DELETED'') (nt_versions self)\<rparr>],
     map (\<lambda>(cid, f). Sent cid event)
       (filter (\<lambda>(cid, f). fm_WatchBookmark f) (concat (map nt_clients (rev (self # prev))))), event)"
proof -
  have "\<forall>(cid, f) \<in> set (drainPrevious (self # prev)). fm_WatchBookmark f \<longrightarrow> \<not> slow cid"
    using assms(4) unfolding drainPrevious_concat [OF assms(1)] by auto
  from sendToClients_fast [OF this, of event] assms(2,3) show ?thesis
    by (simp add: drainPrevious_concat [OF assms(1)] Let_def del: drainPrevious.simps)
qed

lemma acceptEvent_two_bookmark:
  assumes up: "keeps_up slow n" "keeps_up slow p" and disj: "fst ` set (nt_clients n) \<inter> fst ` set (nt_clients p) = {}"
    and bm: "ae_Type bm = ''BOOKMARK''" "ae_Object bm = Entity obj"
  obtains m out where "acceptEvent getMeta slow bm [n, p] = ([m], out, bm)"
    and "nt_clients m = nt_clients p @ nt_clients n" and "keeps_up slow m" and "closed_ids out = []"
    and "map_of (nt_versions m) = forget_deleted (map_of (nt_versions n))"
    and "\<And>cid f. (cid, f) \<in> set (nt_clients p @ nt_clients n) \<Longrightarrow>
      events_for cid out = (if fm_WatchBookmark f then [bm] else [])"
proof -
  let ?m = "n\<lparr>nt_clients := nt_clients p @ nt_clients n,
    nt_versions := filter (\<lambda>(k, v). vt_eventType v \<noteq> ''DELETED'') (nt_versions n)\<rparr>"
  let ?out = "map (\<lambda>(cid, f). Sent cid bm) (filter (\<lambda>(cid, f). fm_WatchBookmark f) (nt_clients p @ nt_clients n))"
  from up disj have d: "distinct (chain_ids [n, p])" "distinct (map fst (nt_clients p @ nt_clients n))"
    by (auto simp: keeps_up_def)
  have "\<forall>(cid, f) \<in> set (concat (map nt_clients [n, p])). fm_WatchBookmark f \<longrightarrow> \<not> slow cid"
    using up by (force simp: keeps_up_def)
  from acceptEvent_bookmark [OF d(1) bm this, of getMeta]
  have "acceptEvent getMeta slow bm [n, p] = ([?m], ?out, bm)" by (simp del: acceptEvent.simps)
  moreover have "keeps_up slow ?m" using up d(2) by (auto simp: keeps_up_def distinct_forget)
  moreover have "map_of (nt_versions ?m) = forget_deleted (map_of (nt_versions n))"
    using up by (simp add: map_of_forget keeps_up_def)
  ultimately show ?thesis
    using events_for_sent [OF _ d(2), of _ _ bm fm_WatchBookmark] by (intro that [of ?m ?out]) (simp_all del: map_append filter_append)
qed

text \<open>The whole life of the clients of both notifiers.\<close>

lemma joining:
  assumes up: "keeps_up slow n" "keeps_up slow p" and disj: "fst ` set (nt_clients n) \<inter> fst ` set (nt_clients p) = {}"
    and before: "\<forall>ev \<in> set before. ae_Type ev \<notin> {''BOOKMARK'', ''PREVIOUS''}"
    and bm: "ae_Type bm = ''BOOKMARK''" "ae_Object bm = Entity obj"
    and later: "\<forall>ev \<in> set later. ae_Type ev \<noteq> ''PREVIOUS''"
  shows "\<exists>m out. accept_all getMeta slow (before @ bm # later) [n, p] = ([m], out) \<and>
    nt_clients m = nt_clients p @ nt_clients n \<and> closed_ids out = [] \<and>
    (\<forall>cid f. (cid, f) \<in> set (nt_clients n) \<longrightarrow>
       events_for cid out = private_watch getMeta f (map_of (nt_versions n)) (before @ bm # later)) \<and>
    (\<forall>cid f. (cid, f) \<in> set (nt_clients p) \<longrightarrow>
       events_for cid out = rewatched getMeta f (map_of (nt_versions p)) before @
         private_watch getMeta f (fold (learn getMeta) before (map_of (nt_versions n))) (bm # later))"
proof -
  from accept_all_two [OF up disj before, of getMeta] obtain n1 p1 o1 where
    1: "accept_all getMeta slow before [n, p] = ([n1, p1], o1)" "nt_clients n1 = nt_clients n" "nt_clients p1 = nt_clients p"
      "keeps_up slow n1" "keeps_up slow p1" "closed_ids o1 = []"
      "map_of (nt_versions n1) = fold (learn getMeta) before (map_of (nt_versions n))"
    and en: "\<And>cid f. (cid, f) \<in> set (nt_clients n) \<Longrightarrow> events_for cid o1 = private_watch getMeta f (map_of (nt_versions n)) before"
    and ep: "\<And>cid f. (cid, f) \<in> set (nt_clients p) \<Longrightarrow> events_for cid o1 = rewatched getMeta f (map_of (nt_versions p)) before"
    by blast
  from acceptEvent_two_bookmark [OF 1(4,5) _ bm] 1(2,3) disj obtain m o2 where
    2: "acceptEvent getMeta slow bm [n1, p1] = ([m], o2, bm)" "nt_clients m = nt_clients p @ nt_clients n" "keeps_up slow m"
      "closed_ids o2 = []" "map_of (nt_versions m) = forget_deleted (map_of (nt_versions n1))"
    and eb: "\<And>cid f. (cid, f) \<in> set (nt_clients p @ nt_clients n) \<Longrightarrow>
      events_for cid o2 = (if fm_WatchBookmark f then [bm] else [])" by metis
  from 2(3) later accept_all_alone [of m slow later getMeta] obtain m2 o3 where
    3: "accept_all getMeta slow later [m] = ([m2], o3)" "nt_clients m2 = nt_clients m" "closed_ids o3 = []"
    and el: "\<And>cid f. (cid, f) \<in> set (nt_clients m) \<Longrightarrow> events_for cid o3 = private_watch getMeta f (map_of (nt_versions m)) later"
    unfolding keeps_up_def by blast
  have "private_watch getMeta f (map_of (nt_versions n1)) (bm # later) = events_for cid (o2 @ o3)"
    if "(cid, f) \<in> set (nt_clients p @ nt_clients n)" for cid f
    using eb [OF that] el [of cid f] that 2(2,5) bm by (simp add: events_for_append)
  then have "events_for cid (o2 @ o3) = private_watch getMeta f (fold (learn getMeta) before (map_of (nt_versions n))) (bm # later)"
    if "(cid, f) \<in> set (nt_clients p) \<union> set (nt_clients n)" for cid f
    using that 1(7) by simp
  moreover have "accept_all getMeta slow (before @ bm # later) [n, p] = ([m2], o1 @ o2 @ o3)"
    using 1(1) 2(1) 3(1) by (simp add: accept_all_append del: acceptEvent.simps)
  moreover have "closed_ids (o1 @ o2 @ o3) = []" using 1(6) 2(4) 3(3) by simp
  ultimately show ?thesis
    using en ep 2(2) 3(2)
    by (intro exI [of _ m2] exI [of _ "o1 @ o2 @ o3"]) (simp add: events_for_append private_watch_append del: private_watch.simps)
qed

end
