(* ===== verification/Rest_Watch.thy ===== *)
theory Rest_Watch
  imports Watch_Notifier
begin

section \<open>The watch on the API server\<close>

text \<open>
  \<open>RestWatchEventHandler\<close> of \<open>service/internal/kubernetes/kubeWatchService.go\<close>: the request that
  opens a watch, the loop that forwards its events and reconnects, as a state machine whose inputs
  are what the loop's \<open>select\<close> and the executor give it, and the channel to the client.
\<close>

datatype WatchLoopState = Connect | Running | ServerSideClosure | ServerSideError | ClientSideCancel

definition loop_ok :: "WatchLoopState \<Rightarrow> bool" where
  "loop_ok s \<longleftrightarrow> s = Connect \<or> s = Running"

subsection \<open>The request\<close>

record watch_options =
  wo_LabelSelector :: string
  wo_Watch :: bool
  wo_AllowWatchBookmarks :: bool
  wo_ResourceVersion :: string
  wo_Namespace :: string

definition doWatchRequest ::
  "(string gomap \<Rightarrow> string) \<Rightarrow> string \<Rightarrow> filter_Meta \<Rightarrow> string \<Rightarrow> go_error + watch_options" where
  "doWatchRequest labels_String namespace f resourceVersion =
     (if fm_Annotations f \<noteq> None \<and> gm_len (fm_Annotations f) > 0
      then Inl (NewError ''watch API does not support filtering by annotations, use labels instead'')
      else Inr \<lparr>
        wo_LabelSelector = (if fm_Labels f \<noteq> None then labels_String (fm_Labels f) else []),
        wo_Watch = True,
        wo_AllowWatchBookmarks = True,
        wo_ResourceVersion = (if resourceVersion \<noteq> [] then resourceVersion else []),
        wo_Namespace = (if namespace \<noteq> [] then namespace else []) \<rparr>)"

subsection \<open>The loop\<close>

text \<open>
  The object of a server event has the watched type, or another one, which may have a method
  \<open>GetResourceVersion\<close> all the same.
\<close>

datatype 'f srv_object = Typed 'f | Untyped "string option"

datatype 'f loop_input =
    CtxDone
  | ChannelClosed
  | Received string "'f srv_object"
  | Connected "go_error option" bool

record watch_loop =
  wl_state :: WatchLoopState
  wl_bookmark :: string
  wl_requests :: "watch_options list"

record ('f, 't) watch_config =
  wc_Namespace :: string
  wc_Filter :: filter_Meta
  wc_labels_String :: "string gomap \<Rightarrow> string"
  wc_Converter :: "'f \<Rightarrow> 't run"
  wc_ResourceVersion :: "'f \<Rightarrow> string"

text \<open>
  One round of the loop: the new state and the event sent to the client, if any.
  \<open>Connected err same\<close> is the executor's answer, where \<open>same\<close> says that the new watcher has the
  result channel of the old one. A conversion may panic, and so does the type assertion on a
  bookmark of another type.
\<close>

fun loop_step ::
  "('f, 't) watch_config \<Rightarrow> watch_loop \<Rightarrow> 'f loop_input \<Rightarrow> (watch_loop \<times> 't ApiEvent option) run" where
  "loop_step c st inp =
     (case wl_state st of
        Connect \<Rightarrow>
          (case inp of
             Connected err same \<Rightarrow>
               (case doWatchRequest (wc_labels_String c) (wc_Namespace c) (wc_Filter c) (wl_bookmark st) of
                  Inl e \<Rightarrow> Ret (st\<lparr>wl_state := ServerSideError\<rparr>,
                     Some \<lparr> ae_Type = ''ERROR'', ae_Object = Text (err_text e) \<rparr>)
                | Inr opts \<Rightarrow>
                    let st' = st\<lparr>wl_requests := wl_requests st @ [opts]\<rparr>
                    in (case err of
                          Some e \<Rightarrow> Ret (st'\<lparr>wl_state := ServerSideError\<rparr>,
                             Some \<lparr> ae_Type = ''ERROR'', ae_Object = Text (err_text e) \<rparr>)
                        | None \<Rightarrow> Ret (st'\<lparr>wl_state := (if same then ServerSideError else Running)\<rparr>, None)))
           | _ \<Rightarrow> Ret (st, None))
      | Running \<Rightarrow>
          (case inp of
             CtxDone \<Rightarrow> Ret (st\<lparr>wl_state := ClientSideCancel\<rparr>, None)
           | ChannelClosed \<Rightarrow> Ret (st\<lparr>wl_state := Connect\<rparr>, None)
           | Connected err same \<Rightarrow> Ret (st, None)
           | Received ty obj \<Rightarrow>
               if ty = ''ERROR'' then Ret (st\<lparr>wl_bookmark := [], wl_state := Connect\<rparr>, None)
               else if ty = ''BOOKMARK'' then
                 (case obj of
                    Typed f \<Rightarrow>
                      let st' = st\<lparr>wl_bookmark := wc_ResourceVersion c f\<rparr>
                      in if fm_WatchBookmark (wc_Filter c)
                         then bind_run (wc_Converter c f) (\<lambda>t.
                                Ret (st', Some \<lparr> ae_Type = ty, ae_Object = Entity t \<rparr>))
                         else Ret (st', None)
                  | Untyped (Some rv) \<Rightarrow>
                      if fm_WatchBookmark (wc_Filter c) then Panic
                      else Ret (st\<lparr>wl_bookmark := rv\<rparr>, None)
                  | Untyped None \<Rightarrow> Ret (st\<lparr>wl_bookmark := []\<rparr>, None))
               else
                 (case obj of
                    Typed f \<Rightarrow> bind_run (wc_Converter c f) (\<lambda>t.
                      Ret (st, Some \<lparr> ae_Type = ty, ae_Object = Entity t \<rparr>))
                  | Untyped rv \<Rightarrow> Ret (st\<lparr>wl_state := ServerSideClosure\<rparr>, None)))
      | _ \<Rightarrow> Ret (st, None))"

fun loop_run ::
  "('f, 't) watch_config \<Rightarrow> watch_loop \<Rightarrow> 'f loop_input list \<Rightarrow> (watch_loop \<times> 't ApiEvent list) run" where
  "loop_run c st [] = Ret (st, [])"
| "loop_run c st (i # is) =
     bind_run (loop_step c st i) (\<lambda>(st', ev).
     bind_run (loop_run c st' is) (\<lambda>(st'', evs).
       Ret (st'', (case ev of None \<Rightarrow> evs | Some e \<Rightarrow> e # evs))))"

text \<open>The method \<open>Watch\<close>: it opens the first watch itself and starts the loop on it.\<close>

definition rest_Watch ::
  "('f, 't) watch_config \<Rightarrow> go_error option \<Rightarrow> bool \<Rightarrow> go_error + watch_loop" where
  "rest_Watch c err nil_watcher =
     (case doWatchRequest (wc_labels_String c) (wc_Namespace c) (wc_Filter c) [] of
        Inl e \<Rightarrow> Inl e
      | Inr opts \<Rightarrow>
          (case err of
             Some e \<Rightarrow> Inl e
           | None \<Rightarrow>
               if nil_watcher then Inl (NewError ''watcher is nil'')
               else Inr \<lparr> wl_state = Running, wl_bookmark = [], wl_requests = [opts] \<rparr>))"

subsection \<open>Laws of the loop\<close>

declare loop_step.simps [simp del]

text \<open>The resource version a new watch should start from.\<close>

fun resume_version :: "('f, 't) watch_config \<Rightarrow> string \<Rightarrow> 'f loop_input list \<Rightarrow> string" where
  "resume_version c rv [] = rv"
| "resume_version c rv (Received ty obj # is) =
     (if ty = ''ERROR'' then resume_version c [] is
      else if ty = ''BOOKMARK''
      then resume_version c (case obj of Typed f \<Rightarrow> wc_ResourceVersion c f | Untyped (Some v) \<Rightarrow> v
                             | Untyped None \<Rightarrow> []) is
      else resume_version c rv is)"
| "resume_version c rv (i # is) = resume_version c rv is"

text \<open>The events a client should see of what the server sent.\<close>

fun forwarded :: "('f, 't) watch_config \<Rightarrow> ('f \<Rightarrow> 't) \<Rightarrow> 'f loop_input list \<Rightarrow> 't ApiEvent list" where
  "forwarded c g [] = []"
| "forwarded c g (Received ty (Typed f) # is) =
     (if ty = ''ERROR'' \<or> ty = ''BOOKMARK'' \<and> \<not> fm_WatchBookmark (wc_Filter c) then forwarded c g is
      else \<lparr> ae_Type = ty, ae_Object = Entity (g f) \<rparr> # forwarded c g is)"
| "forwarded c g (i # is) = forwarded c g is"

text \<open>
  Inputs as they come while the watch lives: a reconnection succeeds and follows every loss, and
  all objects have the watched type.
\<close>

fun live_inputs :: "WatchLoopState \<Rightarrow> 'f loop_input list \<Rightarrow> bool" where
  "live_inputs s [] = True"
| "live_inputs Running (Received ty (Typed f) # is) =
     (if ty = ''ERROR'' then live_inputs Connect is else live_inputs Running is)"
| "live_inputs Running (ChannelClosed # is) = live_inputs Connect is"
| "live_inputs Connect (Connected None False # is) = live_inputs Running is"
| "live_inputs s (i # is) = False"

fun final_state :: "WatchLoopState \<Rightarrow> 'f loop_input list \<Rightarrow> WatchLoopState" where
  "final_state s [] = s"
| "final_state s (Received ty obj # is) = final_state (if ty = ''ERROR'' then Connect else Running) is"
| "final_state s (ChannelClosed # is) = final_state Connect is"
| "final_state s (i # is) = final_state Running is"

lemma doWatchRequest_ok:
  "gm_len (fm_Annotations f) = 0 \<Longrightarrow> \<exists>o'. doWatchRequest ls ns f rv = Inr o' \<and> wo_ResourceVersion o' = rv"
  by (simp add: doWatchRequest_def)

lemma loop_run_live:
  assumes "\<And>f. wc_Converter c f = Ret (g f)" and "gm_len (fm_Annotations (wc_Filter c)) = 0"
  shows "live_inputs (wl_state st) is \<Longrightarrow> \<exists>st'. loop_run c st is = Ret (st', forwarded c g is)
     \<and> wl_bookmark st' = resume_version c (wl_bookmark st) is \<and> wl_state st' = final_state (wl_state st) is"
proof (induction "wl_state st" "is" arbitrary: st rule: live_inputs.induct)
  case (1 s)
  then show ?case by simp
next
  case (2 ty f "is")
  show ?case
  proof (cases "ty = ''ERROR''")
    case True
    have s: "loop_step c st (Received ty (Typed f)) = Ret (st\<lparr>wl_bookmark := [], wl_state := Connect\<rparr>, None)"
      using True 2(3) by (simp add: loop_step.simps 2(3) [symmetric])
    from 2(1) [OF True, of "st\<lparr>wl_bookmark := [], wl_state := Connect\<rparr>"] 2(4) True 2(3)
    show ?thesis by (auto simp: s [unfolded True] 2(3) [symmetric])
  next
    case ne: False
    show ?thesis
    proof (cases "ty = ''BOOKMARK''")
      case True
      let ?st = "st\<lparr>wl_bookmark := wc_ResourceVersion c f\<rparr>"
      have s: "loop_step c st (Received ty (Typed f)) = Ret (?st,
          if fm_WatchBookmark (wc_Filter c) then Some \<lparr> ae_Type = ty, ae_Object = Entity (g f) \<rparr> else None)"
        using True assms(1) by (simp add: loop_step.simps Let_def 2(3) [symmetric])
      from 2(2) [OF ne, of ?st] 2(4) ne 2(3) show ?thesis
        by (auto simp: s [unfolded True] True 2(3) [symmetric])
    next
      case False
      have s: "loop_step c st (Received ty (Typed f)) = Ret (st, Some \<lparr> ae_Type = ty, ae_Object = Entity (g f) \<rparr>)"
        using False ne assms(1) by (simp add: loop_step.simps 2(3) [symmetric])
      from 2(2) [OF ne, of st] 2(4) ne 2(3) False show ?thesis
        by (auto simp: s 2(3) [symmetric])
    qed
  qed
next
  case (3 "is")
  have s: "loop_step c st ChannelClosed = Ret (st\<lparr>wl_state := Connect\<rparr>, None)"
    by (simp add: loop_step.simps 3(2) [symmetric])
  from 3(1) [of "st\<lparr>wl_state := Connect\<rparr>"] 3(3) show ?case
    by (auto simp: s 3(2) [symmetric])
next
  case (4 "is")
  from doWatchRequest_ok [OF assms(2)] obtain o' where
    "doWatchRequest (wc_labels_String c) (wc_Namespace c) (wc_Filter c) (wl_bookmark st) = Inr o'" by blast
  then have s: "loop_step c st (Connected None False) =
      Ret (st\<lparr>wl_requests := wl_requests st @ [o'], wl_state := Running\<rparr>, None)"
    by (simp add: loop_step.simps Let_def 4(2) [symmetric])
  from 4(1) [of "st\<lparr>wl_requests := wl_requests st @ [o'], wl_state := Running\<rparr>"] 4(3) show ?case
    by (auto simp: s 4(2) [symmetric])
qed simp_all

end
