(* ===== verification/Watch_Guarantees.thy ===== *)
theory Watch_Guarantees
  imports Joining_Watch Rest_Watch Core_Entities
begin

section \<open>What the watches guarantee\<close>

text \<open>The properties of \<open>kubeWatchServiceShared.go\<close> and \<open>kubeWatchService.go\<close>.\<close>

definition any_filter :: filter_Meta where
  "any_filter = \<lparr> fm_Labels = None, fm_Annotations = None, fm_WatchBookmark = False \<rparr>"

text \<open>An object of a watch, with its generation and resource version.\<close>

definition thing :: "int \<Rightarrow> string \<Rightarrow> Namespace" where
  "thing generation version = \<lparr> ns_Metadata = NewMetadata ''Namespace'' ''shop'' ''ns'' [] generation version None None \<rparr>"

definition event_of :: "string \<Rightarrow> Namespace \<Rightarrow> Namespace ApiEvent" where
  "event_of ty x = \<lparr> ae_Type = ty, ae_Object = Entity x \<rparr>"

definition one_client :: "string \<Rightarrow> notifier" where
  "one_client cid = \<lparr> nt_id = cid, nt_clients = [(cid, any_filter)], nt_versions = [] \<rparr>"

subsection \<open>Channels\<close>

text \<open>
  whatever clients come and go, and however slow they are, the shared watch never sends to a
  client's channel that it closed, and never closes one twice, so it never panics there.
\<close>

theorem no_use_after_close:
  assumes "sw_run getMeta st log"
  shows "safe_log {} log"
  using sw_run_invar [OF assms] by (simp add: sw_invar_def)

definition watched :: shared_watch where
  "watched = snd (shared_Watch any_filter None newSharedNamespaceWatchHandler)"

lemma watched_run: "sw_run ns_Metadata watched []"
  using sw_next [OF sw_init, of ns_Metadata "DoWatch any_filter None" watched "[]"] by (simp add: watched_def)

theorem no_use_after_close_witness:
  "safe_log {} (snd (process_event ns_Metadata (\<lambda>_. False) (event_of ''ADDED'' (thing 1 ''7'')) watched)) \<and>
   snd (process_event ns_Metadata (\<lambda>_. False) (event_of ''ADDED'' (thing 1 ''7'')) watched) \<noteq> []"
proof -
  let ?p = "process_event ns_Metadata (\<lambda>_. False) (event_of ''ADDED'' (thing 1 ''7'')) watched"
  have "sw_session watched = Some 1"
    by (simp add: watched_def shared_Watch_def newSharedNamespaceWatchHandler_def Let_def)
  then have "sw_step ns_Metadata (ServerEvent (\<lambda>_. False) (event_of ''ADDED'' (thing 1 ''7''))) watched = Ret (fst ?p, snd ?p)"
    by simp
  from sw_next [OF watched_run this] have "sw_run ns_Metadata (fst ?p) (snd ?p)" by simp
  then have "safe_log {} (snd ?p)" by (rule no_use_after_close)
  moreover have "snd ?p \<noteq> []" by code_simp
  ultimately show ?thesis by blast
qed

text \<open>
  a client that does not take an event in time is closed and removed, and the clients after it
  in the map get neither the event nor are they closed: they miss it.
\<close>

theorem slow_client_starves_others:
  assumes "\<forall>(i, g) \<in> set before. acc g \<longrightarrow> \<not> slow i" and "acc f" and "slow cid"
  shows "sendToClients slow event acc (before @ (cid, f) # later) =
     (before @ later, map (\<lambda>(i, g). Sent i event) (filter (\<lambda>(i, g). acc g) before) @ [Closed cid])"
  using assms by (rule sendToClients_slow)

theorem slow_client_starves_others_witness:
  "sendToClients (\<lambda>i. i = ''2'') (event_of ''ADDED'' (thing 1 ''7'')) (\<lambda>_. True)
     [(''1'', any_filter), (''2'', any_filter), (''3'', any_filter)] =
   ([(''1'', any_filter), (''3'', any_filter)], [Sent ''1'' (event_of ''ADDED'' (thing 1 ''7'')), Closed ''2''])"
  using slow_client_starves_others [of "[(''1'', any_filter)]" "\<lambda>_. True" "\<lambda>i. i = ''2''" any_filter "''2''"
      "event_of ''ADDED'' (thing 1 ''7'')" "[(''3'', any_filter)]"] by simp

subsection \<open>Who is told what\<close>

text \<open>
  an event about an object reaches only clients that are in the chain, are not slow and whose
  filter accepts the object; its type is never the internal one.
\<close>

theorem events_are_filtered:
  assumes "acceptEvent getMeta slow event chain = (chain', out, event')"
    and "ae_Object event = Entity obj" and "ae_Type event \<noteq> ''BOOKMARK''"
    and "Sent cid e \<in> set out"
  shows "\<not> slow cid \<and> (\<exists>n f. n \<in> set chain \<and> (cid, f) \<in> set (nt_clients n) \<and> acceptMeta (getMeta obj) f) \<and>
    ''PREVIOUS'' \<notin> set (sent_types out)"
  using acceptEvent_Sent [OF assms] acceptEvent_no_PREVIOUS [OF assms(1)] by blast

theorem events_are_filtered_witness:
  "\<exists>chain' out event'. acceptEvent ns_Metadata (\<lambda>_. False) (event_of ''ADDED'' (thing 2 ''7'')) [one_client ''2'', one_client ''1''] =
     (chain', out, event') \<and> Sent ''1'' (event_of ''ADDED'' (thing 2 ''7'')) \<in> set out \<and> ''PREVIOUS'' \<notin> set (sent_types out)"
proof -
  obtain chain' out event' where a: "acceptEvent ns_Metadata (\<lambda>_. False) (event_of ''ADDED'' (thing 2 ''7''))
      [one_client ''2'', one_client ''1''] = (chain', out, event')" by (metis prod_cases3)
  have "Sent ''1'' (event_of ''ADDED'' (thing 2 ''7'')) \<in> set (fst (snd (acceptEvent ns_Metadata (\<lambda>_. False)
      (event_of ''ADDED'' (thing 2 ''7'')) [one_client ''2'', one_client ''1''])))" by code_simp
  with a have "Sent ''1'' (event_of ''ADDED'' (thing 2 ''7'')) \<in> set out" by simp
  with events_are_filtered [OF a, of "thing 2 ''7''" "''1''"] a show ?thesis by (simp add: event_of_def)
qed

text \<open>
  once a version of an object was announced, announcing it again, as the server does after a
  reconnection, is silent: no client of any notifier of the chain is told, and the chain stays as
  it is.
\<close>

theorem known_versions_are_silent:
  assumes "acceptEvent getMeta slow event chain = (chain', out, event')"
    and "ae_Object event = Entity obj" and "ae_Type event \<noteq> ''BOOKMARK''"
    and "ae_Object again = Entity obj'" and "ae_Type again \<noteq> ''BOOKMARK''"
    and "md_Namespace (getMeta obj') = md_Namespace (getMeta obj)" and "md_Name (getMeta obj') = md_Name (getMeta obj)"
    and "md_ResourceVersion (getMeta obj') = md_ResourceVersion (getMeta obj)"
  shows "acceptEvent getMeta slow' again chain' = (chain', [], again)"
  by (rule acceptEvent_known [OF assms])

theorem known_versions_are_silent_witness:
  "let chain' = fst (acceptEvent ns_Metadata (\<lambda>_. False) (event_of ''MODIFIED'' (thing 3 ''7'')) [one_client ''2'', one_client ''1''])
   in acceptEvent ns_Metadata (\<lambda>_. False) (event_of ''ADDED'' (thing 3 ''7'')) chain' =
        (chain', [], event_of ''ADDED'' (thing 3 ''7''))"
proof -
  obtain chain' out event' where a: "acceptEvent ns_Metadata (\<lambda>_. False) (event_of ''MODIFIED'' (thing 3 ''7''))
      [one_client ''2'', one_client ''1''] = (chain', out, event')" by (metis prod_cases3)
  from known_versions_are_silent [OF a, of "thing 3 ''7''" "event_of ''ADDED'' (thing 3 ''7'')" "thing 3 ''7''"] a
  show ?thesis by (simp add: event_of_def)
qed

text \<open>
  a bookmark joins the clients of all notifiers in the current one, the oldest first, and
  drops the previous notifiers; no client is lost, and those that want bookmarks get it.
\<close>

theorem bookmark_joins_clients:
  assumes "distinct (concat (map (\<lambda>n. map fst (nt_clients n)) (self # prev)))"
    and "ae_Type event = ''BOOKMARK''" and "ae_Object event = Entity obj"
    and "\<forall>(cid, f) \<in> set (concat (map nt_clients (self # prev))). fm_WatchBookmark f \<longrightarrow> \<not> slow cid"
  shows "acceptEvent getMeta slow event (self # prev) =
    ([self\<lparr>nt_clients := concat (map nt_clients (rev (self # prev))),
       nt_versions := filter (\<lambda>(k, v). vt_eventType v \<noteq> ''DELETED'') (nt_versions self)\<rparr>],
     map (\<lambda>(cid, f). Sent cid event)
       (filter (\<lambda>(cid, f). fm_WatchBookmark f) (concat (map nt_clients (rev (self # prev))))), event)"
proof -
  from assms(1) have "distinct (chain_ids (self # prev))" by (simp add: chain_ids_def)
  from acceptEvent_bookmark [OF this assms(2-4)] show ?thesis .
qed

theorem bookmark_joins_clients_witness:
  "fst (acceptEvent ns_Metadata (\<lambda>_. False) (event_of ''BOOKMARK'' (thing 0 ''9'')) [one_client ''2'', one_client ''1'']) =
     [(one_client ''2'')\<lparr>nt_clients := [(''1'', any_filter), (''2'', any_filter)]\<rparr>]"
proof -
  have "acceptEvent ns_Metadata (\<lambda>_. False) (event_of ''BOOKMARK'' (thing 0 ''9'')) [one_client ''2'', one_client ''1''] =
    ([(one_client ''2'')\<lparr>nt_clients := concat (map nt_clients (rev [one_client ''2'', one_client ''1''])),
       nt_versions := filter (\<lambda>(k, v). vt_eventType v \<noteq> ''DELETED'') (nt_versions (one_client ''2''))\<rparr>],
     map (\<lambda>(cid, f). Sent cid (event_of ''BOOKMARK'' (thing 0 ''9'')))
       (filter (\<lambda>(cid, f). fm_WatchBookmark f) (concat (map nt_clients (rev [one_client ''2'', one_client ''1''])))),
     event_of ''BOOKMARK'' (thing 0 ''9''))"
    by (rule bookmark_joins_clients [where obj = "thing 0 ''9''"])
      (simp_all add: one_client_def event_of_def any_filter_def)
  then show ?thesis by (simp add: one_client_def)
qed

definition knows_thing :: "string \<Rightarrow> notifier" where
  "knows_thing cid = (one_client cid)\<lparr>nt_versions := [((''ns'', ''shop''),
     \<lparr> vt_resourceVersion = ''5'', vt_eventType = ''ADDED'' \<rparr>)]\<rparr>"

text \<open>
  how a client that knows an object is told of a new version of it while a newer client joins
  depends on how many clients joined before the bookmark: with one notifier behind the current one
  it is told of a modification; with two, the oldest one decides for both, and if it does not know
  the object, the middle one's client is told of an addition of an object it already knows.
\<close>

theorem previous_type_leaks:
  "Sent ''2'' (event_of ''MODIFIED'' (thing 2 ''7'')) \<in> set (fst (snd (acceptEvent ns_Metadata (\<lambda>_. False)
     (event_of ''ADDED'' (thing 2 ''7'')) [one_client ''3'', knows_thing ''2'']))) \<and>
   Sent ''2'' (event_of ''ADDED'' (thing 2 ''7'')) \<in> set (fst (snd (acceptEvent ns_Metadata (\<lambda>_. False)
     (event_of ''ADDED'' (thing 2 ''7'')) [one_client ''3'', knows_thing ''2'', one_client ''1''])))"
  by code_simp



subsection \<open>Sharing is not seen\<close>

text \<open>
  C4: while one notifier serves clients that keep up, each of them gets from the shared watch, in
  the same order, exactly the events it would get from a watch of its own with its filter, and none
  is closed.
\<close>

theorem shared_watch_refines_private:
  assumes "\<forall>cid \<in> fst ` set (nt_clients n). \<not> slow cid" and "distinct (map fst (nt_clients n))"
    and "distinct (map fst (nt_versions n))" and "\<forall>ev \<in> set events. ae_Type ev \<noteq> ''PREVIOUS''"
  shows "closed_ids (snd (accept_all getMeta slow events [n])) = [] \<and>
    map fst (nt_clients (hd (fst (accept_all getMeta slow events [n])))) = map fst (nt_clients n) \<and>
    (\<forall>(cid, f) \<in> set (nt_clients n). events_for cid (snd (accept_all getMeta slow events [n])) =
       private_watch getMeta f (map_of (nt_versions n)) events)"
  using accept_all_alone [OF assms, of getMeta] by fastforce

theorem shared_watch_refines_private_witness:
  "map ae_Type (events_for ''2'' (snd (accept_all ns_Metadata (\<lambda>_. False)
     [event_of ''ADDED'' (thing 1 ''7''), event_of ''ADDED'' (thing 1 ''7''), event_of ''DELETED'' (thing 1 ''8'')]
     [one_client ''2'']))) = [''ADDED'', ''DELETED'']"
proof -
  let ?evs = "[event_of ''ADDED'' (thing 1 ''7''), event_of ''ADDED'' (thing 1 ''7''), event_of ''DELETED'' (thing 1 ''8'')]"
  have "events_for ''2'' (snd (accept_all ns_Metadata (\<lambda>_. False) ?evs [one_client ''2''])) =
      private_watch ns_Metadata any_filter (map_of (nt_versions (one_client ''2''))) ?evs"
    using shared_watch_refines_private [of "one_client ''2''" "\<lambda>_. False" ?evs ns_Metadata]
    by (simp add: one_client_def event_of_def del: accept_all.simps private_watch.simps)
  moreover have "map ae_Type (private_watch ns_Metadata any_filter (map_of (nt_versions (one_client ''2''))) ?evs) =
      [''ADDED'', ''DELETED'']" by code_simp
  ultimately show ?thesis by simp
qed

text \<open>
  a client that joins the clients there are gets, as long as all keep up, exactly the events
  of a watch of its own over the restarted watch on the server. The others get, until the bookmark,
  what that watch announces, save the versions they know, with the addition of a changed object
  they know turned into a modification, and afterwards what is new to the joined notifier.
\<close>

theorem joining_client_sees_own_watch:
  assumes "keeps_up slow n" and "keeps_up slow p" and "fst ` set (nt_clients n) \<inter> fst ` set (nt_clients p) = {}"
    and "\<forall>ev \<in> set before. ae_Type ev \<notin> {''BOOKMARK'', ''PREVIOUS''}"
    and "ae_Type bm = ''BOOKMARK''" and "ae_Object bm = Entity obj" and "\<forall>ev \<in> set later. ae_Type ev \<noteq> ''PREVIOUS''"
  shows "let out = snd (accept_all getMeta slow (before @ bm # later) [n, p]) in closed_ids out = [] \<and>
    (\<forall>(cid, f) \<in> set (nt_clients n).
       events_for cid out = private_watch getMeta f (map_of (nt_versions n)) (before @ bm # later)) \<and>
    (\<forall>(cid, f) \<in> set (nt_clients p).
       events_for cid out = rewatched getMeta f (map_of (nt_versions p)) before @
         private_watch getMeta f (fold (learn getMeta) before (map_of (nt_versions n))) (bm # later))"
  using joining [OF assms, of getMeta] by (fastforce simp: Let_def)

theorem joining_client_sees_own_watch_witness:
  "let out = snd (accept_all ns_Metadata (\<lambda>_. False)
     [event_of ''ADDED'' (thing 2 ''7''), event_of ''BOOKMARK'' (thing 0 ''9''), event_of ''DELETED'' (thing 2 ''10'')]
     [one_client ''2'', knows_thing ''1''])
   in map ae_Type (events_for ''2'' out) = [''ADDED'', ''DELETED''] \<and>
      map ae_Type (events_for ''1'' out) = [''MODIFIED'', ''DELETED'']"
proof -
  let ?b = "[event_of ''ADDED'' (thing 2 ''7'')]" and ?m = "event_of ''BOOKMARK'' (thing 0 ''9'')"
    and ?l = "[event_of ''DELETED'' (thing 2 ''10'')]"
  let ?out = "snd (accept_all ns_Metadata (\<lambda>_. False) (?b @ ?m # ?l) [one_client ''2'', knows_thing ''1''])"
  have "map ae_Type (private_watch ns_Metadata any_filter (map_of (nt_versions (one_client ''2''))) (?b @ ?m # ?l)) =
      [''ADDED'', ''DELETED'']"
    "map ae_Type (rewatched ns_Metadata any_filter (map_of (nt_versions (knows_thing ''1''))) ?b @
      private_watch ns_Metadata any_filter (fold (learn ns_Metadata) ?b (map_of (nt_versions (one_client ''2'')))) (?m # ?l)) =
      [''MODIFIED'', ''DELETED'']" by code_simp+
  moreover have "events_for ''2'' ?out = private_watch ns_Metadata any_filter (map_of (nt_versions (one_client ''2''))) (?b @ ?m # ?l) \<and>
    events_for ''1'' ?out = rewatched ns_Metadata any_filter (map_of (nt_versions (knows_thing ''1''))) ?b @
      private_watch ns_Metadata any_filter (fold (learn ns_Metadata) ?b (map_of (nt_versions (one_client ''2'')))) (?m # ?l)"
    using joining_client_sees_own_watch [of "\<lambda>_. False" "one_client ''2''" "knows_thing ''1''" ?b ?m "thing 0 ''9''" ?l ns_Metadata]
    by (simp add: Let_def keeps_up_def one_client_def knows_thing_def event_of_def
        del: accept_all.simps private_watch.simps rewatched.simps events_for.simps fold_simps append.simps)
  ultimately show ?thesis by simp
qed

subsection \<open>The watch on the API server\<close>


definition ns_watch :: "(ObjectMeta, Namespace) watch_config" where
  "ns_watch = \<lparr> wc_Namespace = ''ns'', wc_Filter = any_filter, wc_labels_String = (\<lambda>_. []),
     wc_Converter = (\<lambda>m. Ret (NewNamespace m)), wc_ResourceVersion = om_ResourceVersion \<rparr>"

definition version :: "string \<Rightarrow> ObjectMeta" where
  "version v = ToObjectMeta (NewMetadata [] ''ns'' [] [] 0 v None None)"


end
