(* ===== verification/Exec_Pool.thy ===== *)
theory Exec_Pool
  imports Go_Base "HOL-Library.Multiset"
begin

section \<open>The worker pool\<close>

text \<open>
  \<open>exec/pool.go\<close>: results of tasks, and the pool of a fixed number of workers as a step relation
  between its goroutines. A task is what running it gives: a result, or a panic.
\<close>

subsection \<open>Results\<close>

record 'r TaskResult =
  tr_Result :: 'r
  tr_Err :: "go_error option"

fun GetResults :: "'r TaskResult list \<Rightarrow> 'r list" where
  "GetResults [] = []"
| "GetResults (tr # trs) = tr_Result tr # GetResults trs"

fun GetErrors :: "'r TaskResult list \<Rightarrow> go_error list" where
  "GetErrors [] = []"
| "GetErrors (tr # trs) =
     (case tr_Err tr of None \<Rightarrow> GetErrors trs | Some e \<Rightarrow> e # GetErrors trs)"

definition HasErrors :: "'r TaskResult list \<Rightarrow> bool" where
  "HasErrors trs \<longleftrightarrow> length (GetErrors trs) > 0"

definition GetAsError :: "'r TaskResult list \<Rightarrow> go_error option" where
  "GetAsError trs =
     (let errs = GetErrors trs;
          errsStr = map err_text errs
      in if length errsStr > 0
         then Some (Errorf (Itoa (int (length errs)) @ '' task(s) failed, errors: '' @ [CHR 0x0A]
                @ Join errsStr [CHR 0x0A]) [])
         else None)"

lemma GetErrors_Nil: "GetErrors trs = [] \<longleftrightarrow> (\<forall>tr \<in> set trs. tr_Err tr = None)"
  by (induction trs) (auto split: option.splits)

lemma HasErrors_iff: "HasErrors trs \<longleftrightarrow> (\<exists>tr \<in> set trs. tr_Err tr \<noteq> None)"
  using GetErrors_Nil [of trs] by (auto simp: HasErrors_def)

lemma GetAsError_iff: "GetAsError trs = None \<longleftrightarrow> \<not> HasErrors trs"
  by (simp add: GetAsError_def HasErrors_def Let_def)

lemma GetResults_map: "GetResults trs = map tr_Result trs"
  by (induction trs) auto

subsection \<open>The pool\<close>

datatype 'r task = Completes "'r TaskResult" | Panics

text \<open>
  A call of \<open>Submit\<close>: its tasks, those its goroutine has still to send, what is in its result
  channel, the counter of its wait group and whether it returned. \<open>bt_lost\<close> counts the tasks that
  panicked; it is not part of the program's state.
\<close>

record 'r batch =
  bt_tasks :: "'r task list"
  bt_unsent :: "'r task list"
  bt_results :: "'r TaskResult list"
  bt_wg :: nat
  bt_returned :: bool
  bt_lost :: nat

text \<open>
  The channel \<open>wChan\<close> with its capacity, the workers with the task each runs, the submissions, and
  the flag \<open>stopped\<close>. The lock is held for reading by every submission that has not returned.
\<close>

record 'r pool =
  pl_bufferSize :: nat
  pl_wChan :: "(nat \<times> 'r task) list"
  pl_workers :: "(nat \<times> 'r task) option list"
  pl_batches :: "'r batch list"
  pl_stopped :: bool

definition NewFixedPool :: "nat \<Rightarrow> nat \<Rightarrow> 'r pool" where
  "NewFixedPool parallelism bufferSize = \<lparr> pl_bufferSize = bufferSize, pl_wChan = [],
     pl_workers = replicate parallelism None, pl_batches = [], pl_stopped = False \<rparr>"

definition new_batch :: "'r task list \<Rightarrow> 'r batch" where
  "new_batch tasks = \<lparr> bt_tasks = tasks, bt_unsent = tasks, bt_results = [], bt_wg = length tasks,
     bt_returned = False, bt_lost = 0 \<rparr>"

definition set_batch :: "nat \<Rightarrow> 'r batch \<Rightarrow> 'r pool \<Rightarrow> 'r pool" where
  "set_batch b x p = p\<lparr>pl_batches := (pl_batches p)[b := x]\<rparr>"

definition set_worker :: "nat \<Rightarrow> (nat \<times> 'r task) option \<Rightarrow> 'r pool \<Rightarrow> 'r pool" where
  "set_worker w x p = p\<lparr>pl_workers := (pl_workers p)[w := x]\<rparr>"

text \<open>
  What a goroutine of the pool does: the goroutine of a submission sends a task (to the buffer, or
  with no room in it directly to an idle worker), a worker takes a task, finishes it, or recovers
  from its panic, and a submission whose wait group is done collects the results.
\<close>

inductive pool_step :: "'r pool \<Rightarrow> 'r pool \<Rightarrow> bool" where
  send: "b < length (pl_batches p) \<Longrightarrow> x = pl_batches p ! b \<Longrightarrow> bt_unsent x = t # ts \<Longrightarrow>
    length (pl_wChan p) < pl_bufferSize p \<Longrightarrow>
    pool_step p (set_batch b (x\<lparr>bt_unsent := ts\<rparr>) (p\<lparr>pl_wChan := pl_wChan p @ [(b, t)]\<rparr>))"
| hand_over: "b < length (pl_batches p) \<Longrightarrow> x = pl_batches p ! b \<Longrightarrow> bt_unsent x = t # ts \<Longrightarrow>
    pl_wChan p = [] \<Longrightarrow> w < length (pl_workers p) \<Longrightarrow> pl_workers p ! w = None \<Longrightarrow>
    pool_step p (set_batch b (x\<lparr>bt_unsent := ts\<rparr>) (set_worker w (Some (b, t)) p))"
| take_task: "pl_wChan p = bt # q \<Longrightarrow> w < length (pl_workers p) \<Longrightarrow> pl_workers p ! w = None \<Longrightarrow>
    pool_step p (set_worker w (Some bt) (p\<lparr>pl_wChan := q\<rparr>))"
| finish: "w < length (pl_workers p) \<Longrightarrow> pl_workers p ! w = Some (b, Completes r) \<Longrightarrow>
    x = pl_batches p ! b \<Longrightarrow>
    pool_step p (set_batch b (x\<lparr>bt_results := bt_results x @ [r], bt_wg := bt_wg x - 1\<rparr>)
      (set_worker w None p))"
| recover: "w < length (pl_workers p) \<Longrightarrow> pl_workers p ! w = Some (b, Panics) \<Longrightarrow>
    x = pl_batches p ! b \<Longrightarrow>
    pool_step p (set_batch b (x\<lparr>bt_lost := bt_lost x + 1\<rparr>) (set_worker w None p))"
| collect: "b < length (pl_batches p) \<Longrightarrow> x = pl_batches p ! b \<Longrightarrow> \<not> bt_returned x \<Longrightarrow> bt_wg x = 0 \<Longrightarrow>
    pool_step p (set_batch b (x\<lparr>bt_returned := True\<rparr>) p)"

text \<open>
  The calls from outside. \<open>Stop\<close> takes the lock for writing, so it waits for all submissions to
  return; on a stopped pool \<open>Submit\<close> fails and changes nothing.
\<close>

definition Submit_error :: go_error where
  "Submit_error = Errorf ''pool is stopped'' []"

definition Submit :: "'r task list \<Rightarrow> 'r pool \<Rightarrow> go_error + 'r pool" where
  "Submit tasks p =
     (if pl_stopped p then Inl Submit_error
      else Inr (p\<lparr>pl_batches := pl_batches p @ [new_batch tasks]\<rparr>))"

definition can_Stop :: "'r pool \<Rightarrow> bool" where
  "can_Stop p \<longleftrightarrow> list_all bt_returned (pl_batches p)"

definition Stop :: "'r pool \<Rightarrow> 'r pool" where
  "Stop p = (if \<not> pl_stopped p then p\<lparr>pl_stopped := True\<rparr> else p)"

definition IsRunning :: "'r pool \<Rightarrow> bool" where
  "IsRunning p \<longleftrightarrow> \<not> pl_stopped p"

inductive pool_reach :: "nat \<Rightarrow> nat \<Rightarrow> 'r pool \<Rightarrow> bool" for n buf where
  start: "pool_reach n buf (NewFixedPool n buf)"
| inner: "pool_reach n buf p \<Longrightarrow> pool_step p p' \<Longrightarrow> pool_reach n buf p'"
| submit: "pool_reach n buf p \<Longrightarrow> Submit tasks p = Inr p' \<Longrightarrow> pool_reach n buf p'"
| stop: "pool_reach n buf p \<Longrightarrow> can_Stop p \<Longrightarrow> pool_reach n buf (Stop p)"

subsection \<open>Where the tasks are\<close>

fun work_of :: "(nat \<times> 'r task) option list \<Rightarrow> (nat \<times> 'r task) multiset" where
  "work_of [] = {#}"
| "work_of (None # ws) = work_of ws"
| "work_of (Some x # ws) = add_mset x (work_of ws)"

lemma work_of_start: "w < length ws \<Longrightarrow> ws ! w = None \<Longrightarrow> work_of (ws[w := Some x]) = add_mset x (work_of ws)"
proof (induction ws arbitrary: w)
  case (Cons a ws)
  then show ?case by (cases w; cases a) auto
qed simp

lemma work_of_idle [simp]: "work_of (replicate n None) = {#}"
  by (induction n) simp_all

lemma work_of_end: "w < length ws \<Longrightarrow> ws ! w = Some x \<Longrightarrow> work_of ws = add_mset x (work_of (ws[w := None]))"
proof (induction ws arbitrary: w)
  case (Cons a ws)
  then show ?case by (cases w; cases a) (auto simp: add_mset_commute)
qed simp

definition of_batch :: "nat \<Rightarrow> (nat \<times> 'r task) multiset \<Rightarrow> 'r task multiset" where
  "of_batch b M = image_mset snd (filter_mset (\<lambda>x. fst x = b) M)"

lemma of_batch_simps [simp]:
  "of_batch b {#} = {#}"
  "of_batch b (add_mset x M) = (if fst x = b then add_mset (snd x) (of_batch b M) else of_batch b M)"
  "of_batch b (M + N) = of_batch b M + of_batch b N"
  by (simp_all add: of_batch_def)

text \<open>
  Every task of a submission is still to be sent, in the channel, with a worker, in the result
  channel or lost; the wait group counts those without a result.
\<close>

definition batch_ok :: "'r pool \<Rightarrow> nat \<Rightarrow> bool" where
  "batch_ok p b \<longleftrightarrow>
     (let x = pl_batches p ! b
      in mset (bt_tasks x) = mset (bt_unsent x) + of_batch b (mset (pl_wChan p) + work_of (pl_workers p))
           + image_mset Completes (mset (bt_results x)) + replicate_mset (bt_lost x) Panics \<and>
         bt_wg x + length (bt_results x) = length (bt_tasks x) \<and>
         (bt_returned x \<longrightarrow> bt_wg x = 0))"

definition pool_ok :: "'r pool \<Rightarrow> bool" where
  "pool_ok p \<longleftrightarrow>
     (\<forall>b < length (pl_batches p). batch_ok p b) \<and>
     (\<forall>x \<in># mset (pl_wChan p) + work_of (pl_workers p). fst x < length (pl_batches p)) \<and>
     (pl_stopped p \<longrightarrow> can_Stop p) \<and>
     length (pl_wChan p) \<le> pl_bufferSize p"

lemma pool_ok_batch: "pool_ok p \<Longrightarrow> b < length (pl_batches p) \<Longrightarrow> batch_ok p b"
  by (simp add: pool_ok_def)

lemma set_simps [simp]:
  "pl_batches (set_batch b x p) = (pl_batches p)[b := x]"
  "pl_workers (set_batch b x p) = pl_workers p"
  "pl_wChan (set_batch b x p) = pl_wChan p"
  "pl_stopped (set_batch b x p) = pl_stopped p"
  "pl_bufferSize (set_batch b x p) = pl_bufferSize p"
  "pl_batches (set_worker w y p) = pl_batches p"
  "pl_workers (set_worker w y p) = (pl_workers p)[w := y]"
  "pl_wChan (set_worker w y p) = pl_wChan p"
  "pl_stopped (set_worker w y p) = pl_stopped p"
  "pl_bufferSize (set_worker w y p) = pl_bufferSize p"
  by (simp_all add: set_batch_def set_worker_def)

text \<open>What a batch needs of the pool is unchanged when its own tasks are where they were.\<close>

lemma batch_ok_cong:
  "pl_batches p' ! b = pl_batches p ! b \<Longrightarrow>
   of_batch b (mset (pl_wChan p') + work_of (pl_workers p')) =
     of_batch b (mset (pl_wChan p) + work_of (pl_workers p)) \<Longrightarrow>
   batch_ok p' b = batch_ok p b"
  by (simp add: batch_ok_def)

lemma batch_ok_running:
  assumes "batch_ok p b" and "of_batch b (mset (pl_wChan p) + work_of (pl_workers p)) = add_mset t M"
  shows "bt_wg (pl_batches p ! b) \<ge> 1" and "\<not> bt_returned (pl_batches p ! b)"
proof -
  let ?x = "pl_batches p ! b"
  from assms have m: "mset (bt_tasks ?x) = mset (bt_unsent ?x) + add_mset t M
      + image_mset Completes (mset (bt_results ?x)) + replicate_mset (bt_lost ?x) Panics"
    and w: "bt_wg ?x + length (bt_results ?x) = length (bt_tasks ?x)" "bt_returned ?x \<longrightarrow> bt_wg ?x = 0"
    by (simp_all add: batch_ok_def Let_def)
  from arg_cong [OF m, of size] have "length (bt_tasks ?x) \<ge> Suc (length (bt_results ?x))" by simp
  with w show "bt_wg ?x \<ge> 1" "\<not> bt_returned ?x" by auto
qed

lemma pool_okI:
  assumes ok: "pool_ok p" and b: "b < length (pl_batches p)"
    and len: "length (pl_batches p') = length (pl_batches p)"
    and others: "\<And>b'. b' \<noteq> b \<Longrightarrow> pl_batches p' ! b' = pl_batches p ! b' \<and>
      of_batch b' (mset (pl_wChan p') + work_of (pl_workers p')) =
        of_batch b' (mset (pl_wChan p) + work_of (pl_workers p))"
    and self: "batch_ok p' b"
    and sub: "\<forall>x \<in># mset (pl_wChan p') + work_of (pl_workers p'). fst x < length (pl_batches p)"
    and act: "\<not> bt_returned (pl_batches p ! b)"
    and stopped: "pl_stopped p' = pl_stopped p"
    and chan: "length (pl_wChan p') \<le> pl_bufferSize p'"
  shows "pool_ok p'"
proof -
  have "\<not> pl_stopped p"
    using ok b act by (auto simp: pool_ok_def can_Stop_def list_all_length)
  moreover have "batch_ok p' b'" if "b' < length (pl_batches p')" for b'
  proof (cases "b' = b")
    case True
    with self show ?thesis by simp
  next
    case False
    from others [OF this] have "batch_ok p' b' = batch_ok p b'" by (intro batch_ok_cong) simp_all
    with ok that len show ?thesis by (simp add: pool_ok_def)
  qed
  ultimately show ?thesis
    using sub len chan stopped by (simp add: pool_ok_def)
qed

lemma batch_ok_unsent:
  assumes "batch_ok p b" and "bt_unsent (pl_batches p ! b) = t # ts"
  shows "\<not> bt_returned (pl_batches p ! b)"
proof -
  let ?x = "pl_batches p ! b"
  from assms have m: "mset (bt_tasks ?x) = mset (t # ts)
      + of_batch b (mset (pl_wChan p) + work_of (pl_workers p))
      + image_mset Completes (mset (bt_results ?x)) + replicate_mset (bt_lost ?x) Panics"
    and w: "bt_wg ?x + length (bt_results ?x) = length (bt_tasks ?x)" "bt_returned ?x \<longrightarrow> bt_wg ?x = 0"
    by (simp_all add: batch_ok_def Let_def)
  from arg_cong [OF m, of size] have "length (bt_tasks ?x) \<ge> Suc (length (bt_results ?x))" by simp
  with w show ?thesis by auto
qed

lemma pool_step_ok:
  assumes "pool_step p p'" and ok: "pool_ok p"
  shows "pool_ok p'"
  using assms(1)
proof cases
  case (send b x t ts)
  from pool_ok_batch [OF ok send(2)] have bo: "batch_ok p b" .
  with send have "\<not> bt_returned (pl_batches p ! b)" by (auto dest: batch_ok_unsent)
  with ok send bo show ?thesis
    by (intro pool_okI [OF ok send(2)]) (auto simp: pool_ok_def batch_ok_def Let_def)
next
  case (hand_over b x t ts w)
  from pool_ok_batch [OF ok hand_over(2)] have bo: "batch_ok p b" .
  with hand_over have "\<not> bt_returned (pl_batches p ! b)" by (auto dest: batch_ok_unsent)
  with ok hand_over bo work_of_start [OF hand_over(6,7)] show ?thesis
    by (intro pool_okI [OF ok hand_over(2)]) (auto simp: pool_ok_def batch_ok_def Let_def)
next
  case (take_task bt q w)
  from ok take_task have b: "fst bt < length (pl_batches p)" by (simp add: pool_ok_def)
  from pool_ok_batch [OF ok this] have bo: "batch_ok p (fst bt)" .
  have "of_batch (fst bt) (mset (pl_wChan p) + work_of (pl_workers p)) =
      add_mset (snd bt) (of_batch (fst bt) (mset q + work_of (pl_workers p)))"
    using take_task by simp
  from batch_ok_running(2) [OF bo this] ok take_task bo work_of_start [OF take_task(3,4)] show ?thesis
    by (intro pool_okI [OF ok b]) (auto simp: pool_ok_def batch_ok_def Let_def)
next
  case (finish w b r x)
  note we = work_of_end [OF finish(2,3)]
  from ok we have b: "b < length (pl_batches p)" by (simp add: pool_ok_def)
  from pool_ok_batch [OF ok this] have bo: "batch_ok p b" .
  have o: "of_batch b (mset (pl_wChan p) + work_of (pl_workers p)) =
      add_mset (Completes r) (of_batch b (mset (pl_wChan p) + work_of ((pl_workers p)[w := None])))"
    by (simp add: we)
  from batch_ok_running [OF bo o] ok finish bo we b o show ?thesis
    by (intro pool_okI [OF ok b]) (auto simp: pool_ok_def batch_ok_def Let_def)
next
  case (recover w b x)
  note we = work_of_end [OF recover(2,3)]
  from ok we have b: "b < length (pl_batches p)" by (simp add: pool_ok_def)
  from pool_ok_batch [OF ok this] have bo: "batch_ok p b" .
  have o: "of_batch b (mset (pl_wChan p) + work_of (pl_workers p)) =
      add_mset Panics (of_batch b (mset (pl_wChan p) + work_of ((pl_workers p)[w := None])))"
    by (simp add: we)
  from batch_ok_running [OF bo o] ok recover bo we b o show ?thesis
    by (intro pool_okI [OF ok b]) (auto simp: pool_ok_def batch_ok_def Let_def)
next
  case (collect b x)
  from pool_ok_batch [OF ok collect(2)] have bo: "batch_ok p b" .
  with ok collect show ?thesis
    by (intro pool_okI [OF ok collect(2)]) (auto simp: pool_ok_def batch_ok_def Let_def)
qed

lemma of_batch_fresh: "\<forall>x \<in># M. fst x < n \<Longrightarrow> of_batch n M = {#}"
  by (induction M) auto

lemma pool_reach_ok: "pool_reach n buf p \<Longrightarrow> pool_ok p"
proof (induction rule: pool_reach.induct)
  case start
  show ?case by (simp add: pool_ok_def NewFixedPool_def can_Stop_def)
next
  case (inner p p')
  then show ?case by (blast intro: pool_step_ok)
next
  case (submit p tasks p')
  then have p': "p' = p\<lparr>pl_batches := pl_batches p @ [new_batch tasks]\<rparr>" and ns: "\<not> pl_stopped p"
    by (auto simp: Submit_def split: if_splits)
  from submit have fr: "of_batch (length (pl_batches p)) (mset (pl_wChan p) + work_of (pl_workers p)) = {#}"
    by (intro of_batch_fresh) (simp add: pool_ok_def)
  have "batch_ok p' b" if "b < length (pl_batches p')" for b
  proof (cases "b < length (pl_batches p)")
    case True
    with submit(3) p' show ?thesis by (auto simp: pool_ok_def batch_ok_def nth_append)
  next
    case False
    with that p' have "b = length (pl_batches p)" by simp
    with fr p' show ?thesis by (simp add: batch_ok_def new_batch_def)
  qed
  with submit(3) p' ns show ?case
    by (auto simp: pool_ok_def less_Suc_eq)
next
  case (stop p)
  then show ?case
    by (auto simp: pool_ok_def Stop_def can_Stop_def batch_ok_def)
qed

subsection \<open>What a submission returns\<close>

text \<open>A submission that returned has exactly the results of its tasks, in some order.\<close>

lemma returned_results:
  assumes "pool_reach n buf p" and "b < length (pl_batches p)" and "bt_returned (pl_batches p ! b)"
  shows "mset (bt_tasks (pl_batches p ! b)) = image_mset Completes (mset (bt_results (pl_batches p ! b)))"
proof -
  let ?x = "pl_batches p ! b"
  from pool_ok_batch [OF pool_reach_ok [OF assms(1)] assms(2)] have m: "mset (bt_tasks ?x) =
      mset (bt_unsent ?x) + of_batch b (mset (pl_wChan p) + work_of (pl_workers p))
      + image_mset Completes (mset (bt_results ?x)) + replicate_mset (bt_lost ?x) Panics"
    and w: "bt_wg ?x + length (bt_results ?x) = length (bt_tasks ?x)" "bt_returned ?x \<longrightarrow> bt_wg ?x = 0"
    by (simp_all add: batch_ok_def Let_def)
  from w assms(3) have "size (mset (bt_tasks ?x)) = size (image_mset Completes (mset (bt_results ?x)))"
    by simp
  with m have "mset (bt_unsent ?x) + of_batch b (mset (pl_wChan p) + work_of (pl_workers p))
      + replicate_mset (bt_lost ?x) Panics = {#}"
    by (simp add: size_eq_0_iff_empty [symmetric] del: size_eq_0_iff_empty)
  with m show ?thesis by simp
qed

text \<open>On a stopped pool nothing is in flight: no goroutine will send on the closed channel.\<close>

lemma stopped_quiet:
  assumes "pool_reach n buf p" and "pl_stopped p"
  shows "pl_wChan p = []" and "work_of (pl_workers p) = {#}"
    and "\<And>b. b < length (pl_batches p) \<Longrightarrow> bt_unsent (pl_batches p ! b) = []"
proof -
  note ok = pool_reach_ok [OF assms(1)]
  with assms(2) have r: "\<And>b. b < length (pl_batches p) \<Longrightarrow> bt_returned (pl_batches p ! b)"
    by (auto simp: pool_ok_def can_Stop_def list_all_length)
  show "\<And>b. b < length (pl_batches p) \<Longrightarrow> bt_unsent (pl_batches p ! b) = []"
    using batch_ok_unsent pool_ok_batch [OF ok] r by (metis list.exhaust)
  have "mset (pl_wChan p) + work_of (pl_workers p) = {#}"
  proof (rule ccontr)
    assume "mset (pl_wChan p) + work_of (pl_workers p) \<noteq> {#}"
    then obtain x where x: "x \<in># mset (pl_wChan p) + work_of (pl_workers p)"
      using multiset_nonemptyE by blast
    with ok have b: "fst x < length (pl_batches p)" by (auto simp: pool_ok_def)
    from x obtain M where M: "mset (pl_wChan p) + work_of (pl_workers p) = add_mset x M"
      by (metis insert_DiffM)
    have "of_batch (fst x) (mset (pl_wChan p) + work_of (pl_workers p)) =
        add_mset (snd x) (of_batch (fst x) M)" by (simp add: M)
    from batch_ok_running(2) [OF pool_ok_batch [OF ok b] this] r [OF b] show False by simp
  qed
  then show "pl_wChan p = []" "work_of (pl_workers p) = {#}" by simp_all
qed

subsection \<open>Submissions return\<close>

definition batch_measure :: "'r batch \<Rightarrow> nat" where
  "batch_measure x = 3 * length (bt_unsent x) + (if bt_returned x then 0 else 1)"

definition pool_measure :: "'r pool \<Rightarrow> nat" where
  "pool_measure p = sum_list (map batch_measure (pl_batches p)) + 2 * length (pl_wChan p)
     + size (work_of (pl_workers p))"

lemma sum_batches_update:
  "b < length xs \<Longrightarrow> sum_list (map batch_measure (xs[b := y])) + batch_measure (xs ! b) =
     sum_list (map batch_measure xs) + batch_measure y"
proof (induction xs arbitrary: b)
  case (Cons x xs)
  then show ?case by (cases b) auto
qed simp

lemma pool_step_measure:
  assumes "pool_step p p'" and ok: "pool_ok p"
  shows "pool_measure p' < pool_measure p"
  using assms(1)
proof cases
  case (send b x t ts)
  with sum_batches_update [OF send(2), of "x\<lparr>bt_unsent := ts\<rparr>"] show ?thesis
    by (simp add: pool_measure_def batch_measure_def)
next
  case (hand_over b x t ts w)
  with sum_batches_update [OF hand_over(2), of "x\<lparr>bt_unsent := ts\<rparr>"] work_of_start [OF hand_over(6,7)]
  show ?thesis by (simp add: pool_measure_def batch_measure_def)
next
  case (take_task bt q w)
  with work_of_start [OF take_task(3,4)] show ?thesis by (simp add: pool_measure_def)
next
  case (finish w b r x)
  note we = work_of_end [OF finish(2,3)]
  from ok we have "b < length (pl_batches p)" by (simp add: pool_ok_def)
  from sum_batches_update [OF this, of "x\<lparr>bt_results := bt_results x @ [r], bt_wg := bt_wg x - 1\<rparr>"] finish we
  show ?thesis by (simp add: pool_measure_def batch_measure_def)
next
  case (recover w b x)
  note we = work_of_end [OF recover(2,3)]
  from ok we have "b < length (pl_batches p)" by (simp add: pool_ok_def)
  from sum_batches_update [OF this, of "x\<lparr>bt_lost := bt_lost x + 1\<rparr>"] recover we
  show ?thesis by (simp add: pool_measure_def batch_measure_def)
next
  case (collect b x)
  with sum_batches_update [OF collect(2), of "x\<lparr>bt_returned := True\<rparr>"] show ?thesis
    by (simp add: pool_measure_def batch_measure_def)
qed

text \<open>A lost task keeps its submission, and so \<open>Stop\<close>, waiting.\<close>

lemma lost_waits:
  assumes "pool_ok p" and "b < length (pl_batches p)" and "bt_lost (pl_batches p ! b) > 0"
  shows "bt_wg (pl_batches p ! b) > 0" and "\<not> bt_returned (pl_batches p ! b)" and "\<not> can_Stop p"
proof -
  let ?x = "pl_batches p ! b"
  from pool_ok_batch [OF assms(1,2)] have m: "mset (bt_tasks ?x) =
      mset (bt_unsent ?x) + of_batch b (mset (pl_wChan p) + work_of (pl_workers p))
      + image_mset Completes (mset (bt_results ?x)) + replicate_mset (bt_lost ?x) Panics"
    and w: "bt_wg ?x + length (bt_results ?x) = length (bt_tasks ?x)" "bt_returned ?x \<longrightarrow> bt_wg ?x = 0"
    by (simp_all add: batch_ok_def Let_def)
  from arg_cong [OF m, of size] have "length (bt_tasks ?x) \<ge> length (bt_results ?x) + bt_lost ?x" by simp
  with w assms(3) show "bt_wg ?x > 0" "\<not> bt_returned ?x" by auto
  with assms(2) show "\<not> can_Stop p" by (auto simp: can_Stop_def list_all_length)
qed

lemma pool_step_workers: "pool_step p p' \<Longrightarrow> length (pl_workers p') = length (pl_workers p)"
  by (induction rule: pool_step.induct) simp_all

lemma pool_reach_workers: "pool_reach n buf p \<Longrightarrow> length (pl_workers p) = n"
  by (induction rule: pool_reach.induct)
    (auto simp: NewFixedPool_def Submit_def Stop_def pool_step_workers split: if_splits)

lemma pool_progress:
  assumes ok: "pool_ok p" and w: "pl_workers p \<noteq> []" and b: "b < length (pl_batches p)"
    and nr: "\<not> bt_returned (pl_batches p ! b)" and lost: "bt_lost (pl_batches p ! b) = 0"
  shows "\<exists>p'. pool_step p p'"
proof (cases "\<exists>i < length (pl_workers p). pl_workers p ! i \<noteq> None")
  case True
  then obtain i c t where i: "i < length (pl_workers p)" "pl_workers p ! i = Some (c, t)" by auto
  then show ?thesis by (cases t) (blast intro: pool_step.finish pool_step.recover)+
next
  case False
  from w have "0 < length (pl_workers p)" by simp
  with False have idle: "pl_workers p ! 0 = None" "0 < length (pl_workers p)" by blast+
  have nowork: "work_of (pl_workers p) = {#}"
  proof -
    have "(\<forall>i < length ws. ws ! i = None) \<Longrightarrow> work_of ws = {#}" for ws :: "(nat \<times> 'a task) option list"
    proof (induction ws)
      case (Cons a ws)
      then have "a = None" "\<forall>i < length ws. ws ! i = None" by fastforce+
      with Cons show ?case by simp
    qed simp
    with False show ?thesis by blast
  qed
  show ?thesis
  proof (cases "pl_wChan p")
    case (Cons bt q)
    with idle show ?thesis by (blast intro: pool_step.take_task)
  next
    case Nil
    show ?thesis
    proof (cases "bt_unsent (pl_batches p ! b)")
      case (Cons t ts)
      with Nil idle b show ?thesis by (blast intro: pool_step.hand_over)
    next
      case un: Nil
      from pool_ok_batch [OF ok b] un Nil nowork lost
      have m: "mset (bt_tasks (pl_batches p ! b)) = image_mset Completes (mset (bt_results (pl_batches p ! b)))"
        and wg: "bt_wg (pl_batches p ! b) + length (bt_results (pl_batches p ! b)) = length (bt_tasks (pl_batches p ! b))"
        by (simp_all add: batch_ok_def Let_def)
      from arg_cong [OF m, of size] wg have "bt_wg (pl_batches p ! b) = 0" by simp
      with b nr show ?thesis by (blast intro: pool_step.collect)
    qed
  qed
qed

text \<open>Without panics nothing is lost.\<close>

lemma no_panic_no_loss:
  assumes "batch_ok p b" and "Panics \<notin> set (bt_tasks (pl_batches p ! b))"
  shows "bt_lost (pl_batches p ! b) = 0"
proof (rule ccontr)
  assume "bt_lost (pl_batches p ! b) \<noteq> 0"
  then have "Panics \<in># replicate_mset (bt_lost (pl_batches p ! b)) Panics" by simp
  with assms(1) have "Panics \<in># mset (bt_tasks (pl_batches p ! b))"
    by (auto simp: batch_ok_def Let_def)
  with assms(2) show False by simp
qed

lemma pool_step_tasks:
  "pool_step p p' \<Longrightarrow> pool_ok p \<Longrightarrow> map bt_tasks (pl_batches p') = map bt_tasks (pl_batches p)"
  by (induction rule: pool_step.induct) (simp_all add: map_update list_update_same_conv nth_map,
      (metis list_update_id map_update nth_map length_map list_update_beyond not_le)+)

lemma pool_steps_ok:
  "pool_step\<^sup>*\<^sup>* p p' \<Longrightarrow> pool_ok p \<Longrightarrow>
   pool_ok p' \<and> map bt_tasks (pl_batches p') = map bt_tasks (pl_batches p)
   \<and> length (pl_workers p') = length (pl_workers p)"
  by (induction rule: rtranclp_induct) (auto simp: pool_step_ok pool_step_tasks pool_step_workers)

text \<open>
  However its goroutines are scheduled, a pool with a worker whose tasks do not panic comes to a
  state in which every submission has returned, in at most \<open>pool_measure p\<close> steps.
\<close>

lemma pool_quiescent:
  assumes ok: "pool_ok p" and w: "pl_workers p \<noteq> []"
    and np: "\<forall>x \<in> set (pl_batches p). Panics \<notin> set (bt_tasks x)"
    and run: "pool_step\<^sup>*\<^sup>* p p'" and stuck: "\<not> (\<exists>q. pool_step p' q)"
  shows "can_Stop p'"
proof -
  note s = pool_steps_ok [OF run ok]
  have "bt_returned (pl_batches p' ! b)" if b: "b < length (pl_batches p')" for b
  proof (rule ccontr)
    assume nr: "\<not> bt_returned (pl_batches p' ! b)"
    from s have "length (pl_batches p') = length (pl_batches p)" by (metis length_map)
    moreover from s b this have "bt_tasks (pl_batches p' ! b) = bt_tasks (pl_batches p ! b)"
      by (metis nth_map)
    ultimately have "Panics \<notin> set (bt_tasks (pl_batches p' ! b))" using np b by simp
    with no_panic_no_loss pool_ok_batch [of p' b] s b have "bt_lost (pl_batches p' ! b) = 0" by blast
    from pool_progress [OF _ _ b nr this] s w stuck show False by (metis length_0_conv)
  qed
  then show ?thesis by (simp add: can_Stop_def list_all_length)
qed

lemma pool_runs_end:
  assumes "pool_ok p"
  shows "\<exists>p'. pool_step\<^sup>*\<^sup>* p p' \<and> \<not> (\<exists>q. pool_step p' q)"
  using assms
proof (induction "pool_measure p" arbitrary: p rule: less_induct)
  case less
  show ?case
  proof (cases "\<exists>q. pool_step p q")
    case True
    then obtain q where q: "pool_step p q" by blast
    from less(1) [OF pool_step_measure [OF q less(2)] pool_step_ok [OF q less(2)]] q
    show ?thesis by (meson converse_rtranclp_into_rtranclp)
  qed blast
qed

end
