(* ===== verification/Rollout.thy ===== *)
theory Rollout
  imports Kube_Resources Exec_Pool Pod_Entity Watch_Notifier
begin

section \<open>Restarting deployments\<close>

text \<open>
  \<open>service/internal/kubernetes/pod.go\<close>: pods, the rollout of deployments on the worker pool, and
  the readiness of the pods that a rollout restarted.
\<close>

subsection \<open>The clients\<close>

text \<open>
  The deployments and replica sets of the two API groups; a patch answers nothing the code uses.
  \<open>po_Now\<close> is the clock, formatted as RFC 3339. Of a replication controller the code reads the
  name, the annotations and the number of replicas, a pointer.
\<close>

record v1_ReplicationController =
  vrc_Name :: string
  vrc_Annotations :: "string gomap"
  vrc_Replicas :: "int option"

record 'w pod_api =
  po_Pods :: "('w, v1_Pod) client"
  po_ExtDeployment_Get :: "string \<Rightarrow> ('w, unit) io"
  po_AppsDeployment_Get :: "string \<Rightarrow> ('w, unit) io"
  po_ExtDeployment_Patch :: "string \<Rightarrow> string \<Rightarrow> ('w, unit) io"
  po_AppsDeployment_Patch :: "string \<Rightarrow> string \<Rightarrow> ('w, unit) io"
  po_ExtReplicaSets_List :: "('w, v1_ReplicaSet list) io"
  po_AppsReplicaSets_List :: "('w, v1_ReplicaSet list) io"
  po_ExtReplicaSet_Get :: "string \<Rightarrow> ('w, v1_ReplicaSet) io"
  po_AppsReplicaSet_Get :: "string \<Rightarrow> ('w, v1_ReplicaSet) io"
  po_ReplicationController_Get :: "string \<Rightarrow> ('w, v1_ReplicationController) io"
  po_Now :: "'w \<Rightarrow> string"

definition extensionV1Client :: string where "extensionV1Client = ''extensionsV1Client''"

definition appsV1Client :: string where "appsV1Client = ''appsV1Client''"

definition GetPod :: "errlib \<Rightarrow> 'w pod_api \<Rightarrow> string \<Rightarrow> string \<Rightarrow> ('w, 'c, Pod option) act" where
  "GetPod errs a resourceName namespace =
     GetWrapper errs resourceName namespace (cl_Get (po_Pods a)) None PodFromOsPod"

definition GetPodList :: "errlib \<Rightarrow> (string gomap \<Rightarrow> string) \<Rightarrow> 'w pod_api \<Rightarrow> filter_Meta \<Rightarrow> ('w, 'c) kstate \<Rightarrow>
    (Pod list res \<times> ('w, 'c) kstate) option" where
  "GetPodList errs labels_String a f =
     ListWrapper errs labels_String f (cl_List (po_Pods a)) (map_run PodFromOsPod)
       (\<lambda>t. md_Annotations (pod_Metadata t))"

subsection \<open>Replica sets\<close>

definition getReplicaSet :: "'w pod_api \<Rightarrow> string \<Rightarrow> string \<Rightarrow> ('w, 'c, ReplicaSet) act" where
  "getReplicaSet a replicaName clientVersion =
     (if clientVersion = extensionV1Client then
        bind_act (api (po_ExtReplicaSet_Get a replicaName)) (\<lambda>r. ret (TransformationReplicaSetExtension r))
      else if clientVersion = appsV1Client then
        bind_act (api (po_AppsReplicaSet_Get a replicaName)) (\<lambda>r. ret (TransformationReplicaSetApp r))
      else fail (NewError (''unsupported client version: '' @ clientVersion)))"

definition getReplicaSetList :: "'w pod_api \<Rightarrow> string \<Rightarrow> ('w, 'c, ReplicaSet list) act" where
  "getReplicaSetList a clientVersion =
     (if clientVersion = extensionV1Client then
        bind_act (api (po_ExtReplicaSets_List a)) (\<lambda>rs. ret (TransformationReplicaSetListExtension rs))
      else if clientVersion = appsV1Client then
        bind_act (api (po_AppsReplicaSets_List a)) (\<lambda>rs. ret (TransformationReplicaSetListApp rs))
      else fail (NewError (''unsupported client version: '' @ clientVersion)))"

definition zero_ReplicaSet :: ReplicaSet where
  "zero_ReplicaSet = \<lparr> rs_Name = [], rs_CurrentVersion = [], rs_Replicas = 0, rs_DesiredReplicas = [] \<rparr>"

text \<open>The error of \<open>strconv.Atoi\<close> for a text it cannot convert.\<close>

definition parse_error :: "string \<Rightarrow> go_error" where
  "parse_error s =
     (let ds = (case s of [] \<Rightarrow> [] | c # t \<Rightarrow> if c = CHR ''-'' \<or> c = CHR ''+'' then t else s)
      in LibError \<lparr> le_type = ''NumError'', le_reason = [], le_code = 0,
           le_message = ''strconv.Atoi: parsing '' @ sprint_q s @
             (if ds \<noteq> [] \<and> list_all is_digit ds then '': value out of range'' else '': invalid syntax'') \<rparr>)"

text \<open>
  The loop of \<open>getLatestReplicaSet\<close> over the sets whose name starts with the deployment's name.
\<close>

fun latest_loop :: "string \<Rightarrow> ReplicaSet list \<Rightarrow> int \<Rightarrow> ReplicaSet \<Rightarrow> go_error + ReplicaSet" where
  "latest_loop deploymentName [] latestRevisionNumber latestReplicaSet = Inr latestReplicaSet"
| "latest_loop deploymentName (current # rs) latestRevisionNumber latestReplicaSet =
     (if HasPrefix (rs_Name current) deploymentName then
        (case Atoi (rs_CurrentVersion current) of
           None \<Rightarrow> Inl (parse_error (rs_CurrentVersion current))
         | Some n \<Rightarrow>
             if latestRevisionNumber < n then latest_loop deploymentName rs n current
             else latest_loop deploymentName rs latestRevisionNumber latestReplicaSet)
      else latest_loop deploymentName rs latestRevisionNumber latestReplicaSet)"

definition getLatestReplicaSet :: "'w pod_api \<Rightarrow> string \<Rightarrow> string \<Rightarrow> ('w, 'c, ReplicaSet) act" where
  "getLatestReplicaSet a deploymentName clientVersion =
     bind_act (getReplicaSetList a clientVersion) (\<lambda>rs.
       of_sum (latest_loop deploymentName rs (-1) zero_ReplicaSet))"

text \<open>The loop asks again without a pause until the latest set is another one than before.\<close>

partial_function (option) correctLastReplicaSet ::
  "'w pod_api \<Rightarrow> string \<Rightarrow> ReplicaSet \<Rightarrow> ReplicaSet \<Rightarrow> string \<Rightarrow> ('w, 'c) kstate \<Rightarrow>
     (ReplicaSet res \<times> ('w, 'c) kstate) option" where
  "correctLastReplicaSet a deploymentName rollingReplicaSet activeReplicaSet clientVersion s =
     (if rs_Name activeReplicaSet = rs_Name rollingReplicaSet then
        (case getLatestReplicaSet a deploymentName clientVersion s of
           (Ok r, s') \<Rightarrow> correctLastReplicaSet a deploymentName r activeReplicaSet clientVersion s'
         | (Err e, s') \<Rightarrow> Some (Err e, s')
         | (Crash, s') \<Rightarrow> Some (Crash, s'))
      else Some (Ok rollingReplicaSet, s))"

subsection \<open>Rollout\<close>

definition DeploymentRolloutPatchData :: "string \<Rightarrow> string" where
  "DeploymentRolloutPatchData now =
     (let q = [CHR 0x22];
          key = (\<lambda>k. q @ k @ q @ '':'')
      in ''{'' @ key ''spec'' @ ''{'' @ key ''template'' @ ''{'' @ key ''metadata'' @ ''{'' @ key ''annotations'' @ ''{''
           @ key ''kubectl.kubernetes.io/restartedAt'' @ q @ now @ q @ ''}}}}}'')"

definition rollout_start :: "'w pod_api \<Rightarrow> string \<Rightarrow> ('w, 'c, string \<times> ReplicaSet \<times> ReplicaSet) act" where
  "rollout_start a deploymentName =
     try_act (api (po_ExtDeployment_Get a deploymentName)) (\<lambda>ext.
     try_act (api (po_AppsDeployment_Get a deploymentName)) (\<lambda>apps.
       case (ext, apps) of
         (Inl errExtension, Inl errApps) \<Rightarrow> fail errExtension
       | _ \<Rightarrow>
         let clientVersion = (case apps of Inr _ \<Rightarrow> appsV1Client | Inl _ \<Rightarrow> extensionV1Client)
         in bind_act (getLatestReplicaSet a deploymentName clientVersion) (\<lambda>activeReplicaSet.
            bind_act (\<lambda>s. (Ok (DeploymentRolloutPatchData (po_Now a (ks_world s))), s)) (\<lambda>jsonConfig.
            bind_act (api (if clientVersion = extensionV1Client
                           then po_ExtDeployment_Patch a deploymentName jsonConfig
                           else po_AppsDeployment_Patch a deploymentName jsonConfig)) (\<lambda>_.
            bind_act (getLatestReplicaSet a deploymentName clientVersion) (\<lambda>rollingReplicaSet.
              ret (clientVersion, activeReplicaSet, rollingReplicaSet)))))))"

definition RolloutDeployment ::
  "'w pod_api \<Rightarrow> string \<Rightarrow> ('w, 'c) kstate \<Rightarrow> (DeploymentRollout res \<times> ('w, 'c) kstate) option" where
  "RolloutDeployment a deploymentName s =
     (case rollout_start a deploymentName s of
        (Err e, s') \<Rightarrow> Some (Err e, s')
      | (Crash, s') \<Rightarrow> Some (Crash, s')
      | (Ok (clientVersion, activeReplicaSet, rollingReplicaSet), s') \<Rightarrow>
          (case correctLastReplicaSet a deploymentName rollingReplicaSet activeReplicaSet clientVersion s' of
             None \<Rightarrow> None
           | Some (Ok rolling, s'') \<Rightarrow>
               Some (Ok (NewDeploymentRolloutResponseObj deploymentName (rs_Name rolling) (rs_Name activeReplicaSet)), s'')
           | Some (Err e, s'') \<Rightarrow> Some (Err e, s'')
           | Some (Crash, s'') \<Rightarrow> Some (Crash, s'')))"

text \<open>
  What \<open>rolloutDeployments\<close> makes of the answer of the executor's \<open>Submit\<close>, for which one task per
  deployment runs \<open>RolloutDeployment\<close>; a task's result is a pointer, nil in an error.
\<close>

definition rollout_response ::
  "go_error + DeploymentRollout option TaskResult list \<Rightarrow> go_error + DeploymentResponse" where
  "rollout_response answer =
     (case answer of
        Inl err \<Rightarrow> Inl err
      | Inr taskResults \<Rightarrow>
          if HasErrors taskResults
          then Inl (case GetAsError taskResults of Some e \<Rightarrow> e | None \<Rightarrow> NewError [])
          else Inr (NewDeploymentResponse (GetResults taskResults)))"

text \<open>The task result of a rollout.\<close>

definition rollout_task :: "DeploymentRollout res \<Rightarrow> DeploymentRollout option task" where
  "rollout_task r =
     (case r of
        Ok d \<Rightarrow> Completes \<lparr> tr_Result = Some d, tr_Err = None \<rparr>
      | Err e \<Rightarrow> Completes \<lparr> tr_Result = None, tr_Err = Some e \<rparr>
      | Crash \<Rightarrow> Panics)"

subsection \<open>Readiness\<close>

fun ready_conditions :: "v1_PodCondition list \<Rightarrow> nat" where
  "ready_conditions [] = 0"
| "ready_conditions (c # cs) =
     (if vpc_Type c = ''Ready'' \<and> vpc_Status c = ''True'' then 1 else 0) + ready_conditions cs"

fun readyReplicasPods :: "string \<Rightarrow> v1_Pod list \<Rightarrow> nat" where
  "readyReplicasPods replicaSetName [] = 0"
| "readyReplicasPods replicaSetName (pod # pods) =
     (if HasPrefix (om_Name (vpod_Meta pod)) replicaSetName
         \<and> vps_ServiceAccountName (vpod_Spec pod) \<noteq> ''deployer''
      then ready_conditions (vpst_Conditions (vpod_Status pod)) else 0)
     + readyReplicasPods replicaSetName pods"

text \<open>A nil answer without an error says that the set is not ready.\<close>

definition podReplicaSetIsReady ::
  "'w pod_api \<Rightarrow> string \<Rightarrow> v1_Pod list \<Rightarrow> string \<Rightarrow> ('w, 'c, ReplicaSet option) act" where
  "podReplicaSetIsReady a replicaSetName podsList clientVersion =
     bind_act (getReplicaSet a replicaSetName clientVersion) (\<lambda>replicaSet.
       case (if rs_DesiredReplicas replicaSet = [] then Some (rs_Replicas replicaSet)
             else Atoi (rs_DesiredReplicas replicaSet)) of
         None \<Rightarrow> fail (parse_error (rs_DesiredReplicas replicaSet))
       | Some desiredPods \<Rightarrow>
           ret (if int (readyReplicasPods replicaSetName podsList) = desiredPods then Some replicaSet else None))"

definition podReplicationControllerIsReady ::
  "'w pod_api \<Rightarrow> string \<Rightarrow> v1_Pod list \<Rightarrow> ('w, 'c, v1_ReplicationController option) act" where
  "podReplicationControllerIsReady a name podsList =
     bind_act (api (po_ReplicationController_Get a name)) (\<lambda>rc.
       let desired = gm_str (vrc_Annotations rc) ''kubectl.kubernetes.io/desired-replicas''
       in if desired = [] then
            (case vrc_Replicas rc of
               None \<Rightarrow> crash
             | Some n \<Rightarrow> ret (if int (readyReplicasPods name podsList) = n then Some rc else None))
          else (case Atoi desired of
                  None \<Rightarrow> fail (parse_error desired)
                | Some n \<Rightarrow> ret (if int (readyReplicasPods name podsList) = n then Some rc else None)))"

text \<open>The loops over the names: nil as soon as one is not ready.\<close>

fun all_ready :: "(string \<Rightarrow> ('w, 'c, 'a option) act) \<Rightarrow> string list \<Rightarrow> ('w, 'c, 'a list option) act" where
  "all_ready check [] = ret (Some [])"
| "all_ready check (n # ns) =
     bind_act (check n) (\<lambda>r.
       case r of
         None \<Rightarrow> ret None
       | Some x \<Rightarrow> bind_act (all_ready check ns) (\<lambda>rest.
           ret (case rest of None \<Rightarrow> None | Some xs \<Rightarrow> Some (x # xs))))"

text \<open>\<open>ReplaceAllString\<close> of \<open>-[^-]+?\z\<close> by the empty string: the last segment is cut off.\<close>

definition cut_last_segment :: "string \<Rightarrow> string" where
  "cut_last_segment name =
     (let r = rev name;
          segment = takeWhile (\<lambda>c. c \<noteq> CHR ''-'') r;
          before = dropWhile (\<lambda>c. c \<noteq> CHR ''-'') r
      in if segment = [] \<or> before = [] then name else rev (tl before))"

definition names_of :: "(string \<times> string list) list \<Rightarrow> string \<Rightarrow> string list" where
  "names_of replicasMap kind = (case map_of replicasMap kind of None \<Rightarrow> [] | Some ns \<Rightarrow> ns)"

definition allPodsAreReady ::
  "'w pod_api \<Rightarrow> (string \<times> string list) list \<Rightarrow> string \<Rightarrow>
     ('w, 'c, (string \<times> RolloutedPod list) list option) act" where
  "allPodsAreReady a replicasMap clientVersion =
     bind_act (api (cl_List (po_Pods a) \<lparr> lo_LabelSelector = [], lo_Continue = [] \<rparr>)) (\<lambda>podsList.
     let pods = pg_Items podsList
     in bind_act (all_ready (\<lambda>n. podReplicationControllerIsReady a n pods)
                    (names_of replicasMap ''replication-controller'')) (\<lambda>rcs.
        case rcs of
          None \<Rightarrow> ret None
        | Some replicationControllerList \<Rightarrow>
            bind_act (all_ready (\<lambda>n. podReplicaSetIsReady a n pods clientVersion)
                        (names_of replicasMap ''replica-set'')) (\<lambda>rss.
            case rss of
              None \<Rightarrow> ret None
            | Some replicaSetList \<Rightarrow>
                let m1 = foldl (\<lambda>m rs. AList.update (cut_last_segment (rs_Name rs))
                           (filter (\<lambda>p. HasPrefix (om_Name (vpod_Meta p)) (rs_Name rs)) pods) m) [] replicaSetList;
                    m2 = foldl (\<lambda>m rc. AList.update (cut_last_segment (vrc_Name rc))
                           (filter (\<lambda>p. HasPrefix (om_Name (vpod_Meta p)) (vrc_Name rc)
                              \<and> vps_ServiceAccountName (vpod_Spec p) \<noteq> ''deployer'') pods) m) m1
                           replicationControllerList
                in ret (NewDeploymentsStatus m2))))"

definition correctPod :: "string \<Rightarrow> (string \<times> string list) list \<Rightarrow> bool" where
  "correctPod podName replicasMap =
     list_ex (\<lambda>(_, names). list_ex (\<lambda>replicaName. HasPrefix podName replicaName) names) replicasMap"

text \<open>
  One round of the loop of \<open>WatchPodsRestarting\<close>: what it sends to its client for an event of the
  watch on pods, and whether it stops. An event whose object is not a pod fails the type assertion.
\<close>

datatype proxy_msg =
    PodRestarted string RolloutedPod
  | PodsError go_error
  | PodsRolledOut "(string \<times> RolloutedPod list) list"

definition restart_event ::
  "'w pod_api \<Rightarrow> (string \<times> string list) list \<Rightarrow> string \<Rightarrow> Pod ApiEvent \<Rightarrow>
     ('w, 'c, proxy_msg list \<times> bool) act" where
  "restart_event a replicasMap clientVersion podEvent =
     (case ae_Object podEvent of
        Text s \<Rightarrow> crash
      | Entity pod \<Rightarrow>
          if correctPod (md_Name (pod_Metadata pod)) replicasMap then
            let m = PodRestarted (ae_Type podEvent) (NewRolledOutPod pod)
            in try_act (allPodsAreReady a replicasMap clientVersion) (\<lambda>r.
                 case r of
                   Inl err \<Rightarrow> ret ([m, PodsError err], True)
                 | Inr (Some response) \<Rightarrow> ret ([m, PodsRolledOut response], True)
                 | Inr None \<Rightarrow> ret ([m], False))
          else ret ([], False))"

subsection \<open>The pool as rollouts use it\<close>

text \<open>
  What the rollout relies on: a submission answers with the result of each of its tasks, in any
  order.
\<close>

locale task_pool =
  fixes submits :: "'r task list \<Rightarrow> 'r TaskResult list \<Rightarrow> bool"
  assumes submits_all: "submits ts rs \<Longrightarrow> mset ts = image_mset Completes (mset rs)"
begin

lemma submits_set: "submits ts rs \<Longrightarrow> set ts = Completes ` set rs"
  by (metis submits_all set_image_mset set_mset_mset)

lemma submits_length: "submits ts rs \<Longrightarrow> length rs = length ts"
  by (metis submits_all size_image_mset size_mset)

lemma submits_errors: "submits ts rs \<Longrightarrow> HasErrors rs \<longleftrightarrow> (\<exists>r. Completes r \<in> set ts \<and> tr_Err r \<noteq> None)"
  by (auto simp: submits_set HasErrors_iff)

lemma submits_no_panic: "submits ts rs \<Longrightarrow> Panics \<notin> set ts"
  by (auto simp: submits_set)

lemma submits_results:
  assumes "submits (map (\<lambda>x. Completes (f x)) xs) rs"
  shows "mset (GetResults rs) = image_mset (\<lambda>x. tr_Result (f x)) (mset xs)"
proof -
  let ?g = "\<lambda>t. case t of Completes r \<Rightarrow> tr_Result r | Panics \<Rightarrow> undefined"
  have "image_mset ?g (image_mset (\<lambda>x. Completes (f x)) (mset xs)) = image_mset ?g (image_mset Completes (mset rs))"
    using submits_all [OF assms] by simp
  then show ?thesis
    by (simp add: GetResults_map image_mset.compositionality comp_def)
qed

end

text \<open>The pool of \<open>exec/pool.go\<close> keeps that promise.\<close>

definition pool_submits :: "'r task list \<Rightarrow> 'r TaskResult list \<Rightarrow> bool" where
  "pool_submits ts rs \<longleftrightarrow> (\<exists>n buf p b. pool_reach n buf p \<and> b < length (pl_batches p) \<and>
     bt_returned (pl_batches p ! b) \<and> bt_tasks (pl_batches p ! b) = ts \<and> bt_results (pl_batches p ! b) = rs)"

interpretation fixed_pool: task_pool pool_submits
  by unfold_locales (auto simp: pool_submits_def dest: returned_results)

subsection \<open>Laws\<close>

lemma latest_loop_max:
  "latest_loop d rs m r0 = Inr r \<Longrightarrow>
     (\<forall>x \<in> set rs. HasPrefix (rs_Name x) d \<longrightarrow> (\<exists>n. Atoi (rs_CurrentVersion x) = Some n)) \<and>
     ((r = r0 \<and> (\<forall>x \<in> set rs. HasPrefix (rs_Name x) d \<longrightarrow> the (Atoi (rs_CurrentVersion x)) \<le> m)) \<or>
      (r \<in> set rs \<and> HasPrefix (rs_Name r) d \<and> m < the (Atoi (rs_CurrentVersion r)) \<and>
       (\<forall>x \<in> set rs. HasPrefix (rs_Name x) d \<longrightarrow>
          the (Atoi (rs_CurrentVersion x)) \<le> the (Atoi (rs_CurrentVersion r)))))"
proof (induction rs arbitrary: m r0)
  case Nil
  then show ?case by simp
next
  case (Cons x rs)
  show ?case
  proof (cases "HasPrefix (rs_Name x) d")
    case False
    with Cons.prems Cons.IH [of m r0] show ?thesis by auto
  next
    case True
    with Cons.prems obtain n where n: "Atoi (rs_CurrentVersion x) = Some n"
      by (auto split: option.splits)
    show ?thesis
    proof (cases "m < n")
      case True
      with Cons.prems n \<open>HasPrefix (rs_Name x) d\<close> have "latest_loop d rs n x = Inr r" by simp
      from Cons.IH [OF this] n True \<open>HasPrefix (rs_Name x) d\<close> show ?thesis by auto
    next
      case False
      with Cons.prems n \<open>HasPrefix (rs_Name x) d\<close> have "latest_loop d rs m r0 = Inr r" by simp
      from Cons.IH [OF this] n False \<open>HasPrefix (rs_Name x) d\<close> show ?thesis by fastforce
    qed
  qed
qed

lemma correctLastReplicaSet_differs:
  assumes "correctLastReplicaSet a d r active cv s = Some (Ok x, s')"
  shows "rs_Name x \<noteq> rs_Name active"
proof -
  have "\<forall>z t. (Ok x :: ReplicaSet res, s') = (Ok z, t) \<longrightarrow> rs_Name z \<noteq> rs_Name active"
  proof (rule correctLastReplicaSet.raw_induct [where P =
        "\<lambda>a d r act cv s y. \<forall>z t. y = (Ok z, t) \<longrightarrow> rs_Name z \<noteq> rs_Name act", OF _ assms], goal_cases)
    case (1 f a d r act cv s y)
    show ?case
    proof (cases "rs_Name act = rs_Name r")
      case False
      with 1(2) show ?thesis by auto
    next
      case True
      obtain g t' where g: "getLatestReplicaSet a d cv s = (g, t')" by force
      show ?thesis
      proof (cases g)
        case (Ok q)
        with 1(2) True g have "f a d q act cv t' = Some y" by simp
        from 1(1) [OF this] show ?thesis .
      qed (use 1(2) True g in auto)
    qed
  qed
  then show ?thesis by simp
qed

text \<open>
  The loop ends with the first set of another name, and a server that goes on answering with the old
  set keeps it running for ever.
\<close>

lemma correctLastReplicaSet_returns:
  assumes get: "\<And>j. getLatestReplicaSet a d cv (st j) = (Ok (seen j), st (Suc j))"
  shows "\<forall>i < n. rs_Name (seen (j + i)) = rs_Name active \<Longrightarrow> rs_Name (seen (j + n)) \<noteq> rs_Name active \<Longrightarrow>
    correctLastReplicaSet a d (seen j) active cv (st (Suc j)) = Some (Ok (seen (j + n)), st (Suc (j + n)))"
proof (induction n arbitrary: j)
  case 0
  then show ?case by (simp add: correctLastReplicaSet.simps [of a d "seen j"])
next
  case (Suc n)
  from Suc.prems(1) have "rs_Name active = rs_Name (seen j)" by (auto dest: spec [of _ 0])
  moreover have "correctLastReplicaSet a d (seen (Suc j)) active cv (st (Suc (Suc j))) =
      Some (Ok (seen (Suc j + n)), st (Suc (Suc j + n)))"
    using Suc.prems by (intro Suc.IH) auto
  ultimately show ?case
    using get [of "Suc j"] by (simp add: correctLastReplicaSet.simps [of a d "seen j"])
qed

lemma correctLastReplicaSet_diverges:
  assumes old: "\<And>s. I s \<Longrightarrow> \<exists>r s'. getLatestReplicaSet a d cv s = (Ok r, s') \<and> rs_Name r = rs_Name active \<and> I s'"
    and n: "rs_Name r = rs_Name active" and w: "I s"
  shows "correctLastReplicaSet a d r active cv s = None"
proof (cases "correctLastReplicaSet a d r active cv s")
  case (Some y)
  have "\<not> (a = a \<and> d = d \<and> rs_Name r = rs_Name active \<and> active = active \<and> cv = cv \<and> I s)"
  proof (rule correctLastReplicaSet.raw_induct [where P =
        "\<lambda>a' d' r' act cv' s y. \<not> (a' = a \<and> d' = d \<and> rs_Name r' = rs_Name active \<and> act = active \<and> cv' = cv \<and> I s)",
        OF _ Some], goal_cases)
    case (1 f a' d' r' act cv' s y)
    show ?case
    proof
      assume e: "a' = a \<and> d' = d \<and> rs_Name r' = rs_Name active \<and> act = active \<and> cv' = cv \<and> I s"
      with old [of s] obtain r2 s' where g: "getLatestReplicaSet a d cv s = (Ok r2, s')"
        "rs_Name r2 = rs_Name active" "I s'" by auto
      with 1(2) e have "f a d r2 active cv s' = Some y" by simp
      from 1(1) [OF this] g show False by simp
    qed
  qed
  with n w show ?thesis by simp
qed simp

end
