(* ===== verification/Exec_Guarantees.thy ===== *)
theory Exec_Guarantees
  imports Rollout Sample_Cluster
begin

section \<open>Properties of the worker pool and of rollouts\<close>

text \<open>
  What a submission to the pool of \<open>exec/pool.go\<close> can count on, and what the restart of deployments
  of \<open>pod.go\<close> makes of it.
\<close>

subsection \<open>The pool\<close>

lemma pool_steps_bounded: "(pool_step ^^ k) p q \<Longrightarrow> pool_ok p \<Longrightarrow> k + pool_measure q \<le> pool_measure p"
proof (induction k arbitrary: q)
  case (Suc k)
  then obtain r where r: "(pool_step ^^ k) p r" "pool_step r q" by auto
  from r(1) have "pool_step\<^sup>*\<^sup>* p r" by (rule relpowp_imp_rtranclp)
  with Suc.prems(2) have "pool_ok r" using pool_steps_ok by blast
  from pool_step_measure [OF r(2) this] Suc.IH [OF r(1) Suc.prems(2)] show ?case by simp
qed simp

lemma pool_reach_steps: "pool_step\<^sup>*\<^sup>* p q \<Longrightarrow> pool_reach n buf p \<Longrightarrow> pool_reach n buf q"
  by (induction rule: rtranclp_induct) (auto intro: pool_reach.inner)


definition sample_task :: "nat \<Rightarrow> nat task" where
  "sample_task n = Completes \<lparr> tr_Result = n, tr_Err = None \<rparr>"

definition submitted :: "'r task list \<Rightarrow> 'r pool" where
  "submitted ts = (NewFixedPool 1 2)\<lparr>pl_batches := [new_batch ts]\<rparr>"

lemma submitted_reach: "pool_reach 1 2 (submitted ts)"
proof -
  have "Submit ts (NewFixedPool 1 2) = Inr (submitted ts)"
    by (simp add: Submit_def submitted_def NewFixedPool_def)
  from pool_reach.submit [OF pool_reach.start this] show ?thesis .
qed


text \<open>
  C17: whatever other submissions run beside it, a submission that returned has the result of each
  of its tasks exactly once; a submission with a task that panics never returns, and the pool can
  then not be stopped.
\<close>

theorem submission_results:
  assumes "pool_reach n buf p" and "b < length (pl_batches p)"
  shows "(bt_returned (pl_batches p ! b) \<longrightarrow>
      mset (bt_tasks (pl_batches p ! b)) = image_mset Completes (mset (bt_results (pl_batches p ! b)))) \<and>
    (Panics \<in> set (bt_tasks (pl_batches p ! b)) \<longrightarrow> \<not> bt_returned (pl_batches p ! b) \<and> \<not> can_Stop p)"
proof -
  have r: "mset (bt_tasks (pl_batches p ! b)) = image_mset Completes (mset (bt_results (pl_batches p ! b)))"
    if "bt_returned (pl_batches p ! b)"
    using returned_results [OF assms that] .
  have "Panics \<notin> set (bt_tasks (pl_batches p ! b))" if "bt_returned (pl_batches p ! b)"
    using arg_cong [OF r [OF that], of set_mset] by auto
  with r assms(2) show ?thesis by (auto simp: can_Stop_def list_all_length)
qed

theorem submission_results_witness:
  "\<not> can_Stop (submitted [sample_task 1, Panics])"
proof -
  have "0 < length (pl_batches (submitted [sample_task 1, Panics]))" by (simp add: submitted_def)
  from submission_results [OF submitted_reach this] show ?thesis by (simp add: submitted_def new_batch_def)
qed

text \<open>
  once the pool is stopped nothing is queued or running and nothing remains to be sent on the
  closed channel, no step of a goroutine follows, and every further submission is refused.
\<close>

theorem stopped_pool:
  assumes "pool_reach n buf p" and "\<not> IsRunning p"
  shows "pl_wChan p = [] \<and> work_of (pl_workers p) = {#} \<and>
    (\<forall>b < length (pl_batches p). bt_unsent (pl_batches p ! b) = []) \<and> (\<nexists>q. pool_step p q) \<and>
    Submit tasks p = Inl Submit_error"
proof -
  from assms(2) have st: "pl_stopped p" by (simp add: IsRunning_def)
  note q = stopped_quiet [OF assms(1) st]
  from pool_reach_ok [OF assms(1)] st have ret: "b < length (pl_batches p) \<Longrightarrow> bt_returned (pl_batches p ! b)" for b
    by (simp add: pool_ok_def can_Stop_def list_all_length)
  have idle: "w < length (pl_workers p) \<Longrightarrow> pl_workers p ! w = None" for w
    using q(2) work_of_end [of w "pl_workers p"] by (cases "pl_workers p ! w") auto
  have "\<not> pool_step p r" for r
  proof
    assume "pool_step p r"
    then show False
      by cases (use q(1,3) ret idle in auto)
  qed
  with q st show ?thesis by (simp add: Submit_def)
qed

theorem stopped_pool_witness:
  "Submit [sample_task 1] (Stop (NewFixedPool 3 5)) = Inl Submit_error"
proof -
  have "pool_reach 3 5 (Stop (NewFixedPool 3 5 :: nat pool))"
    by (rule pool_reach.stop [OF pool_reach.start]) (simp add: can_Stop_def NewFixedPool_def)
  moreover have "\<not> IsRunning (Stop (NewFixedPool 3 5 :: nat pool))"
    by (simp add: IsRunning_def Stop_def NewFixedPool_def)
  ultimately show ?thesis using stopped_pool by blast
qed

subsection \<open>Rollouts\<close>

text \<open>
  the set that counts as a deployment's current one has the highest revision of all sets whose
  name starts with the deployment's name, whether they belong to it or not; without one it is the
  empty set, and a set of another revision format makes the search fail.
\<close>

theorem latest_revision:
  assumes "getReplicaSetList a clientVersion s = (Ok sets, s')"
    and "getLatestReplicaSet a deploymentName clientVersion s = (Ok r, s'')"
  shows "(\<forall>x \<in> set sets. HasPrefix (rs_Name x) deploymentName \<longrightarrow> (\<exists>n. Atoi (rs_CurrentVersion x) = Some n)) \<and>
    ((r \<in> set sets \<and> HasPrefix (rs_Name r) deploymentName \<and>
      (\<forall>x \<in> set sets. HasPrefix (rs_Name x) deploymentName \<longrightarrow>
         the (Atoi (rs_CurrentVersion x)) \<le> the (Atoi (rs_CurrentVersion r)))) \<or>
     (r = zero_ReplicaSet \<and> (\<forall>x \<in> set sets. HasPrefix (rs_Name x) deploymentName \<longrightarrow>
         the (Atoi (rs_CurrentVersion x)) < 0)))"
proof -
  from assms have "latest_loop deploymentName sets (-1) zero_ReplicaSet = Inr r"
    by (auto simp: getLatestReplicaSet_def bind_act_def of_sum_def split: sum.splits)
  from latest_loop_max [OF this] show ?thesis by force
qed

definition replica_set :: "string \<Rightarrow> string \<Rightarrow> v1_ReplicaSet" where
  "replica_set name revision = \<lparr> vrs_Name = name,
     vrs_Annotations = Some [(''deployment.kubernetes.io/revision'', revision)], vrs_StatusReplicas = 1 \<rparr>"

text \<open>
  A cluster whose only deployment has a set, and after the patch a second one; the world is whether
  the patch came.
\<close>

definition restarting :: "bool pod_api" where
  "restarting =
     \<lparr> po_Pods = \<lparr> cl_Get = (\<lambda>_ w. (Inl (no_such ''pod''), w)),
             cl_List = (\<lambda>_ w. (Inr \<lparr> pg_Items = [], pg_Continue = [] \<rparr>, w)),
             cl_Create = (\<lambda>_ w. (Inl (no_such ''pod''), w)), cl_Update = (\<lambda>_ w. (Inl (no_such ''pod''), w)),
             cl_Delete = (\<lambda>_ w. (Inl (no_such ''pod''), w)) \<rparr>,
           po_ExtDeployment_Get = (\<lambda>_ w. (Inl (no_such ''shop''), w)),
           po_AppsDeployment_Get = (\<lambda>_ w. (Inr (), w)),
           po_ExtDeployment_Patch = (\<lambda>_ _ w. (Inl (no_such ''shop''), w)),
           po_AppsDeployment_Patch = (\<lambda>_ _ w. (Inr (), True)),
           po_ExtReplicaSets_List = (\<lambda>w. (Inr [], w)),
           po_AppsReplicaSets_List = (\<lambda>w. (Inr (replica_set ''shop-1'' ''9'' #
             (if w then [replica_set ''shop-2'' ''10''] else [])), w)),
           po_ExtReplicaSet_Get = (\<lambda>_ w. (Inl (no_such ''set''), w)),
           po_AppsReplicaSet_Get = (\<lambda>_ w. (Inl (no_such ''set''), w)),
           po_ReplicationController_Get = (\<lambda>_ w. (Inl (no_such ''controller''), w)),
           po_Now = (\<lambda>_. ''2024-01-01T00:00:00Z'') \<rparr>"

theorem latest_revision_witness:
  "rs_Name (case getLatestReplicaSet restarting ''shop'' appsV1Client \<lparr> ks_world = True, ks_cache = () \<rparr> of
     (Ok r, s) \<Rightarrow> r | _ \<Rightarrow> zero_ReplicaSet) = ''shop-2''"
proof -
  let ?s = "\<lparr> ks_world = True, ks_cache = () \<rparr>"
  let ?sets = "[NewReplicaSet ''shop-1'' ''9'' 1 [], NewReplicaSet ''shop-2'' ''10'' 1 []]"
  have l: "getReplicaSetList restarting appsV1Client ?s = (Ok ?sets, ?s)" by code_simp
  obtain r where g: "getLatestReplicaSet restarting ''shop'' appsV1Client ?s = (Ok r, ?s)"
  proof -
    have "case latest_loop ''shop'' ?sets (-1) zero_ReplicaSet of Inr r \<Rightarrow> True | Inl e \<Rightarrow> False" by code_simp
    with that show thesis by (auto simp: getLatestReplicaSet_def bind_act_def l of_sum_def split: sum.splits)
  qed
  have "the (Atoi ''9'') = 9" "the (Atoi ''10'') = 10" "HasPrefix ''shop-1'' ''shop''" "HasPrefix ''shop-2'' ''shop''"
    by code_simp+
  with latest_revision [OF l g] have "r = NewReplicaSet ''shop-2'' ''10'' 1 []"
    by (auto simp: NewReplicaSet_def)
  with g show ?thesis by (simp add: NewReplicaSet_def)
qed

text \<open>
  a rollout of a deployment of the apps API names the sets that were current before and after
  its patch when these are two; while the server goes on answering with the old one it asks for
  ever.
\<close>

theorem rollout_outcome:
  fixes a :: "'w pod_api" and d :: string
  defines "latest \<equiv> \<lambda>sets. latest_loop d (TransformationReplicaSetListApp sets) (-1) zero_ReplicaSet"
  assumes "\<And>v. snd (po_ExtDeployment_Get a d v) = v" and "po_AppsDeployment_Get a d w = (Inr (), w)"
    and "\<And>v. po_AppsReplicaSets_List a v = (Inr (sets v), v)"
    and "po_AppsDeployment_Patch a d (DeploymentRolloutPatchData (po_Now a w)) w = (Inr (), w')"
    and "latest (sets w) = Inr active" and "latest (sets w') = Inr rolling"
  shows "RolloutDeployment a d \<lparr> ks_world = w, ks_cache = c \<rparr> =
    (if rs_Name active = rs_Name rolling then None
     else Some (Ok (NewDeploymentRolloutResponseObj d (rs_Name rolling) (rs_Name active)),
                \<lparr> ks_world = w', ks_cache = c \<rparr>))"
proof -
  have get: "getLatestReplicaSet a d appsV1Client s = (Ok r, s)"
    if "latest (sets (ks_world s)) = Inr r" for s :: "('w, 'c) kstate" and r
    using that assms(4)
    by (simp add: getLatestReplicaSet_def getReplicaSetList_def bind_act_def of_sum_def api_def ret_def
        latest_def appsV1Client_def extensionV1Client_def)
  obtain x where e: "po_ExtDeployment_Get a d w = (x, w)" using assms(2) [of w] by (metis prod.collapse)
  let ?s = "\<lparr> ks_world = w, ks_cache = c \<rparr>"
  let ?t = "\<lparr> ks_world = w', ks_cache = c \<rparr>"
  have start: "rollout_start a d ?s = (Ok (appsV1Client, active, rolling), ?t)"
    using get [of ?s active] get [of ?t rolling] assms(3,5,6,7) e
    by (cases x) (simp_all add: rollout_start_def try_act_def api_def bind_act_def ret_def
        appsV1Client_def extensionV1Client_def Let_def)
  show ?thesis
  proof (cases "rs_Name active = rs_Name rolling")
    case True
    have "\<And>s :: ('w, 'b) kstate. ks_world s = w' \<Longrightarrow>
        \<exists>r s'. getLatestReplicaSet a d appsV1Client s = (Ok r, s') \<and> rs_Name r = rs_Name active \<and> ks_world s' = w'"
      using get assms(7) True by (metis (full_types))
    from correctLastReplicaSet_diverges [where I = "\<lambda>s. ks_world s = w'", OF this, of rolling ?t] True
    have "correctLastReplicaSet a d rolling active appsV1Client ?t = None" by simp
    with start True show ?thesis by (simp add: RolloutDeployment_def)
  next
    case False
    with start show ?thesis
      by (simp add: RolloutDeployment_def correctLastReplicaSet.simps [of a d rolling])
  qed
qed

theorem rollout_outcome_witness:
  "RolloutDeployment restarting ''shop'' \<lparr> ks_world = False, ks_cache = () \<rparr> =
     Some (Ok (NewDeploymentRolloutResponseObj ''shop'' ''shop-2'' ''shop-1''),
           \<lparr> ks_world = True, ks_cache = () \<rparr>)"
proof -
  let ?old = "replica_set ''shop-1'' ''9''" and ?new = "replica_set ''shop-2'' ''10''"
  have sets: "po_AppsReplicaSets_List restarting v = (Inr (?old # (if v then [?new] else [])), v)" for v
    by (simp add: restarting_def)
  have l: "latest_loop ''shop'' (TransformationReplicaSetListApp (?old # (if False then [?new] else []))) (-1) zero_ReplicaSet =
      Inr (TransformationReplicaSetApp ?old)"
    "latest_loop ''shop'' (TransformationReplicaSetListApp (?old # (if True then [?new] else []))) (-1) zero_ReplicaSet =
      Inr (TransformationReplicaSetApp ?new)"
    by code_simp+
  have n: "rs_Name (TransformationReplicaSetApp ?old) = ''shop-1''" "rs_Name (TransformationReplicaSetApp ?new) = ''shop-2''"
    by code_simp+
  have e: "snd (po_ExtDeployment_Get restarting ''shop'' v) = v"
    and g: "po_AppsDeployment_Get restarting ''shop'' v = (Inr (), v)"
    and p: "po_AppsDeployment_Patch restarting ''shop'' j v = (Inr (), True)" for v j
    by (simp_all add: restarting_def)
  show ?thesis
    using rollout_outcome [where a = restarting and d = "''shop''" and w = False and w' = True and c = "()"
        and sets = "\<lambda>v. ?old # (if v then [?new] else [])"
        and active = "TransformationReplicaSetApp ?old" and rolling = "TransformationReplicaSetApp ?new",
        OF e g sets p l] n by simp
qed

text \<open>
  C23: a rollout of a deployment of the apps API returns as soon as the server answers with a set
  of another name than before the patch, however many answers with the old one come first, and then
  names the two; if no such answer comes it does not return.
\<close>

theorem rollout_returns:
  fixes a :: "'w pod_api" and d :: string
  assumes "snd (po_ExtDeployment_Get a d w) = w" and "po_AppsDeployment_Get a d w = (Inr (), w)"
    and "\<And>v. po_AppsReplicaSets_List a v = (Inr (sets v), tick v)"
    and "po_AppsDeployment_Patch a d (DeploymentRolloutPatchData (po_Now a (tick w))) (tick w) = (Inr (), w')"
    and "latest_loop d (TransformationReplicaSetListApp (sets w)) (-1) zero_ReplicaSet = Inr active"
    and "\<And>j. latest_loop d (TransformationReplicaSetListApp (sets ((tick ^^ j) w'))) (-1) zero_ReplicaSet = Inr (seen j)"
  shows "(\<forall>n. (\<forall>j < n. rs_Name (seen j) = rs_Name active) \<longrightarrow> rs_Name (seen n) \<noteq> rs_Name active \<longrightarrow>
      RolloutDeployment a d \<lparr> ks_world = w, ks_cache = c \<rparr> =
        Some (Ok (NewDeploymentRolloutResponseObj d (rs_Name (seen n)) (rs_Name active)),
              \<lparr> ks_world = (tick ^^ Suc n) w', ks_cache = c \<rparr>)) \<and>
    ((\<forall>j. rs_Name (seen j) = rs_Name active) \<longrightarrow> RolloutDeployment a d \<lparr> ks_world = w, ks_cache = c \<rparr> = None)"
proof -
  let ?st = "\<lambda>j. \<lparr> ks_world = (tick ^^ j) w', ks_cache = c \<rparr>"
  have get: "getLatestReplicaSet a d appsV1Client s = (Ok r, s\<lparr>ks_world := tick (ks_world s)\<rparr>)"
    if "latest_loop d (TransformationReplicaSetListApp (sets (ks_world s))) (-1) zero_ReplicaSet = Inr r"
    for s :: "('w, 'c) kstate" and r
    using that assms(3)
    by (simp add: getLatestReplicaSet_def getReplicaSetList_def bind_act_def of_sum_def api_def ret_def
        appsV1Client_def extensionV1Client_def)
  have seen: "getLatestReplicaSet a d appsV1Client (?st j) = (Ok (seen j), ?st (Suc j))" for j
    using get [of "?st j" "seen j"] assms(6) by simp
  obtain x where e: "po_ExtDeployment_Get a d w = (x, w)" using assms(1) by (metis prod.collapse)
  have start: "rollout_start a d \<lparr> ks_world = w, ks_cache = c \<rparr> = (Ok (appsV1Client, active, seen 0), ?st 1)"
    using get [of "\<lparr> ks_world = w, ks_cache = c \<rparr>" active] seen [of 0] assms(2,4,5) e
    by (cases x) (simp_all add: rollout_start_def try_act_def api_def bind_act_def ret_def
        appsV1Client_def extensionV1Client_def Let_def)
  show ?thesis
  proof (intro conjI allI impI)
    fix n
    assume "\<forall>j < n. rs_Name (seen j) = rs_Name active" "rs_Name (seen n) \<noteq> rs_Name active"
    then have "correctLastReplicaSet a d (seen 0) active appsV1Client (?st (Suc 0)) = Some (Ok (seen (0 + n)), ?st (Suc (0 + n)))"
      by (intro correctLastReplicaSet_returns seen) auto
    with start show "RolloutDeployment a d \<lparr> ks_world = w, ks_cache = c \<rparr> =
        Some (Ok (NewDeploymentRolloutResponseObj d (rs_Name (seen n)) (rs_Name active)), ?st (Suc n))"
      by (simp add: RolloutDeployment_def)
  next
    assume old: "\<forall>j. rs_Name (seen j) = rs_Name active"
    have "correctLastReplicaSet a d (seen 0) active appsV1Client (?st 1) = None"
      by (rule correctLastReplicaSet_diverges [where I = "\<lambda>s. \<exists>j. s = ?st j"]) (use seen old in blast)+
    with start show "RolloutDeployment a d \<lparr> ks_world = w, ks_cache = c \<rparr> = None"
      by (simp add: RolloutDeployment_def)
  qed
qed

text \<open>A cluster that shows the new set with the fourth listing; the world counts them.\<close>

definition slow_sets :: "nat \<Rightarrow> v1_ReplicaSet list" where
  "slow_sets v = replica_set ''shop-1'' ''9'' # (if 3 \<le> v then [replica_set ''shop-2'' ''10''] else [])"

definition slow_restart :: "nat pod_api" where
  "slow_restart =
     \<lparr> po_Pods = \<lparr> cl_Get = (\<lambda>_ w. (Inl (no_such ''pod''), w)),
             cl_List = (\<lambda>_ w. (Inr \<lparr> pg_Items = [], pg_Continue = [] \<rparr>, w)),
             cl_Create = (\<lambda>_ w. (Inl (no_such ''pod''), w)), cl_Update = (\<lambda>_ w. (Inl (no_such ''pod''), w)),
             cl_Delete = (\<lambda>_ w. (Inl (no_such ''pod''), w)) \<rparr>,
           po_ExtDeployment_Get = (\<lambda>_ w. (Inl (no_such ''shop''), w)),
           po_AppsDeployment_Get = (\<lambda>_ w. (Inr (), w)),
           po_ExtDeployment_Patch = (\<lambda>_ _ w. (Inl (no_such ''shop''), w)),
           po_AppsDeployment_Patch = (\<lambda>_ _ w. (Inr (), w)),
           po_ExtReplicaSets_List = (\<lambda>w. (Inr [], w)),
           po_AppsReplicaSets_List = (\<lambda>w. (Inr (slow_sets w), Suc w)),
           po_ExtReplicaSet_Get = (\<lambda>_ w. (Inl (no_such ''set''), w)),
           po_AppsReplicaSet_Get = (\<lambda>_ w. (Inl (no_such ''set''), w)),
           po_ReplicationController_Get = (\<lambda>_ w. (Inl (no_such ''controller''), w)),
           po_Now = (\<lambda>_. ''2024-01-01T00:00:00Z'') \<rparr>"

theorem rollout_returns_witness:
  "RolloutDeployment slow_restart ''shop'' \<lparr> ks_world = 0, ks_cache = () \<rparr> =
     Some (Ok (NewDeploymentRolloutResponseObj ''shop'' ''shop-2'' ''shop-1''), \<lparr> ks_world = 4, ks_cache = () \<rparr>)"
proof -
  let ?old = "TransformationReplicaSetApp (replica_set ''shop-1'' ''9'')"
  let ?new = "TransformationReplicaSetApp (replica_set ''shop-2'' ''10'')"
  let ?seen = "\<lambda>j :: nat. if 3 \<le> j + 1 then ?new else ?old"
  have "latest_loop ''shop'' (TransformationReplicaSetListApp [replica_set ''shop-1'' ''9'']) (-1) zero_ReplicaSet = Inr ?old"
    "latest_loop ''shop'' (TransformationReplicaSetListApp [replica_set ''shop-1'' ''9'', replica_set ''shop-2'' ''10''])
       (-1) zero_ReplicaSet = Inr ?new" by code_simp+
  then have l: "latest_loop ''shop'' (TransformationReplicaSetListApp (slow_sets v)) (-1) zero_ReplicaSet =
      Inr (if 3 \<le> v then ?new else ?old)" for v
    by (cases "3 \<le> v") (simp_all only: slow_sets_def if_True if_False)
  have n: "rs_Name ?old = ''shop-1''" "rs_Name ?new = ''shop-2''" by code_simp+
  have t: "(Suc ^^ j) 1 = j + 1" for j by (induction j) auto
  have "snd (po_ExtDeployment_Get slow_restart ''shop'' 0) = 0" "po_AppsDeployment_Get slow_restart ''shop'' 0 = (Inr (), 0)"
    "\<And>v. po_AppsReplicaSets_List slow_restart v = (Inr (slow_sets v), Suc v)"
    "po_AppsDeployment_Patch slow_restart ''shop'' (DeploymentRolloutPatchData (po_Now slow_restart (Suc 0))) (Suc 0) = (Inr (), 1)"
    by (simp_all add: slow_restart_def)
  note r = rollout_returns [OF this, where active = ?old and seen = ?seen and c = "()"]
  have "latest_loop ''shop'' (TransformationReplicaSetListApp (slow_sets 0)) (-1) zero_ReplicaSet = Inr ?old"
    using l [of 0] by (simp only: if_False not_numeral_le_zero)
  moreover have "latest_loop ''shop'' (TransformationReplicaSetListApp (slow_sets ((Suc ^^ j) 1))) (-1) zero_ReplicaSet =
      Inr (?seen j)" for j unfolding t by (rule l)
  ultimately have "(\<forall>j < 2. rs_Name (?seen j) = rs_Name ?old) \<longrightarrow> rs_Name (?seen 2) \<noteq> rs_Name ?old \<longrightarrow>
      RolloutDeployment slow_restart ''shop'' \<lparr> ks_world = 0, ks_cache = () \<rparr> =
        Some (Ok (NewDeploymentRolloutResponseObj ''shop'' (rs_Name (?seen 2)) (rs_Name ?old)),
          \<lparr> ks_world = (Suc ^^ Suc 2) 1, ks_cache = () \<rparr>)"
    by (rule spec [OF conjunct1 [OF r]])
  moreover have "(Suc ^^ Suc 2) 1 = 4" by (simp add: t del: funpow.simps)
  ultimately show ?thesis using n by simp
qed

lemma responses_of: "\<forall>x \<in> set xs. x \<noteq> None \<Longrightarrow> map Some (NewDeploymentResponse_loop xs) = xs"
  by (induction xs) auto

text \<open>
  a rollout of several deployments answers without an error exactly when each of them
  succeeded, and then reports each of them once; a panic in one of them leaves it without an
  answer.
\<close>

theorem rollout_of_many:
  assumes "pool_submits (map rollout_task outcomes) results"
  shows "(\<exists>r. rollout_response (Inr results) = Inr r) = (\<forall>x \<in> set outcomes. \<exists>d. x = Ok d) \<and>
    (\<forall>r. rollout_response (Inr results) = Inr r \<longrightarrow>
       image_mset Ok (mset (drs_Deployments r)) = mset outcomes) \<and> Crash \<notin> set outcomes"
proof -
  have np: "Crash \<notin> set outcomes"
    using fixed_pool.submits_no_panic [OF assms] by (auto simp: rollout_task_def image_iff split: res.splits)
  have "(\<exists>r. Completes r = rollout_task x \<and> tr_Err r \<noteq> None) \<longleftrightarrow> (\<exists>e. x = Err e)" for x
    by (cases x) (auto simp: rollout_task_def)
  then have err: "HasErrors results \<longleftrightarrow> (\<exists>x \<in> set outcomes. \<exists>e. x = Err e)"
    unfolding fixed_pool.submits_errors [OF assms] set_map image_iff by blast
  have ok: "image_mset Ok (mset (drs_Deployments (NewDeploymentResponse (GetResults results)))) = mset outcomes"
    if "\<not> HasErrors results"
  proof -
    let ?f = "\<lambda>x. \<lparr> tr_Result = (case x of Ok d \<Rightarrow> Some d | _ \<Rightarrow> None), tr_Err = None \<rparr>"
    have all: "x \<in> set outcomes \<Longrightarrow> \<exists>d. x = Ok d" for x
      using that err np by (cases x) auto
    then have "map rollout_task outcomes = map (\<lambda>x. Completes (?f x)) outcomes"
      by (auto simp: rollout_task_def split: res.splits)
    from fixed_pool.submits_results [OF assms [unfolded this]]
    have m: "mset (GetResults results) = image_mset (\<lambda>x. case x of Ok d \<Rightarrow> Some d | _ \<Rightarrow> None) (mset outcomes)"
      by simp
    from arg_cong [OF m, of set_mset] all have "\<forall>x \<in> set (GetResults results). x \<noteq> None"
      by (auto split: res.splits)
    from responses_of [OF this] have "mset (GetResults results) = image_mset Some (mset (NewDeploymentResponse_loop (GetResults results)))"
      by (metis mset_map)
    with m have "image_mset (case_option Crash Ok) (image_mset Some (mset (NewDeploymentResponse_loop (GetResults results)))) =
        image_mset (case_option Crash Ok) (image_mset (\<lambda>x. case x of Ok d \<Rightarrow> Some d | _ \<Rightarrow> None) (mset outcomes))"
      by simp
    moreover have "image_mset (\<lambda>x. case_option Crash Ok (case x of Ok d \<Rightarrow> Some d | _ \<Rightarrow> None)) (mset outcomes) =
        image_mset (\<lambda>x. x) (mset outcomes)"
      by (rule image_mset_cong) (use all in \<open>auto split: res.splits\<close>)
    ultimately show ?thesis
      by (simp add: NewDeploymentResponse_def image_mset.compositionality comp_def)
  qed
  show ?thesis
  proof (cases "HasErrors results")
    case True
    with err np show ?thesis by (auto simp: rollout_response_def)
  next
    case False
    with err np have "\<forall>x \<in> set outcomes. \<exists>d. x = Ok d" by (metis res.exhaust)
    with False ok np show ?thesis by (simp add: rollout_response_def)
  qed
qed

definition one_task_done :: "'r TaskResult \<Rightarrow> 'r pool" where
  "one_task_done r = \<lparr> pl_bufferSize = 2, pl_wChan = [], pl_workers = [None], pl_batches =
     [\<lparr> bt_tasks = [Completes r], bt_unsent = [], bt_results = [r], bt_wg = 0, bt_returned = True, bt_lost = 0 \<rparr>],
     pl_stopped = False \<rparr>"

lemma one_task_reach: "pool_reach 1 2 (one_task_done r)"
proof -
  let ?x = "\<lambda>un rs wg ret. \<lparr> bt_tasks = [Completes r], bt_unsent = un, bt_results = rs, bt_wg = wg,
    bt_returned = ret, bt_lost = 0 \<rparr>"
  let ?p = "\<lambda>w x. \<lparr> pl_bufferSize = 2, pl_wChan = [], pl_workers = [w], pl_batches = [x], pl_stopped = False \<rparr>"
  have 0: "pool_reach 1 2 (?p None (?x [Completes r] [] 1 False))"
    using submitted_reach [of "[Completes r]"] by (simp add: submitted_def NewFixedPool_def new_batch_def)
  have "pool_step (?p None (?x [Completes r] [] 1 False)) (?p (Some (0, Completes r)) (?x [] [] 1 False))"
    using pool_step.hand_over [of 0 "?p None (?x [Completes r] [] 1 False)" _ "Completes r" "[]" 0, OF _ refl]
    by (simp add: set_batch_def set_worker_def)
  from pool_reach.inner [OF 0 this] have 1: "pool_reach 1 2 (?p (Some (0, Completes r)) (?x [] [] 1 False))" .
  have "pool_step (?p (Some (0, Completes r)) (?x [] [] 1 False)) (?p None (?x [] [r] 0 False))"
    using pool_step.finish [of 0 "?p (Some (0, Completes r)) (?x [] [] 1 False)" 0 r, OF _ _ refl]
    by (simp add: set_batch_def set_worker_def)
  from pool_reach.inner [OF 1 this] have 2: "pool_reach 1 2 (?p None (?x [] [r] 0 False))" .
  have "pool_step (?p None (?x [] [r] 0 False)) (?p None (?x [] [r] 0 True))"
    using pool_step.collect [of 0 "?p None (?x [] [r] 0 False)", OF _ refl] by (simp add: set_batch_def)
  from pool_reach.inner [OF 2 this] have 3: "pool_reach 1 2 (?p None (?x [] [r] 0 True))" .
  show ?thesis unfolding one_task_done_def by (rule 3)
qed

lemma one_task_submitted: "pool_submits [Completes r] [r]"
  unfolding pool_submits_def
  by (rule exI [of _ 1], rule exI [of _ 2], rule exI [of _ "one_task_done r"], rule exI [of _ 0])
    (use one_task_reach [of r] in \<open>simp add: one_task_done_def\<close>)

theorem rollout_of_many_witness:
  "\<exists>r. rollout_response (Inr [\<lparr> tr_Result = Some (NewDeploymentRolloutResponseObj ''shop'' ''shop-2'' ''shop-1''), tr_Err = None \<rparr>]) = Inr r"
proof -
  let ?d = "NewDeploymentRolloutResponseObj ''shop'' ''shop-2'' ''shop-1''"
  have "pool_submits (map rollout_task [Ok ?d]) [\<lparr> tr_Result = Some ?d, tr_Err = None \<rparr>]"
    using one_task_submitted by (simp add: rollout_task_def)
  from rollout_of_many [OF this] show ?thesis by simp
qed

end
