(* ===== verification/Watch_Handlers.thy ===== *)
theory Watch_Handlers
  imports Shared_Watch Rest_Watch Route_Service Cache_Adapter
begin

section \<open>Which watch serves which kind\<close>

text \<open>
  \<open>SharedWatchHandlers\<close> of \<open>kubeWatchServiceShared.go\<close> with its constructors, the watch methods of
  the client, which choose one of its handlers, and the kinds of \<open>types/resources.go\<close>. The REST
  clients of the API groups are of any type \<open>'r\<close>.
\<close>

subsection \<open>Kinds\<close>

datatype PaasResourceType = Type_Certificates | Type_ConfigMaps | Type_Deployments | Type_Ingresses
  | Type_Namespaces | Type_Pods | Type_Secrets | Type_ServiceAccounts | Type_Services
  | Type_HTTPRoutes | Type_GRPCRoutes | Type_Projects | Type_Routes

fun resource_String :: "PaasResourceType \<Rightarrow> string" where
  "resource_String Type_Certificates = ''certificates''"
| "resource_String Type_ConfigMaps = ''configmaps''"
| "resource_String Type_Deployments = ''deployments''"
| "resource_String Type_Ingresses = ''ingresses''"
| "resource_String Type_Namespaces = ''namespaces''"
| "resource_String Type_Pods = ''pods''"
| "resource_String Type_Secrets = ''secrets''"
| "resource_String Type_ServiceAccounts = ''serviceaccounts''"
| "resource_String Type_Services = ''services''"
| "resource_String Type_HTTPRoutes = ''httproutes''"
| "resource_String Type_GRPCRoutes = ''grpcroutes''"
| "resource_String Type_Projects = ''projects''"
| "resource_String Type_Routes = ''routes''"

subsection \<open>Handlers\<close>

text \<open>
  A shared handler of a kind: the REST client it watches with, the conversion of its events, and
  the handlers of the namespaces that were watched so far.
\<close>

record ('r, 'f, 't) SharedWatchHandler =
  sh_kind :: PaasResourceType
  sh_RestClient :: 'r
  sh_Converter :: "'f \<Rightarrow> 't run"
  sh_ClientTimeout :: int
  sh_Namespaces :: "string \<rightharpoonup> shared_watch"

definition NewSharedWatchEventHandler ::
  "PaasResourceType \<Rightarrow> int \<Rightarrow> 'r \<Rightarrow> ('f \<Rightarrow> 't run) \<Rightarrow> ('r, 'f, 't) SharedWatchHandler" where
  "NewSharedWatchEventHandler kind clientTimeout client convert = \<lparr> sh_kind = kind, sh_RestClient = client,
     sh_Converter = convert, sh_ClientTimeout = clientTimeout, sh_Namespaces = (\<lambda>_. None) \<rparr>"

record 'r SharedWatchHandlers =
  wh_Certificates :: "('r, cm_Certificate, Certificate) SharedWatchHandler"
  wh_ConfigMaps :: "('r, v1_ConfigMap, ConfigMap) SharedWatchHandler"
  wh_Services :: "('r, v1_Service, Service) SharedWatchHandler"
  wh_ServiceAccounts :: "('r, v1_ServiceAccount, ServiceAccount) SharedWatchHandler"
  wh_Secrets :: "('r, v1_Secret, Secret) SharedWatchHandler"
  wh_IngressesNetworkingV1 :: "('r, net_Ingress, Route) SharedWatchHandler"
  wh_IngressesV1Beta1 :: "('r, v1beta1_Ingress, Route) SharedWatchHandler"
  wh_HTTPRouteV1 :: "('r, HTTPRoute, HttpRoute) SharedWatchHandler option"
  wh_HTTPRouteAsRouteV1 :: "('r, HTTPRoute, Route) SharedWatchHandler option"
  wh_GRPCRouteV1 :: "('r, GRPCRoute, GrpcRoute) SharedWatchHandler option"

definition NewSharedWatchEventHandlers :: "int \<Rightarrow> 'r \<Rightarrow> 'r \<Rightarrow> 'r \<Rightarrow> 'r \<Rightarrow> 'r SharedWatchHandlers" where
  "NewSharedWatchEventHandlers clientTimeout coreV1 cert networkingV1Client extensionsV1beta1 = \<lparr>
     wh_Certificates = NewSharedWatchEventHandler Type_Certificates clientTimeout cert (total NewCertificate),
     wh_ConfigMaps = NewSharedWatchEventHandler Type_ConfigMaps clientTimeout coreV1 (total NewConfigMap),
     wh_Services = NewSharedWatchEventHandler Type_Services clientTimeout coreV1 (total NewService),
     wh_ServiceAccounts = NewSharedWatchEventHandler Type_ServiceAccounts clientTimeout coreV1 (total NewServiceAccount),
     wh_Secrets = NewSharedWatchEventHandler Type_Secrets clientTimeout coreV1 (total NewSecret),
     wh_IngressesNetworkingV1 =
       NewSharedWatchEventHandler Type_Ingresses clientTimeout networkingV1Client RouteFromIngressNetworkingV1,
     wh_IngressesV1Beta1 =
       NewSharedWatchEventHandler Type_Ingresses clientTimeout extensionsV1beta1 (total RouteFromIngress),
     wh_HTTPRouteV1 = None, wh_HTTPRouteAsRouteV1 = None, wh_GRPCRouteV1 = None \<rparr>"

text \<open>\<open>toRoute\<close> reads the policy of the route while the event is converted.\<close>

definition WithHTTPRouteV1 ::
  "int \<Rightarrow> 'r \<Rightarrow> (HTTPRoute \<Rightarrow> Route run) \<Rightarrow> 'r SharedWatchHandlers \<Rightarrow> 'r SharedWatchHandlers" where
  "WithHTTPRouteV1 clientTimeout gatewayV1 toRoute h = h\<lparr>
     wh_HTTPRouteV1 := Some (NewSharedWatchEventHandler Type_HTTPRoutes clientTimeout gatewayV1 (total WrapHTTPRoute)),
     wh_HTTPRouteAsRouteV1 := Some (NewSharedWatchEventHandler Type_HTTPRoutes clientTimeout gatewayV1 toRoute)\<rparr>"

definition WithGRPCRouteV1 :: "int \<Rightarrow> 'r \<Rightarrow> 'r SharedWatchHandlers \<Rightarrow> 'r SharedWatchHandlers" where
  "WithGRPCRouteV1 clientTimeout gatewayV1 h = h\<lparr>
     wh_GRPCRouteV1 := Some (NewSharedWatchEventHandler Type_GRPCRoutes clientTimeout gatewayV1
       (total RouteFromGRPCRoute))\<rparr>"

text \<open>
  The watch on the API server that a handler opens for a namespace: its filter only asks for
  bookmarks, whatever its clients filter by.
\<close>

definition shared_filter :: filter_Meta where
  "shared_filter = \<lparr> fm_Labels = None, fm_Annotations = None, fm_WatchBookmark = True \<rparr>"

definition provider_config ::
  "(string gomap \<Rightarrow> string) \<Rightarrow> ('f \<Rightarrow> string) \<Rightarrow> ('r, 'f, 't) SharedWatchHandler \<Rightarrow> string \<Rightarrow> ('f, 't) watch_config" where
  "provider_config labels_String version h namespace = \<lparr> wc_Namespace = namespace, wc_Filter = shared_filter,
     wc_labels_String = labels_String, wc_Converter = sh_Converter h, wc_ResourceVersion = version \<rparr>"

subsection \<open>The watch methods\<close>

text \<open>
  \<open>started\<close> is the answer of the watch on the API server. A method changes the handler it chooses.
\<close>

definition handler_Watch :: "string \<Rightarrow> filter_Meta \<Rightarrow> go_error option \<Rightarrow> ('r, 'f, 't) SharedWatchHandler \<Rightarrow>
    (go_error + string) \<times> ('r, 'f, 't) SharedWatchHandler" where
  "handler_Watch namespace metaFilter started h =
     (case SharedWatchHandler_Watch namespace metaFilter started (sh_Namespaces h) of
        (r, m) \<Rightarrow> (r, h\<lparr>sh_Namespaces := m\<rparr>))"

definition WatchConfigMaps :: "string \<Rightarrow> filter_Meta \<Rightarrow> go_error option \<Rightarrow> 'r SharedWatchHandlers \<Rightarrow>
    (go_error + string) \<times> 'r SharedWatchHandlers" where
  "WatchConfigMaps namespace f started hs =
     (case handler_Watch namespace f started (wh_ConfigMaps hs) of (r, h) \<Rightarrow> (r, hs\<lparr>wh_ConfigMaps := h\<rparr>))"

definition WatchSecrets :: "string \<Rightarrow> filter_Meta \<Rightarrow> go_error option \<Rightarrow> 'r SharedWatchHandlers \<Rightarrow>
    (go_error + string) \<times> 'r SharedWatchHandlers" where
  "WatchSecrets namespace f started hs =
     (case handler_Watch namespace f started (wh_Secrets hs) of (r, h) \<Rightarrow> (r, hs\<lparr>wh_Secrets := h\<rparr>))"

definition WatchServices :: "string \<Rightarrow> filter_Meta \<Rightarrow> go_error option \<Rightarrow> 'r SharedWatchHandlers \<Rightarrow>
    (go_error + string) \<times> 'r SharedWatchHandlers" where
  "WatchServices namespace f started hs =
     (case handler_Watch namespace f started (wh_Services hs) of (r, h) \<Rightarrow> (r, hs\<lparr>wh_Services := h\<rparr>))"

definition WatchServiceAccounts :: "string \<Rightarrow> filter_Meta \<Rightarrow> go_error option \<Rightarrow> 'r SharedWatchHandlers \<Rightarrow>
    (go_error + string) \<times> 'r SharedWatchHandlers" where
  "WatchServiceAccounts namespace f started hs =
     (case handler_Watch namespace f started (wh_ServiceAccounts hs) of
        (r, h) \<Rightarrow> (r, hs\<lparr>wh_ServiceAccounts := h\<rparr>))"

definition unsupported :: "string \<Rightarrow> go_error" where
  "unsupported kind = Errorf (''k8s '' @ kind @ '' is not supported'') []"

definition WatchRoutes :: "GatewaySystem \<Rightarrow> bool \<Rightarrow> string \<Rightarrow> filter_Meta \<Rightarrow> go_error option \<Rightarrow>
    'r SharedWatchHandlers \<Rightarrow> (go_error + string) \<times> 'r SharedWatchHandlers" where
  "WatchRoutes system useNetworkingV1Ingress namespace f started hs =
     (if IsGatewayAPIEnabled system then
        (case wh_HTTPRouteAsRouteV1 hs of
           None \<Rightarrow> (Inl (unsupported ''HTTPRoute''), hs)
         | Some h0 \<Rightarrow> (case handler_Watch namespace f started h0 of
             (r, h) \<Rightarrow> (r, hs\<lparr>wh_HTTPRouteAsRouteV1 := Some h\<rparr>)))
      else if useNetworkingV1Ingress then
        (case handler_Watch namespace f started (wh_IngressesNetworkingV1 hs) of
           (r, h) \<Rightarrow> (r, hs\<lparr>wh_IngressesNetworkingV1 := h\<rparr>))
      else
        (case handler_Watch namespace f started (wh_IngressesV1Beta1 hs) of
           (r, h) \<Rightarrow> (r, hs\<lparr>wh_IngressesV1Beta1 := h\<rparr>)))"

definition WatchGatewayHTTPRoutes :: "string \<Rightarrow> filter_Meta \<Rightarrow> go_error option \<Rightarrow> 'r SharedWatchHandlers \<Rightarrow>
    (go_error + string) \<times> 'r SharedWatchHandlers" where
  "WatchGatewayHTTPRoutes namespace f started hs =
     (case wh_HTTPRouteV1 hs of
        None \<Rightarrow> (Inl (unsupported ''HTTPRoute''), hs)
      | Some h0 \<Rightarrow> (case handler_Watch namespace f started h0 of (r, h) \<Rightarrow> (r, hs\<lparr>wh_HTTPRouteV1 := Some h\<rparr>)))"

definition WatchGatewayGRPCRoutes :: "string \<Rightarrow> filter_Meta \<Rightarrow> go_error option \<Rightarrow> 'r SharedWatchHandlers \<Rightarrow>
    (go_error + string) \<times> 'r SharedWatchHandlers" where
  "WatchGatewayGRPCRoutes namespace f started hs =
     (case wh_GRPCRouteV1 hs of
        None \<Rightarrow> (Inl (unsupported ''GRPCRoute''), hs)
      | Some h0 \<Rightarrow> (case handler_Watch namespace f started h0 of (r, h) \<Rightarrow> (r, hs\<lparr>wh_GRPCRouteV1 := Some h\<rparr>)))"

text \<open>The watch on namespaces is not shared: each call opens one.\<close>

definition WatchNamespaces :: "(string gomap \<Rightarrow> string) \<Rightarrow> string \<Rightarrow> go_error option \<Rightarrow> bool \<Rightarrow> go_error + watch_loop" where
  "WatchNamespaces labels_String namespace err nil_watcher =
     rest_Watch \<lparr> wc_Namespace = namespace,
       wc_Filter = \<lparr> fm_Labels = None, fm_Annotations = None, fm_WatchBookmark = False \<rparr>,
       wc_labels_String = labels_String, wc_Converter = total NewNamespace,
       wc_ResourceVersion = om_ResourceVersion \<rparr> err nil_watcher"

text \<open>Which watch handlers a cache adapter finds.\<close>

fun has_handler :: "'r SharedWatchHandlers \<Rightarrow> adapter_kind \<Rightarrow> bool" where
  "has_handler hs HTTPRouteV1 \<longleftrightarrow> wh_HTTPRouteV1 hs \<noteq> None"
| "has_handler hs GRPCRouteV1 \<longleftrightarrow> wh_GRPCRouteV1 hs \<noteq> None"
| "has_handler hs k \<longleftrightarrow> True"

subsection \<open>Laws\<close>

text \<open>A shared watch is opened with any filter of its client, which the REST watch would refuse.\<close>

lemma provider_request:
  "doWatchRequest labels_String namespace shared_filter bookmark \<noteq> Inl e"
  by (simp add: doWatchRequest_def shared_filter_def)

lemma provider_Watch:
  "rest_Watch (provider_config labels_String version h namespace) None False =
     Inr \<lparr> wl_state = Running, wl_bookmark = [], wl_requests =
       [\<lparr> wo_LabelSelector = [], wo_Watch = True, wo_AllowWatchBookmarks = True, wo_ResourceVersion = [],
          wo_Namespace = namespace \<rparr>] \<rparr>"
  by (simp add: rest_Watch_def provider_config_def doWatchRequest_def shared_filter_def)

lemma handler_Watch_ok:
  "handler_Watch namespace f None h = (Inr (pad6 (sw_clientCount (case sh_Namespaces h namespace of
      None \<Rightarrow> newSharedNamespaceWatchHandler | Some w \<Rightarrow> w) + 1)),
    h\<lparr>sh_Namespaces := (sh_Namespaces h)(namespace \<mapsto> snd (shared_Watch f None
      (case sh_Namespaces h namespace of None \<Rightarrow> newSharedNamespaceWatchHandler | Some w \<Rightarrow> w)))\<rparr>)"
  by (simp add: handler_Watch_def SharedWatchHandler_Watch_def shared_Watch_def Let_def split: option.split)

lemma handler_Watch_others:
  "namespace' \<noteq> namespace \<Longrightarrow>
   sh_Namespaces (snd (handler_Watch namespace f started h)) namespace' = sh_Namespaces h namespace'"
  by (simp add: handler_Watch_def SharedWatchHandler_Watch_def Let_def split: prod.split)

end
