(* ===== verification/Bad_Routes.thy ===== *)
theory Bad_Routes
  imports Go_Base
begin

section \<open>The table of bad routes\<close>

text \<open>
  \<open>BadRoutes\<close> of \<open>service/internal/kubernetes/kubeService.go\<close>: a map from namespaces to sets of
  route names, as association list; its lock makes each operation one step. The locale
  \<open>name_table\<close> is what a table of names in namespaces promises.
\<close>

subsection \<open>The contract\<close>

locale name_table =
  fixes empty :: 't
    and add :: "string \<Rightarrow> string \<Rightarrow> 't \<Rightarrow> 't"
    and del :: "string \<Rightarrow> string \<Rightarrow> 't \<Rightarrow> 't"
    and exists :: "string \<Rightarrow> string \<Rightarrow> 't \<Rightarrow> bool"
    and names :: "'t \<Rightarrow> (string \<times> string) set"
    and invar :: "'t \<Rightarrow> bool"
  assumes names_empty: "names empty = {}"
    and names_add: "invar t \<Longrightarrow> names (add ns n t) = insert (ns, n) (names t)"
    and names_del: "invar t \<Longrightarrow> names (del ns n t) = names t - {(ns, n)}"
    and exists_names: "invar t \<Longrightarrow> exists ns n t \<longleftrightarrow> (ns, n) \<in> names t"
    and invar_empty: "invar empty"
    and invar_add: "invar t \<Longrightarrow> invar (add ns n t)"
    and invar_del: "invar t \<Longrightarrow> invar (del ns n t)"
begin

lemma fold_refines:
  "invar t \<Longrightarrow>
   invar (fold (\<lambda>(added, ns, n). if added then add ns n else del ns n) ops t) \<and>
   names (fold (\<lambda>(added, ns, n). if added then add ns n else del ns n) ops t) =
     fold (\<lambda>(added, p) S. if added then insert p S else S - {p}) ops (names t)"
proof (induction ops arbitrary: t)
  case (Cons op ops)
  obtain added ns n where op: "op = (added, ns, n)" by (rule prod_cases3)
  from Cons.IH [of "if added then add ns n t else del ns n t"] Cons.prems show ?case
    by (cases added) (simp_all add: op names_add names_del invar_add invar_del)
qed simp

lemmas fold_empty = fold_refines [OF invar_empty, unfolded names_empty]

lemma fold_exists:
  "exists ns n (fold (\<lambda>(added, ns, n). if added then add ns n else del ns n) ops empty) \<longleftrightarrow>
     (ns, n) \<in> fold (\<lambda>(added, p) S. if added then insert p S else S - {p}) ops {}"
  by (simp only: exists_names [OF conjunct1 [OF fold_empty]] conjunct2 [OF fold_empty])

end

subsection \<open>The code\<close>

type_synonym BadRoutes = "(string \<times> string list) list"

definition NewBadRoutes :: BadRoutes where
  "NewBadRoutes = []"

definition bad_Add :: "string \<Rightarrow> string \<Rightarrow> BadRoutes \<Rightarrow> BadRoutes" where
  "bad_Add namespace routeName r =
     (let r' = (case map_of r namespace of None \<Rightarrow> AList.update namespace [] r | Some _ \<Rightarrow> r)
      in AList.update namespace
           (List.insert routeName (case map_of r' namespace of None \<Rightarrow> [] | Some ns \<Rightarrow> ns)) r')"

definition bad_Delete :: "string \<Rightarrow> string \<Rightarrow> BadRoutes \<Rightarrow> BadRoutes" where
  "bad_Delete namespace routeName r =
     (case map_of r namespace of
        None \<Rightarrow> r
      | Some names \<Rightarrow>
          let names' = removeAll routeName names;
              r' = AList.update namespace names' r
          in if length names' = 0 then AList.delete namespace r' else r')"

definition bad_Exists :: "string \<Rightarrow> string \<Rightarrow> BadRoutes \<Rightarrow> bool" where
  "bad_Exists namespace routeName r =
     (case map_of r namespace of None \<Rightarrow> False | Some names \<Rightarrow> routeName \<in> set names)"

fun ToSliceMap :: "BadRoutes \<Rightarrow> (string \<times> string list) list" where
  "ToSliceMap [] = []"
| "ToSliceMap ((namespace, names) # r) = (namespace, names) # ToSliceMap r"

subsection \<open>The code keeps the contract\<close>

definition bad_names :: "BadRoutes \<Rightarrow> (string \<times> string) set" where
  "bad_names r = {(ns, n). \<exists>names. map_of r ns = Some names \<and> n \<in> set names}"

text \<open>No namespace is there twice or without routes, and no route is there twice.\<close>

definition bad_ok :: "BadRoutes \<Rightarrow> bool" where
  "bad_ok r \<longleftrightarrow> distinct (map fst r) \<and> (\<forall>ns names. map_of r ns = Some names \<longrightarrow> names \<noteq> [] \<and> distinct names)"

lemma bad_Add_map:
  "map_of (bad_Add ns n r) =
     (map_of r)(ns \<mapsto> List.insert n (case map_of r ns of None \<Rightarrow> [] | Some names \<Rightarrow> names))"
  by (auto simp: bad_Add_def Let_def update_conv' fun_eq_iff split: option.split)

lemma bad_Delete_map:
  "map_of (bad_Delete ns n r) =
     (case map_of r ns of
        None \<Rightarrow> map_of r
      | Some names \<Rightarrow> (map_of r)(ns := if removeAll n names = [] then None else Some (removeAll n names)))"
  by (auto simp: bad_Delete_def Let_def update_conv' delete_conv' fun_eq_iff split: option.split)

lemma bad_Add_keys: "distinct (map fst r) \<Longrightarrow> distinct (map fst (bad_Add ns n r))"
  by (auto simp: bad_Add_def Let_def distinct_update split: option.split)

lemma bad_Delete_keys: "distinct (map fst r) \<Longrightarrow> distinct (map fst (bad_Delete ns n r))"
  by (auto simp: bad_Delete_def Let_def distinct_update distinct_delete split: option.split)

lemma bad_Add_ok: "bad_ok r \<Longrightarrow> bad_ok (bad_Add ns n r)"
  unfolding bad_ok_def bad_Add_map
  by (cases "map_of r ns") (auto simp: bad_Add_keys List.insert_def)

lemma bad_Delete_ok:
  assumes "bad_ok r"
  shows "bad_ok (bad_Delete ns n r)"
proof (cases "map_of r ns")
  case None
  with assms show ?thesis by (simp add: bad_Delete_def)
next
  case (Some names)
  with assms have "distinct (removeAll n names)" by (simp add: bad_ok_def distinct_removeAll)
  with Some assms show ?thesis
    unfolding bad_ok_def bad_Delete_map by (auto simp: bad_Delete_keys)
qed

interpretation bad_table: name_table NewBadRoutes bad_Add bad_Delete bad_Exists bad_names bad_ok
proof (unfold_locales, goal_cases)
  case 1
  then show ?case by (simp add: bad_names_def NewBadRoutes_def)
next
  case (2 t ns n)
  then show ?case
    by (auto simp: bad_names_def bad_Add_map split: if_splits option.splits)
next
  case (3 t ns n)
  have "removeAll n xs = [] \<Longrightarrow> x \<in> set xs \<Longrightarrow> x = n" for xs and x :: string
    by (auto simp: removeAll_filter_not_eq filter_empty_conv)
  then show ?case
    by (auto simp: bad_names_def bad_Delete_map split: if_splits option.splits)
next
  case (4 t ns n)
  then show ?case by (auto simp: bad_names_def bad_Exists_def split: option.splits)
next
  case 5
  then show ?case by (simp add: bad_ok_def NewBadRoutes_def)
next
  case (6 t ns n)
  then show ?case by (rule bad_Add_ok)
next
  case (7 t ns n)
  then show ?case by (rule bad_Delete_ok)
qed

text \<open>A history of additions and removals, and the set of routes it stands for.\<close>

definition bad_history :: "(bool \<times> string \<times> string) list \<Rightarrow> BadRoutes" where
  "bad_history ops = fold (\<lambda>(added, ns, n). if added then bad_Add ns n else bad_Delete ns n) ops NewBadRoutes"

definition bad_spec :: "(bool \<times> string \<times> string) list \<Rightarrow> (string \<times> string) set" where
  "bad_spec ops = fold (\<lambda>(added, p) S. if added then insert p S else S - {p}) ops {}"

lemma ToSliceMap_id: "ToSliceMap r = r"
  by (induction r rule: ToSliceMap.induct) simp_all

end
