(* ===== verification/Client_Builder.thy ===== *)
theory Client_Builder
  imports Watch_Handlers Bad_Routes
begin

section \<open>Building the Kubernetes client\<close>

text \<open>
  \<open>KubernetesClientBuilder\<close> of \<open>service/internal/kubernetes/kubeService.go\<close> and what it builds. The
  API of the cluster is a record: its version, the kinds of the Gateway API it serves, the review
  of access rights, and the REST clients of type \<open>'r\<close>; \<open>ka_GatewayV1\<close> is nil without a Gateway API
  client, and this client may have no REST client. The executors handed in are of types \<open>'e\<close> and \<open>'p\<close>.
\<close>

record ('w, 'r) KubernetesApi =
  ka_ServerVersion :: "('w, string) io"
  ka_GatewayKinds :: "('w, string list) io"
  ka_AccessReview :: "string \<Rightarrow> string \<Rightarrow> ('w, bool) io"
  ka_CoreV1 :: 'r
  ka_CertmanagerV1 :: 'r
  ka_NetworkingV1 :: 'r
  ka_ExtensionsV1beta1 :: 'r
  ka_GatewayV1 :: "'r option option"

datatype 'e WatchExecutor = DefaultWatchExecutor | GivenWatchExecutor 'e

datatype 'p RolloutExecutor = FixedRolloutPool int int | GivenRolloutExecutor 'p

subsection \<open>The builder\<close>

record ('w, 'r, 'e, 'p, 'c) KubernetesClientBuilder =
  kb_namespace :: string
  kb_client :: "('w, 'r) KubernetesApi option"
  kb_watchExecutor :: "'e WatchExecutor option"
  kb_watchClientTimeout :: int
  kb_cache :: "'c ResourcesCache option"
  kb_badResources :: "BadRoutes option"
  kb_rolloutExecutor :: "'p RolloutExecutor option"
  kb_bg2Enabled :: "bool option"
  kb_gatewaySystem :: GatewaySystem
  kb_httpRouteRequestIdleTimeout :: string

definition NewKubernetesClientBuilder :: "('w, 'r, 'e, 'p, 'c) KubernetesClientBuilder" where
  "NewKubernetesClientBuilder = \<lparr> kb_namespace = [], kb_client = None, kb_watchExecutor = None,
     kb_watchClientTimeout = 0, kb_cache = None, kb_badResources = None, kb_rolloutExecutor = None,
     kb_bg2Enabled = None, kb_gatewaySystem = \<lparr> gs_Type = [], gs_Namespace = [], gs_Name = [] \<rparr>,
     kb_httpRouteRequestIdleTimeout = [] \<rparr>"

text \<open>The setters; a nil argument is \<open>None\<close>.\<close>

definition WithNamespace ::
  "string \<Rightarrow> ('w, 'r, 'e, 'p, 'c) KubernetesClientBuilder \<Rightarrow> ('w, 'r, 'e, 'p, 'c) KubernetesClientBuilder" where
  "WithNamespace namespace b = b\<lparr>kb_namespace := namespace\<rparr>"

definition WithClient ::
  "('w, 'r) KubernetesApi option \<Rightarrow> ('w, 'r, 'e, 'p, 'c) KubernetesClientBuilder \<Rightarrow> ('w, 'r, 'e, 'p, 'c) KubernetesClientBuilder" where
  "WithClient client b = b\<lparr>kb_client := client\<rparr>"

definition kube_WithWatchExecutor ::
  "'e WatchExecutor option \<Rightarrow> ('w, 'r, 'e, 'p, 'c) KubernetesClientBuilder \<Rightarrow> ('w, 'r, 'e, 'p, 'c) KubernetesClientBuilder" where
  "kube_WithWatchExecutor executor b = b\<lparr>kb_watchExecutor := executor\<rparr>"

definition kube_WithWatchClientTimeout ::
  "int \<Rightarrow> ('w, 'r, 'e, 'p, 'c) KubernetesClientBuilder \<Rightarrow> ('w, 'r, 'e, 'p, 'c) KubernetesClientBuilder" where
  "kube_WithWatchClientTimeout timeout b = b\<lparr>kb_watchClientTimeout := timeout\<rparr>"

definition WithCache ::
  "'c ResourcesCache option \<Rightarrow> ('w, 'r, 'e, 'p, 'c) KubernetesClientBuilder \<Rightarrow> ('w, 'r, 'e, 'p, 'c) KubernetesClientBuilder" where
  "WithCache cache b = b\<lparr>kb_cache := cache\<rparr>"

definition WithBadResources ::
  "BadRoutes option \<Rightarrow> ('w, 'r, 'e, 'p, 'c) KubernetesClientBuilder \<Rightarrow> ('w, 'r, 'e, 'p, 'c) KubernetesClientBuilder" where
  "WithBadResources badResources b = b\<lparr>kb_badResources := badResources\<rparr>"

definition kube_WithRolloutExecutor ::
  "'p RolloutExecutor option \<Rightarrow> ('w, 'r, 'e, 'p, 'c) KubernetesClientBuilder \<Rightarrow> ('w, 'r, 'e, 'p, 'c) KubernetesClientBuilder" where
  "kube_WithRolloutExecutor executor b = b\<lparr>kb_rolloutExecutor := executor\<rparr>"

definition WithBG2Enabled ::
  "bool option \<Rightarrow> ('w, 'r, 'e, 'p, 'c) KubernetesClientBuilder \<Rightarrow> ('w, 'r, 'e, 'p, 'c) KubernetesClientBuilder" where
  "WithBG2Enabled enabled b = b\<lparr>kb_bg2Enabled := enabled\<rparr>"

definition WithGatewaySystemType ::
  "string \<Rightarrow> ('w, 'r, 'e, 'p, 'c) KubernetesClientBuilder \<Rightarrow> ('w, 'r, 'e, 'p, 'c) KubernetesClientBuilder" where
  "WithGatewaySystemType gatewaySystemType b =
     b\<lparr>kb_gatewaySystem := (kb_gatewaySystem b)\<lparr>gs_Type := gatewaySystemType\<rparr>\<rparr>"

definition WithGatewaySystemNamespace ::
  "string \<Rightarrow> ('w, 'r, 'e, 'p, 'c) KubernetesClientBuilder \<Rightarrow> ('w, 'r, 'e, 'p, 'c) KubernetesClientBuilder" where
  "WithGatewaySystemNamespace namespace b =
     b\<lparr>kb_gatewaySystem := (kb_gatewaySystem b)\<lparr>gs_Namespace := namespace\<rparr>\<rparr>"

definition WithGatewaySystemName ::
  "string \<Rightarrow> ('w, 'r, 'e, 'p, 'c) KubernetesClientBuilder \<Rightarrow> ('w, 'r, 'e, 'p, 'c) KubernetesClientBuilder" where
  "WithGatewaySystemName name b = b\<lparr>kb_gatewaySystem := (kb_gatewaySystem b)\<lparr>gs_Name := name\<rparr>\<rparr>"

definition WithHTTPRouteRequestIdleTimeout ::
  "string \<Rightarrow> ('w, 'r, 'e, 'p, 'c) KubernetesClientBuilder \<Rightarrow> ('w, 'r, 'e, 'p, 'c) KubernetesClientBuilder" where
  "WithHTTPRouteRequestIdleTimeout timeout b = b\<lparr>kb_httpRouteRequestIdleTimeout := TrimSpace timeout\<rparr>"

lemmas setter_defs = WithNamespace_def WithClient_def kube_WithWatchExecutor_def kube_WithWatchClientTimeout_def
  WithCache_def WithBadResources_def kube_WithRolloutExecutor_def WithBG2Enabled_def
  WithGatewaySystemType_def WithGatewaySystemNamespace_def WithGatewaySystemName_def WithHTTPRouteRequestIdleTimeout_def

definition applyDefaults ::
  "('w, 'r, 'e, 'p, 'c) KubernetesClientBuilder \<Rightarrow> ('w, 'r, 'e, 'p, 'c) KubernetesClientBuilder" where
  "applyDefaults b = b\<lparr>
     kb_watchExecutor := (case kb_watchExecutor b of None \<Rightarrow> Some DefaultWatchExecutor | Some e \<Rightarrow> Some e),
     kb_badResources := (case kb_badResources b of None \<Rightarrow> Some NewBadRoutes | Some r \<Rightarrow> Some r),
     kb_rolloutExecutor := (case kb_rolloutExecutor b of
       None \<Rightarrow> Some (FixedRolloutPool 32 (32 * 10)) | Some p \<Rightarrow> Some p),
     kb_cache := (case kb_cache b of None \<Rightarrow> Some no_caches | Some c \<Rightarrow> Some c),
     kb_gatewaySystem := (kb_gatewaySystem b)\<lparr>
       gs_Namespace := (if gs_Namespace (kb_gatewaySystem b) = [] then DefaultGatewaySystemNamespace
                        else gs_Namespace (kb_gatewaySystem b)),
       gs_Name := (if gs_Name (kb_gatewaySystem b) = [] then DefaultGatewaySystemName
                   else gs_Name (kb_gatewaySystem b))\<rparr>\<rparr>"

definition HTTPRouteRequestIdleTimeoutProperty :: string where
  "HTTPRouteRequestIdleTimeoutProperty = ''http.route.request.idle.timeout''"

definition validateHTTPRouteRequestIdleTimeout :: "('w, 'r, 'e, 'p, 'c) KubernetesClientBuilder \<Rightarrow> go_error option" where
  "validateHTTPRouteRequestIdleTimeout b =
     (let timeout = kb_httpRouteRequestIdleTimeout b
      in if timeout = [] then None
         else if \<not> IsValidGatewayAPIDuration timeout
         then Some (Errorf (HTTPRouteRequestIdleTimeoutProperty @ '' value '' @ sprint_q timeout @
                '' is not a valid Gateway API duration, expected pattern like 1800s or 30m'') [])
         else None)"

definition needsGatewayRoutesWatchers :: "('w, 'r, 'e, 'p, 'c) KubernetesClientBuilder \<Rightarrow> bool" where
  "needsGatewayRoutesWatchers b =
     (case kb_cache b of None \<Rightarrow> False | Some c \<Rightarrow> ch_HTTPRoute c \<noteq> None \<or> ch_GRPCRoute c \<noteq> None)"

subsection \<open>Watches on gateway routes\<close>

definition canWatchGatewayResource ::
  "('w, 'r) KubernetesApi \<Rightarrow> string \<Rightarrow> string \<Rightarrow> ('w, 'd, bool \<times> bool) act" where
  "canWatchGatewayResource client namespace resource =
     try_act (api (ka_AccessReview client namespace resource)) (\<lambda>r.
       case r of Inl err \<Rightarrow> ret (False, False) | Inr allowed \<Rightarrow> ret (allowed, True))"

definition hasKindGatewayApi :: "string \<Rightarrow> ('w, 'r) KubernetesApi \<Rightarrow> ('w, 'd, bool) act" where
  "hasKindGatewayApi kind client =
     try_act (api (ka_GatewayKinds client)) (\<lambda>r.
       case r of Inl err \<Rightarrow> ret False | Inr kinds \<Rightarrow> ret (list_ex (\<lambda>k. k = kind) kinds))"

definition gatewayRESTClient :: "('w, 'r) KubernetesApi option \<Rightarrow> 'r option" where
  "gatewayRESTClient client =
     (case client of
        None \<Rightarrow> None
      | Some c \<Rightarrow> (case ka_GatewayV1 c of None \<Rightarrow> None | Some restClient \<Rightarrow> restClient))"

text \<open>
  What the builder gets from elsewhere: the comparison of versions, the answer of the registration
  of the Gateway API types, the conversion for watched routes, and the answers of the first watch
  of each kind.
\<close>

record build_env =
  be_errs :: errlib
  be_semver_Compare :: "string \<Rightarrow> string \<Rightarrow> int"
  be_Install :: "go_error option"
  be_toRoute :: "HTTPRoute \<Rightarrow> Route run"
  be_watch :: "adapter_kind \<Rightarrow> go_error option"

definition registerGatewayRouteWatchHandler ::
  "build_env \<Rightarrow> ('w, 'r) KubernetesApi \<Rightarrow> string \<Rightarrow> string \<Rightarrow>
     ('r \<Rightarrow> 'r SharedWatchHandlers \<Rightarrow> 'r SharedWatchHandlers) \<Rightarrow> 'r SharedWatchHandlers \<Rightarrow>
     ('w, 'd, 'r SharedWatchHandlers) act" where
  "registerGatewayRouteWatchHandler env client namespace resource register handlers =
     bind_act (canWatchGatewayResource client namespace resource) (\<lambda>(allowed, checked).
       if checked \<and> \<not> allowed then ret handlers
       else (case gatewayRESTClient (Some client) of
               None \<Rightarrow> ret handlers
             | Some restClient \<Rightarrow>
                 (case be_Install env of
                    Some err \<Rightarrow> fail err
                  | None \<Rightarrow> ret (register restClient handlers))))"

definition enrichWatchHandlersWithGatewayRoutes ::
  "build_env \<Rightarrow> ('w, 'r) KubernetesApi \<Rightarrow> string \<Rightarrow> int \<Rightarrow> 'r SharedWatchHandlers \<Rightarrow>
     ('w, 'd, 'r SharedWatchHandlers) act" where
  "enrichWatchHandlersWithGatewayRoutes env client namespace timeout handlers =
     bind_act (hasKindGatewayApi ''HTTPRoute'' client) (\<lambda>http.
     bind_act (if http then registerGatewayRouteWatchHandler env client namespace ''httproutes''
                 (\<lambda>restClient. WithHTTPRouteV1 timeout restClient (be_toRoute env)) handlers
               else ret handlers) (\<lambda>handlers1.
     bind_act (hasKindGatewayApi ''GRPCRoute'' client) (\<lambda>grpc.
       if grpc then registerGatewayRouteWatchHandler env client namespace ''grpcroutes''
         (\<lambda>restClient. WithGRPCRouteV1 timeout restClient) handlers1
       else ret handlers1)))"

subsection \<open>The client\<close>

record ('w, 'r, 'e, 'p, 'c) KubernetesClient =
  kc_client :: "('w, 'r) KubernetesApi"
  kc_WatchExecutor :: "'e WatchExecutor"
  kc_WatchHandlers :: "'r SharedWatchHandlers"
  kc_namespace :: string
  kc_Cache :: "'c ResourcesCache"
  kc_CacheAdapters :: "adapter_kind list"
  kc_BadResources :: BadRoutes
  kc_UseNetworkingV1Ingress :: bool
  kc_RolloutExecutor :: "'p RolloutExecutor"
  kc_BG2Enabled :: "bool option"
  kc_GatewaySystem :: GatewaySystem
  kc_HTTPRouteRequestIdleTimeout :: string

definition GetCurrentNamespace :: "('w, 'r, 'e, 'p, 'c) KubernetesClient \<Rightarrow> string" where
  "GetCurrentNamespace kube = kc_namespace kube"

definition default_to :: "'a \<Rightarrow> 'a option \<Rightarrow> 'a" where
  "default_to d x = (case x of None \<Rightarrow> d | Some y \<Rightarrow> y)"

definition Build ::
  "build_env \<Rightarrow> ('w, 'r, 'e, 'p, 'c) KubernetesClientBuilder \<Rightarrow>
     ('w, 'd, ('w, 'r, 'e, 'p, 'c) KubernetesClient) act" where
  "Build env builder =
     (if kb_namespace builder = [] then fail (Errorf ''namespace cannot be empty'' [])
      else
        (case kb_client builder of
           None \<Rightarrow> fail (Errorf ''client cannot be nil'' [])
         | Some client \<Rightarrow>
             let b = applyDefaults builder
             in (case validateHTTPRouteRequestIdleTimeout b of
                   Some err \<Rightarrow> fail err
                 | None \<Rightarrow>
                     bind_act (api (ka_ServerVersion client)) (\<lambda>kubernetesVersion.
                     let useNetworkingV1Ingress = (be_semver_Compare env kubernetesVersion ''v1.22'' \<ge> 0);
                         handlers = NewSharedWatchEventHandlers (kb_watchClientTimeout b) (ka_CoreV1 client)
                           (ka_CertmanagerV1 client) (ka_NetworkingV1 client) (ka_ExtensionsV1beta1 client)
                     in bind_act (if needsGatewayRoutesWatchers b
                                  then enrichWatchHandlersWithGatewayRoutes env client (kb_namespace b)
                                         (kb_watchClientTimeout b) handlers
                                  else ret handlers) (\<lambda>watchEventHandlers.
                          case NewCacheAdapters (be_errs env) (default_to no_caches (kb_cache b))
                                 (has_handler watchEventHandlers) (be_watch env) of
                            (started, Some err) \<Rightarrow> fail err
                          | (started, None) \<Rightarrow> ret \<lparr>
                              kc_client = client,
                              kc_WatchExecutor = default_to DefaultWatchExecutor (kb_watchExecutor b),
                              kc_WatchHandlers = watchEventHandlers,
                              kc_namespace = kb_namespace b,
                              kc_Cache = default_to no_caches (kb_cache b),
                              kc_CacheAdapters = started,
                              kc_BadResources = default_to NewBadRoutes (kb_badResources b),
                              kc_UseNetworkingV1Ingress = useNetworkingV1Ingress,
                              kc_RolloutExecutor = default_to (FixedRolloutPool 32 320) (kb_rolloutExecutor b),
                              kc_BG2Enabled = kb_bg2Enabled b,
                              kc_GatewaySystem = kb_gatewaySystem b,
                              kc_HTTPRouteRequestIdleTimeout = kb_httpRouteRequestIdleTimeout b \<rparr>)))))"

definition NewTestKubernetesClient ::
  "build_env \<Rightarrow> string \<Rightarrow> ('w, 'r) KubernetesApi option \<Rightarrow>
     ('w, 'd, ('w, 'r, 'e, 'p, 'c) KubernetesClient) act" where
  "NewTestKubernetesClient env namespace client =
     Build env (WithNamespace namespace (WithClient client NewKubernetesClientBuilder))"

text \<open>The version of the deployments API, by asking both for a list.\<close>

definition getKubernetesClientVersion :: "('w, unit) io \<Rightarrow> ('w, unit) io \<Rightarrow> ('w, 'd, string) act" where
  "getKubernetesClientVersion apps_List extension_List =
     try_act (api apps_List) (\<lambda>a.
       case a of
         Inr _ \<Rightarrow> ret ''appsV1Client''
       | Inl errApps \<Rightarrow> try_act (api extension_List) (\<lambda>x.
           case x of
             Inr _ \<Rightarrow> ret ''extensionsV1Client''
           | Inl errExtension \<Rightarrow> fail (NewError ''can't get correct kubernetes client version'')))"

definition GetBadRouteLists :: "('w, 'r, 'e, 'p, 'c) KubernetesClient \<Rightarrow> (string \<times> string list) list" where
  "GetBadRouteLists kube =
     (if IsGatewayAPIEnabled (kc_GatewaySystem kube) then [] else ToSliceMap (kc_BadResources kube))"

end
