(* ===== verification/Openshift_Client.thy ===== *)
theory Openshift_Client
  imports Watch_Handlers Rollout
begin

section \<open>The OpenShift variant\<close>

text \<open>
  \<open>service/internal/openshiftV3\<close>: the operations that the client of an OpenShift cluster overrides.
  It reads deployment configs, projects and OpenShift routes beside what the Kubernetes client
  reads, and restarts deployment configs by instantiating them.
\<close>

subsection \<open>The clients\<close>

record 'w OpenshiftV3Client =
  os_RouteV1Client :: "string \<Rightarrow> ('w, os_Route) client"
  os_ProjectV1Client :: "('w, ObjectMeta list) io"
  os_DeploymentConfigs :: "string \<Rightarrow> ('w, os_DeploymentConfig) client"
  os_Instantiate :: "string \<Rightarrow> string \<Rightarrow> ('w, unit) io"
  os_PostInstantiate :: "string \<Rightarrow> string \<Rightarrow> ('w, unit) io"
  os_ReplicationControllers :: "string \<Rightarrow> ('w, v1_ReplicationController list) io"

text \<open>Sequencing for operations that list page by page, and so may not return.\<close>

type_synonym ('w, 'c, 'a) loop_act = "('w, 'c) kstate \<Rightarrow> ('a res \<times> ('w, 'c) kstate) option"

definition bind_loop ::
  "('w, 'c, 'a) loop_act \<Rightarrow> ('a \<Rightarrow> ('w, 'c, 'b) loop_act) \<Rightarrow> ('w, 'c, 'b) loop_act" where
  "bind_loop m f s =
     (case m s of
        None \<Rightarrow> None
      | Some (Ok x, s') \<Rightarrow> f x s'
      | Some (Err e, s') \<Rightarrow> Some (Err e, s')
      | Some (Crash, s') \<Rightarrow> Some (Crash, s'))"

definition done_act :: "('w, 'c, 'a) act \<Rightarrow> ('w, 'c, 'a) loop_act" where
  "done_act m s = Some (m s)"

lemma bind_loop_simps:
  "m s = Some (Ok x, s') \<Longrightarrow> bind_loop m f s = f x s'"
  "m s = Some (Err e, s') \<Longrightarrow> bind_loop m f s = Some (Err e, s')"
  "m s = Some (Crash, s') \<Longrightarrow> bind_loop m f s = Some (Crash, s')"
  "m s = None \<Longrightarrow> bind_loop m f s = None"
  by (simp_all add: bind_loop_def)

subsection \<open>Reading\<close>

definition os_GetDeployment :: "'w OpenshiftV3Client \<Rightarrow> ('w, 'c) Kubernetes \<Rightarrow> string \<Rightarrow> string \<Rightarrow>
    ('w, 'c, Deployment option) act" where
  "os_GetDeployment os k resourceName namespace =
     bind_act (GetDeployment k resourceName namespace) (\<lambda>result.
       case result of
         Some d \<Rightarrow> ret (Some d)
       | None \<Rightarrow> GetWrapper (k_errs k) resourceName namespace (cl_Get (os_DeploymentConfigs os namespace))
                   None NewDeploymentConfig)"

definition os_GetDeploymentList :: "'w OpenshiftV3Client \<Rightarrow> ('w, 'c) Kubernetes \<Rightarrow> string \<Rightarrow> filter_Meta \<Rightarrow>
    ('w, 'c, Deployment list) loop_act" where
  "os_GetDeploymentList os k namespace f =
     bind_loop (GetDeploymentList k namespace f) (\<lambda>result.
     bind_loop (ListWrapper (k_errs k) (k_labels_String k) f (cl_List (os_DeploymentConfigs os namespace))
                  (map_run NewDeploymentConfig) (\<lambda>t. md_Annotations (dep_Metadata t))) (\<lambda>result2.
       done_act (ret (result @ result2))))"

definition os_GetDeploymentFamilyVersions :: "'w OpenshiftV3Client \<Rightarrow> ('w, 'c) Kubernetes \<Rightarrow> string \<Rightarrow> string \<Rightarrow>
    ('w, 'c, DeploymentFamilyVersion list) loop_act" where
  "os_GetDeploymentFamilyVersions os k familyName namespace =
     bind_loop (os_GetDeploymentList os k namespace \<lparr> fm_Labels = Some [(FamilyNameProp, familyName)],
                  fm_Annotations = None, fm_WatchBookmark = False \<rparr>) (\<lambda>deployments.
       done_act (ret (map (\<lambda>d. DeploymentToDeploymentFamilyVersion (md_Labels (dep_Metadata d))) deployments)))"

text \<open>The filter is not used.\<close>

definition os_GetNamespaces :: "'w OpenshiftV3Client \<Rightarrow> filter_Meta \<Rightarrow> ('w, 'c, Namespace list) act" where
  "os_GetNamespaces os f =
     bind_act (api (os_ProjectV1Client os)) (\<lambda>projectList. ret (map NewNamespaceFromOsProject projectList))"

definition os_WatchNamespaces :: "(string gomap \<Rightarrow> string) \<Rightarrow> string \<Rightarrow> go_error option \<Rightarrow> bool \<Rightarrow> go_error + watch_loop" where
  "os_WatchNamespaces labels_String namespace err nil_watcher =
     rest_Watch \<lparr> wc_Namespace = namespace,
       wc_Filter = \<lparr> fm_Labels = None, fm_Annotations = None, fm_WatchBookmark = False \<rparr>,
       wc_labels_String = labels_String, wc_Converter = total NewNamespaceFromOsProject,
       wc_ResourceVersion = om_ResourceVersion \<rparr> err nil_watcher"

definition os_GetRoute :: "'w OpenshiftV3Client \<Rightarrow> ('w, 'c) Kubernetes \<Rightarrow> string \<Rightarrow> string \<Rightarrow>
    ('w, 'c, Route option) act" where
  "os_GetRoute os k resourceName namespace =
     bind_act (GetRoute k resourceName namespace) (\<lambda>result.
       case result of
         Some r \<Rightarrow> ret (Some r)
       | None \<Rightarrow> GetWrapper (k_errs k) resourceName namespace (cl_Get (os_RouteV1Client os namespace))
                   (cache_reader (ch_Ingresses (k_Cache k))) (total RouteFromOsRoute))"

definition os_GetRouteList :: "'w OpenshiftV3Client \<Rightarrow> ('w, 'c) Kubernetes \<Rightarrow> string \<Rightarrow> filter_Meta \<Rightarrow>
    ('w, 'c, Route list) loop_act" where
  "os_GetRouteList os k namespace f =
     bind_loop (GetRouteList k namespace f) (\<lambda>result.
     bind_loop (ListWrapper (k_errs k) (k_labels_String k) f (cl_List (os_RouteV1Client os namespace))
                  (convert_items RouteFromOsRoute) (\<lambda>t. md_Annotations (rt_Metadata t))) (\<lambda>result2.
       done_act (ret (result @ result2))))"

subsection \<open>Rollout of a deployment config\<close>

definition zero_ReplicationController :: v1_ReplicationController where
  "zero_ReplicationController = \<lparr> vrc_Name = [], vrc_Annotations = None, vrc_Replicas = None \<rparr>"

definition controller_version :: "v1_ReplicationController \<Rightarrow> string" where
  "controller_version rc = gm_str (vrc_Annotations rc) ''openshift.io/deployment-config.latest-version''"

fun latest_controller :: "string \<Rightarrow> v1_ReplicationController list \<Rightarrow> int \<Rightarrow> v1_ReplicationController \<Rightarrow>
    go_error + v1_ReplicationController" where
  "latest_controller deploymentConfigName [] latestRevisionNumber latest = Inr latest"
| "latest_controller deploymentConfigName (current # rcs) latestRevisionNumber latest =
     (if HasPrefix (vrc_Name current) deploymentConfigName then
        (case Atoi (controller_version current) of
           None \<Rightarrow> Inl (parse_error (controller_version current))
         | Some n \<Rightarrow>
             if latestRevisionNumber < n then latest_controller deploymentConfigName rcs n current
             else latest_controller deploymentConfigName rcs latestRevisionNumber latest)
      else latest_controller deploymentConfigName rcs latestRevisionNumber latest)"

definition getLatestReplicationController :: "'w OpenshiftV3Client \<Rightarrow> string \<Rightarrow> string \<Rightarrow>
    ('w, 'c, v1_ReplicationController) act" where
  "getLatestReplicationController os namespace deploymentConfigName =
     bind_act (api (os_ReplicationControllers os namespace)) (\<lambda>rcs.
       of_sum (latest_controller deploymentConfigName rcs (-1) zero_ReplicationController))"

definition deploymentConfigIsExist :: "'w OpenshiftV3Client \<Rightarrow> string \<Rightarrow> string \<Rightarrow> ('w, 'c, bool) act" where
  "deploymentConfigIsExist os namespace deploymentConfigName =
     bind_act (api (os_ReplicationControllers os namespace)) (\<lambda>rcs.
       ret (list_ex (\<lambda>rc. HasPrefix (vrc_Name rc) deploymentConfigName) rcs))"

partial_function (option) correctLastReplicationController ::
  "'w OpenshiftV3Client \<Rightarrow> string \<Rightarrow> string \<Rightarrow> v1_ReplicationController \<Rightarrow> v1_ReplicationController \<Rightarrow>
     ('w, 'c) kstate \<Rightarrow> (v1_ReplicationController res \<times> ('w, 'c) kstate) option" where
  "correctLastReplicationController os namespace name rolling active s =
     (if vrc_Name active = vrc_Name rolling then
        (case getLatestReplicationController os namespace name s of
           (Ok r, s') \<Rightarrow> correctLastReplicationController os namespace name r active s'
         | (Err e, s') \<Rightarrow> Some (Err e, s')
         | (Crash, s') \<Rightarrow> Some (Crash, s'))
      else Some (Ok rolling, s))"

text \<open>
  Asking for a new version of a deployment config, by the client or else by a request of its own.
  When both fail the method returns the error of an earlier call, which is nil: the answer is
  neither a rollout nor an error.
\<close>

definition instantiated :: "'w OpenshiftV3Client \<Rightarrow> string \<Rightarrow> string \<Rightarrow> ('w, 'c, bool) act" where
  "instantiated os namespace name =
     try_act (api (os_Instantiate os namespace name)) (\<lambda>r.
       case r of
         Inr _ \<Rightarrow> ret True
       | Inl errorOP3 \<Rightarrow> try_act (api (os_PostInstantiate os namespace name)) (\<lambda>r2.
           case r2 of Inr _ \<Rightarrow> ret True | Inl errorOP1 \<Rightarrow> ret False))"

definition rollout_config :: "'w OpenshiftV3Client \<Rightarrow> string \<Rightarrow> string \<Rightarrow> ('w, 'c, DeploymentRollout option) loop_act" where
  "rollout_config os namespace name =
     bind_loop (done_act (getLatestReplicationController os namespace name)) (\<lambda>active.
     bind_loop (done_act (instantiated os namespace name)) (\<lambda>ok.
       if \<not> ok then done_act (ret None)
       else
         bind_loop (done_act (getLatestReplicationController os namespace name)) (\<lambda>rolling.
         bind_loop (correctLastReplicationController os namespace name rolling active) (\<lambda>rolling'.
           done_act (ret (Some
             (NewDeploymentConfigRolloutResponseObj name (vrc_Name rolling') (vrc_Name active))))))))"

definition os_RolloutDeployment :: "'w OpenshiftV3Client \<Rightarrow> 'w pod_api \<Rightarrow> string \<Rightarrow> string \<Rightarrow>
    ('w, 'c, DeploymentRollout option) loop_act" where
  "os_RolloutDeployment os a name namespace =
     bind_loop (done_act (deploymentConfigIsExist os namespace name)) (\<lambda>exists.
       if \<not> exists then
         (\<lambda>s. case RolloutDeployment a name s of
                None \<Rightarrow> None
              | Some (Err e, s') \<Rightarrow>
                  Some (Err (NewError (''Can't find neither deployment nor deployment config '' @ name)), s')
              | Some (Crash, s') \<Rightarrow> Some (Crash, s')
              | Some (Ok d, s') \<Rightarrow> Some (Ok (Some d), s'))
       else rollout_config os namespace name)"

text \<open>The task of the pool for a rollout, as in \<open>Rollout\<close> but with an answer that may be nil.\<close>

definition os_rollout_task :: "DeploymentRollout option res \<Rightarrow> DeploymentRollout option task" where
  "os_rollout_task r =
     (case r of
        Ok d \<Rightarrow> Completes \<lparr> tr_Result = d, tr_Err = None \<rparr>
      | Err e \<Rightarrow> Completes \<lparr> tr_Result = None, tr_Err = Some e \<rparr>
      | Crash \<Rightarrow> Panics)"

text \<open>\<open>rolloutDeployments\<close>, on the answer of the executor.\<close>

definition os_rollout_response ::
  "go_error + DeploymentRollout option TaskResult list \<Rightarrow> go_error + DeploymentResponse" where
  "os_rollout_response answer =
     (case answer of
        Inl err \<Rightarrow> Inl err
      | Inr taskResults \<Rightarrow>
          if HasErrors taskResults
          then Inl (case GetAsError taskResults of Some e \<Rightarrow> e | None \<Rightarrow> NewError [])
          else Inr (NewDeploymentResponse (GetResults taskResults)))"

subsection \<open>Laws\<close>

lemma latest_controller_Inr:
  "latest_controller d rcs m r0 = Inr r \<Longrightarrow> r = r0 \<or> r \<in> set rcs \<and> HasPrefix (vrc_Name r) d"
  by (induction rcs arbitrary: m r0) (fastforce split: if_splits option.splits)+

lemma os_GetRoute_error:
  "GetRoute k name ns s = (Err e, s') \<Longrightarrow> os_GetRoute os k name ns s = (Err e, s')"
  by (simp add: os_GetRoute_def bind_act_def)

lemma os_GetRoute_found:
  "GetRoute k name ns s = (Ok (Some r), s') \<Longrightarrow> os_GetRoute os k name ns s = (Ok (Some r), s')"
  by (simp add: os_GetRoute_def bind_act_def)

lemma os_GetRoute_missing:
  "GetRoute k name ns s = (Ok None, s') \<Longrightarrow>
   cl_Get (os_RouteV1Client os ns) name (ks_world s') = (Inr x, w) \<Longrightarrow>
   os_GetRoute os k name ns s = (Ok (Some (RouteFromOsRoute x)), s'\<lparr>ks_world := w\<rparr>)"
  by (simp add: os_GetRoute_def bind_act_def GetWrapper_ok total_def)

end
