(* ===== verification/Platform_Service.thy ===== *)
theory Platform_Service
  imports Client_Builder Openshift_Client
begin

section \<open>The platform service\<close>

text \<open>
  \<open>service/builder.go\<close> and \<open>createPlatformService\<close> of \<open>service/platformservice.go\<close>: from a builder
  and the configuration of the process to the client of a platform. The map of caches is shared by
  all builders that come from one, so it lives in a heap of maps; every other field is copied.
\<close>

subsection \<open>The builder\<close>

type_synonym cache_heap = "CacheName list list"

record ('w, 'r, 'e, 'p, 'o) PlatformClientBuilder =
  pb_platformType :: "string option"
  pb_caches :: nat
  pb_cacheNumItems :: int
  pb_cacheMaxSizeInBytes :: int
  pb_cacheMaxItemSizeInBytes :: int
  pb_cacheItemTTL :: int
  pb_kubernetesApi :: "('w, 'r) KubernetesApi option"
  pb_openshiftApi :: "'o option"
  pb_namespace :: "string option"
  pb_watchExecutor :: "'e WatchExecutor option"
  pb_watchClientTimeout :: "int option"
  pb_badResources :: "BadRoutes option"
  pb_rolloutParallelism :: "int option"
  pb_rolloutExecutor :: "'p RolloutExecutor option"
  pb_consul :: "(bool \<times> string \<times> string) option"
  pb_gatewaySystemType :: "string option"
  pb_gatewaySystemNamespace :: "string option"
  pb_gatewaySystemName :: "string option"
  pb_httpRouteIdleTimeout :: "string option"

text \<open>Durations are in nanoseconds.\<close>

definition time_Minute :: int where "time_Minute = 60 * 1000000000"

definition NewPlatformClientBuilder :: "cache_heap \<Rightarrow> ('w, 'r, 'e, 'p, 'o) PlatformClientBuilder \<times> cache_heap" where
  "NewPlatformClientBuilder h = (\<lparr>
     pb_platformType = None, pb_caches = length h, pb_cacheNumItems = 1000,
     pb_cacheMaxSizeInBytes = 10 * 1024 * 1024, pb_cacheMaxItemSizeInBytes = 4096,
     pb_cacheItemTTL = 60 * time_Minute, pb_kubernetesApi = None, pb_openshiftApi = None, pb_namespace = None,
     pb_watchExecutor = None, pb_watchClientTimeout = None, pb_badResources = None,
     pb_rolloutParallelism = None, pb_rolloutExecutor = None, pb_consul = None,
     pb_gatewaySystemType = None, pb_gatewaySystemNamespace = None, pb_gatewaySystemName = None,
     pb_httpRouteIdleTimeout = None \<rparr>, h @ [[]])"

definition WithCacheSettings :: "int \<Rightarrow> int \<Rightarrow> int \<Rightarrow> int \<Rightarrow> ('w, 'r, 'e, 'p, 'o) PlatformClientBuilder \<Rightarrow>
    ('w, 'r, 'e, 'p, 'o) PlatformClientBuilder" where
  "WithCacheSettings numItems maxSizeInBytes maxItemSizeInBytes ttl b = b\<lparr>
     pb_cacheNumItems := numItems, pb_cacheMaxSizeInBytes := maxSizeInBytes,
     pb_cacheMaxItemSizeInBytes := maxItemSizeInBytes, pb_cacheItemTTL := ttl\<rparr>"

text \<open>\<open>builder.caches[name] = struct{}{}\<close> for each of the names.\<close>

definition enable_names :: "CacheName list \<Rightarrow> ('w, 'r, 'e, 'p, 'o) PlatformClientBuilder \<Rightarrow> cache_heap \<Rightarrow> cache_heap" where
  "enable_names names b h = h[pb_caches b := foldl (\<lambda>m n. List.insert n m) (h ! pb_caches b) names]"

definition WithAllCaches :: "('w, 'r, 'e, 'p, 'o) PlatformClientBuilder \<Rightarrow> cache_heap \<Rightarrow>
    ('w, 'r, 'e, 'p, 'o) PlatformClientBuilder \<times> cache_heap" where
  "WithAllCaches b h = (b, enable_names GatewayApiRoutesCaches b (enable_names BasicCaches b h))"

definition WithBasicCaches :: "('w, 'r, 'e, 'p, 'o) PlatformClientBuilder \<Rightarrow> cache_heap \<Rightarrow>
    ('w, 'r, 'e, 'p, 'o) PlatformClientBuilder \<times> cache_heap" where
  "WithBasicCaches b h = (b, enable_names BasicCaches b h)"

definition WithGatewayApiRoutesCaches :: "('w, 'r, 'e, 'p, 'o) PlatformClientBuilder \<Rightarrow> cache_heap \<Rightarrow>
    ('w, 'r, 'e, 'p, 'o) PlatformClientBuilder \<times> cache_heap" where
  "WithGatewayApiRoutesCaches b h = (b, enable_names GatewayApiRoutesCaches b h)"

definition WithRouteCache :: "('w, 'r, 'e, 'p, 'o) PlatformClientBuilder \<Rightarrow> cache_heap \<Rightarrow>
    ('w, 'r, 'e, 'p, 'o) PlatformClientBuilder \<times> cache_heap" where
  "WithRouteCache b h = (b, enable_names [RouteCache] b h)"

definition WithSecretCache :: "('w, 'r, 'e, 'p, 'o) PlatformClientBuilder \<Rightarrow> cache_heap \<Rightarrow>
    ('w, 'r, 'e, 'p, 'o) PlatformClientBuilder \<times> cache_heap" where
  "WithSecretCache b h = (b, enable_names [SecretCache] b h)"

definition WithConfigMapCache :: "('w, 'r, 'e, 'p, 'o) PlatformClientBuilder \<Rightarrow> cache_heap \<Rightarrow>
    ('w, 'r, 'e, 'p, 'o) PlatformClientBuilder \<times> cache_heap" where
  "WithConfigMapCache b h = (b, enable_names [ConfigMapCache] b h)"

definition WithNamespaceCache :: "('w, 'r, 'e, 'p, 'o) PlatformClientBuilder \<Rightarrow> cache_heap \<Rightarrow>
    ('w, 'r, 'e, 'p, 'o) PlatformClientBuilder \<times> cache_heap" where
  "WithNamespaceCache b h = (b, enable_names [NamespaceCache] b h)"

definition WithServiceCache :: "('w, 'r, 'e, 'p, 'o) PlatformClientBuilder \<Rightarrow> cache_heap \<Rightarrow>
    ('w, 'r, 'e, 'p, 'o) PlatformClientBuilder \<times> cache_heap" where
  "WithServiceCache b h = (b, enable_names [ServiceCache] b h)"

definition WithWatchClientTimeout :: "int \<Rightarrow> ('w, 'r, 'e, 'p, 'o) PlatformClientBuilder \<Rightarrow>
    ('w, 'r, 'e, 'p, 'o) PlatformClientBuilder run" where
  "WithWatchClientTimeout timeout b =
     (if timeout \<le> 0 then Panic else Ret (b\<lparr>pb_watchClientTimeout := Some timeout\<rparr>))"

definition platform_WithPlatformType :: "string \<Rightarrow> ('w, 'r, 'e, 'p, 'o) PlatformClientBuilder \<Rightarrow>
    ('w, 'r, 'e, 'p, 'o) PlatformClientBuilder" where
  "platform_WithPlatformType platformType b = b\<lparr>pb_platformType := Some platformType\<rparr>"

definition WithClients :: "('w, 'r) KubernetesApi option \<Rightarrow> 'o option \<Rightarrow> ('w, 'r, 'e, 'p, 'o) PlatformClientBuilder \<Rightarrow>
    ('w, 'r, 'e, 'p, 'o) PlatformClientBuilder" where
  "WithClients kubernetesApi openshiftApi b = b\<lparr>pb_kubernetesApi := kubernetesApi, pb_openshiftApi := openshiftApi\<rparr>"

definition platform_WithNamespace :: "string \<Rightarrow> ('w, 'r, 'e, 'p, 'o) PlatformClientBuilder \<Rightarrow>
    ('w, 'r, 'e, 'p, 'o) PlatformClientBuilder" where
  "platform_WithNamespace namespace b = b\<lparr>pb_namespace := Some namespace\<rparr>"

definition WithRolloutParallelism :: "int \<Rightarrow> ('w, 'r, 'e, 'p, 'o) PlatformClientBuilder \<Rightarrow>
    ('w, 'r, 'e, 'p, 'o) PlatformClientBuilder" where
  "WithRolloutParallelism parallelism b = b\<lparr>pb_rolloutParallelism := Some parallelism\<rparr>"

definition platform_WithWatchExecutor :: "'e WatchExecutor option \<Rightarrow> ('w, 'r, 'e, 'p, 'o) PlatformClientBuilder \<Rightarrow>
    ('w, 'r, 'e, 'p, 'o) PlatformClientBuilder" where
  "platform_WithWatchExecutor executor b = b\<lparr>pb_watchExecutor := executor\<rparr>"

definition platform_WithRolloutExecutor :: "'p RolloutExecutor option \<Rightarrow> ('w, 'r, 'e, 'p, 'o) PlatformClientBuilder \<Rightarrow>
    ('w, 'r, 'e, 'p, 'o) PlatformClientBuilder" where
  "platform_WithRolloutExecutor executor b = b\<lparr>pb_rolloutExecutor := executor\<rparr>"

definition platform_WithGatewaySystemType :: "string \<Rightarrow> ('w, 'r, 'e, 'p, 'o) PlatformClientBuilder \<Rightarrow>
    ('w, 'r, 'e, 'p, 'o) PlatformClientBuilder" where
  "platform_WithGatewaySystemType systemType b = b\<lparr>pb_gatewaySystemType := Some systemType\<rparr>"

definition platform_WithGatewaySystemNamespace :: "string \<Rightarrow> ('w, 'r, 'e, 'p, 'o) PlatformClientBuilder \<Rightarrow>
    ('w, 'r, 'e, 'p, 'o) PlatformClientBuilder" where
  "platform_WithGatewaySystemNamespace namespace b = b\<lparr>pb_gatewaySystemNamespace := Some namespace\<rparr>"

definition platform_WithGatewaySystemName :: "string \<Rightarrow> ('w, 'r, 'e, 'p, 'o) PlatformClientBuilder \<Rightarrow>
    ('w, 'r, 'e, 'p, 'o) PlatformClientBuilder" where
  "platform_WithGatewaySystemName name b = b\<lparr>pb_gatewaySystemName := Some name\<rparr>"

definition platform_WithHTTPRouteRequestIdleTimeout :: "string \<Rightarrow> ('w, 'r, 'e, 'p, 'o) PlatformClientBuilder \<Rightarrow>
    ('w, 'r, 'e, 'p, 'o) PlatformClientBuilder" where
  "platform_WithHTTPRouteRequestIdleTimeout timeout b = b\<lparr>pb_httpRouteIdleTimeout := Some timeout\<rparr>"

definition WithConsul :: "bool \<Rightarrow> string \<Rightarrow> string list \<Rightarrow> ('w, 'r, 'e, 'p, 'o) PlatformClientBuilder \<Rightarrow>
    ('w, 'r, 'e, 'p, 'o) PlatformClientBuilder" where
  "WithConsul enabled url tokens b =
     b\<lparr>pb_consul := Some (enabled, url, case tokens of [] \<Rightarrow> [] | t # _ \<Rightarrow> t)\<rparr>"

subsection \<open>Starting up\<close>

text \<open>
  What the process provides: the platform of its configuration (without it the library panics), the
  texts of the configuration (empty when not set), its settings for Consul, the login of the Consul
  client, the start of the publisher of blue-green states and whether the state has a sibling, the
  clients made from the kube configuration, and the cache library.
\<close>

record ('w, 'r, 'o, 'c) process_env =
  pe_build :: build_env
  pe_platform :: "string option"
  pe_config :: "string \<Rightarrow> string"
  pe_consul :: "bool \<times> string \<times> string"
  pe_Login :: "('w, unit) io"
  pe_NewPublisher :: "('w, unit) io"
  pe_sibling :: bool
  pe_kubernetesApi :: "go_error + ('w, 'r) KubernetesApi"
  pe_openshiftApi :: "go_error + 'o"
  pe_NewCache :: "ristretto_config \<Rightarrow> go_error + 'c ristretto \<times> 'c"
  pe_jsons :: jsons

text \<open>
  The loop of logins; the argument is the number of retries that are left. It gives the error of
  the last login.
\<close>

fun consul_login :: "nat \<Rightarrow> ('w, unit) io \<Rightarrow> ('w, 'd, go_error option) act" where
  "consul_login 0 login = try_act (api login) (\<lambda>r. ret (case r of Inl err \<Rightarrow> Some err | Inr _ \<Rightarrow> None))"
| "consul_login (Suc retries) login = try_act (api login) (\<lambda>r.
     case r of Inl err \<Rightarrow> consul_login retries login | Inr _ \<Rightarrow> ret None)"

definition consulRetries :: nat where "consulRetries = 20"

text \<open>Whether blue-green mode is on once the service is built.\<close>

definition start_consul :: "('w, 'r, 'o, 'c) process_env \<Rightarrow> bool \<times> string \<times> string \<Rightarrow> ('w, 'd, bool) act" where
  "start_consul env settings =
     (case settings of (enabled, url, token) \<Rightarrow>
        if \<not> enabled then ret False
        else
          bind_act (if token \<noteq> [] then ret None else consul_login consulRetries (pe_Login env)) (\<lambda>e.
            case e of
              Some err \<Rightarrow> fail (Errorf (''failed to start consulClient: '' @ err_text err) [err])
            | None \<Rightarrow> try_act (api (pe_NewPublisher env)) (\<lambda>p.
                case p of
                  Inl err \<Rightarrow> fail (Errorf (''failed to start BlueGreenStatePublisher: '' @ err_text err) [err])
                | Inr _ \<Rightarrow> ret (pe_sibling env))))"

definition initCaches :: "('w, 'r, 'o, 'c) process_env \<Rightarrow> CacheName list \<Rightarrow> int \<Rightarrow> int \<Rightarrow> int \<Rightarrow> int \<Rightarrow>
    go_error + 'c ResourcesCache" where
  "initCaches env caches numItems maxSizeInBytes maxItemSizeInBytes ttl =
     (if length caches = 0 then Inr no_caches
      else (case NewResourcesCache (pe_NewCache env) (pe_jsons env) numItems maxSizeInBytes maxItemSizeInBytes
                   ttl caches of
              Inl err \<Rightarrow> Inl err
            | Inr (rc, c) \<Rightarrow> Inr rc))"

text \<open>A setting of the builder, else of the configuration.\<close>

definition setting :: "string option \<Rightarrow> ('w, 'r, 'o, 'c) process_env \<Rightarrow> string \<Rightarrow> string" where
  "setting given env property = (case given of Some v \<Rightarrow> v | None \<Rightarrow> pe_config env property)"

text \<open>The executor that is handed on: none when the builder has one.\<close>

definition rollout_executor :: "('w, 'r, 'e, 'p, 'o) PlatformClientBuilder \<Rightarrow> 'p RolloutExecutor option" where
  "rollout_executor b =
     (let rolloutParallelism = (case pb_rolloutParallelism b of None \<Rightarrow> 32 | Some n \<Rightarrow> n)
      in case pb_rolloutExecutor b of
           None \<Rightarrow> Some (FixedRolloutPool rolloutParallelism (rolloutParallelism * 10))
         | Some e \<Rightarrow> None)"

definition kube_builder ::
  "('w, 'r, 'o, 'c) process_env \<Rightarrow> ('w, 'r, 'e, 'p, 'o) PlatformClientBuilder \<Rightarrow> ('w, 'r) KubernetesApi \<Rightarrow>
     bool \<Rightarrow> 'c ResourcesCache \<Rightarrow> ('w, 'r, 'e, 'p, 'c) KubernetesClientBuilder" where
  "kube_builder env b client bg2 cache =
     (let b0 = WithBG2Enabled (Some bg2) (WithCache (Some cache) (WithBadResources (pb_badResources b)
            (kube_WithWatchClientTimeout (case pb_watchClientTimeout b of None \<Rightarrow> time_Minute | Some t \<Rightarrow> t)
            (kube_WithWatchExecutor (pb_watchExecutor b) (kube_WithRolloutExecutor (rollout_executor b)
            (WithClient (Some client) (WithNamespace (setting (pb_namespace b) env ''microservice.namespace'')
               NewKubernetesClientBuilder)))))));
          systemType = setting (pb_gatewaySystemType b) env ''gateway.system.type'';
          b1 = (if systemType \<noteq> [] then WithGatewaySystemType systemType b0 else b0);
          systemNamespace = setting (pb_gatewaySystemNamespace b) env ''gateway.system.namespace'';
          b2 = (if systemNamespace \<noteq> [] then WithGatewaySystemNamespace systemNamespace b1 else b1);
          systemName = setting (pb_gatewaySystemName b) env ''gateway.system.name'';
          b3 = (if systemName \<noteq> [] then WithGatewaySystemName systemName b2 else b2);
          timeout = setting (pb_httpRouteIdleTimeout b) env HTTPRouteRequestIdleTimeoutProperty
      in if timeout \<noteq> [] then WithHTTPRouteRequestIdleTimeout timeout b3 else b3)"

datatype ('k, 'o) PlatformService = OnKubernetes 'k | OnOpenshift 'k 'o

text \<open>\<open>strings.ToUpper\<close> on ASCII.\<close>

definition ToUpper :: "string \<Rightarrow> string" where
  "ToUpper s = map (\<lambda>c. if CHR ''a'' \<le> c \<and> c \<le> CHR ''z'' then char_of (of_char c - 32 :: nat) else c) s"

definition createPlatformService ::
  "('w, 'r, 'o, 'c) process_env \<Rightarrow> ('w, 'r, 'e, 'p, 'o) PlatformClientBuilder \<Rightarrow> cache_heap \<Rightarrow>
     ('w, 'd, (('w, 'r, 'e, 'p, 'c) KubernetesClient, 'o) PlatformService) act" where
  "createPlatformService env b h =
     (case (case pb_platformType b of Some t \<Rightarrow> Some t | None \<Rightarrow> map_option ToUpper (pe_platform env)) of
        None \<Rightarrow> crash
      | Some platformType \<Rightarrow>
          (case (case pb_kubernetesApi b of Some c \<Rightarrow> Inr c | None \<Rightarrow> pe_kubernetesApi env) of
             Inl k8sClientErr \<Rightarrow> fail k8sClientErr
           | Inr client \<Rightarrow>
               bind_act (start_consul env (case pb_consul b of None \<Rightarrow> pe_consul env | Some s \<Rightarrow> s)) (\<lambda>bg2.
                 case initCaches env (h ! pb_caches b) (pb_cacheNumItems b) (pb_cacheMaxSizeInBytes b)
                        (pb_cacheMaxItemSizeInBytes b) (pb_cacheItemTTL b) of
                   Inl err \<Rightarrow> fail err
                 | Inr resourcesCache \<Rightarrow>
                     bind_act (Build (pe_build env) (kube_builder env b client bg2 resourcesCache)) (\<lambda>kubeClient.
                       if platformType = ''KUBERNETES'' then ret (OnKubernetes kubeClient)
                       else (case (case pb_openshiftApi b of Some o' \<Rightarrow> Inr o' | None \<Rightarrow> pe_openshiftApi env) of
                               Inl err \<Rightarrow> fail err
                             | Inr openshiftClient \<Rightarrow> ret (OnOpenshift kubeClient openshiftClient))))))"

end
