(* ===== verification/Client_Guarantees.thy ===== *)
theory Client_Guarantees
  imports Platform_Service Cache_Guarantees Route_Guarantees
begin

section \<open>Properties of the client and how it is built\<close>

text \<open>
  What \<open>Build\<close> of \<open>kubeService.go\<close> and \<open>createPlatformService\<close> of \<open>platformservice.go\<close> hand out,
  and what follows for the routes and watches of a client that was built.
\<close>

subsection \<open>What was built\<close>

lemma default_to_simps [simp]: "default_to d None = d" "default_to d (Some x) = x"
  by (simp_all add: default_to_def)

lemma applyDefaults_sel [simp]:
  "kb_namespace (applyDefaults b) = kb_namespace b"
  "kb_client (applyDefaults b) = kb_client b"
  "kb_watchClientTimeout (applyDefaults b) = kb_watchClientTimeout b"
  "kb_bg2Enabled (applyDefaults b) = kb_bg2Enabled b"
  "kb_httpRouteRequestIdleTimeout (applyDefaults b) = kb_httpRouteRequestIdleTimeout b"
  "gs_Type (kb_gatewaySystem (applyDefaults b)) = gs_Type (kb_gatewaySystem b)"
  "kb_cache (applyDefaults b) = Some (default_to no_caches (kb_cache b))"
  "kb_watchExecutor (applyDefaults b) = Some (default_to DefaultWatchExecutor (kb_watchExecutor b))"
  "kb_badResources (applyDefaults b) = Some (default_to NewBadRoutes (kb_badResources b))"
  "kb_rolloutExecutor (applyDefaults b) = Some (default_to (FixedRolloutPool 32 320) (kb_rolloutExecutor b))"
  by (simp_all add: applyDefaults_def default_to_def split: option.split)

lemma applyDefaults_gateway:
  "gs_Namespace (kb_gatewaySystem (applyDefaults b)) \<noteq> []"
  "gs_Name (kb_gatewaySystem (applyDefaults b)) \<noteq> []"
  by (simp_all add: applyDefaults_def DefaultGatewaySystemNamespace_def DefaultGatewaySystemName_def)

lemma Build_Ok:
  assumes "Build env builder s = (Ok c, s')"
  obtains client version s1 hs where "kb_client builder = Some client"
    and "kb_namespace builder \<noteq> []"
    and "validateHTTPRouteRequestIdleTimeout (applyDefaults builder) = None"
    and "api (ka_ServerVersion client) s = (Ok version, s1)"
    and "(if needsGatewayRoutesWatchers (applyDefaults builder)
          then enrichWatchHandlersWithGatewayRoutes env client (kb_namespace builder) (kb_watchClientTimeout builder)
                 (NewSharedWatchEventHandlers (kb_watchClientTimeout builder) (ka_CoreV1 client)
                    (ka_CertmanagerV1 client) (ka_NetworkingV1 client) (ka_ExtensionsV1beta1 client))
          else ret (NewSharedWatchEventHandlers (kb_watchClientTimeout builder) (ka_CoreV1 client)
                    (ka_CertmanagerV1 client) (ka_NetworkingV1 client) (ka_ExtensionsV1beta1 client))) s1 = (Ok hs, s')"
    and "NewCacheAdapters (be_errs env) (default_to no_caches (kb_cache builder)) (has_handler hs) (be_watch env) =
      (kc_CacheAdapters c, None)"
    and "kc_client c = client" and "kc_namespace c = kb_namespace builder" and "kc_WatchHandlers c = hs"
    and "kc_Cache c = default_to no_caches (kb_cache builder)"
    and "kc_WatchExecutor c = default_to DefaultWatchExecutor (kb_watchExecutor builder)"
    and "kc_BadResources c = default_to NewBadRoutes (kb_badResources builder)"
    and "kc_UseNetworkingV1Ingress c = (be_semver_Compare env version ''v1.22'' \<ge> 0)"
    and "kc_RolloutExecutor c = default_to (FixedRolloutPool 32 320) (kb_rolloutExecutor builder)"
    and "kc_BG2Enabled c = kb_bg2Enabled builder"
    and "kc_GatewaySystem c = kb_gatewaySystem (applyDefaults builder)"
    and "kc_HTTPRouteRequestIdleTimeout c = kb_httpRouteRequestIdleTimeout builder"
proof -
  from assms have ns: "kb_namespace builder \<noteq> []" by (auto simp: Build_def)
  from assms ns obtain client where cl: "kb_client builder = Some client"
    by (auto simp: Build_def split: option.splits)
  from assms ns cl have v: "validateHTTPRouteRequestIdleTimeout (applyDefaults builder) = None"
    by (auto simp: Build_def Let_def split: option.splits)
  from assms ns cl v show ?thesis
    unfolding Build_def Let_def
    by (auto elim!: bind_act_Ok split: prod.splits option.splits intro!: that)
qed

text \<open>
  C18: a client that was built names a namespace and a gateway, its default idle timeout is absent
  or a Gateway API duration, Ingresses go through the API its cluster has, and of its caches
  exactly those with a handler whose watch succeeded have an adapter.
\<close>

theorem built_client:
  assumes "Build env b s = (Ok c, s')"
  shows "kc_namespace c \<noteq> [] \<and> gs_Namespace (kc_GatewaySystem c) \<noteq> [] \<and> gs_Name (kc_GatewaySystem c) \<noteq> [] \<and>
    (kc_HTTPRouteRequestIdleTimeout c = [] \<or> IsValidGatewayAPIDuration (kc_HTTPRouteRequestIdleTimeout c)) \<and>
    (\<exists>version w. ka_ServerVersion (kc_client c) (ks_world s) = (Inr version, w) \<and>
       kc_UseNetworkingV1Ingress c = (be_semver_Compare env version ''v1.22'' \<ge> 0)) \<and>
    kc_CacheAdapters c = map fst (filter (\<lambda>(k, cached). cached \<and> has_handler (kc_WatchHandlers c) k
       \<and> be_watch env k = None) (cached_kinds (kc_Cache c)))"
proof -
  from assms obtain client version s1 hs where ns: "kb_namespace b \<noteq> []"
    and v: "validateHTTPRouteRequestIdleTimeout (applyDefaults b) = None"
    and a: "api (ka_ServerVersion client) s = (Ok version, s1)"
    and n: "NewCacheAdapters (be_errs env) (default_to no_caches (kb_cache b)) (has_handler hs) (be_watch env) =
      (kc_CacheAdapters c, None)"
    and c: "kc_client c = client" "kc_namespace c = kb_namespace b" "kc_WatchHandlers c = hs"
      "kc_Cache c = default_to no_caches (kb_cache b)"
      "kc_UseNetworkingV1Ingress c = (be_semver_Compare env version ''v1.22'' \<ge> 0)"
      "kc_GatewaySystem c = kb_gatewaySystem (applyDefaults b)"
      "kc_HTTPRouteRequestIdleTimeout c = kb_httpRouteRequestIdleTimeout b"
    by (rule Build_Ok)
  from a have "\<exists>w. ka_ServerVersion client (ks_world s) = (Inr version, w)"
    by (auto simp: api_def split: prod.splits sum.splits)
  moreover from v have "kb_httpRouteRequestIdleTimeout b = [] \<or> IsValidGatewayAPIDuration (kb_httpRouteRequestIdleTimeout b)"
    by (auto simp: validateHTTPRouteRequestIdleTimeout_def Let_def split: if_splits)
  moreover from NewCacheAdapters_ok [of "be_errs env" "default_to no_caches (kb_cache b)" "has_handler hs" "be_watch env"] n
  have "kc_CacheAdapters c = map fst (filter (\<lambda>(k, cached). cached \<and> has_handler hs k
       \<and> be_watch env k = None) (cached_kinds (default_to no_caches (kb_cache b))))" by simp
  ultimately show ?thesis using ns c applyDefaults_gateway [of b] a by (auto simp: api_def)
qed

text \<open>
  A cluster with the Gateway API and the given answer of the review of rights, and a builder with a
  cache for HTTPRoutes, if any.
\<close>

definition sample_api :: "(go_error + bool) \<Rightarrow> (unit, string) KubernetesApi" where
  "sample_api review = \<lparr> ka_ServerVersion = (\<lambda>w. (Inr ''v1.30.2'', w)),
     ka_GatewayKinds = (\<lambda>w. (Inr [''Gateway'', ''HTTPRoute'', ''GRPCRoute''], w)),
     ka_AccessReview = (\<lambda>_ _ w. (review, w)), ka_CoreV1 = ''core'', ka_CertmanagerV1 = ''cert'',
     ka_NetworkingV1 = ''net'', ka_ExtensionsV1beta1 = ''ext'', ka_GatewayV1 = Some (Some ''gateway'') \<rparr>"

definition sample_env :: build_env where
  "sample_env = \<lparr> be_errs = sample_errs, be_semver_Compare = (\<lambda>v w. if v = ''v1.30.2'' then 1 else -1),
     be_Install = None, be_toRoute = (\<lambda>h. Ret (RouteFromHTTPRoute h)), be_watch = (\<lambda>_. None) \<rparr>"

definition constant_json :: "HttpRoute json" where
  "constant_json = \<lparr> Marshal = (\<lambda>h. Inr ''route''), Unmarshal = (\<lambda>b. RouteWrapper None) \<rparr>"

definition sample_caches :: "bool \<Rightarrow> (string \<times> string) list ResourcesCache" where
  "sample_caches http = (if http then no_caches\<lparr>ch_HTTPRoute := Some (NewResourceCache ''HttpRoute''
     (newEntityAdapter constant_json table_adapter))\<rparr> else no_caches)"

type_synonym sample_builder = "(unit, string, unit, unit, (string \<times> string) list) KubernetesClientBuilder"

definition sample_builder :: "bool \<Rightarrow> (go_error + bool) \<Rightarrow> sample_builder" where
  "sample_builder http review =
     WithHTTPRouteRequestIdleTimeout '' 30m '' (WithGatewaySystemType ''gateway-api-default''
       (WithNamespace ''ns'' (WithClient (Some (sample_api review)) (WithCache (Some (sample_caches http))
          NewKubernetesClientBuilder))))"

abbreviation no_state :: "(unit, unit) kstate" where
  "no_state \<equiv> \<lparr> ks_world = (), ks_cache = () \<rparr>"

lemma no_state_unique: "s = (no_state :: (unit, unit) kstate)"
  by (cases s) simp

definition sample_client ::
  "bool \<Rightarrow> (go_error + bool) \<Rightarrow> (unit, string, unit, unit, (string \<times> string) list) KubernetesClient" where
  "sample_client http review =
     (case fst (Build sample_env (sample_builder http review) no_state) of Ok c \<Rightarrow> c)"

definition is_Ok :: "'a res \<Rightarrow> bool" where
  "is_Ok r = (case r of Ok _ \<Rightarrow> True | _ \<Rightarrow> False)"

lemma sample_client_built:
  assumes "is_Ok (fst (Build sample_env (sample_builder http review) no_state))"
  shows "Build sample_env (sample_builder http review) no_state = (Ok (sample_client http review), no_state)"
  using assms no_state_unique
  by (cases "Build sample_env (sample_builder http review) no_state")
    (auto simp: sample_client_def is_Ok_def split: res.splits)

theorem built_client_witness:
  "IsValidGatewayAPIDuration (kc_HTTPRouteRequestIdleTimeout (sample_client True (Inr True))) \<and>
   kc_CacheAdapters (sample_client True (Inr True)) = [HTTPRouteV1]"
proof -
  have "is_Ok (fst (Build sample_env (sample_builder True (Inr True)) no_state))" by code_simp
  note b = built_client [OF sample_client_built [OF this]]
  have "kc_HTTPRouteRequestIdleTimeout (sample_client True (Inr True)) \<noteq> []" by code_simp
  moreover have "map fst (filter (\<lambda>(k, cached). cached \<and> has_handler (kc_WatchHandlers (sample_client True (Inr True))) k
      \<and> be_watch sample_env k = None) (cached_kinds (kc_Cache (sample_client True (Inr True))))) = [HTTPRouteV1]"
    by code_simp
  ultimately show ?thesis using b by auto
qed

subsection \<open>When routes can be watched\<close>

text \<open>
  A cluster whose discovery and review of rights give constant answers. A kind of the Gateway API
  is usable when it is served, the review does not deny its watch (an error of the review does not
  count), and the client has a REST client for it.
\<close>

definition constant_answers ::
  "('w, 'r) KubernetesApi \<Rightarrow> string \<Rightarrow> go_error + string list \<Rightarrow> (string \<Rightarrow> go_error + bool) \<Rightarrow> bool" where
  "constant_answers client namespace kinds review \<longleftrightarrow>
     (\<forall>w. fst (ka_GatewayKinds client w) = kinds) \<and>
     (\<forall>resource w. fst (ka_AccessReview client namespace resource w) = review resource)"

definition usable_kind ::
  "('w, 'r) KubernetesApi \<Rightarrow> go_error + string list \<Rightarrow> (string \<Rightarrow> go_error + bool) \<Rightarrow> string \<Rightarrow> string \<Rightarrow> bool" where
  "usable_kind client kinds review kind resource \<longleftrightarrow>
     (case kinds of Inl _ \<Rightarrow> False | Inr ks \<Rightarrow> kind \<in> set ks) \<and> review resource \<noteq> Inr False \<and>
     gatewayRESTClient (Some client) \<noteq> None"

lemma hasKind_constant:
  assumes "constant_answers client ns kinds review"
  shows "\<exists>s'. hasKindGatewayApi kind client s =
    (Ok (case kinds of Inl _ \<Rightarrow> False | Inr ks \<Rightarrow> kind \<in> set ks), s')"
  using assms
  by (cases "ka_GatewayKinds client (ks_world s)")
    (auto simp: constant_answers_def hasKindGatewayApi_def try_act_def api_def list_ex_iff dest: spec [of _ "ks_world s"]
      split: sum.splits)

lemma canWatch_constant:
  assumes "constant_answers client ns kinds review"
  shows "\<exists>s'. canWatchGatewayResource client ns resource s =
    (Ok (case review resource of Inl _ \<Rightarrow> (False, False) | Inr allowed \<Rightarrow> (allowed, True)), s')"
proof -
  obtain r w where r: "ka_AccessReview client ns resource (ks_world s) = (r, w)" by force
  with assms have "r = review resource"
    unfolding constant_answers_def by (metis fst_conv)
  with r show ?thesis
    by (cases "review resource") (auto simp: canWatchGatewayResource_def try_act_def api_def)
qed

lemma register_constant:
  assumes "constant_answers client ns kinds review"
    and "registerGatewayRouteWatchHandler env client ns resource register hs s = (Ok hs', s')"
  shows "hs' = (if review resource = Inr False then hs
    else case gatewayRESTClient (Some client) of None \<Rightarrow> hs | Some c \<Rightarrow> register c hs)"
  using assms(2) canWatch_constant [OF assms(1), of resource s]
  by (auto simp: registerGatewayRouteWatchHandler_def bind_act_def split: sum.splits option.splits if_splits)

lemma enrich_constant:
  assumes c: "constant_answers client ns kinds review"
    and e: "enrichWatchHandlersWithGatewayRoutes env client ns timeout hs s = (Ok hs', s')"
  shows "wh_HTTPRouteAsRouteV1 hs' \<noteq> None \<longleftrightarrow>
      wh_HTTPRouteAsRouteV1 hs \<noteq> None \<or> usable_kind client kinds review ''HTTPRoute'' ''httproutes''"
    and "wh_HTTPRouteV1 hs' \<noteq> None \<longleftrightarrow>
      wh_HTTPRouteV1 hs \<noteq> None \<or> usable_kind client kinds review ''HTTPRoute'' ''httproutes''"
    and "wh_GRPCRouteV1 hs' \<noteq> None \<longleftrightarrow>
      wh_GRPCRouteV1 hs \<noteq> None \<or> usable_kind client kinds review ''GRPCRoute'' ''grpcroutes''"
proof -
  let ?served = "\<lambda>kind. case kinds of Inl _ \<Rightarrow> False | Inr ks \<Rightarrow> kind \<in> set ks"
  let ?r = "\<lambda>resource register hs. if review resource = Inr False then hs
    else case gatewayRESTClient (Some client) of None \<Rightarrow> hs | Some c \<Rightarrow> register c hs"
  from e obtain http s1 hs1 s2 grpc s3 where 1: "hasKindGatewayApi ''HTTPRoute'' client s = (Ok http, s1)"
    and h1: "(if http then registerGatewayRouteWatchHandler env client ns ''httproutes''
         (\<lambda>restClient. WithHTTPRouteV1 timeout restClient (be_toRoute env)) hs else ret hs) s1 = (Ok hs1, s2)"
    and 2: "hasKindGatewayApi ''GRPCRoute'' client s2 = (Ok grpc, s3)"
    and h2: "(if grpc then registerGatewayRouteWatchHandler env client ns ''grpcroutes''
         (\<lambda>restClient. WithGRPCRouteV1 timeout restClient) hs1 else ret hs1) s3 = (Ok hs', s')"
    unfolding enrichWatchHandlersWithGatewayRoutes_def by (elim bind_act_Ok)
  have "http = ?served ''HTTPRoute''" "grpc = ?served ''GRPCRoute''"
    using hasKind_constant [OF c, of "''HTTPRoute''" s] 1 hasKind_constant [OF c, of "''GRPCRoute''" s2] 2 by auto
  moreover have "hs1 = (if http then ?r ''httproutes''
      (\<lambda>restClient. WithHTTPRouteV1 timeout restClient (be_toRoute env)) hs else hs)"
    using h1 register_constant [OF c, of env "''httproutes''" "\<lambda>restClient. WithHTTPRouteV1 timeout restClient (be_toRoute env)"
        hs s1 hs1 s2] by (cases http) simp_all
  moreover have "hs' = (if grpc then ?r ''grpcroutes'' (\<lambda>restClient. WithGRPCRouteV1 timeout restClient) hs1 else hs1)"
    using h2 register_constant [OF c, of env "''grpcroutes''" "\<lambda>restClient. WithGRPCRouteV1 timeout restClient"
        hs1 s3 hs' s'] by (cases grpc) simp_all
  ultimately show "wh_HTTPRouteAsRouteV1 hs' \<noteq> None \<longleftrightarrow>
      wh_HTTPRouteAsRouteV1 hs \<noteq> None \<or> usable_kind client kinds review ''HTTPRoute'' ''httproutes''"
    and "wh_HTTPRouteV1 hs' \<noteq> None \<longleftrightarrow>
      wh_HTTPRouteV1 hs \<noteq> None \<or> usable_kind client kinds review ''HTTPRoute'' ''httproutes''"
    and "wh_GRPCRouteV1 hs' \<noteq> None \<longleftrightarrow>
      wh_GRPCRouteV1 hs \<noteq> None \<or> usable_kind client kinds review ''GRPCRoute'' ''grpcroutes''"
    by (auto simp: usable_kind_def WithHTTPRouteV1_def WithGRPCRouteV1_def split: sum.splits option.splits)
qed

text \<open>
  C21: with the Gateway API, the routes of a client that was built can be watched exactly when one
  of the caches for HTTPRoutes and GRPCRoutes is switched on and the cluster serves HTTPRoutes
  which the client may watch; where it cannot, every watch on routes is an error.
\<close>

theorem route_watch_available:
  assumes "Build env b s = (Ok c, s')" and "IsGatewayAPIEnabled (kc_GatewaySystem c)"
    and "constant_answers (kc_client c) (kc_namespace c) kinds review"
  shows "(\<exists>cid hs. WatchRoutes (kc_GatewaySystem c) (kc_UseNetworkingV1Ingress c) ns f None (kc_WatchHandlers c) =
       (Inr cid, hs)) \<longleftrightarrow>
     (ch_HTTPRoute (kc_Cache c) \<noteq> None \<or> ch_GRPCRoute (kc_Cache c) \<noteq> None) \<and>
     usable_kind (kc_client c) kinds review ''HTTPRoute'' ''httproutes''"
proof -
  have "wh_HTTPRouteAsRouteV1 (kc_WatchHandlers c) \<noteq> None \<longleftrightarrow>
     (ch_HTTPRoute (kc_Cache c) \<noteq> None \<or> ch_GRPCRoute (kc_Cache c) \<noteq> None) \<and>
     usable_kind (kc_client c) kinds review ''HTTPRoute'' ''httproutes''"
    using assms(1)
  proof (rule Build_Ok, goal_cases)
    case (1 client version s1 hs)
    let ?hs0 = "NewSharedWatchEventHandlers (kb_watchClientTimeout b) (ka_CoreV1 client)
                    (ka_CertmanagerV1 client) (ka_NetworkingV1 client) (ka_ExtensionsV1beta1 client)"
    have 0: "wh_HTTPRouteAsRouteV1 ?hs0 = None" by (simp add: NewSharedWatchEventHandlers_def)
    have n: "needsGatewayRoutesWatchers (applyDefaults b) \<longleftrightarrow>
        ch_HTTPRoute (kc_Cache c) \<noteq> None \<or> ch_GRPCRoute (kc_Cache c) \<noteq> None"
      using 1 by (simp add: needsGatewayRoutesWatchers_def)
    show ?case
    proof (cases "needsGatewayRoutesWatchers (applyDefaults b)")
      case True
      with 1 0 n enrich_constant(1) [of client "kb_namespace b" kinds review env "kb_watchClientTimeout b" ?hs0 s1 hs s'] assms(3)
      show ?thesis by auto
    next
      case False
      with 1 0 n show ?thesis by auto
    qed
  qed
  then show ?thesis
    using assms(2)
    by (auto simp: WatchRoutes_def handler_Watch_ok unsupported_def split: option.splits)
qed

theorem route_watch_available_witness:
  "\<forall>ns f. \<not> (\<exists>cid hs. WatchRoutes (kc_GatewaySystem (sample_client True (Inr False)))
     (kc_UseNetworkingV1Ingress (sample_client True (Inr False))) ns f None
     (kc_WatchHandlers (sample_client True (Inr False))) = (Inr cid, hs))"
proof -
  let ?kinds = "Inr [''Gateway'', ''HTTPRoute'', ''GRPCRoute''] :: go_error + string list"
  have b: "is_Ok (fst (Build sample_env (sample_builder True (Inr False)) no_state))"
    and g: "IsGatewayAPIEnabled (kc_GatewaySystem (sample_client True (Inr False)))" by code_simp+
  have c: "kc_client (sample_client True (Inr False)) = sample_api (Inr False)"
    using sample_client_built [OF b] by (rule Build_Ok) (simp add: sample_builder_def setter_defs)
  have a: "constant_answers (kc_client (sample_client True (Inr False)))
      (kc_namespace (sample_client True (Inr False))) ?kinds (\<lambda>_. Inr False)"
    by (simp add: c constant_answers_def sample_api_def)
  show ?thesis
    unfolding route_watch_available [OF sample_client_built [OF b] g a] by (simp add: usable_kind_def)
qed

subsection \<open>What a built client writes\<close>

text \<open>A duration has no space around it.\<close>

lemma IsValid_trimmed:
  assumes "IsValidGatewayAPIDuration t"
  shows "TrimSpace t = t"
proof -
  from assms obtain ps where ps: "1 \<le> length ps" "list_all duration_part ps" "t = concat ps"
    by (auto simp: IsValid_iff)
  have first: "p \<noteq> [] \<and> \<not> is_space (hd p) \<and> \<not> is_space (last p)" if "duration_part p" for p
  proof -
    from that obtain ds u where p: "p = ds @ u" "ds \<noteq> []" "list_all is_digit ds"
      and u: "u \<in> {''h'', ''m'', ''s'', ''ms''}" by (auto simp: duration_part_def)
    from p have "is_digit (hd p)" by (cases ds) auto
    then have "\<not> is_space (hd p)" by (auto simp: is_digit_def is_space_def)
    moreover have "\<not> is_space (last p)" using u p by (auto simp: is_space_def)
    ultimately show ?thesis using p by simp
  qed
  from ps obtain p qs where p: "ps = p # qs" by (cases ps) auto
  from ps have ne: "ps \<noteq> []" by auto
  with ps(2) have l: "duration_part (last ps)" by (simp add: list_all_iff)
  have "t = concat (butlast ps) @ last ps"
    using ne ps(3) append_butlast_last_id [OF ne] by (metis concat.simps concat_append append_Nil2)
  with first [OF l] have "t \<noteq> []" "\<not> is_space (last t)" by auto
  moreover have "\<not> is_space (hd t)" using first [of p] ps p by (simp add: hd_append)
  ultimately have "dropWhile is_space t = t" "dropWhile is_space (rev t) = rev t"
    by (simp_all add: dropWhile_eq_self_iff hd_rev)
  then show ?thesis by (simp add: TrimSpace_def)
qed

text \<open>
  a client that was built refuses the timeout of a route only when the route gives one itself
  that is not a duration, or when neither the route nor the client gives one and the legacy
  annotations amount to 100000 seconds or more; the default of the client is never the reason.
\<close>

theorem refused_timeouts:
  assumes "Build env b s = (Ok c, s')"
  shows "isl (ToBackendTrafficPolicy r (kc_HTTPRouteRequestIdleTimeout c)) \<longleftrightarrow>
    (if rs_StreamIdleTimeout (rt_Spec r) \<noteq> [] then \<not> IsValidGatewayAPIDuration (rs_StreamIdleTimeout (rt_Spec r))
     else kc_HTTPRouteRequestIdleTimeout c = [] \<and> 100000 \<le> legacy_seconds r)"
proof -
  let ?d = "kc_HTTPRouteRequestIdleTimeout c"
  have d: "?d = [] \<or> IsValidGatewayAPIDuration ?d"
    using assms
  proof (rule Build_Ok, goal_cases)
    case (1 client version s1 hs)
    then show ?case by (auto simp: validateHTTPRouteRequestIdleTimeout_def Let_def split: if_splits)
  qed
  have isl: "isl (ToBackendTrafficPolicy r ?d) \<longleftrightarrow> (\<nexists>t. resolveStreamIdleTimeout r ?d = Inr t)"
    by (cases "resolveStreamIdleTimeout r ?d") (simp_all add: ToBackendTrafficPolicy_def Let_def)
  show ?thesis
  proof (cases "?d = []")
    case True
    then have "TrimSpace ?d = []" by (simp add: TrimSpace_def)
    then show ?thesis
      unfolding isl resolve_iff using True IsValid_Itoa_seconds [of "legacy_seconds r"]
      by auto
  next
    case False
    with d have "TrimSpace ?d = ?d" "IsValidGatewayAPIDuration ?d" by (auto simp: IsValid_trimmed)
    with False show ?thesis unfolding isl resolve_iff by auto
  qed
qed

theorem refused_timeouts_witness:
  "\<not> isl (ToBackendTrafficPolicy slow_route (kc_HTTPRouteRequestIdleTimeout (sample_client True (Inr True))))"
proof -
  have "is_Ok (fst (Build sample_env (sample_builder True (Inr True)) no_state))"
    and "kc_HTTPRouteRequestIdleTimeout (sample_client True (Inr True)) \<noteq> []"
    and "rs_StreamIdleTimeout (rt_Spec slow_route) = []" by code_simp+
  with refused_timeouts [OF sample_client_built [of True "Inr True"]] show ?thesis by simp
qed

text \<open>
  The objects the Gateway API accepts, as far as its schema restricts what is written here; the
  grammars of host names and paths are parameters.
\<close>

definition wellformed_parent :: "ParentReference \<Rightarrow> bool" where
  "wellformed_parent p \<longleftrightarrow> pr_Name p \<noteq> [] \<and> pr_Namespace p \<noteq> Some []"

definition wellformed_session :: "SessionPersistence \<Rightarrow> bool" where
  "wellformed_session p \<longleftrightarrow> (case se_Type p of None \<Rightarrow> True | Some t \<Rightarrow> t = ''Cookie'' \<or> t = ''Header'') \<and>
     (case se_AbsoluteTimeout p of None \<Rightarrow> True | Some t \<Rightarrow> IsValidGatewayAPIDuration t)"

definition wellformed_backend :: "HTTPBackendRef \<Rightarrow> bool" where
  "wellformed_backend b \<longleftrightarrow> hb_Name b \<noteq> [] \<and>
     (case hb_Port b of None \<Rightarrow> hb_Kind b \<noteq> Some ''Service'' | Some p \<Rightarrow> 1 \<le> p \<and> p \<le> 65535) \<and>
     (case hb_Weight b of None \<Rightarrow> True | Some w \<Rightarrow> 0 \<le> w \<and> w \<le> 1000000)"

definition wellformed_rule :: "(string \<Rightarrow> bool) \<Rightarrow> HTTPRouteRule \<Rightarrow> bool" where
  "wellformed_rule valid_path rule \<longleftrightarrow> list_all wellformed_backend (hr_BackendRefs rule) \<and>
     list_all (\<lambda>m. case m of None \<Rightarrow> True | Some pm \<Rightarrow>
       (case pm_Type pm of None \<Rightarrow> True
        | Some t \<Rightarrow> t \<in> {''Exact'', ''PathPrefix''} \<and> (case pm_Value pm of None \<Rightarrow> True | Some v \<Rightarrow> valid_path v)
                   \<or> t = ''RegularExpression'')) (hr_Matches rule) \<and>
     (case hr_SessionPersistence rule of None \<Rightarrow> True | Some p \<Rightarrow> wellformed_session p)"

definition wellformed_httproute :: "(string \<Rightarrow> bool) \<Rightarrow> (string \<Rightarrow> bool) \<Rightarrow> HTTPRoute \<Rightarrow> bool" where
  "wellformed_httproute valid_host valid_path h \<longleftrightarrow> list_all wellformed_parent (ht_ParentRefs h) \<and>
     list_all valid_host (ht_Hostnames h) \<and> list_all (wellformed_rule valid_path) (ht_Rules h)"


text \<open>An age of a session cookie with six digits.\<close>

definition long_session :: Route where
  "long_session = sample_route\<lparr>rt_Metadata := (rt_Metadata sample_route)\<lparr>md_Annotations :=
     Some [(AnnotationAffinity, ''cookie''), (AnnotationSessionCookieMaxAge, ''172800'')]\<rparr>\<rparr>"


end
