(* ===== verification/Secret_Token.thy ===== *)
theory Secret_Token
  imports Kube_Resources
begin

section \<open>Token secrets of service accounts\<close>

text \<open>
  The second half of \<open>service/internal/kubernetes/secret.go\<close>: the secret with the token of a service
  account, which newer clusters have to be asked for. \<open>semver.Compare\<close> and the version of the server
  are parameters; the pauses between two reads take time but change nothing.
\<close>

definition ServiceAccountNameAnnotation :: string where
  "ServiceAccountNameAnnotation = ''kubernetes.io/service-account.name''"

definition SecretTypeServiceAccountTokenAnnotation :: string where
  "SecretTypeServiceAccountTokenAnnotation = ''kubernetes.io/service-account-token''"

definition GetKubernetesVersion :: "('w, string) io \<Rightarrow> ('w, 'c, string) act" where
  "GetKubernetesVersion ServerVersion = api ServerVersion"

fun getTokenSecretName :: "string \<Rightarrow> SecretInfo list \<Rightarrow> string" where
  "getTokenSecretName serviceAccount [] = []"
| "getTokenSecretName serviceAccount (secret # secrets) =
     (if Contains (si_Name secret) (serviceAccount @ ''-token'') then si_Name secret
      else getTokenSecretName serviceAccount secrets)"

text \<open>\<open>Data != nil && Data["token"] != nil\<close>\<close>

definition has_token :: "bytes gomap \<Rightarrow> bool" where
  "has_token data \<longleftrightarrow> (case gm_get data ''token'' of Some (Some _) \<Rightarrow> True | _ \<Rightarrow> False)"

text \<open>
  The loop that waits for the controller of the cluster to put the token into the secret. A secret
  that is gone is nil, and reading its data panics.
\<close>

fun wait_token :: "nat \<Rightarrow> ('w, 'c) Kubernetes \<Rightarrow> string \<Rightarrow> Secret \<Rightarrow> ('w, 'c, Secret) act" where
  "wait_token 0 k namespace createdSecret = ret createdSecret"
| "wait_token (Suc attempts) k namespace createdSecret =
     bind_act (GetSecret k (md_Name (sec_Metadata createdSecret)) namespace) (\<lambda>r.
       case r of
         None \<Rightarrow> crash
       | Some secret \<Rightarrow>
           if has_token (sec_Data secret) then ret secret else wait_token attempts k namespace secret)"

fun wait_account :: "nat \<Rightarrow> ('w, 'c) Kubernetes \<Rightarrow> string \<Rightarrow> string \<Rightarrow> ('w, 'c, string) act" where
  "wait_account 0 k serviceAccountName namespace = ret []"
| "wait_account (Suc attempts) k serviceAccountName namespace =
     bind_act (GetServiceAccount k serviceAccountName namespace) (\<lambda>r.
       case r of
         None \<Rightarrow> crash
       | Some sa \<Rightarrow>
           let secretName = getTokenSecretName serviceAccountName (sa_Secrets sa)
           in if secretName \<noteq> [] then ret secretName else wait_account attempts k serviceAccountName namespace)"

definition token_secret :: "string \<Rightarrow> string \<Rightarrow> v1_Secret" where
  "token_secret serviceAccountName namespace = \<lparr>
     vsec_Meta = ToObjectMeta (NewMetadata [] (serviceAccountName @ ''-token'') namespace [] 0 []
       (Some [(ServiceAccountNameAnnotation, serviceAccountName)]) None),
     vsec_Data = None, vsec_Type = SecretTypeServiceAccountTokenAnnotation \<rparr>"

definition token_timeout :: "string \<Rightarrow> go_error" where
  "token_timeout name = Errorf (''failed to wait for secret '' @ [CHR 0x27] @ name @ [CHR 0x27] @ '' to contain non empty token'') []"

definition create_token_secret :: "('w, 'c) Kubernetes \<Rightarrow> string \<Rightarrow> string \<Rightarrow> ('w, 'c, Secret option) act" where
  "create_token_secret k serviceAccountName namespace =
     bind_act (UpdateOrCreateSecret k (NewSecret (token_secret serviceAccountName namespace)) namespace)
       (\<lambda>created. bind_act (wait_token 30 k namespace created) (\<lambda>secret.
          if has_token (sec_Data secret) then ret (Some secret)
          else fail (token_timeout (md_Name (sec_Metadata secret)))))"

definition token_filter :: "string \<Rightarrow> filter_Meta" where
  "token_filter serviceAccountName = \<lparr> fm_Labels = None,
     fm_Annotations = Some [(ServiceAccountNameAnnotation, serviceAccountName)], fm_WatchBookmark = False \<rparr>"

text \<open>Clusters from 1.24 on: the secrets are searched by annotation.\<close>

definition token_directly :: "('w, 'c) Kubernetes \<Rightarrow> string \<Rightarrow> string \<Rightarrow> ('w, 'c) kstate \<Rightarrow>
    (Secret option res \<times> ('w, 'c) kstate) option" where
  "token_directly k serviceAccountName namespace s =
     (case GetSecretList k namespace (token_filter serviceAccountName) s of
        None \<Rightarrow> None
      | Some (Err e, s') \<Rightarrow> Some (Err e, s')
      | Some (Crash, s') \<Rightarrow> Some (Crash, s')
      | Some (Ok secretList, s') \<Rightarrow>
          (case secretList of
             [secret] \<Rightarrow> Some (Ok (Some secret), s')
           | [] \<Rightarrow> Some (create_token_secret k serviceAccountName namespace s')
           | _ \<Rightarrow> Some (Err (Errorf ''failed to get service account token secret. multiple secrets found'' []), s')))"

text \<open>Older clusters: the account names its secret.\<close>

definition token_of_account :: "('w, 'c) Kubernetes \<Rightarrow> string \<Rightarrow> string \<Rightarrow> ('w, 'c, Secret option) act" where
  "token_of_account k serviceAccountName namespace =
     bind_act (wait_account 30 k serviceAccountName namespace) (\<lambda>secretName.
       if secretName = [] then
         fail (Errorf (''failed to wait for service account '' @ [CHR 0x27] @ serviceAccountName @ [CHR 0x27]
           @ '' to contain secret with token'') [])
       else GetSecret k secretName namespace)"

definition GetOrCreateSecretWithServiceAccountToken ::
  "(string \<Rightarrow> string \<Rightarrow> int) \<Rightarrow> ('w, string) io \<Rightarrow> ('w, 'c) Kubernetes \<Rightarrow> string \<Rightarrow> string \<Rightarrow> ('w, 'c) kstate \<Rightarrow>
     (Secret option res \<times> ('w, 'c) kstate) option" where
  "GetOrCreateSecretWithServiceAccountToken semver_Compare ServerVersion k serviceAccountName namespace s =
     (case GetKubernetesVersion ServerVersion s of
        (Err e, s') \<Rightarrow> Some (Err e, s')
      | (Crash, s') \<Rightarrow> Some (Crash, s')
      | (Ok kubernetesVersion, s') \<Rightarrow>
          if semver_Compare kubernetesVersion ''v1.24'' \<ge> 0
          then token_directly k serviceAccountName namespace s'
          else Some (token_of_account k serviceAccountName namespace s'))"

subsection \<open>Laws\<close>

text \<open>Successive answers to the same read, while the controllers of the cluster go on working.\<close>

inductive polls :: "('w, 'f) io \<Rightarrow> 'w \<Rightarrow> 'f list \<Rightarrow> 'w \<Rightarrow> bool" for read where
  polls_Nil: "polls read w [] w"
| polls_Cons: "read w = (Inr x, w1) \<Longrightarrow> polls read w1 xs w2 \<Longrightarrow> polls read w (x # xs) w2"

inductive_cases polls_ConsE: "polls read w (x # xs) w2"
inductive_cases polls_NilE: "polls read w [] w2"

lemma polls_one: "read w = (Inr x, w1) \<Longrightarrow> polls read w [x] w1"
  by (blast intro: polls.intros)

lemma GetSecret_ok:
  "cl_Get (k_Secrets k ns) name (ks_world s) = (Inr x, w) \<Longrightarrow>
   GetSecret k name ns s = (Ok (Some (NewSecret x)), s\<lparr>ks_world := w\<rparr>)"
  by (simp add: GetSecret_def GetWrapper_ok total_def)

lemma GetSecret_gone:
  "cl_Get (k_Secrets k ns) name (ks_world s) = (Inl e, w) \<Longrightarrow> IsNotFound (k_errs k) e \<Longrightarrow>
   GetSecret k name ns s = (Ok None, s\<lparr>ks_world := w\<rparr>)"
  by (simp add: GetSecret_def GetWrapper_error)

lemma NewSecret_sel [simp]:
  "md_Name (sec_Metadata (NewSecret x)) = om_Name (vsec_Meta x)" "sec_Data (NewSecret x) = vsec_Data x"
  by (simp_all add: NewSecret_def)

text \<open>
  Reading goes on as long as the answers have no token; \<open>last_secret\<close> is the secret read last.
\<close>

lemma wait_token_polls:
  assumes "polls (cl_Get (k_Secrets k ns) name) w xs w'"
  shows "md_Name (sec_Metadata c) = name \<Longrightarrow> ks_world s = w \<Longrightarrow>
    \<forall>x \<in> set xs. om_Name (vsec_Meta x) = name \<and> \<not> has_token (vsec_Data x) \<Longrightarrow>
    wait_token (length xs + n) k ns c s =
      wait_token n k ns (if xs = [] then c else NewSecret (last xs)) (s\<lparr>ks_world := w'\<rparr>)"
  using assms
proof (induction arbitrary: c s)
  case (polls_Nil w)
  then show ?case by (cases s) auto
next
  case (polls_Cons w x w1 xs w2)
  from polls_Cons.hyps(1) polls_Cons.prems(1,2)
  have "GetSecret k (md_Name (sec_Metadata c)) ns s = (Ok (Some (NewSecret x)), s\<lparr>ks_world := w1\<rparr>)"
    by (simp add: GetSecret_ok)
  with polls_Cons.prems(3) have "wait_token (length (x # xs) + n) k ns c s =
      wait_token (length xs + n) k ns (NewSecret x) (s\<lparr>ks_world := w1\<rparr>)"
    by (simp add: bind_act_def)
  with polls_Cons.IH [of "NewSecret x" "s\<lparr>ks_world := w1\<rparr>"] polls_Cons.prems(3) show ?case by simp
qed

lemma wait_token_found:
  assumes "polls (cl_Get (k_Secrets k ns) name) (ks_world s) xs w1"
    and "cl_Get (k_Secrets k ns) name w1 = (Inr x, w2)" and "has_token (vsec_Data x)"
    and "md_Name (sec_Metadata c) = name"
    and "\<forall>x \<in> set xs. om_Name (vsec_Meta x) = name \<and> \<not> has_token (vsec_Data x)"
  shows "wait_token (length xs + Suc n) k ns c s = (Ok (NewSecret x), s\<lparr>ks_world := w2\<rparr>)"
proof -
  have "md_Name (sec_Metadata (if xs = [] then c else NewSecret (last xs))) = name"
    using assms(4,5) by simp
  with assms(2,3) show ?thesis
    unfolding wait_token_polls [OF assms(1,4) refl assms(5)] by (simp add: GetSecret_ok bind_act_def)
qed

lemma wait_token_vanished:
  assumes "polls (cl_Get (k_Secrets k ns) name) (ks_world s) xs w1"
    and "cl_Get (k_Secrets k ns) name w1 = (Inl e, w2)" and "IsNotFound (k_errs k) e"
    and "md_Name (sec_Metadata c) = name"
    and "\<forall>x \<in> set xs. om_Name (vsec_Meta x) = name \<and> \<not> has_token (vsec_Data x)"
  shows "wait_token (length xs + Suc n) k ns c s = (Crash, s\<lparr>ks_world := w2\<rparr>)"
proof -
  have "md_Name (sec_Metadata (if xs = [] then c else NewSecret (last xs))) = name"
    using assms(4,5) by simp
  with assms(2,3) show ?thesis
    unfolding wait_token_polls [OF assms(1,4) refl assms(5)] by (simp add: GetSecret_gone bind_act_def)
qed

end
