(* ===== verification/Platform_Guarantees.thy ===== *)
theory Platform_Guarantees
  imports Client_Guarantees Secret_Token
begin

section \<open>Properties of token secrets, bad routes, the OpenShift client and the platform service\<close>

text \<open>
  What waiting for the token of a service account comes to (\<open>secret.go\<close>), what the table of bad
  routes holds (\<open>kubeService.go\<close>), how the OpenShift client differs from the Kubernetes one
  (\<open>openshiftV3/\<close>), and what the builder of the platform passes on (\<open>builder.go\<close>,
  \<open>platformservice.go\<close>).
\<close>

subsection \<open>Token secrets\<close>

lemma token_created:
  assumes "GetKubernetesVersion ServerVersion s = (Ok v, s1)" and "semver_Compare v ''v1.24'' \<ge> 0"
    and "GetSecretList k ns (token_filter account) s1 = Some (Ok [], s2)"
  shows "GetOrCreateSecretWithServiceAccountToken semver_Compare ServerVersion k account ns s =
    Some (create_token_secret k account ns s2)"
  using assms by (simp add: GetOrCreateSecretWithServiceAccountToken_def token_directly_def)

text \<open>
  C27: on a cluster from 1.24 on, a service account without a token secret gets one, and the answer
  is the first version of it with a token that is read; after thirty reads without a token it is an
  error, and if the secret vanishes in between the client panics.
\<close>

theorem token_secret_wait:
  assumes "GetKubernetesVersion ServerVersion s = (Ok v, s1)" and "semver_Compare v ''v1.24'' \<ge> 0"
    and "GetSecretList k ns (token_filter account) s1 = Some (Ok [], s2)"
    and "UpdateOrCreateSecret k (NewSecret (token_secret account ns)) ns s2 = (Ok created, s3)"
    and "polls (cl_Get (k_Secrets k ns) (md_Name (sec_Metadata created))) (ks_world s3) xs w"
    and "\<forall>x \<in> set xs. om_Name (vsec_Meta x) = md_Name (sec_Metadata created) \<and> \<not> has_token (vsec_Data x)"
  shows "(length xs = 30 \<longrightarrow>
      GetOrCreateSecretWithServiceAccountToken semver_Compare ServerVersion k account ns s =
        Some (Err (token_timeout (md_Name (sec_Metadata created))), s3\<lparr>ks_world := w\<rparr>)) \<and>
    (length xs < 30 \<longrightarrow>
      (\<forall>x w'. cl_Get (k_Secrets k ns) (md_Name (sec_Metadata created)) w = (Inr x, w') \<longrightarrow> has_token (vsec_Data x) \<longrightarrow>
         GetOrCreateSecretWithServiceAccountToken semver_Compare ServerVersion k account ns s =
           Some (Ok (Some (NewSecret x)), s3\<lparr>ks_world := w'\<rparr>)) \<and>
      (\<forall>e w'. cl_Get (k_Secrets k ns) (md_Name (sec_Metadata created)) w = (Inl e, w') \<longrightarrow> IsNotFound (k_errs k) e \<longrightarrow>
         GetOrCreateSecretWithServiceAccountToken semver_Compare ServerVersion k account ns s =
           Some (Crash, s3\<lparr>ks_world := w'\<rparr>)))"
proof -
  let ?n = "md_Name (sec_Metadata created)"
  have c: "create_token_secret k account ns s2 =
      bind_act (wait_token 30 k ns created) (\<lambda>secret. if has_token (sec_Data secret) then ret (Some secret)
         else fail (token_timeout (md_Name (sec_Metadata secret)))) s3"
    using assms(4) by (simp add: create_token_secret_def bind_act_cong_simps)
  have 30: "wait_token 30 k ns created s3 = (Ok (NewSecret (last xs)), s3\<lparr>ks_world := w\<rparr>) \<and>
      om_Name (vsec_Meta (last xs)) = ?n \<and> \<not> has_token (vsec_Data (last xs))" if "length xs = 30"
  proof -
    from that have "xs \<noteq> []" by auto
    with wait_token_polls [OF assms(5) refl refl assms(6), of 0] that assms(6) show ?thesis by simp
  qed
  have less: "\<exists>n. 30 = length xs + Suc n" if "length xs < 30"
    using that less_imp_Suc_add [OF that] by auto
  show ?thesis
    unfolding token_created [where semver_Compare = semver_Compare, OF assms(1-3)] c
  proof (intro conjI impI allI)
    assume "length xs = 30"
    with 30 show "Some (bind_act (wait_token 30 k ns created) (\<lambda>secret. if has_token (sec_Data secret) then ret (Some secret)
         else fail (token_timeout (md_Name (sec_Metadata secret)))) s3) =
        Some (Err (token_timeout ?n), s3\<lparr>ks_world := w\<rparr>)"
      by (simp add: bind_act_cong_simps)
  next
    fix x w'
    assume "length xs < 30" and x: "cl_Get (k_Secrets k ns) ?n w = (Inr x, w')" "has_token (vsec_Data x)"
    with less obtain n where n: "30 = length xs + Suc n" by blast
    show "Some (bind_act (wait_token 30 k ns created) (\<lambda>secret. if has_token (sec_Data secret) then ret (Some secret)
         else fail (token_timeout (md_Name (sec_Metadata secret)))) s3) =
        Some (Ok (Some (NewSecret x)), s3\<lparr>ks_world := w'\<rparr>)"
      unfolding n using wait_token_found [OF assms(5) x refl assms(6), of n] x(2) by (simp add: bind_act_cong_simps)
  next
    fix e w'
    assume "length xs < 30" and e: "cl_Get (k_Secrets k ns) ?n w = (Inl e, w')" "IsNotFound (k_errs k) e"
    with less obtain n where n: "30 = length xs + Suc n" by blast
    show "Some (bind_act (wait_token 30 k ns created) (\<lambda>secret. if has_token (sec_Data secret) then ret (Some secret)
         else fail (token_timeout (md_Name (sec_Metadata secret)))) s3) =
        Some (Crash, s3\<lparr>ks_world := w'\<rparr>)"
      unfolding n using wait_token_vanished [OF assms(5) e refl assms(6), of n] by (simp add: bind_act_cong_simps)
  qed
qed

text \<open>A cluster whose controller puts the token into a secret after it was read once.\<close>

definition slow_secrets :: "(sample_world, v1_Secret) client" where
  "slow_secrets = (k_Secrets (sample_kube gateway_mode) ''ns'')\<lparr>cl_Get := (\<lambda>n w.
     case map_of (sm_Secrets w) n of
       None \<Rightarrow> (Inl (no_such n), w)
     | Some x \<Rightarrow> (Inr x, w\<lparr>sm_Secrets := AList.update n (x\<lparr>vsec_Data := Some [(''token'', Some ''abc'')]\<rparr>) (sm_Secrets w)\<rparr>))\<rparr>"

definition slow_kube :: "(sample_world, unit) Kubernetes" where
  "slow_kube = (sample_kube gateway_mode)\<lparr>k_Secrets := (\<lambda>_. slow_secrets)\<rparr>"

definition token_created_state :: "(sample_world, unit) kstate" where
  "token_created_state =
     snd (UpdateOrCreateSecret slow_kube (NewSecret (token_secret ''deployer'' ''ns'')) ''ns'' sample_state)"

definition slow_read :: "sample_world \<Rightarrow> (go_error + v1_Secret) \<times> sample_world" where
  "slow_read = cl_Get slow_secrets ''deployer-token''"

definition read_secret :: "sample_world \<Rightarrow> v1_Secret" where
  "read_secret w = (case fst (slow_read w) of Inr x \<Rightarrow> x | Inl e \<Rightarrow> token_secret [] [])"

lemma slow_read_Inr: "\<not> isl (fst (slow_read w)) \<Longrightarrow> slow_read w = (Inr (read_secret w), snd (slow_read w))"
  by (cases "slow_read w"; cases "fst (slow_read w)") (auto simp: read_secret_def)

theorem token_secret_wait_witness:
  "\<exists>secret s. GetOrCreateSecretWithServiceAccountToken (\<lambda>v w. 1) (\<lambda>w. (Inr ''v1.30.2'', w)) slow_kube ''deployer'' ''ns''
     sample_state = Some (Ok (Some secret), s) \<and> has_token (sec_Data secret)"
proof -
  let ?new = "NewSecret (token_secret ''deployer'' ''ns'')"
  let ?w = "ks_world token_created_state" and ?w1 = "snd (slow_read (ks_world token_created_state))"
  have v: "GetKubernetesVersion (\<lambda>w. (Inr ''v1.30.2'', w)) sample_state = (Ok ''v1.30.2'', sample_state)"
    by (simp add: GetKubernetesVersion_def api_def)
  have l: "GetSecretList slow_kube ''ns'' (token_filter ''deployer'') sample_state = Some (Ok [], sample_state)"
    by (simp add: GetSecretList_def ListWrapper_def slow_kube_def slow_secrets_def sample_kube_def table_client_def
        token_filter_def numeral_eq_Suc Let_def api_def convert_items_def sample_state_def empty_world_def
        listLimited.simps)
  have "case fst (UpdateOrCreateSecret slow_kube ?new ''ns'' sample_state) of
      Ok x \<Rightarrow> md_Name (sec_Metadata x) = ''deployer-token'' | _ \<Rightarrow> False" by code_simp
  then obtain created where u: "UpdateOrCreateSecret slow_kube ?new ''ns'' sample_state = (Ok created, token_created_state)"
    and n: "md_Name (sec_Metadata created) = ''deployer-token''"
    by (cases "UpdateOrCreateSecret slow_kube ?new ''ns'' sample_state")
      (auto simp: token_created_state_def split: res.splits)
  have read: "cl_Get (k_Secrets slow_kube ''ns'') (md_Name (sec_Metadata created)) = slow_read"
    by (simp add: n slow_kube_def slow_read_def)
  have r: "\<not> isl (fst (slow_read ?w))" "\<not> isl (fst (slow_read ?w1))"
    and x: "om_Name (vsec_Meta (read_secret ?w)) = ''deployer-token''" "\<not> has_token (vsec_Data (read_secret ?w))"
    and t: "has_token (vsec_Data (read_secret ?w1))"
    by code_simp+
  have p: "polls (cl_Get (k_Secrets slow_kube ''ns'') (md_Name (sec_Metadata created))) ?w [read_secret ?w] ?w1"
    unfolding read by (rule polls_one [where read = slow_read, OF slow_read_Inr [OF r(1)]])
  show ?thesis
    using token_secret_wait [where semver_Compare = "\<lambda>v w. 1", OF v _ l u p]
      slow_read_Inr [OF r(2)] x t n read by fastforce
qed

subsection \<open>Bad routes\<close>

text \<open>
  whatever was added and deleted, the table answers like the set of routes it stands for, and
  its copy lists every namespace with a bad route once, with each of its bad routes once, and no
  other namespace.
\<close>

theorem bad_routes_refine:
  "(bad_Exists ns n (bad_history ops) \<longleftrightarrow> (ns, n) \<in> bad_spec ops) \<and>
   distinct (map fst (ToSliceMap (bad_history ops))) \<and>
   fst ` set (ToSliceMap (bad_history ops)) = fst ` bad_spec ops \<and>
   list_all (\<lambda>(ns, names). distinct names \<and> set names = {n. (ns, n) \<in> bad_spec ops}) (ToSliceMap (bad_history ops))"
proof -
  let ?t = "bad_history ops"
  have ok: "bad_ok ?t" and names: "bad_names ?t = bad_spec ops"
    unfolding bad_history_def bad_spec_def by (simp_all only: bad_table.fold_empty)
  have ex: "bad_Exists ns n ?t \<longleftrightarrow> (ns, n) \<in> bad_spec ops"
    unfolding bad_history_def bad_spec_def by (rule bad_table.fold_exists)
  from ok have d: "distinct (map fst ?t)" by (simp add: bad_ok_def)
  have spec: "(m, n) \<in> bad_spec ops \<longleftrightarrow> (\<exists>ys. map_of ?t m = Some ys \<and> n \<in> set ys)" for m n
    unfolding names [symmetric] bad_names_def by simp
  have entry: "ys \<noteq> [] \<and> distinct ys \<and> set ys = {n. (m, n) \<in> bad_spec ops}" if "(m, ys) \<in> set ?t" for m ys
  proof -
    from that d have m: "map_of ?t m = Some ys" by simp
    with ok have "ys \<noteq> [] \<and> distinct ys" by (simp add: bad_ok_def)
    with m show ?thesis by (simp add: spec)
  qed
  have "m \<in> fst ` set ?t" if "(m, n) \<in> bad_spec ops" for m n
  proof -
    from that obtain ys where "map_of ?t m = Some ys" by (auto simp: spec)
    from image_eqI [OF _ map_of_SomeD [OF this], of m fst] show ?thesis by simp
  qed
  moreover have "m \<in> fst ` bad_spec ops" if m: "(m, ys) \<in> set ?t" for m ys
  proof -
    from entry [OF m] obtain n where "n \<in> set ys" by (cases ys) auto
    with entry [OF m] have "(m, n) \<in> bad_spec ops" by simp
    from image_eqI [OF _ this, of m fst] show ?thesis by simp
  qed
  ultimately have "fst ` set ?t = fst ` bad_spec ops"
    by (intro subset_antisym image_subsetI) (simp_all add: split_paired_all)
  moreover have "list_all (\<lambda>(ns, names). distinct names \<and> set names = {n. (ns, n) \<in> bad_spec ops}) ?t"
    using entry by (auto simp only: list_all_iff split_beta prod.collapse)
  ultimately show ?thesis using ex d by (simp only: ToSliceMap_id simp_thms)
qed

subsection \<open>OpenShift\<close>

text \<open>
  with the Gateway API a read of a route on OpenShift never looks at OpenShift's own routes,
  since a missing HTTPRoute is an error; with Ingresses alone it does whenever the Ingress is
  missing.
\<close>

theorem openshift_route_fallback:
  "(IsGatewayAPIEnabled (k_GatewaySystem k) \<longrightarrow> os_GetRoute os k name ns s = GetRoute k name ns s) \<and>
   (\<forall>s1. GetRoute k name ns s = (Ok None, s1) \<longrightarrow>
     (\<forall>x w. cl_Get (os_RouteV1Client os ns) name (ks_world s1) = (Inr x, w) \<longrightarrow>
        os_GetRoute os k name ns s = (Ok (Some (RouteFromOsRoute x)), s1\<lparr>ks_world := w\<rparr>)) \<and>
     (\<forall>e w. cl_Get (os_RouteV1Client os ns) name (ks_world s1) = (Inl e, w) \<longrightarrow> IsNotFound (k_errs k) e \<longrightarrow>
        os_GetRoute os k name ns s = (Ok None, s1\<lparr>ks_world := w\<rparr>)))"
proof (intro conjI impI allI)
  assume g: "IsGatewayAPIEnabled (k_GatewaySystem k)"
  have "\<not> (\<exists>s1. GetRoute k name ns s = (Ok None, s1))"
    using g by (auto simp: GetRoute_def elim!: bind_act_Ok split: option.splits)
  then show "os_GetRoute os k name ns s = GetRoute k name ns s"
    by (auto simp: os_GetRoute_def bind_act_def split: prod.splits res.splits option.splits)
next
  fix s1 x w
  assume "GetRoute k name ns s = (Ok None, s1)" "cl_Get (os_RouteV1Client os ns) name (ks_world s1) = (Inr x, w)"
  then show "os_GetRoute os k name ns s = (Ok (Some (RouteFromOsRoute x)), s1\<lparr>ks_world := w\<rparr>)"
    by (rule os_GetRoute_missing)
next
  fix s1 e w
  assume "GetRoute k name ns s = (Ok None, s1)" "cl_Get (os_RouteV1Client os ns) name (ks_world s1) = (Inl e, w)"
    "IsNotFound (k_errs k) e"
  then show "os_GetRoute os k name ns s = (Ok None, s1\<lparr>ks_world := w\<rparr>)"
    by (simp add: os_GetRoute_def bind_act_cong_simps GetWrapper_error)
qed

definition shop_os_route :: os_Route where
  "shop_os_route = ToOsRoute sample_route"

definition sample_openshift :: "sample_world OpenshiftV3Client" where
  "sample_openshift = \<lparr>
     os_RouteV1Client = (\<lambda>_. (table_client (\<lambda>_. []) (\<lambda>_. []) (\<lambda>_ w. w))\<lparr>cl_Get := (\<lambda>n w. (Inr shop_os_route, w))\<rparr>),
     os_ProjectV1Client = (\<lambda>w. (Inr [], w)),
     os_DeploymentConfigs = (\<lambda>_. table_client (\<lambda>_. []) (\<lambda>_. []) (\<lambda>_ w. w)),
     os_Instantiate = (\<lambda>_ n w. (Inl (no_such n), w)), os_PostInstantiate = (\<lambda>_ n w. (Inl (no_such n), w)),
     os_ReplicationControllers = (\<lambda>_ w. (Inr [], w)) \<rparr>"

theorem openshift_route_fallback_witness:
  "os_GetRoute sample_openshift (sample_kube \<lparr> gs_Type = [], gs_Namespace = [], gs_Name = [] \<rparr>) ''shop'' ''ns'' sample_state =
     (Ok (Some (RouteFromOsRoute shop_os_route)), sample_state) \<and>
   os_GetRoute sample_openshift (sample_kube gateway_mode) ''shop'' ''ns'' sample_state =
     GetRoute (sample_kube gateway_mode) ''shop'' ''ns'' sample_state"
proof -
  let ?k = "sample_kube \<lparr> gs_Type = [], gs_Namespace = [], gs_Name = [] \<rparr>"
  have "GetRoute ?k ''shop'' ''ns'' sample_state = (Ok None, sample_state)"
    by (simp add: GetRoute_def IsGatewayAPIEnabled_def GetWrapper_def try_act_def api_def sample_kube_def table_client_def
        sample_state_def empty_world_def)
  moreover have "cl_Get (os_RouteV1Client sample_openshift ''ns'') ''shop'' (ks_world sample_state) =
      (Inr shop_os_route, ks_world sample_state)" by (simp add: sample_openshift_def)
  moreover have "sample_state\<lparr>ks_world := ks_world sample_state\<rparr> = sample_state" by (simp add: sample_state_def)
  ultimately show ?thesis
    using openshift_route_fallback [of ?k sample_openshift "''shop''" "''ns''" sample_state]
      openshift_route_fallback [of "sample_kube gateway_mode" sample_openshift "''shop''" "''ns''" sample_state]
    by auto
qed

text \<open>
  C37: a deployment config that neither of the two requests could instantiate is answered with nil
  and no error, so that the restart of several deployments which includes it reports success and
  leaves it out.
\<close>

theorem failed_instantiate_is_no_error:
  assumes "os_ReplicationControllers os ns (ks_world s) = (Inr rcs, w1)"
    and "\<exists>rc \<in> set rcs. HasPrefix (vrc_Name rc) name"
    and "os_ReplicationControllers os ns w1 = (Inr rcs1, w2)"
    and "latest_controller name rcs1 (-1) zero_ReplicationController = Inr active"
    and "os_Instantiate os ns name w2 = (Inl e, w3)" and "os_PostInstantiate os ns name w3 = (Inl e', w4)"
  shows "os_RolloutDeployment os a name ns s = Some (Ok None, s\<lparr>ks_world := w4\<rparr>) \<and>
    (\<forall>others results. (\<forall>x \<in> set others. \<exists>d. x = Ok d) \<longrightarrow>
       pool_submits (map os_rollout_task (Ok None # others)) results \<longrightarrow>
       (\<exists>r. os_rollout_response (Inr results) = Inr r \<and>
          image_mset (\<lambda>d. Ok (Some d)) (mset (drs_Deployments r)) = filter_mset (\<lambda>x. x \<noteq> Ok None) (mset others)))"
proof (intro conjI allI impI)
  have ex: "list_ex (\<lambda>rc. HasPrefix (vrc_Name rc) name) rcs" using assms(2) by (simp add: list_ex_iff)
  have d: "deploymentConfigIsExist os ns name s = (Ok True, s\<lparr>ks_world := w1\<rparr>)"
    using assms(1) ex by (simp add: deploymentConfigIsExist_def bind_act_def api_def)
  have g: "getLatestReplicationController os ns name (s\<lparr>ks_world := w1\<rparr>) = (Ok active, s\<lparr>ks_world := w2\<rparr>)"
    using assms(3,4) by (simp add: getLatestReplicationController_def bind_act_def api_def)
  have i: "instantiated os ns name (s\<lparr>ks_world := w2\<rparr>) = (Ok False, s\<lparr>ks_world := w4\<rparr>)"
    using assms(5,6) by (simp add: instantiated_def try_act_def api_def)
  show "os_RolloutDeployment os a name ns s = Some (Ok None, s\<lparr>ks_world := w4\<rparr>)"
    using d g i by (simp add: os_RolloutDeployment_def rollout_config_def bind_loop_def done_act_def)
next
  fix others :: "DeploymentRollout option res list" and results
  assume oks: "\<forall>x \<in> set others. \<exists>d. x = Ok d"
    and sub: "pool_submits (map os_rollout_task (Ok None # others)) results"
  let ?f = "\<lambda>x. \<lparr> tr_Result = (case x of Ok d \<Rightarrow> d | _ \<Rightarrow> None), tr_Err = None \<rparr>"
  have all: "x \<in> set (Ok None # others) \<Longrightarrow> \<exists>d. x = Ok d" for x using oks by auto
  then have t: "map os_rollout_task (Ok None # others) = map (\<lambda>x. Completes (?f x)) (Ok None # others)"
    by (auto simp: os_rollout_task_def split: res.splits)
  have "\<not> HasErrors results"
    unfolding fixed_pool.submits_errors [OF sub] t by auto
  moreover have m: "mset (GetResults results) = image_mset (\<lambda>x. case x of Ok d \<Rightarrow> d | _ \<Rightarrow> None) (mset (Ok None # others))"
    using fixed_pool.submits_results [OF sub [unfolded t]] by simp
  moreover have "image_mset (\<lambda>d. Ok (Some d)) (mset (NewDeploymentResponse_loop ds)) =
      image_mset Ok (filter_mset (\<lambda>x. x \<noteq> None) (mset ds))" for ds
    by (induction ds) (auto split: option.splits)
  moreover have "image_mset Ok (filter_mset (\<lambda>x. x \<noteq> None)
      (image_mset (\<lambda>x. case x of Ok d \<Rightarrow> d | _ \<Rightarrow> None) (mset (Ok None # others)))) =
      filter_mset (\<lambda>x. x \<noteq> Ok None) (mset others)"
    using oks by (induction others) auto
  ultimately show "\<exists>r. os_rollout_response (Inr results) = Inr r \<and>
      image_mset (\<lambda>d. Ok (Some d)) (mset (drs_Deployments r)) = filter_mset (\<lambda>x. x \<noteq> Ok None) (mset others)"
    by (simp add: os_rollout_response_def NewDeploymentResponse_def)
qed

text \<open>A deployment config with one controller that nothing can instantiate.\<close>

definition shop_controller :: v1_ReplicationController where
  "shop_controller = \<lparr> vrc_Name = ''shop-1'',
     vrc_Annotations = Some [(''openshift.io/deployment-config.latest-version'', ''1'')], vrc_Replicas = None \<rparr>"

definition stuck_openshift :: "unit OpenshiftV3Client" where
  "stuck_openshift = \<lparr>
     os_RouteV1Client = (\<lambda>_. table_client (\<lambda>_. []) (\<lambda>_. []) (\<lambda>_ w. w)),
     os_ProjectV1Client = (\<lambda>w. (Inr [], w)),
     os_DeploymentConfigs = (\<lambda>_. table_client (\<lambda>_. []) (\<lambda>_. []) (\<lambda>_ w. w)),
     os_Instantiate = (\<lambda>_ n w. (Inl (no_such n), w)), os_PostInstantiate = (\<lambda>_ n w. (Inl (no_such n), w)),
     os_ReplicationControllers = (\<lambda>_ w. (Inr [shop_controller], w)) \<rparr>"

theorem failed_instantiate_is_no_error_witness:
  "\<forall>a. os_RolloutDeployment stuck_openshift a ''shop'' ''ns'' no_state = Some (Ok None, no_state)"
proof -
  have "latest_controller ''shop'' [shop_controller] (-1) zero_ReplicationController = Inr shop_controller"
    by code_simp
  moreover have "\<exists>rc \<in> set [shop_controller]. HasPrefix (vrc_Name rc) ''shop''" by code_simp
  ultimately show ?thesis
    using failed_instantiate_is_no_error [of stuck_openshift "''ns''" no_state "[shop_controller]" "()" "''shop''"
        "[shop_controller]" "()" shop_controller "no_such ''shop''" "()" "no_such ''shop''" "()"]
    by (simp add: stuck_openshift_def)
qed

subsection \<open>What the platform builder passes on\<close>

fun kube_of :: "('k, 'o) PlatformService \<Rightarrow> 'k" where
  "kube_of (OnKubernetes k) = k"
| "kube_of (OnOpenshift k o') = k"

lemma createPlatformService_Ok:
  assumes "createPlatformService env b h s = (Ok p, s')"
  obtains client bg2 s1 rc where "(case pb_kubernetesApi b of Some c \<Rightarrow> Inr c | None \<Rightarrow> pe_kubernetesApi env) = Inr client"
    and "start_consul env (case pb_consul b of None \<Rightarrow> pe_consul env | Some s \<Rightarrow> s) s = (Ok bg2, s1)"
    and "initCaches env (h ! pb_caches b) (pb_cacheNumItems b) (pb_cacheMaxSizeInBytes b)
           (pb_cacheMaxItemSizeInBytes b) (pb_cacheItemTTL b) = Inr rc"
    and "Build (pe_build env) (kube_builder env b client bg2 rc) s1 = (Ok (kube_of p), s')"
    and "(\<exists>k. p = OnKubernetes k) \<longleftrightarrow>
      (case pb_platformType b of Some t \<Rightarrow> Some t | None \<Rightarrow> map_option ToUpper (pe_platform env)) = Some ''KUBERNETES''"
  using assms unfolding createPlatformService_def
  by (auto elim!: bind_act_Ok split: option.splits sum.splits if_splits)

lemma kube_builder_sel [simp]:
  "kb_namespace (kube_builder env b client bg2 rc) = setting (pb_namespace b) env ''microservice.namespace''"
  "kb_client (kube_builder env b client bg2 rc) = Some client"
  "kb_cache (kube_builder env b client bg2 rc) = Some rc"
  "kb_bg2Enabled (kube_builder env b client bg2 rc) = Some bg2"
  "kb_rolloutExecutor (kube_builder env b client bg2 rc) = rollout_executor b"
  "kb_httpRouteRequestIdleTimeout (kube_builder env b client bg2 rc) =
     TrimSpace (setting (pb_httpRouteIdleTimeout b) env HTTPRouteRequestIdleTimeoutProperty)"
  "kb_gatewaySystem (kube_builder env b client bg2 rc) = \<lparr>
     gs_Type = setting (pb_gatewaySystemType b) env ''gateway.system.type'',
     gs_Namespace = setting (pb_gatewaySystemNamespace b) env ''gateway.system.namespace'',
     gs_Name = setting (pb_gatewaySystemName b) env ''gateway.system.name'' \<rparr>"
  by (simp_all add: kube_builder_def Let_def NewKubernetesClientBuilder_def setter_defs TrimSpace_def)


lemma initCaches_Inr:
  assumes "initCaches env on numItems maxSize maxItem ttl = Inr c"
  shows "(ch_ConfigMaps c \<noteq> None \<longleftrightarrow> ConfigMapCache \<in> set on) \<and> (ch_Ingresses c \<noteq> None \<longleftrightarrow> RouteCache \<in> set on) \<and>
        (ch_HTTPRoute c \<noteq> None \<longleftrightarrow> HttpRouteCache \<in> set on) \<and> (ch_GRPCRoute c \<noteq> None \<longleftrightarrow> GrpcRouteCache \<in> set on) \<and>
        (ch_Secrets c \<noteq> None \<longleftrightarrow> SecretCache \<in> set on) \<and> (ch_Services c \<noteq> None \<longleftrightarrow> ServiceCache \<in> set on) \<and>
        (ch_Namespaces c \<noteq> None \<longleftrightarrow> NamespaceCache \<in> set on) \<and> ch_Certificates c = None"
proof (cases on)
  case Nil
  with assms show ?thesis by (auto simp: initCaches_def no_caches_def)
next
  case (Cons n ns)
  then have on: "length on \<noteq> 0" "on \<noteq> []" by simp_all
  from assms obtain ad where c: "c = foldl (\<lambda>rc n. enable_cache (pe_jsons env) ad n rc) no_caches on"
    using on by (auto simp only: initCaches_def NewResourcesCache_def Let_def if_False split: sum.splits prod.splits)
  show ?thesis unfolding c foldl_enable_cache by (simp add: no_caches_def)
qed

text \<open>
  which caches the client of a platform service has depends only on the names in the cache map
  of the builder: no name, no cache (and not the basic ones), a name, its cache; certificates are
  never cached. Builders made from one share the map, so that a name one of them enables counts for
  all.
\<close>

theorem platform_caches:
  assumes "createPlatformService env b h s = (Ok p, s')"
  shows "(let on = h ! pb_caches b; c = kc_Cache (kube_of p)
     in (ch_ConfigMaps c \<noteq> None \<longleftrightarrow> ConfigMapCache \<in> set on) \<and> (ch_Ingresses c \<noteq> None \<longleftrightarrow> RouteCache \<in> set on) \<and>
        (ch_HTTPRoute c \<noteq> None \<longleftrightarrow> HttpRouteCache \<in> set on) \<and> (ch_GRPCRoute c \<noteq> None \<longleftrightarrow> GrpcRouteCache \<in> set on) \<and>
        (ch_Secrets c \<noteq> None \<longleftrightarrow> SecretCache \<in> set on) \<and> (ch_Services c \<noteq> None \<longleftrightarrow> ServiceCache \<in> set on) \<and>
        (ch_Namespaces c \<noteq> None \<longleftrightarrow> NamespaceCache \<in> set on) \<and> ch_Certificates c = None) \<and>
    (\<forall>b' names. pb_caches b' = pb_caches b \<longrightarrow> pb_caches b < length h \<longrightarrow>
       set (enable_names names b' h ! pb_caches b) = set (h ! pb_caches b) \<union> set names)"
proof -
  have e: "set (foldl (\<lambda>m n. List.insert n m) xs ns) = set xs \<union> set ns" for xs and ns :: "CacheName list"
    by (induction ns arbitrary: xs) auto
  show ?thesis
    using assms
  proof (rule createPlatformService_Ok, goal_cases)
    case (1 client bg2 s1 rc)
    from 1(4) have "kc_Cache (kube_of p) = rc" by (rule Build_Ok) simp
    with initCaches_Inr [OF 1(3)] show ?case by (simp add: Let_def enable_names_def e)
  qed
qed

text \<open>A process on Kubernetes whose caller gives an executor and one cache.\<close>

definition sample_process :: "jsons \<Rightarrow> (unit, string, unit, (string \<times> string) list) process_env" where
  "sample_process js = \<lparr> pe_build = sample_env, pe_platform = Some ''kubernetes'',
     pe_config = (\<lambda>p. if p = ''microservice.namespace'' then ''ns'' else []), pe_consul = (False, [], []),
     pe_Login = (\<lambda>w. (Inr (), w)), pe_NewPublisher = (\<lambda>w. (Inr (), w)), pe_sibling = False,
     pe_kubernetesApi = Inr (sample_api (Inr True)), pe_openshiftApi = Inr (),
     pe_NewCache = (\<lambda>_. Inr (table_ristretto, [])), pe_jsons = js \<rparr>"

type_synonym sample_platform_builder = "(unit, string, unit, string, unit) PlatformClientBuilder"

definition sample_platform_builder :: sample_platform_builder where
  "sample_platform_builder =
     platform_WithRolloutExecutor (Some (GivenRolloutExecutor ''mine'')) (fst (NewPlatformClientBuilder []))"

definition sample_heap :: cache_heap where
  "sample_heap = snd (WithSecretCache sample_platform_builder (snd (NewPlatformClientBuilder [] :: sample_platform_builder \<times> _)))"

definition sample_platform ::
  "jsons \<Rightarrow> ((unit, string, unit, string, (string \<times> string) list) KubernetesClient, unit) PlatformService" where
  "sample_platform js = (case fst (createPlatformService (sample_process js) sample_platform_builder sample_heap no_state)
     of Ok p \<Rightarrow> p)"

lemma sample_platform_built:
  "createPlatformService (sample_process js) sample_platform_builder sample_heap no_state = (Ok (sample_platform js), no_state)"
proof -
  have "is_Ok (fst (createPlatformService (sample_process js) sample_platform_builder sample_heap no_state))"
    by code_simp
  then show ?thesis
    using no_state_unique
    by (cases "createPlatformService (sample_process js) sample_platform_builder sample_heap no_state")
      (auto simp: sample_platform_def is_Ok_def split: res.splits)
qed


theorem platform_caches_witness:
  "\<forall>js. ch_Secrets (kc_Cache (kube_of (sample_platform js))) \<noteq> None \<and>
     ch_Ingresses (kc_Cache (kube_of (sample_platform js))) = None"
proof -
  have "set (sample_heap ! pb_caches sample_platform_builder) = {SecretCache}" by code_simp
  then have "ch_Secrets (kc_Cache (kube_of (sample_platform js))) \<noteq> None \<and>
      ch_Ingresses (kc_Cache (kube_of (sample_platform js))) = None" for js
    using platform_caches [OF sample_platform_built, of js] by (auto simp: Let_def)
  then show ?thesis by blast
qed

subsection \<open>Logging in to Consul\<close>

text \<open>The world after a number of logins, and whether the next one fails.\<close>

fun after_logins :: "('w, unit) io \<Rightarrow> 'w \<Rightarrow> nat \<Rightarrow> 'w" where
  "after_logins login w 0 = w"
| "after_logins login w (Suc n) = after_logins login (snd (login w)) n"

definition login_fails :: "('w, unit) io \<Rightarrow> 'w \<Rightarrow> nat \<Rightarrow> bool" where
  "login_fails login w n = isl (fst (login (after_logins login w n)))"

lemma login_fails_simps:
  "login w = (r, w') \<Longrightarrow> login_fails login w 0 \<longleftrightarrow> isl r"
  "login w = (r, w') \<Longrightarrow> login_fails login w (Suc n) \<longleftrightarrow> login_fails login w' n"
  by (simp_all add: login_fails_def)

lemma consul_login_Inr:
  "\<forall>i < j. login_fails login (ks_world s) i \<Longrightarrow> \<not> login_fails login (ks_world s) j \<Longrightarrow> j \<le> n \<Longrightarrow>
   consul_login n login s = (Ok None, s\<lparr>ks_world := after_logins login (ks_world s) (Suc j)\<rparr>)"
proof (induction n arbitrary: s j)
  case 0
  then show ?case
    by (cases "login (ks_world s)"; cases "fst (login (ks_world s))")
      (auto simp: try_act_def api_def login_fails_def)
next
  case (Suc n)
  obtain r w where l: "login (ks_world s) = (r, w)" by force
  note f = login_fails_simps [where login = login, OF l]
  show ?case
  proof (cases r)
    case (Inl e)
    with Suc.prems(2) f(1) obtain i where j: "j = Suc i" by (cases j) auto
    have "\<forall>m < i. login_fails login w m" using Suc.prems(1) j f(2) by auto
    with Suc.IH [of i "s\<lparr>ks_world := w\<rparr>"] Suc.prems(2,3) j f(2) have
      "consul_login n login (s\<lparr>ks_world := w\<rparr>) = (Ok None, s\<lparr>ks_world := after_logins login w (Suc i)\<rparr>)" by simp
    with l Inl j show ?thesis by (simp add: try_act_def api_def)
  next
    case (Inr u)
    with Suc.prems(1) f(1) have "j = 0" by (cases j) auto
    with l Inr show ?thesis by (simp add: try_act_def api_def)
  qed
qed

lemma consul_login_Inl:
  "\<forall>i \<le> n. login_fails login (ks_world s) i \<Longrightarrow>
   \<exists>e. consul_login n login s = (Ok (Some e), s\<lparr>ks_world := after_logins login (ks_world s) (Suc n)\<rparr>)"
proof (induction n arbitrary: s)
  case 0
  then show ?case
    by (cases "login (ks_world s)"; cases "fst (login (ks_world s))")
      (auto simp: try_act_def api_def login_fails_def)
next
  case (Suc n)
  obtain r w where l: "login (ks_world s) = (r, w)" by force
  note f = login_fails_simps [where login = login, OF l]
  from Suc.prems f(1) obtain e where r: "r = Inl e" by (cases r) auto
  have "\<forall>i \<le> n. login_fails login w i" using Suc.prems f(2) by auto
  with Suc.IH [of "s\<lparr>ks_world := w\<rparr>"] obtain e' where
    "consul_login n login (s\<lparr>ks_world := w\<rparr>) = (Ok (Some e'), s\<lparr>ks_world := after_logins login w (Suc n)\<rparr>)" by auto
  with l r show ?case by (simp add: try_act_def api_def)
qed

text \<open>
  with Consul on and no token, starting up logs in until it succeeds, at most twenty-one
  times; then the state publisher starts and blue-green mode is on exactly when the state has a
  sibling. When every login fails the start-up fails.
\<close>

theorem consul_logins:
  "(\<forall>j w. j \<le> 20 \<longrightarrow> (\<forall>i < j. login_fails (pe_Login env) (ks_world s) i) \<longrightarrow> \<not> login_fails (pe_Login env) (ks_world s) j \<longrightarrow>
      pe_NewPublisher env (after_logins (pe_Login env) (ks_world s) (Suc j)) = (Inr (), w) \<longrightarrow>
      start_consul env (True, url, []) s = (Ok (pe_sibling env), s\<lparr>ks_world := w\<rparr>)) \<and>
   ((\<forall>i \<le> 20. login_fails (pe_Login env) (ks_world s) i) \<longrightarrow>
      (\<exists>e. start_consul env (True, url, []) s =
        (Err e, s\<lparr>ks_world := after_logins (pe_Login env) (ks_world s) 21\<rparr>)))"
proof (intro conjI allI impI)
  fix j w
  assume "j \<le> 20" "\<forall>i < j. login_fails (pe_Login env) (ks_world s) i" "\<not> login_fails (pe_Login env) (ks_world s) j"
    and "pe_NewPublisher env (after_logins (pe_Login env) (ks_world s) (Suc j)) = (Inr (), w)"
  with consul_login_Inr [of j "pe_Login env" s 20]
  show "start_consul env (True, url, []) s = (Ok (pe_sibling env), s\<lparr>ks_world := w\<rparr>)"
    by (simp add: start_consul_def consulRetries_def bind_act_cong_simps try_act_def api_def)
next
  assume "\<forall>i \<le> 20. login_fails (pe_Login env) (ks_world s) i"
  with consul_login_Inl [of 20 "pe_Login env" s]
  show "\<exists>e. start_consul env (True, url, []) s =
      (Err e, s\<lparr>ks_world := after_logins (pe_Login env) (ks_world s) 21\<rparr>)"
    by (auto simp: start_consul_def consulRetries_def bind_act_cong_simps)
qed

theorem consul_logins_witness:
  "\<forall>js. \<exists>e. start_consul (sample_process js\<lparr>pe_Login := (\<lambda>w. (Inl (no_such ''consul''), w))\<rparr>) (True, ''url'', []) no_state =
     (Err e, no_state)"
proof
  fix js
  let ?env = "sample_process js\<lparr>pe_Login := (\<lambda>w. (Inl (no_such ''consul''), w))\<rparr>"
  have "\<forall>i \<le> 20. login_fails (pe_Login ?env) (ks_world no_state) i" by (simp add: login_fails_def)
  with consul_logins [of ?env no_state "''url''"]
  show "\<exists>e. start_consul ?env (True, ''url'', []) no_state = (Err e, no_state)"
    using no_state_unique by auto
qed

end
