(* ===== verification/Event_Pipeline.thy ===== *)
theory Event_Pipeline
  imports Private_Watch Watch_Handlers
begin

section \<open>From the server to the cache\<close>

text \<open>
  A cache adapter is one client of the shared watch of its kind, with an empty filter. What it
  receives is what the notifier sends it of the events that the watch on the API server forwards.
  This theory relates its inputs to the events of the server: announcements that the notifier
  suppresses would not have changed what is known of the cluster.
\<close>

definition adapter_filter :: filter_Meta where
  "adapter_filter = \<lparr> fm_Labels = None, fm_Annotations = None, fm_WatchBookmark = False \<rparr>"

text \<open>The notifier passes on events with an object only.\<close>

fun adapter_inputs :: "'t ApiEvent list \<Rightarrow> 't adapter_input list" where
  "adapter_inputs [] = []"
| "adapter_inputs (ev # evs) =
     (case ae_Object ev of
        Entity x \<Rightarrow> AdapterEvent (ae_Type ev) x # adapter_inputs evs
      | Text s \<Rightarrow> adapter_inputs evs)"

subsection \<open>Assumptions on the server\<close>

text \<open>A resource version names one state of an object.\<close>

fun same_version :: "('t \<Rightarrow> Metadata) \<Rightarrow> 't adapter_input \<Rightarrow> 't adapter_input \<Rightarrow> bool" where
  "same_version gm (AdapterEvent ty x) (AdapterEvent ty' x') =
     (ty \<noteq> ''BOOKMARK'' \<and> ty' \<noteq> ''BOOKMARK'' \<and> getNamespaceAndName gm x = getNamespaceAndName gm x' \<and>
        md_ResourceVersion (gm x) = md_ResourceVersion (gm x') \<longrightarrow>
      x = x' \<and> (ty = ''DELETED'' \<longleftrightarrow> ty' = ''DELETED''))"
| "same_version gm _ _ = True"

definition versions_unique :: "('t \<Rightarrow> Metadata) \<Rightarrow> 't adapter_input list \<Rightarrow> bool" where
  "versions_unique gm inputs \<longleftrightarrow> list_all (\<lambda>i. list_all (same_version gm i) inputs) inputs"

text \<open>
  An object is announced as new when it was not there, or once more in the state it is in, as
  after a reconnection.
\<close>

fun orderly :: "('t \<Rightarrow> Metadata) \<Rightarrow> 't adapter_input list \<Rightarrow> 't cluster_view \<Rightarrow> bool" where
  "orderly gm [] m = True"
| "orderly gm (AdapterEvent ty x # is) m =
     (CHR ''/'' \<notin> set (md_Namespace (gm x)) \<and>
      ty \<in> {''ADDED'', ''MODIFIED'', ''DELETED'', ''BOOKMARK''} \<and>
      (ty = ''ADDED'' \<longrightarrow> m (getNamespaceAndName gm x) \<in> {None, Some x}) \<and>
      orderly gm is (view_event gm ty x m))"
| "orderly gm (i # is) m = False"

subsection \<open>What the notifier remembers\<close>

text \<open>
  The versions the notifier knows are those of the objects there are, and of objects that were
  deleted since the last bookmark.
\<close>

definition tracks :: "('t \<Rightarrow> Metadata) \<Rightarrow> 't adapter_input set \<Rightarrow> known \<Rightarrow> 't cluster_view \<Rightarrow> bool" where
  "tracks gm seen known m \<longleftrightarrow>
     (\<forall>key x. m key = Some x \<longrightarrow>
        (\<exists>v. known key = Some v \<and> vt_resourceVersion v = md_ResourceVersion (gm x) \<and> vt_eventType v \<noteq> ''DELETED'')) \<and>
     (\<forall>key v. known key = Some v \<longrightarrow>
        (\<exists>ty x. AdapterEvent ty x \<in> seen \<and> ty \<noteq> ''BOOKMARK'' \<and> key = getNamespaceAndName gm x \<and>
           vt_resourceVersion v = md_ResourceVersion (gm x) \<and> m key = (if ty = ''DELETED'' then None else Some x)))"

lemma tracks_start: "tracks gm seen (\<lambda>_. None) (\<lambda>_. None)"
  by (simp add: tracks_def)

lemma tracks_mono: "tracks gm seen known m \<Longrightarrow> seen \<subseteq> seen' \<Longrightarrow> tracks gm seen' known m"
  unfolding tracks_def by blast

lemma tracks_forget: "tracks gm seen known m \<Longrightarrow> tracks gm seen (forget_deleted known) m"
  unfolding tracks_def forget_deleted_def by (fastforce split: option.splits if_splits)

lemma tracks_event:
  assumes "tracks gm seen known m" and "AdapterEvent ty x \<in> seen"
    and "ty \<in> {''ADDED'', ''MODIFIED'', ''DELETED''}"
  shows "tracks gm seen (known(getNamespaceAndName gm x \<mapsto>
    \<lparr> vt_resourceVersion = md_ResourceVersion (gm x), vt_eventType = ty \<rparr>)) (view_event gm ty x m)"
  unfolding tracks_def
proof (intro conjI allI impI, goal_cases)
  case (1 key y)
  show ?case
  proof (cases "key = getNamespaceAndName gm x")
    case True
    with 1 assms(3) show ?thesis by auto
  next
    case False
    with 1 have "m key = Some y" by (auto split: if_splits)
    with assms(1) False show ?thesis unfolding tracks_def fun_upd_other [OF False] by blast
  qed
next
  case (2 key v)
  show ?case
  proof (cases "key = getNamespaceAndName gm x")
    case True
    with 2 assms(2,3) show ?thesis by (intro exI [of _ ty] exI [of _ x]) auto
  next
    case False
    with 2 have "known key = Some v" by simp
    with assms(1) obtain ty' x' where "AdapterEvent ty' x' \<in> seen" "ty' \<noteq> ''BOOKMARK''"
      "key = getNamespaceAndName gm x'" "vt_resourceVersion v = md_ResourceVersion (gm x')"
      "m key = (if ty' = ''DELETED'' then None else Some x')" unfolding tracks_def by blast
    moreover from False have "view_event gm ty x m key = m key" by simp
    ultimately show ?thesis by (intro exI [of _ ty'] exI [of _ x']) simp
  qed
qed

text \<open>A version the notifier knows tells nothing new; one it does not know is not the current one.\<close>

lemma tracks_known:
  assumes "tracks gm seen known m" and "known (getNamespaceAndName gm x) = Some v"
    and "vt_resourceVersion v = md_ResourceVersion (gm x)" and "ty \<noteq> ''BOOKMARK''"
    and "\<forall>i \<in> seen. same_version gm i (AdapterEvent ty x)"
  shows "view_event gm ty x m = m"
proof -
  from assms(1,2) obtain ty' x' where o: "AdapterEvent ty' x' \<in> seen" "ty' \<noteq> ''BOOKMARK''"
    "getNamespaceAndName gm x = getNamespaceAndName gm x'" "vt_resourceVersion v = md_ResourceVersion (gm x')"
    "m (getNamespaceAndName gm x) = (if ty' = ''DELETED'' then None else Some x')" unfolding tracks_def by blast
  with assms(3-5) have "x' = x" "ty' = ''DELETED'' \<longleftrightarrow> ty = ''DELETED''" by fastforce+
  with o(5) show ?thesis by (auto simp: fun_upd_idem_iff)
qed

lemma tracks_current:
  "tracks gm seen known m \<Longrightarrow> m (getNamespaceAndName gm x) = Some x \<Longrightarrow>
   map_option vt_resourceVersion (known (getNamespaceAndName gm x)) = Some (md_ResourceVersion (gm x))"
  unfolding tracks_def by fastforce

subsection \<open>What the adapter receives\<close>

lemma forwarded_entity: "ev \<in> set (forwarded c g inputs) \<Longrightarrow> \<exists>x. ae_Object ev = Entity x"
  by (induction c g inputs rule: forwarded.induct) (auto split: if_splits)

lemma orderly_types:
  "orderly gm (adapter_inputs evs) m \<Longrightarrow> ev \<in> set evs \<Longrightarrow> ae_Object ev = Entity x \<Longrightarrow> ae_Type ev \<noteq> ''PREVIOUS''"
proof (induction evs arbitrary: m)
  case (Cons e evs)
  then show ?case by (cases "ae_Object e") auto
qed simp

lemma acceptMeta_adapter [simp]: "acceptMeta meta adapter_filter"
  by (simp add: acceptMeta_def matchMeta_def adapter_filter_def gm_entries_def)

lemma private_watch_view:
  "tracks gm seen known m \<Longrightarrow> \<forall>i \<in> seen \<union> set (adapter_inputs evs). \<forall>j \<in> set (adapter_inputs evs). same_version gm i j \<Longrightarrow>
   orderly gm (adapter_inputs evs) m \<Longrightarrow>
   regular gm (adapter_inputs (private_watch gm adapter_filter known evs)) m \<and>
   view_events gm (adapter_inputs (private_watch gm adapter_filter known evs)) m = view_events gm (adapter_inputs evs) m"
proof (induction evs arbitrary: seen known m)
  case Nil
  then show ?case by simp
next
  case (Cons ev evs)
  show ?case
  proof (cases "ae_Object ev")
    case (Text s)
    with Cons show ?thesis by simp
  next
    case (Entity x)
    let ?key = "getNamespaceAndName gm x" and ?i = "AdapterEvent (ae_Type ev) x"
    let ?m = "view_event gm (ae_Type ev) x m"
    have key: "?key = (md_Namespace (gm x), md_Name (gm x))" by (simp add: getNamespaceAndName_def Let_def)
    from Cons.prems(3) Entity have ord: "CHR ''/'' \<notin> set (md_Namespace (gm x))"
      "ae_Type ev \<in> {''ADDED'', ''MODIFIED'', ''DELETED'', ''BOOKMARK''}"
      "ae_Type ev = ''ADDED'' \<Longrightarrow> m ?key \<in> {None, Some x}" "orderly gm (adapter_inputs evs) ?m" by auto
    from Cons.prems(2) Entity have same: "\<forall>i \<in> seen. same_version gm i ?i"
      "\<forall>i \<in> insert ?i seen \<union> set (adapter_inputs evs). \<forall>j \<in> set (adapter_inputs evs). same_version gm i j" by auto
    from Cons.prems(1) have t: "tracks gm (insert ?i seen) known m" by (rule tracks_mono) blast
    show ?thesis
    proof (cases "ae_Type ev = ''BOOKMARK''")
      case True
      from Cons.IH [OF tracks_forget [OF t] same(2)] ord(4) True Entity show ?thesis
        by (simp add: adapter_filter_def)
    next
      case nb: False
      show ?thesis
      proof (cases "map_option vt_resourceVersion (known ?key) = Some (md_ResourceVersion (gm x))")
        case True
        then obtain v where "known ?key = Some v" "vt_resourceVersion v = md_ResourceVersion (gm x)" by auto
        from tracks_known [OF Cons.prems(1) this nb same(1)] have "?m = m" .
        with Cons.IH [OF t same(2)] ord(4) nb True Entity show ?thesis
          by (simp add: key del: view_event.simps)
      next
        case False
        let ?v = "\<lparr> vt_resourceVersion = md_ResourceVersion (gm x), vt_eventType = ae_Type ev \<rparr>"
        from ord(2) nb have "ae_Type ev \<in> {''ADDED'', ''MODIFIED'', ''DELETED''}" by blast
        from tracks_event [OF t _ this] have "tracks gm (insert ?i seen) (known(?key \<mapsto> ?v)) ?m" by blast
        note ih = Cons.IH [OF this same(2) ord(4)]
        have "ae_Type ev = ''ADDED'' \<Longrightarrow> m ?key = None"
          using ord(3) tracks_current [OF Cons.prems(1), of x] False by blast
        moreover have "private_watch gm adapter_filter known (ev # evs) =
            ev # private_watch gm adapter_filter (known(?key \<mapsto> ?v)) evs"
          unfolding private_watch.simps Entity payload.case key using nb False [unfolded key]
          by (simp only: if_False acceptMeta_adapter if_True append_Cons append_Nil)
        ultimately show ?thesis using ih ord(1) Entity
          by (simp del: view_event.simps private_watch.simps fun_upd_apply)
      qed
    qed
  qed
qed

text \<open>The adapter's cache after the events of the server went through a notifier of its own.\<close>

lemma adapter_follows_server:
  assumes kind: "CHR ''/'' \<notin> set kind"
    and n: "nt_versions n = []" "distinct (map fst (nt_clients n))" "(cid, adapter_filter) \<in> set (nt_clients n)"
      "\<forall>c \<in> fst ` set (nt_clients n). \<not> slow c"
    and server: "versions_unique gm (adapter_inputs events)" "orderly gm (adapter_inputs events) (\<lambda>_. None)"
      "\<forall>ev \<in> set events. ae_Type ev \<noteq> ''PREVIOUS''"
    and empty: "cache_agrees ad js kind c (\<lambda>_. None)"
  shows "\<exists>c'. watchloop gm (NewResourceCache kind (newEntityAdapter js ad))
      (adapter_inputs (events_for cid (snd (accept_all gm slow events [n])))) c = Ret c' \<and>
    cache_agrees ad js kind c' (view_events gm (adapter_inputs events) (\<lambda>_. None))"
proof -
  from accept_all_alone [OF n(4,2) _ server(3), of gm] n(1,3)
  have "events_for cid (snd (accept_all gm slow events [n])) = private_watch gm adapter_filter (\<lambda>_. None) events"
    by fastforce
  moreover have "\<forall>i \<in> {} \<union> set (adapter_inputs events). \<forall>j \<in> set (adapter_inputs events). same_version gm i j"
    using server(1) by (simp add: versions_unique_def list_all_iff)
  note private_watch_view [OF tracks_start this server(2)]
  ultimately show ?thesis using watchloop_agrees [OF kind empty] by metis
qed

end
