(* ===== verification/System_Guarantees.thy ===== *)
theory System_Guarantees
  imports Event_Pipeline Watch_Guarantees Resource_Guarantees
begin

section \<open>What the parts guarantee together\<close>

text \<open>
  Properties of the whole way of an event, from the watch on the API server
  (\<open>kubeWatchService.go\<close>) through the shared watch (\<open>kubeWatchServiceShared.go\<close>) and the cache
  adapter (\<open>adapterForCache.go\<close>) to a read that the cache answers (\<open>adapterForCrud.go\<close>).
\<close>

text \<open>The watch on the API server behind the shared watch of config maps.\<close>

definition configmap_watch :: "(string gomap \<Rightarrow> string) \<Rightarrow> 'r SharedWatchHandlers \<Rightarrow> string \<Rightarrow> (v1_ConfigMap, ConfigMap) watch_config" where
  "configmap_watch labels_String handlers namespace =
     provider_config labels_String (\<lambda>m. om_ResourceVersion (vcm_Meta m)) (wh_ConfigMaps handlers) namespace"

lemma configmap_watch_sel [simp]:
  "wc_Filter (configmap_watch ls (NewSharedWatchEventHandlers t core cert net ext) ns) = shared_filter"
  "wc_Converter (configmap_watch ls (NewSharedWatchEventHandlers t core cert net ext) ns) f = Ret (NewConfigMap f)"
  by (simp_all add: configmap_watch_def provider_config_def NewSharedWatchEventHandlers_def
      NewSharedWatchEventHandler_def total_def)


text \<open>A server that announces a config map again after an error, and a later version, and then fails.\<close>

definition configmap_at :: "string \<Rightarrow> v1_ConfigMap" where
  "configmap_at v = \<lparr> vcm_Meta = ToObjectMeta (NewMetadata [] ''settings'' ''ns'' [] 0 v None None),
     vcm_Data = None \<rparr>"

definition configmap_inputs :: "v1_ConfigMap loop_input list" where
  "configmap_inputs =
     [Received ''ADDED'' (Typed (configmap_at ''1'')), Received ''ERROR'' (Typed (configmap_at ''0'')),
      Connected None False, Received ''ADDED'' (Typed (configmap_at ''1'')),
      Received ''BOOKMARK'' (Typed (configmap_at ''4'')), Received ''MODIFIED'' (Typed (configmap_at ''5''))]"

definition configmap_json :: "ConfigMap json" where
  "configmap_json = \<lparr> Marshal = (\<lambda>m. Inr (md_ResourceVersion (cm_Metadata m))),
     Unmarshal = (\<lambda>b. NewConfigMap (configmap_at b)) \<rparr>"

definition configmap_cache :: "((string \<times> string) list, ConfigMap) ResourceCache" where
  "configmap_cache = NewResourceCache ''ConfigMap'' (newEntityAdapter configmap_json table_adapter)"

definition failing_kube :: "(unit, (string \<times> string) list) Kubernetes" where
  "failing_kube = bare_kube\<lparr>k_Cache := no_caches\<lparr>ch_ConfigMaps := Some configmap_cache\<rparr>,
     k_ConfigMaps := \<lambda>_. (table_client (\<lambda>x. om_Name (vcm_Meta x)) (\<lambda>_. []) (\<lambda>_ w. w))
       \<lparr>cl_Get := \<lambda>_ w. (Inl (NewError ''timeout''), w)\<rparr>\<rparr>"

definition adapter_notifier :: notifier where
  "adapter_notifier = \<lparr> nt_id = ''1'', nt_clients = [(''1'', adapter_filter)], nt_versions = [] \<rparr>"

definition configmap_events :: "ConfigMap ApiEvent list" where
  "configmap_events = forwarded (configmap_watch (\<lambda>_. []) (NewSharedWatchEventHandlers 0 () () () ()) ''ns'')
     NewConfigMap configmap_inputs"

lemma configmap_events_eq:
  "configmap_events =
     [\<lparr> ae_Type = ''ADDED'', ae_Object = Entity (NewConfigMap (configmap_at ''1'')) \<rparr>,
      \<lparr> ae_Type = ''ADDED'', ae_Object = Entity (NewConfigMap (configmap_at ''1'')) \<rparr>,
      \<lparr> ae_Type = ''BOOKMARK'', ae_Object = Entity (NewConfigMap (configmap_at ''4'')) \<rparr>,
      \<lparr> ae_Type = ''MODIFIED'', ae_Object = Entity (NewConfigMap (configmap_at ''5'')) \<rparr>]"
  by (simp add: configmap_events_def configmap_inputs_def shared_filter_def)

lemma configmap_at_meta [simp]:
  "cm_Metadata (NewConfigMap (configmap_at v)) = FromObjectMeta ''ConfigMap'' (ToObjectMeta (NewMetadata [] ''settings'' ''ns'' [] 0 v None None))"
  by (simp add: configmap_at_def NewConfigMap_def)




end
