(* ===== verification/Client_Startup.thy ===== *)
theory Client_Startup
  imports Platform_Service
begin

section \<open>The API clients of a process\<close>

text \<open>
  The part of \<open>service/platformservice.go\<close> and \<open>openshiftV3/openshiftV3Service.go\<close> that makes the
  clients of the API servers when the caller gives none: where the kube configuration comes from and
  which clients are made from it, in which order. The configuration library, the loading of a kube
  configuration and the constructors of the clients are parameters, collected in a record.
\<close>

subsection \<open>Paths\<close>

text \<open>
  \<open>filepath.Join\<close> of the standard library on Unix: empty elements are left out and the rest, joined
  by slashes, is cleaned. The result of \<open>clean_elems\<close> is the reversed path.
\<close>

fun split_slash :: "string \<Rightarrow> string list" where
  "split_slash [] = [[]]"
| "split_slash (c # s) =
     (if c = CHR ''/'' then [] # split_slash s
      else (case split_slash s of [] \<Rightarrow> [[c]] | e # es \<Rightarrow> (c # e) # es))"

fun clean_elems :: "bool \<Rightarrow> string list \<Rightarrow> string list \<Rightarrow> string list" where
  "clean_elems rooted out [] = out"
| "clean_elems rooted out (e # es) =
     (if e = [] \<or> e = ''.'' then clean_elems rooted out es
      else if e = ''..'' then
        (case out of
           [] \<Rightarrow> clean_elems rooted (if rooted then [] else [e]) es
         | o1 # out' \<Rightarrow> clean_elems rooted (if o1 = ''..'' then e # out else out') es)
      else clean_elems rooted (e # out) es)"

fun join_slash :: "string list \<Rightarrow> string" where
  "join_slash [] = []"
| "join_slash [e] = e"
| "join_slash (e # e' # es) = e @ ''/'' @ join_slash (e' # es)"

definition path_Clean :: "string \<Rightarrow> string" where
  "path_Clean p =
     (let rooted = (case p of [] \<Rightarrow> False | c # _ \<Rightarrow> c = CHR ''/'');
          q = join_slash (rev (clean_elems rooted [] (split_slash p)))
      in if rooted then CHR ''/'' # q else if q = [] then ''.'' else q)"

definition path_Join :: "string list \<Rightarrow> string" where
  "path_Join elems =
     (let es = filter (\<lambda>e. e \<noteq> []) elems in if es = [] then [] else path_Clean (join_slash es))"

subsection \<open>What the process has\<close>

text \<open>
  The client sets, with what this program calls of them: the discovery, the access reviews and the
  REST clients of the groups. The dynamic client serves the traffic policies only.
\<close>

record ('w, 'r) KubernetesInterface =
  ki_ServerVersion :: "('w, string) io"
  ki_GatewayKinds :: "('w, string list) io"
  ki_AccessReview :: "string \<Rightarrow> string \<Rightarrow> ('w, bool) io"
  ki_CoreV1 :: 'r
  ki_NetworkingV1 :: 'r
  ki_ExtensionsV1beta1 :: 'r

text \<open>
  The clients of type \<open>'cm\<close> and \<open>'gw\<close> are read through \<open>pl_CertmanagerV1\<close> and \<open>pl_GatewayV1\<close>;
  \<open>'cfg\<close> is a kube configuration, and \<open>'dyn\<close>, \<open>'rt\<close>, \<open>'pr\<close> and \<open>'ap\<close> are the clients of the dynamic
  API and of OpenShift. A text of the configuration is absent or present, and possibly empty.
\<close>

record ('w, 'r, 'c, 'cfg, 'cm, 'gw, 'dyn, 'rt, 'pr, 'ap) process_lib =
  pl_Getenv :: "string \<Rightarrow> string"
  pl_String :: "string \<Rightarrow> string option"
  pl_Bool :: "string \<Rightarrow> bool"
  pl_local :: bool
  pl_BuildConfigFromFlags :: "string \<Rightarrow> string \<Rightarrow> go_error + 'cfg"
  pl_DeferredLoadingConfig :: "go_error + 'cfg"
  pl_InClusterConfig :: "go_error + 'cfg"
  pl_k8s_NewForConfig :: "'cfg \<Rightarrow> go_error + ('w, 'r) KubernetesInterface"
  pl_cm_NewForConfig :: "'cfg \<Rightarrow> go_error + 'cm"
  pl_gateway_NewForConfig :: "'cfg \<Rightarrow> go_error + 'gw"
  pl_dynamic_NewForConfig :: "'cfg \<Rightarrow> go_error + 'dyn"
  pl_route_NewForConfig :: "'cfg \<Rightarrow> go_error + 'rt"
  pl_project_NewForConfig :: "'cfg \<Rightarrow> go_error + 'pr"
  pl_apps_NewForConfig :: "'cfg \<Rightarrow> go_error + 'ap"
  pl_CertmanagerV1 :: "'cm \<Rightarrow> 'r"
  pl_GatewayV1 :: "'gw \<Rightarrow> 'r option option"
  pl_build :: build_env
  pl_Login :: "('w, unit) io"
  pl_NewPublisher :: "('w, unit) io"
  pl_sibling :: bool
  pl_NewCache :: "ristretto_config \<Rightarrow> go_error + 'c ristretto \<times> 'c"
  pl_jsons :: jsons

text \<open>Sequencing of constructors that may fail.\<close>

definition then_new :: "go_error + 'a \<Rightarrow> ('a \<Rightarrow> go_error + 'b) \<Rightarrow> go_error + 'b" where
  "then_new r f = (case r of Inl err \<Rightarrow> Inl err | Inr x \<Rightarrow> f x)"

lemma then_new_simps [simp]: "then_new (Inl err) f = Inl err" "then_new (Inr x) f = f x"
  by (simp_all add: then_new_def)

lemma then_new_Inr: "then_new r f = Inr y \<longleftrightarrow> (\<exists>x. r = Inr x \<and> f x = Inr y)"
  by (cases r) simp_all

lemma then_new_Inl: "then_new r f = Inl e \<longleftrightarrow> r = Inl e \<or> (\<exists>x. r = Inr x \<and> f x = Inl e)"
  by (cases r) simp_all

subsection \<open>The Kubernetes clients\<close>

definition GetOrDefaultString ::
  "('w, 'r, 'c, 'cfg, 'cm, 'gw, 'dyn, 'rt, 'pr, 'ap) process_lib \<Rightarrow> string \<Rightarrow> string \<Rightarrow> string" where
  "GetOrDefaultString l key d = (case pl_String l key of None \<Rightarrow> d | Some v \<Rightarrow> v)"

definition homeDir :: "('w, 'r, 'c, 'cfg, 'cm, 'gw, 'dyn, 'rt, 'pr, 'ap) process_lib \<Rightarrow> string" where
  "homeDir l = (let h = pl_Getenv l ''HOME'' in if h \<noteq> [] then h else pl_Getenv l ''USERPROFILE'')"

definition backend_KubernetesApi ::
  "('w, 'r, 'c, 'cfg, 'cm, 'gw, 'dyn, 'rt, 'pr, 'ap) process_lib \<Rightarrow> ('w, 'r) KubernetesInterface \<Rightarrow>
     'cm \<Rightarrow> 'gw \<Rightarrow> ('w, 'r) KubernetesApi" where
  "backend_KubernetesApi l ki c g = \<lparr>
     ka_ServerVersion = ki_ServerVersion ki, ka_GatewayKinds = ki_GatewayKinds ki,
     ka_AccessReview = ki_AccessReview ki, ka_CoreV1 = ki_CoreV1 ki,
     ka_CertmanagerV1 = pl_CertmanagerV1 l c, ka_NetworkingV1 = ki_NetworkingV1 ki,
     ka_ExtensionsV1beta1 = ki_ExtensionsV1beta1 ki, ka_GatewayV1 = pl_GatewayV1 l g \<rparr>"

definition initLocalClient ::
  "('w, 'r, 'c, 'cfg, 'cm, 'gw, 'dyn, 'rt, 'pr, 'ap) process_lib \<Rightarrow> go_error + ('w, 'r) KubernetesApi" where
  "initLocalClient l =
     (let defaultKubeConfigPath = path_Join [homeDir l, ''.kube'', ''config''];
          kubeConfigPath = GetOrDefaultString l ''kubeconfig'' defaultKubeConfigPath
      in then_new (pl_BuildConfigFromFlags l [] kubeConfigPath) (\<lambda>config.
         then_new (pl_k8s_NewForConfig l config) (\<lambda>kubernetesClient.
         then_new (pl_cm_NewForConfig l config) (\<lambda>certmanagerClient.
         then_new (pl_gateway_NewForConfig l config) (\<lambda>gatewayApiClient.
         then_new (pl_dynamic_NewForConfig l config) (\<lambda>dynamicClient.
           Inr (backend_KubernetesApi l kubernetesClient certmanagerClient gatewayApiClient)))))))"

definition initInClusterClient ::
  "('w, 'r, 'c, 'cfg, 'cm, 'gw, 'dyn, 'rt, 'pr, 'ap) process_lib \<Rightarrow> go_error + ('w, 'r) KubernetesApi" where
  "initInClusterClient l =
     then_new (pl_InClusterConfig l) (\<lambda>config.
     then_new (pl_k8s_NewForConfig l config) (\<lambda>kubernetesClient.
     then_new (pl_cm_NewForConfig l config) (\<lambda>certmanagerClient.
     then_new (pl_gateway_NewForConfig l config) (\<lambda>gatewayApiClient.
     then_new (pl_dynamic_NewForConfig l config) (\<lambda>dynamicClient.
       Inr (backend_KubernetesApi l kubernetesClient certmanagerClient gatewayApiClient))))))"

subsection \<open>The OpenShift clients\<close>

record ('rt, 'pr, 'ap) OpenshiftApi =
  oa_RouteV1 :: 'rt
  oa_ProjectV1 :: 'pr
  oa_AppsV1 :: 'ap

definition GetKubeConfig ::
  "('w, 'r, 'c, 'cfg, 'cm, 'gw, 'dyn, 'rt, 'pr, 'ap) process_lib \<Rightarrow> bool \<Rightarrow> go_error + 'cfg" where
  "GetKubeConfig l isLocal = (if isLocal then pl_DeferredLoadingConfig l else pl_InClusterConfig l)"

text \<open>
  The client is the Kubernetes client, embedded, and the three clients of OpenShift.
\<close>

definition NewOpenshiftV3Client ::
  "'rt \<Rightarrow> 'pr \<Rightarrow> 'ap \<Rightarrow> 'k \<Rightarrow> ('k, ('rt, 'pr, 'ap) OpenshiftApi) PlatformService" where
  "NewOpenshiftV3Client routeV1Client projectV1Client appsClient kubeClient =
     OnOpenshift kubeClient \<lparr> oa_RouteV1 = routeV1Client, oa_ProjectV1 = projectV1Client, oa_AppsV1 = appsClient \<rparr>"

definition new_openshift_api ::
  "('w, 'r, 'c, 'cfg, 'cm, 'gw, 'dyn, 'rt, 'pr, 'ap) process_lib \<Rightarrow> bool \<Rightarrow>
     go_error + ('rt, 'pr, 'ap) OpenshiftApi" where
  "new_openshift_api l isLocal =
     then_new (GetKubeConfig l isLocal) (\<lambda>config.
     then_new (pl_route_NewForConfig l config) (\<lambda>routeV1Client.
     then_new (pl_project_NewForConfig l config) (\<lambda>projectV1Client.
     then_new (pl_apps_NewForConfig l config) (\<lambda>appsClient.
       Inr \<lparr> oa_RouteV1 = routeV1Client, oa_ProjectV1 = projectV1Client, oa_AppsV1 = appsClient \<rparr>))))"

definition initOpenshiftClient ::
  "('w, 'r, 'c, 'cfg, 'cm, 'gw, 'dyn, 'rt, 'pr, 'ap) process_lib \<Rightarrow> 'k \<Rightarrow>
     ('rt, 'pr, 'ap) OpenshiftApi option \<Rightarrow> bool \<Rightarrow> go_error + ('k, ('rt, 'pr, 'ap) OpenshiftApi) PlatformService" where
  "initOpenshiftClient l kubernetesClient given isLocal =
     then_new (case given of Some b \<Rightarrow> Inr b | None \<Rightarrow> new_openshift_api l isLocal) (\<lambda>openshiftBackendClient.
       Inr (NewOpenshiftV3Client (oa_RouteV1 openshiftBackendClient) (oa_ProjectV1 openshiftBackendClient)
              (oa_AppsV1 openshiftBackendClient) kubernetesClient))"

subsection \<open>The process\<close>

text \<open>
  The environment that \<open>createPlatformService\<close> reads. Without a platform the lookup of the
  configuration library panics; the settings of Consul are read only when it is enabled.
\<close>

definition process_of ::
  "('w, 'r, 'c, 'cfg, 'cm, 'gw, 'dyn, 'rt, 'pr, 'ap) process_lib \<Rightarrow>
     ('w, 'r, ('rt, 'pr, 'ap) OpenshiftApi, 'c) process_env" where
  "process_of l = \<lparr>
     pe_build = pl_build l,
     pe_platform = (case pl_String l ''paas.platform'' of None \<Rightarrow> None | Some v \<Rightarrow> if v = [] then None else Some v),
     pe_config = (\<lambda>key. GetOrDefaultString l key []),
     pe_consul = (if pl_Bool l ''consul.enabled''
       then (True, GetOrDefaultString l ''consul.url'' [], GetOrDefaultString l ''consul.token'' [])
       else (False, [], [])),
     pe_Login = pl_Login l, pe_NewPublisher = pl_NewPublisher l, pe_sibling = pl_sibling l,
     pe_kubernetesApi = (if pl_local l then initLocalClient l else initInClusterClient l),
     pe_openshiftApi = new_openshift_api l (pl_local l),
     pe_NewCache = pl_NewCache l, pe_jsons = pl_jsons l \<rparr>"

definition platform_Build ::
  "('w, 'r, 'c, 'cfg, 'cm, 'gw, 'dyn, 'rt, 'pr, 'ap) process_lib \<Rightarrow>
     ('w, 'r, 'e, 'p, ('rt, 'pr, 'ap) OpenshiftApi) PlatformClientBuilder \<Rightarrow> cache_heap \<Rightarrow>
     ('w, 'd, (('w, 'r, 'e, 'p, 'c) KubernetesClient, ('rt, 'pr, 'ap) OpenshiftApi) PlatformService) act" where
  "platform_Build l b h = createPlatformService (process_of l) b h"

end
