(* ===== verification/Startup_Guarantees.thy ===== *)
theory Startup_Guarantees
  imports Client_Startup Platform_Guarantees
begin

section \<open>Properties of the start of a process\<close>

text \<open>
  Which clusters the clients of a platform service talk to, when the caller hands in no clients
  (\<open>platformservice.go\<close>, \<open>openshiftV3Service.go\<close>), and what is answered when a configuration cannot
  be loaded or a client cannot be made.
\<close>

subsection \<open>Configurations and clients\<close>

text \<open>The configuration of the Kubernetes clients.\<close>

definition kube_config ::
  "('w, 'r, 'c, 'cfg, 'cm, 'gw, 'dyn, 'rt, 'pr, 'ap) process_lib \<Rightarrow> go_error + 'cfg" where
  "kube_config l =
     (if pl_local l
      then pl_BuildConfigFromFlags l [] (GetOrDefaultString l ''kubeconfig'' (path_Join [homeDir l, ''.kube'', ''config'']))
      else pl_InClusterConfig l)"

definition init_client ::
  "('w, 'r, 'c, 'cfg, 'cm, 'gw, 'dyn, 'rt, 'pr, 'ap) process_lib \<Rightarrow> 'cfg \<Rightarrow> go_error + ('w, 'r) KubernetesApi" where
  "init_client l config =
     then_new (pl_k8s_NewForConfig l config) (\<lambda>k.
     then_new (pl_cm_NewForConfig l config) (\<lambda>c.
     then_new (pl_gateway_NewForConfig l config) (\<lambda>g.
     then_new (pl_dynamic_NewForConfig l config) (\<lambda>d. Inr (backend_KubernetesApi l k c g)))))"

lemma process_kubernetesApi: "pe_kubernetesApi (process_of l) = then_new (kube_config l) (init_client l)"
  by (simp add: process_of_def kube_config_def init_client_def [abs_def] initLocalClient_def initInClusterClient_def)

lemma process_openshiftApi: "pe_openshiftApi (process_of l) = new_openshift_api l (pl_local l)"
  by (simp add: process_of_def)

text \<open>What the service is, beside the settings of its Kubernetes client.\<close>

lemma createPlatformService_clients:
  assumes "createPlatformService env b h s = (Ok p, s')"
  shows "(case pb_kubernetesApi b of Some c \<Rightarrow> Inr c | None \<Rightarrow> pe_kubernetesApi env) = Inr (kc_client (kube_of p))"
    and "p = OnOpenshift k oa \<Longrightarrow> (case pb_openshiftApi b of Some o' \<Rightarrow> Inr o' | None \<Rightarrow> pe_openshiftApi env) = Inr oa"
proof -
  obtain client bg2 s1 rc where
    c: "(case pb_kubernetesApi b of Some c \<Rightarrow> Inr c | None \<Rightarrow> pe_kubernetesApi env) = Inr client"
    and b: "Build (pe_build env) (kube_builder env b client bg2 rc) s1 = (Ok (kube_of p), s')"
    using assms by (rule createPlatformService_Ok)
  from b obtain "kc_client (kube_of p) = client" by (rule Build_Ok) simp
  with c show "(case pb_kubernetesApi b of Some c \<Rightarrow> Inr c | None \<Rightarrow> pe_kubernetesApi env) = Inr (kc_client (kube_of p))"
    by simp
  assume "p = OnOpenshift k oa"
  with assms show "(case pb_openshiftApi b of Some o' \<Rightarrow> Inr o' | None \<Rightarrow> pe_openshiftApi env) = Inr oa"
    unfolding createPlatformService_def by (auto elim!: bind_act_Ok split: option.splits sum.splits if_splits)
qed

text \<open>\<open>initOpenshiftClient\<close> is the last step of the start.\<close>

lemma createPlatformService_initOpenshiftClient:
  assumes "createPlatformService (process_of l) b h s = (Ok (OnOpenshift k oa), s')"
  shows "initOpenshiftClient l k (pb_openshiftApi b) (pl_local l) = Inr (OnOpenshift k oa)"
  using createPlatformService_clients(2) [OF assms refl]
  by (cases "pb_openshiftApi b") (simp_all add: initOpenshiftClient_def process_openshiftApi NewOpenshiftV3Client_def)

subsection \<open>The property\<close>

text \<open>The first error of a list of results.\<close>

fun first_error :: "(go_error + unit) list \<Rightarrow> go_error option" where
  "first_error [] = None"
| "first_error (Inl e # rs) = Some e"
| "first_error (Inr _ # rs) = first_error rs"

definition outcome :: "go_error + 'a \<Rightarrow> go_error + unit" where
  "outcome r = map_sum id (\<lambda>_. ()) r"

lemma first_error_Cons: "first_error (outcome r # rs) = (case r of Inl e \<Rightarrow> Some e | Inr _ \<Rightarrow> first_error rs)"
  by (cases r) (simp_all add: outcome_def)

lemma init_client_first_error:
  "init_client l cfg = Inl e \<longleftrightarrow> first_error [outcome (pl_k8s_NewForConfig l cfg), outcome (pl_cm_NewForConfig l cfg),
     outcome (pl_gateway_NewForConfig l cfg), outcome (pl_dynamic_NewForConfig l cfg)] = Some e"
  unfolding first_error_Cons by (simp add: init_client_def then_new_def split: sum.split)

text \<open>The clients of a service, made from a configuration.\<close>

definition openshift_from ::
  "('w, 'r, 'c, 'cfg, 'cm, 'gw, 'dyn, 'rt, 'pr, 'ap) process_lib \<Rightarrow> 'cfg \<Rightarrow> ('rt, 'pr, 'ap) OpenshiftApi \<Rightarrow> bool" where
  "openshift_from l cfg oa \<longleftrightarrow> pl_route_NewForConfig l cfg = Inr (oa_RouteV1 oa) \<and>
     pl_project_NewForConfig l cfg = Inr (oa_ProjectV1 oa) \<and> pl_apps_NewForConfig l cfg = Inr (oa_AppsV1 oa)"

definition kubernetes_from ::
  "('w, 'r, 'c, 'cfg, 'cm, 'gw, 'dyn, 'rt, 'pr, 'ap) process_lib \<Rightarrow> 'cfg \<Rightarrow> ('w, 'r) KubernetesApi \<Rightarrow> bool" where
  "kubernetes_from l cfg a \<longleftrightarrow> (\<exists>k c g d. pl_k8s_NewForConfig l cfg = Inr k \<and> pl_cm_NewForConfig l cfg = Inr c \<and>
     pl_gateway_NewForConfig l cfg = Inr g \<and> pl_dynamic_NewForConfig l cfg = Inr d \<and>
     a = backend_KubernetesApi l k c g)"

lemma kubernetes_from_init: "kubernetes_from l cfg a \<longleftrightarrow> init_client l cfg = Inr a"
  by (auto simp: kubernetes_from_def init_client_def then_new_Inr)

lemma openshift_from_init:
  "new_openshift_api l loc = Inr oa \<longleftrightarrow> (\<exists>cfg. GetKubeConfig l loc = Inr cfg \<and> openshift_from l cfg oa)"
  by (cases oa) (auto simp: openshift_from_def new_openshift_api_def then_new_Inr)


text \<open>A local run whose home directory and whose loading rules name different clusters.\<close>

definition laptop ::
  "jsons \<Rightarrow> (unit, string, (string \<times> string) list, string, string, string, unit, string, string, string) process_lib" where
  "laptop js = \<lparr> pl_Getenv = (\<lambda>v. if v = ''HOME'' then ''/home/dev/'' else []),
     pl_String = (\<lambda>k. if k = ''microservice.namespace'' then Some ''ns'' else None), pl_Bool = (\<lambda>_. False),
     pl_local = True,
     pl_BuildConfigFromFlags = (\<lambda>_ path. if path = ''/home/dev/.kube/config'' then Inr ''minikube'' else Inl (no_such path)),
     pl_DeferredLoadingConfig = Inr ''staging'', pl_InClusterConfig = Inl (no_such ''token''),
     pl_k8s_NewForConfig = (\<lambda>c. Inr \<lparr> ki_ServerVersion = (\<lambda>w. (Inr ''v1.30.2'', w)), ki_GatewayKinds = (\<lambda>w. (Inr [], w)),
       ki_AccessReview = (\<lambda>_ _ w. (Inr True, w)), ki_CoreV1 = c, ki_NetworkingV1 = c, ki_ExtensionsV1beta1 = c \<rparr>),
     pl_cm_NewForConfig = (\<lambda>c. Inr c), pl_gateway_NewForConfig = (\<lambda>c. Inr c), pl_dynamic_NewForConfig = (\<lambda>_. Inr ()),
     pl_route_NewForConfig = (\<lambda>c. Inr c), pl_project_NewForConfig = (\<lambda>c. Inr c), pl_apps_NewForConfig = (\<lambda>c. Inr c),
     pl_CertmanagerV1 = (\<lambda>c. c), pl_GatewayV1 = (\<lambda>c. Some (Some c)), pl_build = sample_env,
     pl_Login = (\<lambda>w. (Inr (), w)), pl_NewPublisher = (\<lambda>w. (Inr (), w)), pl_sibling = False,
     pl_NewCache = (\<lambda>_. Inr (table_ristretto, [])), pl_jsons = js \<rparr>"

type_synonym laptop_builder = "(unit, string, unit, string, (string, string, string) OpenshiftApi) PlatformClientBuilder"

definition laptop_builder :: laptop_builder where
  "laptop_builder = platform_WithPlatformType ''OPENSHIFT'' (fst (NewPlatformClientBuilder []))"

definition laptop_service ::
  "jsons \<Rightarrow> ((unit, string, unit, string, (string \<times> string) list) KubernetesClient, (string, string, string) OpenshiftApi) PlatformService" where
  "laptop_service js = (case fst (platform_Build (laptop js) laptop_builder [[]] no_state) of Ok p \<Rightarrow> p)"


end
