(* ===== verification/Restart_Watch.thy ===== *)
theory Restart_Watch
  imports Rollout Client_Builder Rest_Watch
begin

section \<open>The watch on restarting pods\<close>

text \<open>
  \<open>WatchPodsRestarting\<close> of \<open>service/internal/kubernetes/pod.go\<close>: the method that opens a watch on pods,
  and the goroutine that forwards its events, asks after each whether the rollout is done and ends the
  watch then; and the events of \<open>watch/executor.go\<close> with their control messages.
\<close>

subsection \<open>Events with control messages\<close>

record ControlMessageDetails =
  cmd_CloseCode :: int
  cmd_MessageType :: int
  cmd_CloseMessage :: string

record 'o control_event =
  ce_Type :: string
  ce_Object :: 'o
  ce_controlMessageDetails :: ControlMessageDetails

definition GetControlMessageDetails :: "'o control_event \<Rightarrow> ControlMessageDetails" where
  "GetControlMessageDetails w = ce_controlMessageDetails w"

definition ApiEventConstructor :: "string \<Rightarrow> 'o \<Rightarrow> ControlMessageDetails \<Rightarrow> 'o control_event" where
  "ApiEventConstructor watchApiType object controlMessage =
     \<lparr> ce_Type = watchApiType, ce_Object = object, ce_controlMessageDetails = controlMessage \<rparr>"

definition zero_details :: ControlMessageDetails where
  "zero_details = \<lparr> cmd_CloseCode = 0, cmd_MessageType = 0, cmd_CloseMessage = [] \<rparr>"

text \<open>The executor that is not implemented yet (\<open>watch/shared.go\<close>).\<close>

definition SharedExecutor_CreateWatchRequest :: "string \<Rightarrow> watch_options \<Rightarrow> watch_options run" where
  "SharedExecutor_CreateWatchRequest resource options = Panic"

definition SharedExecutor_Watch :: "watch_options \<Rightarrow> unit run" where
  "SharedExecutor_Watch watchRequest = Panic"

subsection \<open>What the client is sent\<close>

datatype proxy_object =
    RestartedPod RolloutedPod
  | Failed go_error
  | RolledOut "(string \<times> RolloutedPod list) list"

text \<open>The codes are \<open>websocket.CloseNormalClosure\<close> and \<open>websocket.CloseMessage\<close> of RFC 6455.\<close>

fun proxy_event :: "proxy_msg \<Rightarrow> proxy_object control_event" where
  "proxy_event (PodRestarted ty pod) =
     \<lparr> ce_Type = ty, ce_Object = RestartedPod pod, ce_controlMessageDetails = zero_details \<rparr>"
| "proxy_event (PodsError err) =
     \<lparr> ce_Type = ''ERROR'', ce_Object = Failed err, ce_controlMessageDetails = zero_details \<rparr>"
| "proxy_event (PodsRolledOut response) = ApiEventConstructor ''CLOSE_CONTROL_MESSAGE'' (RolledOut response)
     \<lparr> cmd_CloseCode = 1000, cmd_MessageType = 8, cmd_CloseMessage = ''Pods have been rolled out'' \<rparr>"

subsection \<open>The method and its goroutine\<close>

definition pods_watch :: "(string gomap \<Rightarrow> string) \<Rightarrow> string \<Rightarrow> filter_Meta \<Rightarrow> (v1_Pod, Pod) watch_config" where
  "pods_watch labels_String namespace f = \<lparr> wc_Namespace = namespace, wc_Filter = f,
     wc_labels_String = labels_String, wc_Converter = PodFromOsPod,
     wc_ResourceVersion = (\<lambda>p. om_ResourceVersion (vpod_Meta p)) \<rparr>"

text \<open>
  The method: \<open>err\<close> and \<open>nil_watcher\<close> are the answer of the watch on the API server, as for
  \<open>rest_Watch\<close>. The answer is the version of the client and the inner watch.
\<close>

definition WatchPodsRestarting ::
  "(string gomap \<Rightarrow> string) \<Rightarrow> ('w, unit) io \<Rightarrow> ('w, unit) io \<Rightarrow> string \<Rightarrow> filter_Meta \<Rightarrow> go_error option \<Rightarrow> bool \<Rightarrow>
     ('w, 'c, string \<times> watch_loop) act" where
  "WatchPodsRestarting labels_String apps_List extension_List namespace f err nil_watcher =
     bind_act (getKubernetesClientVersion apps_List extension_List) (\<lambda>clientVersionForKubernetes.
       case rest_Watch (pods_watch labels_String namespace f) err nil_watcher of
         Inl e \<Rightarrow> fail (Errorf (''failed to create watchEventHandler: '' @ err_text e) [e])
       | Inr handler \<Rightarrow> ret (clientVersionForKubernetes, handler))"

text \<open>
  The goroutine together with the loop of the inner watch, on what the API server sends: each event of the
  loop is taken from the channel before the next. The answer is what is sent to the client, whether the
  inner watch was stopped, and its state. When the inner channel is closed the goroutine returns; it never
  closes the channel of its own.
\<close>

fun restarting_run ::
  "(v1_Pod, Pod) watch_config \<Rightarrow> 'w pod_api \<Rightarrow> (string \<times> string list) list \<Rightarrow> string \<Rightarrow> watch_loop \<Rightarrow>
     v1_Pod loop_input list \<Rightarrow> ('w, 'c, proxy_object control_event list \<times> bool \<times> watch_loop) act" where
  "restarting_run c a replicasMap clientVersion st [] = ret ([], False, st)"
| "restarting_run c a replicasMap clientVersion st (i # is) =
     bind_act (of_run (loop_step c st i)) (\<lambda>(st', ev).
       case ev of
         None \<Rightarrow> restarting_run c a replicasMap clientVersion st' is
       | Some podEvent \<Rightarrow>
           bind_act (restart_event a replicasMap clientVersion podEvent) (\<lambda>(msgs, stop).
             if stop then ret (map proxy_event msgs, True, st')
             else bind_act (restarting_run c a replicasMap clientVersion st' is) (\<lambda>(rest, stopped, st'').
               ret (map proxy_event msgs @ rest, stopped, st''))))"

subsection \<open>Laws\<close>

lemma bind_act_eq_Ok:
  "bind_act m f s = (Ok y, s') \<longleftrightarrow> (\<exists>x s1. m s = (Ok x, s1) \<and> f x s1 = (Ok y, s'))"
  by (auto simp: bind_act_def split: prod.splits res.splits)

lemma try_act_eq_Ok:
  "try_act m f s = (Ok y, s') \<longleftrightarrow>
     (\<exists>x s1. m s = (Ok x, s1) \<and> f (Inr x) s1 = (Ok y, s')) \<or> (\<exists>e s1. m s = (Err e, s1) \<and> f (Inl e) s1 = (Ok y, s'))"
  by (auto simp: try_act_def split: prod.splits res.splits)

text \<open>Every name that was asked for is ready, at some moment of the check.\<close>

lemma all_ready_Some:
  "all_ready check ns s = (Ok (Some xs), s') \<Longrightarrow> \<forall>n \<in> set ns. \<exists>x t t'. check n t = (Ok (Some x), t')"
proof (induction ns arbitrary: s xs)
  case Nil
  then show ?case by simp
next
  case (Cons n ns)
  then show ?case
    by (fastforce simp: bind_act_eq_Ok split: option.splits)
qed

definition desired_pods :: "ReplicaSet \<Rightarrow> int option" where
  "desired_pods rs = (if rs_DesiredReplicas rs = [] then Some (rs_Replicas rs) else Atoi (rs_DesiredReplicas rs))"

lemma podReplicaSetIsReady_Some:
  assumes "podReplicaSetIsReady a n pods cv s = (Ok (Some rs), s')"
  shows "getReplicaSet a n cv s = (Ok rs, s')" and "desired_pods rs = Some (int (readyReplicasPods n pods))"
  using assms
  by (auto simp: podReplicaSetIsReady_def bind_act_eq_Ok desired_pods_def split: option.splits if_splits)

text \<open>An answer of the check: every replica set asked for had as many ready pods as desired.\<close>

lemma allPodsAreReady_Some:
  fixes s s' :: "('w, 'c) kstate"
  assumes "allPodsAreReady a m cv s = (Ok (Some r), s')" and "n \<in> set (names_of m ''replica-set'')"
  obtains pods w rs and t t' :: "('w, 'c) kstate" where "cl_List (po_Pods a) \<lparr> lo_LabelSelector = [], lo_Continue = [] \<rparr> (ks_world s) = (Inr pods, w)"
    and "getReplicaSet a n cv t = (Ok rs, t')" and "desired_pods rs = Some (int (readyReplicasPods n (pg_Items pods)))"
proof -
  from assms(1) obtain page s1 rss s2 where p: "api (cl_List (po_Pods a) \<lparr> lo_LabelSelector = [], lo_Continue = [] \<rparr>) s = (Ok page, s1)"
    and r: "all_ready (\<lambda>n. podReplicaSetIsReady a n (pg_Items page) cv) (names_of m ''replica-set'') s2 = (Ok (Some rss), s')"
    unfolding allPodsAreReady_def Let_def by (auto simp: bind_act_eq_Ok split: option.splits)
  from p obtain w where w: "cl_List (po_Pods a) \<lparr> lo_LabelSelector = [], lo_Continue = [] \<rparr> (ks_world s) = (Inr page, w)"
    by (auto simp: api_def split: prod.splits sum.splits)
  from all_ready_Some [OF r] assms(2)
  obtain rs and t t' :: "('w, 'c) kstate" where "podReplicaSetIsReady a n (pg_Items page) cv t = (Ok (Some rs), t')" by blast
  from podReplicaSetIsReady_Some [OF this] w that show thesis by blast
qed

text \<open>
  The pods read at a state show as many ready pods for each replica set asked for as the set desires, in
  a version of it that was read.
\<close>

definition sets_ready ::
  "'w pod_api \<Rightarrow> (string \<times> string list) list \<Rightarrow> string \<Rightarrow> ('w, 'c) kstate \<Rightarrow> bool" where
  "sets_ready a m cv s \<longleftrightarrow> (\<forall>n \<in> set (names_of m ''replica-set''). \<exists>pods w rs. \<exists>t t' :: ('w, 'c) kstate.
     cl_List (po_Pods a) \<lparr> lo_LabelSelector = [], lo_Continue = [] \<rparr> (ks_world s) = (Inr pods, w) \<and>
     getReplicaSet a n cv t = (Ok rs, t') \<and> desired_pods rs = Some (int (readyReplicasPods n (pg_Items pods))))"

lemma allPodsAreReady_sets: "allPodsAreReady a m cv s = (Ok (Some r), s') \<Longrightarrow> sets_ready a m cv s"
  unfolding sets_ready_def by (meson allPodsAreReady_Some)

subsection \<open>What an event does\<close>

definition concerns :: "(string \<times> string list) list \<Rightarrow> Pod ApiEvent \<Rightarrow> bool" where
  "concerns m e \<longleftrightarrow> (case ae_Object e of Entity pod \<Rightarrow> correctPod (md_Name (pod_Metadata pod)) m | Text t \<Rightarrow> False)"

definition restarted :: "Pod ApiEvent \<Rightarrow> proxy_object control_event list" where
  "restarted e = (case ae_Object e of
     Entity pod \<Rightarrow> [proxy_event (PodRestarted (ae_Type e) (NewRolledOutPod pod))] | Text t \<Rightarrow> [])"

declare proxy_event.simps [simp del]

text \<open>The message that ends the watch, and the check it comes from.\<close>

fun final_answer ::
  "'w pod_api \<Rightarrow> (string \<times> string list) list \<Rightarrow> string \<Rightarrow> proxy_msg \<Rightarrow> ('w, 'c) kstate \<Rightarrow> ('w, 'c) kstate \<Rightarrow> bool" where
  "final_answer a m cv (PodRestarted ty pod) s s' \<longleftrightarrow> False"
| "final_answer a m cv (PodsError err) s s' \<longleftrightarrow> allPodsAreReady a m cv s = (Err err, s')"
| "final_answer a m cv (PodsRolledOut r) s s' \<longleftrightarrow> allPodsAreReady a m cv s = (Ok (Some r), s')"

lemma restart_event_Text: "ae_Object e = Text t \<Longrightarrow> restart_event a m cv e s = (Crash, s)"
  by (simp add: restart_event_def)

lemma restart_event_other:
  "ae_Object e = Entity pod \<Longrightarrow> \<not> concerns m e \<Longrightarrow> restart_event a m cv e s = (Ok ([], False), s)"
  by (simp add: restart_event_def concerns_def)

lemma restart_event_Ok:
  assumes "restart_event a m cv e s = (Ok (msgs, stop), s')" and "concerns m e"
  shows "stop \<Longrightarrow> \<exists>x. map proxy_event msgs = restarted e @ [proxy_event x] \<and> final_answer a m cv x s s'"
    and "\<not> stop \<Longrightarrow> map proxy_event msgs = restarted e \<and> allPodsAreReady a m cv s = (Ok None, s')"
proof -
  from assms(2) obtain pod where pod: "ae_Object e = Entity pod" "correctPod (md_Name (pod_Metadata pod)) m"
    by (auto simp: concerns_def split: payload.splits)
  have r: "restarted e = [proxy_event (PodRestarted (ae_Type e) (NewRolledOutPod pod))]"
    by (simp add: restarted_def pod)
  show "\<exists>x. map proxy_event msgs = restarted e @ [proxy_event x] \<and> final_answer a m cv x s s'" if stop
  proof -
    from assms(1) that pod consider
      (rolled) x where "allPodsAreReady a m cv s = (Ok (Some x), s')"
        "msgs = [PodRestarted (ae_Type e) (NewRolledOutPod pod), PodsRolledOut x]" |
      (err) x where "allPodsAreReady a m cv s = (Err x, s')"
        "msgs = [PodRestarted (ae_Type e) (NewRolledOutPod pod), PodsError x]"
      by (auto simp: restart_event_def Let_def try_act_eq_Ok split: option.splits)
    then show ?thesis
    proof cases
      case (rolled x)
      then show ?thesis unfolding r by (intro exI [of _ "PodsRolledOut x"]) simp
    next
      case (err x)
      then show ?thesis unfolding r by (intro exI [of _ "PodsError x"]) simp
    qed
  qed
  show "map proxy_event msgs = restarted e \<and> allPodsAreReady a m cv s = (Ok None, s')" if "\<not> stop"
    using assms(1) that pod unfolding r
    by (auto simp: restart_event_def Let_def try_act_eq_Ok split: option.splits)
qed

lemma restart_event_check:
  assumes "concerns m e"
  shows "allPodsAreReady a m cv s = (Ok None, s') \<Longrightarrow>
      \<exists>msg. restart_event a m cv e s = (Ok ([msg], False), s')"
    and "allPodsAreReady a m cv s = (Ok (Some r), s') \<Longrightarrow>
      \<exists>msg. restart_event a m cv e s = (Ok ([msg, PodsRolledOut r], True), s')"
  using assms
  by (auto simp: concerns_def restart_event_def try_act_def Let_def split: payload.splits)

text \<open>
  The loop: one message for each event on a pod that is asked for, in order, and when it stops one more,
  the last.
\<close>

definition told :: "(string \<times> string list) list \<Rightarrow> Pod ApiEvent list \<Rightarrow> proxy_object control_event list" where
  "told m es = concat (map restarted (filter (concerns m) es))"

lemma told_simps [simp]:
  "told m [] = []" "told m (e # es) = (if concerns m e then restarted e else []) @ told m es"
  by (simp_all add: told_def)

lemma restarting_run_Ok:
  assumes "restarting_run c a m cv st is s = (Ok (out, stopped, st'), s')"
  shows "\<exists>seen rest evs. is = seen @ rest \<and> loop_run c st seen = Ret (st', evs) \<and>
    (if stopped then \<exists>x t. out = told m evs @ [proxy_event x] \<and> final_answer a m cv x t s'
     else rest = [] \<and> out = told m evs)"
  using assms
proof (induction "is" arbitrary: st s out)
  case Nil
  then show ?case by simp
next
  case (Cons i "is")
  from Cons.prems obtain st1 ev where step: "loop_step c st i = Ret (st1, ev)"
    by (cases "loop_step c st i") (auto simp: bind_act_def)
  show ?case
  proof (cases ev)
    case None
    with Cons.prems step have "restarting_run c a m cv st1 is s = (Ok (out, stopped, st'), s')"
      by (simp add: bind_act_def)
    from Cons.IH [OF this] obtain seen rest evs where
      i: "is = seen @ rest" "loop_run c st1 seen = Ret (st', evs)"
      "if stopped then \<exists>x t. out = told m evs @ [proxy_event x] \<and> final_answer a m cv x t s'
       else rest = [] \<and> out = told m evs" by blast
    have "i # is = (i # seen) @ rest" "loop_run c st (i # seen) = Ret (st', evs)"
      using i(1,2) step None by simp_all
    with i(3) show ?thesis by blast
  next
    case (Some e)
    from Cons.prems step obtain msgs stop s1 where e: "restart_event a m cv e s = (Ok (msgs, stop), s1)"
      and r: "(if stop then ret (map proxy_event msgs, True, st1)
         else bind_act (restarting_run c a m cv st1 is) (\<lambda>(rest, stopped, st'').
           ret (map proxy_event msgs @ rest, stopped, st''))) s1 = (Ok (out, stopped, st'), s')"
      by (auto simp: bind_act_eq_Ok Some)
    have other: "msgs = [] \<and> \<not> stop" if "\<not> concerns m e"
      using e restart_event_other [OF _ that, of _ a cv s] restart_event_Text [of e _ a m cv s]
      by (cases "ae_Object e") auto
    show ?thesis
    proof (cases stop)
      case True
      with other have c: "concerns m e" by blast
      from r True have o': "out = map proxy_event msgs" "stopped" "s1 = s'" "st1 = st'" by auto
      from restart_event_Ok(1) [OF e c True] obtain x where
        x: "map proxy_event msgs = restarted e @ [proxy_event x]" "final_answer a m cv x s s1" by blast
      have "i # is = [i] @ is" "loop_run c st [i] = Ret (st', [e])" using step Some o'(4) by simp_all
      moreover have "out = told m [e] @ [proxy_event x]" using x(1) o'(1) c by simp
      ultimately show ?thesis using o'(2,3) x(2) by (simp only: if_True) blast
    next
      case False
      with r obtain tail where l: "restarting_run c a m cv st1 is s1 = (Ok (tail, stopped, st'), s')"
        and o': "out = map proxy_event msgs @ tail"
        by (auto simp: bind_act_eq_Ok)
      have h: "out = (if concerns m e then restarted e else []) @ tail"
        using other restart_event_Ok(2) [OF e _ False] o' by auto
      from Cons.IH [OF l] obtain seen rest evs where i: "is = seen @ rest" "loop_run c st1 seen = Ret (st', evs)"
        "if stopped then \<exists>x t. tail = told m evs @ [proxy_event x] \<and> final_answer a m cv x t s'
          else rest = [] \<and> tail = told m evs" by blast
      have "i # is = (i # seen) @ rest" "loop_run c st (i # seen) = Ret (st', e # evs)"
        using i(1,2) step Some by simp_all
      moreover from i(3) have "if stopped
          then \<exists>x t. out = told m (e # evs) @ [proxy_event x] \<and> final_answer a m cv x t s'
          else rest = [] \<and> out = told m (e # evs)"
        by (simp add: h split: if_splits)
      ultimately show ?thesis by blast
    qed
  qed
qed

text \<open>What comes after a part of the inputs that did not end the watch.\<close>

lemma restarting_run_append:
  assumes "restarting_run c a m cv st xs s = (Ok (out, False, st'), s')"
  shows "restarting_run c a m cv st (xs @ ys) s =
    bind_act (restarting_run c a m cv st' ys) (\<lambda>(rest, stopped, st''). ret (out @ rest, stopped, st'')) s'"
  using assms
proof (induction xs arbitrary: st s out)
  case Nil
  then show ?case by (simp add: bind_act_def split: prod.split res.split)
next
  case (Cons i xs)
  from Cons.prems obtain st1 ev where step: "loop_step c st i = Ret (st1, ev)"
    by (cases "loop_step c st i") (auto simp: bind_act_def)
  show ?case
  proof (cases ev)
    case None
    with Cons step show ?thesis by (simp add: bind_act_def)
  next
    case (Some e)
    with Cons.prems step obtain msgs s1 tail where e: "restart_event a m cv e s = (Ok (msgs, False), s1)"
      and l: "restarting_run c a m cv st1 xs s1 = (Ok (tail, False, st'), s')" and o': "out = map proxy_event msgs @ tail"
      by (auto simp: bind_act_eq_Ok split: if_splits)
    from Cons.IH [OF l] show ?thesis
      by (simp add: step Some bind_act_def e o' split: prod.splits res.splits)
  qed
qed

lemma failed_reconnection:
  assumes "wl_state st = Connect"
  shows "restarting_run c a m cv st (Connected (Some e) same # is) s = (Crash, s)"
  using assms by (auto simp: bind_act_def loop_step.simps restart_event_Text Let_def split: sum.split)

end
