(* ===== verification/Restart_Guarantees.thy ===== *)
theory Restart_Guarantees
  imports Restart_Watch Exec_Guarantees Entity_Guarantees
begin

section \<open>Properties of the watch on restarting pods\<close>

text \<open>
  What a client of \<open>WatchPodsRestarting\<close> (\<open>pod.go\<close>) is told, from the events of the API server to the
  last message, and what a failed reconnection does to the process.
\<close>

text \<open>
  C20: the client of a watch on restarting pods gets one message for each event on a pod of the
  replica sets asked for, in the order of the events. If the watch is stopped, then by one more
  message, and this is either the error of the check or the answer that all pods are ready; with
  that answer each replica set asked for had as many ready pods as it desires in the list of pods
  that was read. Without such a message nothing is stopped and nothing is left out.
\<close>

theorem restart_watch_protocol:
  assumes "WatchPodsRestarting labels_String apps_List extension_List ns f err nil_watcher s0 = (Ok (cv, st), s)"
    and "restarting_run (pods_watch labels_String ns f) a m cv st is s = (Ok (out, stopped, st'), s')"
  shows "\<exists>seen rest evs. is = seen @ rest \<and> wl_state st = Running \<and>
    loop_run (pods_watch labels_String ns f) st seen = Ret (st', evs) \<and>
    (if stopped then \<exists>x t. out = told m evs @ [proxy_event x] \<and> final_answer a m cv x t s' \<and>
       ((\<exists>r. x = PodsRolledOut r) \<longrightarrow> sets_ready a m cv t)
     else rest = [] \<and> out = told m evs)"
proof -
  from assms(1) have run: "wl_state st = Running"
    by (auto simp: WatchPodsRestarting_def bind_act_eq_Ok rest_Watch_def split: sum.splits option.splits if_splits)
  from restarting_run_Ok [OF assms(2)] obtain seen rest evs where
    b: "is = seen @ rest" "loop_run (pods_watch labels_String ns f) st seen = Ret (st', evs)"
    and e: "if stopped then \<exists>x t. out = told m evs @ [proxy_event x] \<and> final_answer a m cv x t s'
      else rest = [] \<and> out = told m evs" by blast
  have "\<exists>x t. out = told m evs @ [proxy_event x] \<and> final_answer a m cv x t s' \<and>
      ((\<exists>r. x = PodsRolledOut r) \<longrightarrow> sets_ready a m cv t)" if stopped
  proof -
    from e that obtain x t where x: "out = told m evs @ [proxy_event x]" "final_answer a m cv x t s'" by auto
    then have "(\<exists>r. x = PodsRolledOut r) \<longrightarrow> sets_ready a m cv t" by (auto dest: allPodsAreReady_sets)
    with x show ?thesis by blast
  qed
  with b e run show ?thesis by (cases stopped) (simp only: if_True if_False, blast)+
qed

text \<open>
  A replica set with one desired pod, whose pod is ready after its second event: the world counts the
  lists of pods that were read.
\<close>

definition starting_pod :: v1_Pod where
  "starting_pod = sample_pod\<lparr>vpod_Status := (vpod_Status sample_pod)\<lparr>vpst_Conditions := []\<rparr>\<rparr>"

definition rolling_cluster :: "nat pod_api" where
  "rolling_cluster = slow_restart\<lparr>
     po_Pods := (po_Pods slow_restart)\<lparr>cl_List := (\<lambda>_ w.
       (Inr \<lparr> pg_Items = [if w = 0 then starting_pod else sample_pod], pg_Continue = [] \<rparr>, Suc w))\<rparr>,
     po_AppsReplicaSet_Get := (\<lambda>n w. (Inr (replica_set n ''2''), w))\<rparr>"

definition rolling_inputs :: "v1_Pod loop_input list" where
  "rolling_inputs = [Received ''ADDED'' (Typed starting_pod), Received ''MODIFIED'' (Typed sample_pod),
     Received ''DELETED'' (Typed sample_pod)]"

abbreviation rolling_start :: "(nat, unit) kstate" where
  "rolling_start \<equiv> \<lparr> ks_world = 0, ks_cache = () \<rparr>"

definition rolling_watch :: watch_loop where
  "rolling_watch = \<lparr> wl_state = Running, wl_bookmark = [], wl_requests = [\<lparr> wo_LabelSelector = [], wo_Watch = True,
     wo_AllowWatchBookmarks = True, wo_ResourceVersion = [], wo_Namespace = ''ns'' \<rparr>] \<rparr>"

definition all_pods :: filter_Meta where
  "all_pods = \<lparr> fm_Labels = None, fm_Annotations = None, fm_WatchBookmark = False \<rparr>"

definition rolling_run :: "(proxy_object control_event list \<times> bool \<times> watch_loop) res \<times> (nat, unit) kstate" where
  "rolling_run = restarting_run (pods_watch (\<lambda>_. []) ''ns'' all_pods) rolling_cluster [(''replica-set'', [''shop-1''])]
     ''appsV1Client'' rolling_watch rolling_inputs rolling_start"

lemma rolling_opened:
  "WatchPodsRestarting (\<lambda>_. []) (\<lambda>w. (Inr (), w)) (\<lambda>w. (Inr (), w)) ''ns'' all_pods None False rolling_start =
     (Ok (''appsV1Client'', rolling_watch), rolling_start)"
  by (simp add: WatchPodsRestarting_def getKubernetesClientVersion_def try_act_def api_def bind_act_def
    rest_Watch_def doWatchRequest_def pods_watch_def all_pods_def rolling_watch_def)

text \<open>The two checks.\<close>

abbreviation rolling_sets :: "(string \<times> string list) list" where
  "rolling_sets \<equiv> [(''replica-set'', [''shop-1''])]"

lemma first_check:
  "allPodsAreReady rolling_cluster rolling_sets ''appsV1Client'' rolling_start =
     (Ok None, \<lparr> ks_world = 1, ks_cache = () \<rparr>)"
  by code_simp

lemma second_check:
  "\<exists>r. allPodsAreReady rolling_cluster rolling_sets ''appsV1Client'' \<lparr> ks_world = 1, ks_cache = () \<rparr> =
     (Ok (Some r), \<lparr> ks_world = 2, ks_cache = () \<rparr>)"
proof -
  have "case allPodsAreReady rolling_cluster rolling_sets ''appsV1Client'' \<lparr> ks_world = 1, ks_cache = () \<rparr> of
      (Ok (Some r), s') \<Rightarrow> ks_world s' = 2 | _ \<Rightarrow> False" by code_simp
  then show ?thesis by (auto split: prod.splits res.splits option.splits)
qed

lemma pod_event:
  assumes "om_Name (vpod_Meta p) = ''shop-1''" and "vps_Volumes (vpod_Spec p) = []" and "ty \<noteq> ''ERROR''" and "ty \<noteq> ''BOOKMARK''"
    and "wl_state st = Running"
  obtains e where "loop_step (pods_watch ls ns f) st (Received ty (Typed p)) = Ret (st, Some e)" and "concerns rolling_sets e"
    and "ae_Object e \<noteq> Text t"
proof -
  have "PodFromOsPod p \<noteq> Panic" using assms(2) by (simp add: PodFromOsPod_Panic_iff)
  then obtain pod where pod: "PodFromOsPod p = Ret pod" by (cases "PodFromOsPod p") auto
  then have "md_Name (pod_Metadata pod) = ''shop-1''"
    using assms(1) by (auto simp: PodFromOsPod_def bind_run_eq_Ret FromObjectMeta_def)
  with pod assms show thesis
    by (intro that [of "\<lparr> ae_Type = ty, ae_Object = Entity pod \<rparr>"])
      (simp_all add: loop_step.simps pods_watch_def concerns_def correctPod_def)
qed

theorem restart_watch_protocol_witness:
  "\<exists>out st' s' evs x. rolling_run = (Ok (out, True, st'), s') \<and> length out = 3 \<and>
     out = told rolling_sets evs @ [proxy_event x]"
proof -
  note p = pod_event [where st = rolling_watch and ls = "\<lambda>_. []" and ns = "''ns''" and f = all_pods]
  have w: "wl_state rolling_watch = Running" by (simp add: rolling_watch_def)
  have n: "om_Name (vpod_Meta sample_pod) = ''shop-1''" "vps_Volumes (vpod_Spec sample_pod) = []"
    "om_Name (vpod_Meta starting_pod) = ''shop-1''" "vps_Volumes (vpod_Spec starting_pod) = []"
    by (simp_all add: starting_pod_def sample_pod_def zero_PodSpec_def)
  obtain e where e: "loop_step (pods_watch (\<lambda>_. []) ''ns'' all_pods) rolling_watch (Received ''ADDED'' (Typed starting_pod)) =
      Ret (rolling_watch, Some e)" "concerns rolling_sets e"
    using p [OF n(3,4), of "''ADDED''"] w by auto
  obtain e' where e': "loop_step (pods_watch (\<lambda>_. []) ''ns'' all_pods) rolling_watch (Received ''MODIFIED'' (Typed sample_pod)) =
      Ret (rolling_watch, Some e')" "concerns rolling_sets e'"
    using p [OF n(1,2), of "''MODIFIED''"] w by auto
  from restart_event_check(1) [OF e(2) first_check] obtain x where
    x: "restart_event rolling_cluster rolling_sets ''appsV1Client'' e rolling_start = (Ok ([x], False), \<lparr> ks_world = 1, ks_cache = () \<rparr>)"
    by blast
  from second_check obtain r where c: "allPodsAreReady rolling_cluster rolling_sets ''appsV1Client'' \<lparr> ks_world = 1, ks_cache = () \<rparr> =
     (Ok (Some r), \<lparr> ks_world = 2, ks_cache = () \<rparr>)" by blast
  from restart_event_check(2) [OF e'(2) c] obtain y where
    y: "restart_event rolling_cluster rolling_sets ''appsV1Client'' e' \<lparr> ks_world = 1, ks_cache = () \<rparr> =
      (Ok ([y, PodsRolledOut r], True), \<lparr> ks_world = 2, ks_cache = () \<rparr>)" by blast
  have run: "rolling_run = (Ok ([proxy_event x, proxy_event y, proxy_event (PodsRolledOut r)], True, rolling_watch),
      \<lparr> ks_world = 2, ks_cache = () \<rparr>)"
    by (simp add: rolling_run_def rolling_inputs_def bind_act_def e e' x y y [simplified])
  from restart_watch_protocol [OF rolling_opened run [unfolded rolling_run_def]]
  obtain evs z where "[proxy_event x, proxy_event y, proxy_event (PodsRolledOut r)] = told rolling_sets evs @ [proxy_event z]"
    by (simp only: if_True) blast
  moreover have "length [proxy_event x, proxy_event y, proxy_event (PodsRolledOut r)] = 3" by simp
  ultimately show ?thesis using run by blast
qed

text \<open>
  C35: when the API server drops the watch on pods and refuses to open it again, the text of the
  error goes to the goroutine as an event, whose type assertion panics, whatever was sent before
  and whatever comes after.
\<close>

theorem refused_reconnection_panics:
  assumes "restarting_run c a m cv st is s = (Ok (out, False, st'), s')" and "wl_state st' = Connect"
  shows "restarting_run c a m cv st (is @ Connected (Some e) same # later) s = (Crash, s')"
  using assms by (simp add: restarting_run_append failed_reconnection bind_act_def del: restarting_run.simps)

theorem refused_reconnection_panics_witness:
  "restarting_run (pods_watch (\<lambda>_. []) ''ns'' all_pods) rolling_cluster rolling_sets
     ''appsV1Client'' rolling_watch ([ChannelClosed] @ Connected (Some (no_such ''watch'')) False # []) rolling_start =
   (Crash, rolling_start)"
proof -
  have "restarting_run (pods_watch (\<lambda>_. []) ''ns'' all_pods) rolling_cluster rolling_sets
     ''appsV1Client'' rolling_watch [ChannelClosed] rolling_start =
      (Ok ([], False, rolling_watch\<lparr>wl_state := Connect\<rparr>), rolling_start)"
    by (simp add: loop_step.simps rolling_watch_def bind_act_def)
  then show ?thesis by (rule refused_reconnection_panics) simp
qed

end
