(* ===== verification/Cache_Race.thy ===== *)
theory Cache_Race
  imports Cache_Adapter
begin

section \<open>Writes of the client against events of the watch\<close>

text \<open>
  A client writes to the cache itself after a call on the API server (\<open>cacheIngressRoute\<close>,
  \<open>cacheHTTPRoute\<close> and the deletions of \<open>route.go\<close>), while the cache adapter of the kind
  (\<open>adapterForCache.go\<close>) applies the events of the watch in a goroutine of its own. This theory
  interleaves the two: the events the server has announced, how many of them the adapter has applied,
  the cache operations that clients still owe after their calls, and the cache.
\<close>

subsection \<open>Steps\<close>

text \<open>
  What is owed: the entry for the object of the event of that number, or the removal of an entry.
\<close>

datatype 't owed = PutEntry nat 't | DropEntry string string

record ('c, 't) race =
  ra_events :: "'t adapter_input list"
  ra_handled :: nat
  ra_owed :: "'t owed list"
  ra_content :: 'c

definition event_key :: "('t \<Rightarrow> Metadata) \<Rightarrow> 't adapter_input \<Rightarrow> (string \<times> string) option" where
  "event_key gm i = (case i of AdapterEvent ty x \<Rightarrow> Some (getNamespaceAndName gm x) | _ \<Rightarrow> None)"

text \<open>What the server has, and the event of a write.\<close>

definition server_view :: "('t \<Rightarrow> Metadata) \<Rightarrow> 't adapter_input list \<Rightarrow> 't cluster_view" where
  "server_view gm es = view_events gm es (\<lambda>_. None)"

definition put_event :: "('t \<Rightarrow> Metadata) \<Rightarrow> 't adapter_input list \<Rightarrow> 't \<Rightarrow> 't adapter_input" where
  "put_event gm es x =
     AdapterEvent (if server_view gm es (getNamespaceAndName gm x) = None then ''ADDED'' else ''MODIFIED'') x"

text \<open>No event on the object after the one of that number was applied yet.\<close>

definition in_time :: "('t \<Rightarrow> Metadata) \<Rightarrow> ('c, 't) race \<Rightarrow> nat \<Rightarrow> 't \<Rightarrow> bool" where
  "in_time gm s j x \<longleftrightarrow>
     (\<forall>i. j < i \<longrightarrow> i < ra_handled s \<longrightarrow> event_key gm (ra_events s ! i) \<noteq> Some (getNamespaceAndName gm x))"

text \<open>
  A write of this client or of another one (\<open>own\<close>), the cache operation that follows a write of this
  client, an event that the adapter applies, and the loss of entries, as when they expire. With
  \<open>prompt\<close> a client's entry is placed in time.
\<close>

inductive race_step ::
  "('t \<Rightarrow> Metadata) \<Rightarrow> 'c ristrettoCacheAdapter \<Rightarrow> 't json \<Rightarrow> string \<Rightarrow> bool \<Rightarrow>
     ('c, 't) race \<Rightarrow> ('c, 't) race \<Rightarrow> bool" for gm ad js kind prompt
where
  put: "CHR ''/'' \<notin> set (md_Namespace (gm x)) \<Longrightarrow>
    race_step gm ad js kind prompt s (s\<lparr>ra_events := ra_events s @ [put_event gm (ra_events s) x],
      ra_owed := ra_owed s @ (if own then [PutEntry (length (ra_events s)) x] else [])\<rparr>)"
| drop: "server_view gm (ra_events s) (ns, name) = Some x \<Longrightarrow>
    race_step gm ad js kind prompt s (s\<lparr>ra_events := ra_events s @ [AdapterEvent ''DELETED'' x],
      ra_owed := ra_owed s @ (if own then [DropEntry ns name] else [])\<rparr>)"
| cache_put: "ra_owed s = os @ PutEntry j x # os' \<Longrightarrow> (prompt \<longrightarrow> in_time gm s j x) \<Longrightarrow>
    race_step gm ad js kind prompt s (s\<lparr>ra_owed := os @ os',
      ra_content := snd (cache_Set gm (NewResourceCache kind (newEntityAdapter js ad)) x (ra_content s))\<rparr>)"
| cache_drop: "ra_owed s = os @ DropEntry ns name # os' \<Longrightarrow>
    race_step gm ad js kind prompt s (s\<lparr>ra_owed := os @ os',
      ra_content := cache_Delete (NewResourceCache kind (newEntityAdapter js ad)) ns name (ra_content s)\<rparr>)"
| adapter: "ra_handled s < length (ra_events s) \<Longrightarrow> ra_events s ! ra_handled s = AdapterEvent ty x \<Longrightarrow>
    race_step gm ad js kind prompt s (s\<lparr>ra_handled := Suc (ra_handled s),
      ra_content := OnWatchEvent gm (NewResourceCache kind (newEntityAdapter js ad)) ty x (ra_content s)\<rparr>)"
| lost: "\<forall>k. rGet (ra_cache ad) k c = None \<or> rGet (ra_cache ad) k c = rGet (ra_cache ad) k (ra_content s) \<Longrightarrow>
    race_step gm ad js kind prompt s (s\<lparr>ra_content := c\<rparr>)"

definition race_start :: "'c \<Rightarrow> ('c, 't) race" where
  "race_start c = \<lparr> ra_events = [], ra_handled = 0, ra_owed = [], ra_content = c \<rparr>"

inductive race_reach ::
  "('t \<Rightarrow> Metadata) \<Rightarrow> 'c ristrettoCacheAdapter \<Rightarrow> 't json \<Rightarrow> string \<Rightarrow> bool \<Rightarrow> 'c \<Rightarrow> ('c, 't) race \<Rightarrow> bool"
  for gm ad js kind prompt c
where
  start: "race_reach gm ad js kind prompt c (race_start c)"
| step: "race_reach gm ad js kind prompt c s \<Longrightarrow> race_step gm ad js kind prompt s s' \<Longrightarrow>
    race_reach gm ad js kind prompt c s'"

inductive_cases race_stepE: "race_step gm ad js kind prompt s s'"

text \<open>All events applied, nothing owed.\<close>

definition quiet :: "('c, 't) race \<Rightarrow> bool" where
  "quiet s \<longleftrightarrow> ra_handled s = length (ra_events s) \<and> ra_owed s = []"

subsection \<open>The operations on one kind of entries\<close>

lemma cache_Set_entry:
  assumes "ristretto_ok (ra_cache ad)" and "CHR ''/'' \<notin> set kind" and "CHR ''/'' \<notin> set (md_Namespace (gm x))"
    and "CHR ''/'' \<notin> set ns"
    and "v = cache_Get (NewResourceCache kind (newEntityAdapter js ad)) ns name
      (snd (cache_Set gm (NewResourceCache kind (newEntityAdapter js ad)) x c))"
  shows "v = None \<or> v = cache_Get (NewResourceCache kind (newEntityAdapter js ad)) ns name c \<or>
    (ns, name) = getNamespaceAndName gm x \<and> v = Some (json_stored js x)"
proof -
  let ?k = "toCacheKey kind (md_Namespace (gm x)) (md_Name (gm x))" and ?k' = "toCacheKey kind ns name"
  have ok: "ok_cacheKey ?k \<and> ck_kind ?k = kind" "ok_cacheKey ?k' \<and> ck_kind ?k' = kind"
    using assms by (simp_all add: ok_cacheKey_def toCacheKey_def)
  obtain ok a' where s: "parts_Set ?k x (ad, js, c) = (ok, a')" by (rule prod.exhaust)
  have inv: "parts_invar (ad, js, c)" using assms(1) by (simp add: parts_invar_def)
  have get: "cache_Get (NewResourceCache kind (newEntityAdapter js ad)) ns name c' = parts_Get ?k' (ad, js, c')" for c'
    by (simp add: cache_Get_def NewResourceCache_def newEntityAdapter_def parts_Get_def toCacheKey_def)
  have v: "v = parts_Get ?k' a'"
    using assms(5) parts_Set_shape [OF s] s by (simp add: get cache_Set_parts)
  show ?thesis
  proof (cases "?k' = ?k")
    case True
    then have "(ns, name) = getNamespaceAndName gm x"
      by (simp add: toCacheKey_def getNamespaceAndName_def Let_def)
    with kind_cache.get_set_same [OF inv s] True v show ?thesis
      by (auto simp: get parts_stored_def split: if_splits)
  next
    case False
    with kind_cache.get_set_other [OF inv ok(1,2) False s] v show ?thesis by (auto simp: get)
  qed
qed

lemma cache_Delete_entry:
  assumes "ristretto_ok (ra_cache ad)" and "CHR ''/'' \<notin> set kind" and "CHR ''/'' \<notin> set ns'" and "CHR ''/'' \<notin> set ns"
    and "v = cache_Get (NewResourceCache kind (newEntityAdapter js ad)) ns name
      (cache_Delete (NewResourceCache kind (newEntityAdapter js ad)) ns' name' c)"
  shows "v = None \<or> (ns, name) \<noteq> (ns', name') \<and> v = cache_Get (NewResourceCache kind (newEntityAdapter js ad)) ns name c"
proof -
  let ?k = "toCacheKey kind ns' name'" and ?k' = "toCacheKey kind ns name"
  have ok: "ok_cacheKey ?k \<and> ck_kind ?k = kind" "ok_cacheKey ?k' \<and> ck_kind ?k' = kind"
    using assms by (simp_all add: ok_cacheKey_def toCacheKey_def)
  have inv: "parts_invar (ad, js, c)" using assms(1) by (simp add: parts_invar_def)
  have get: "cache_Get (NewResourceCache kind (newEntityAdapter js ad)) ns name c' = parts_Get ?k' (ad, js, c')" for c'
    by (simp add: cache_Get_def NewResourceCache_def newEntityAdapter_def parts_Get_def toCacheKey_def)
  have v: "v = parts_Get ?k' (parts_Del ?k (ad, js, c))"
    unfolding assms(5) get by (simp add: parts_Del_def cache_Delete_def NewResourceCache_def newEntityAdapter_def toCacheKey_def)
  show ?thesis
  proof (cases "?k' = ?k")
    case True
    with kind_cache.get_del_same [OF inv] v show ?thesis by metis
  next
    case False
    with kind_cache.get_del_other [OF inv ok(1,2) False] v show ?thesis by (auto simp: get toCacheKey_def)
  qed
qed

subsection \<open>The events\<close>

lemma view_events_snoc:
  "list_all (\<lambda>i. event_key gm i \<noteq> None) es \<Longrightarrow>
   view_events gm (es @ [AdapterEvent ty x]) m = view_event gm ty x (view_events gm es m)"
  by (induction gm es m rule: view_events.induct) (auto simp: event_key_def)

definition history :: "('t \<Rightarrow> Metadata) \<Rightarrow> 't adapter_input list \<Rightarrow> bool" where
  "history gm es \<longleftrightarrow> (\<forall>i < length es. \<exists>ty x. es ! i = AdapterEvent ty x \<and>
     CHR ''/'' \<notin> set (md_Namespace (gm x)) \<and> ty \<in> {''ADDED'', ''MODIFIED'', ''DELETED''} \<and>
     (ty = ''ADDED'' \<longrightarrow> server_view gm (take i es) (getNamespaceAndName gm x) = None))"

lemma history_snoc:
  "history gm (es @ [AdapterEvent ty x]) \<longleftrightarrow> history gm es \<and> CHR ''/'' \<notin> set (md_Namespace (gm x)) \<and>
     ty \<in> {''ADDED'', ''MODIFIED'', ''DELETED''} \<and> (ty = ''ADDED'' \<longrightarrow> server_view gm es (getNamespaceAndName gm x) = None)"
  by (auto simp: history_def nth_append less_Suc_eq all_conj_distrib imp_conjL)

lemma history_events: "history gm es \<Longrightarrow> list_all (\<lambda>i. event_key gm i \<noteq> None) es"
  by (fastforce simp: history_def list_all_length event_key_def)

lemma server_view_snoc:
  "history gm es \<Longrightarrow> server_view gm (es @ [AdapterEvent ty x]) = view_event gm ty x (server_view gm es)"
  unfolding server_view_def by (rule view_events_snoc) (rule history_events)

text \<open>Two directions: what the server has was announced, and the last announcement is what it has.\<close>

lemma server_view_announced:
  "history gm es \<Longrightarrow> server_view gm es key = Some x \<Longrightarrow> key = getNamespaceAndName gm x \<and> CHR ''/'' \<notin> set (md_Namespace (gm x))"
proof (induction es rule: rev_induct)
  case Nil
  then show ?case by (simp add: server_view_def)
next
  case (snoc e es)
  from snoc.prems(1) obtain ty y where e: "e = AdapterEvent ty y" by (fastforce simp: history_def)
  with snoc show ?case by (auto simp: history_snoc server_view_snoc split: if_splits)
qed

lemma server_view_last:
  "history gm es \<Longrightarrow> j < length es \<Longrightarrow> es ! j = AdapterEvent ty x \<Longrightarrow> ty \<noteq> ''DELETED'' \<Longrightarrow>
   \<forall>i. j < i \<longrightarrow> i < length es \<longrightarrow> event_key gm (es ! i) \<noteq> Some (getNamespaceAndName gm x) \<Longrightarrow>
   server_view gm es (getNamespaceAndName gm x) = Some x"
proof (induction es rule: rev_induct)
  case Nil
  then show ?case by simp
next
  case (snoc e es)
  from snoc.prems(1) obtain ty' y where e: "e = AdapterEvent ty' y" by (fastforce simp: history_def)
  with snoc.prems(1) have h: "history gm es" and t: "ty' \<in> {''ADDED'', ''MODIFIED'', ''DELETED''}"
    by (simp_all add: history_snoc)
  show ?case
  proof (cases "j = length es")
    case True
    with snoc.prems(3,4) e t show ?thesis by (auto simp: server_view_snoc h)
  next
    case False
    with snoc.prems(2) have j: "j < length es" by simp
    with snoc.prems(5) have "event_key gm ((es @ [e]) ! length es) \<noteq> Some (getNamespaceAndName gm x)"
      by (auto dest!: spec [of _ "length es"])
    then have "getNamespaceAndName gm y \<noteq> getNamespaceAndName gm x" by (simp add: e event_key_def)
    moreover have "server_view gm es (getNamespaceAndName gm x) = Some x"
    proof (rule snoc.IH [OF h j])
      show "\<forall>i. j < i \<longrightarrow> i < length es \<longrightarrow> event_key gm (es ! i) \<noteq> Some (getNamespaceAndName gm x)"
        using snoc.prems(5) by (metis length_append_singleton less_Suc_eq nth_append)
    qed (use snoc.prems(3,4) j in \<open>simp_all add: nth_append\<close>)
    ultimately show ?thesis by (simp add: e server_view_snoc h)
  qed
qed

subsection \<open>The invariant\<close>

text \<open>
  The cache has of an object only what was announced and is not older than the last event the adapter
  applied on it; what is owed was announced.
\<close>

definition entry_of :: "('t \<Rightarrow> Metadata) \<Rightarrow> ('c, 't) race \<Rightarrow> nat \<Rightarrow> 't \<Rightarrow> bool" where
  "entry_of gm s j x \<longleftrightarrow> j < length (ra_events s) \<and> (\<exists>ty. ty \<noteq> ''DELETED'' \<and> ra_events s ! j = AdapterEvent ty x)"

definition current_entries ::
  "('t \<Rightarrow> Metadata) \<Rightarrow> 'c ristrettoCacheAdapter \<Rightarrow> 't json \<Rightarrow> string \<Rightarrow> ('c, 't) race \<Rightarrow> bool" where
  "current_entries gm ad js kind s \<longleftrightarrow> (\<forall>ns name v. CHR ''/'' \<notin> set ns \<longrightarrow>
     cache_Get (NewResourceCache kind (newEntityAdapter js ad)) ns name (ra_content s) = Some v \<longrightarrow>
     (\<exists>j x. entry_of gm s j x \<and> getNamespaceAndName gm x = (ns, name) \<and> v = json_stored js x \<and> in_time gm s j x))"

definition owed_ok :: "('t \<Rightarrow> Metadata) \<Rightarrow> ('c, 't) race \<Rightarrow> bool" where
  "owed_ok gm s \<longleftrightarrow> (\<forall>j x. PutEntry j x \<in> set (ra_owed s) \<longrightarrow> entry_of gm s j x) \<and>
     (\<forall>ns name. DropEntry ns name \<in> set (ra_owed s) \<longrightarrow> CHR ''/'' \<notin> set ns)"

definition race_ok :: "('t \<Rightarrow> Metadata) \<Rightarrow> ('c, 't) race \<Rightarrow> bool" where
  "race_ok gm s \<longleftrightarrow> history gm (ra_events s) \<and> ra_handled s \<le> length (ra_events s) \<and> owed_ok gm s"

lemma entry_of_append: "entry_of gm s j x \<Longrightarrow> entry_of gm (s\<lparr>ra_events := ra_events s @ es\<rparr>) j x"
  by (auto simp: entry_of_def nth_append)

lemma entry_of_same [simp]:
  "entry_of gm (s\<lparr>ra_owed := os\<rparr>) j x \<longleftrightarrow> entry_of gm s j x"
  "entry_of gm (s\<lparr>ra_handled := h\<rparr>) j x \<longleftrightarrow> entry_of gm s j x"
  "entry_of gm (s\<lparr>ra_content := c\<rparr>) j x \<longleftrightarrow> entry_of gm s j x"
  by (simp_all add: entry_of_def)

lemma in_time_append:
  "ra_handled s \<le> length (ra_events s) \<Longrightarrow>
   in_time gm (s\<lparr>ra_events := ra_events s @ es\<rparr>) j x \<longleftrightarrow> in_time gm s j x"
  by (auto simp: in_time_def nth_append)

lemma in_time_same [simp]:
  "in_time gm (s\<lparr>ra_owed := os\<rparr>) j x \<longleftrightarrow> in_time gm s j x"
  "in_time gm (s\<lparr>ra_content := c\<rparr>) j x \<longleftrightarrow> in_time gm s j x"
  by (simp_all add: in_time_def)

lemma race_step_ok:
  assumes "race_step gm ad js kind prompt s s'" and "race_ok gm s"
  shows "race_ok gm s'"
  using assms
proof cases
  case (put x own)
  let ?s' = "s\<lparr>ra_events := ra_events s @ [put_event gm (ra_events s) x],
      ra_owed := ra_owed s @ (if own then [PutEntry (length (ra_events s)) x] else [])\<rparr>"
  have "history gm (ra_events s @ [put_event gm (ra_events s) x])"
    using assms(2) put(2) by (simp add: put_event_def history_snoc race_ok_def)
  moreover have "entry_of gm ?s' (length (ra_events s)) x" by (simp add: entry_of_def put_event_def)
  moreover have "entry_of gm ?s' j y" if "entry_of gm s j y" for j y
    using entry_of_append [OF that] by simp
  ultimately show ?thesis
    using assms(2) unfolding put(1) race_ok_def owed_ok_def by (auto split: if_splits)
next
  case (drop ns name x own)
  let ?s' = "s\<lparr>ra_events := ra_events s @ [AdapterEvent ''DELETED'' x],
      ra_owed := ra_owed s @ (if own then [DropEntry ns name] else [])\<rparr>"
  from server_view_announced [OF _ drop(2)] assms(2) have k: "(ns, name) = getNamespaceAndName gm x"
    "CHR ''/'' \<notin> set (md_Namespace (gm x))" by (auto simp: race_ok_def)
  then have "CHR ''/'' \<notin> set ns" by (simp add: getNamespaceAndName_def Let_def)
  moreover have "history gm (ra_events s @ [AdapterEvent ''DELETED'' x])"
    using assms(2) k by (simp add: history_snoc race_ok_def)
  moreover have "entry_of gm ?s' j y" if "entry_of gm s j y" for j y
    using entry_of_append [OF that] by simp
  ultimately show ?thesis
    using assms(2) unfolding drop(1) race_ok_def owed_ok_def by (auto split: if_splits)
qed (auto simp: race_ok_def owed_ok_def)

text \<open>The adapter's next event.\<close>

lemma in_time_handled:
  assumes "ra_handled s < length (ra_events s)" and "ra_events s ! ra_handled s = AdapterEvent ty x"
  shows "in_time gm (s\<lparr>ra_handled := Suc (ra_handled s)\<rparr>) j y \<longleftrightarrow>
    in_time gm s j y \<and> (j < ra_handled s \<longrightarrow> getNamespaceAndName gm y \<noteq> getNamespaceAndName gm x)"
  using assms by (auto simp: in_time_def less_Suc_eq event_key_def)

text \<open>An event ADDED is on an object of which nothing older can still be current.\<close>

lemma added_is_first:
  assumes "history gm (ra_events s)" and "ra_handled s < length (ra_events s)"
    and "ra_events s ! ra_handled s = AdapterEvent ''ADDED'' x"
    and "entry_of gm s j y" and "in_time gm s j y" and "getNamespaceAndName gm y = getNamespaceAndName gm x"
  shows "ra_handled s \<le> j"
proof (rule ccontr)
  let ?es = "take (ra_handled s) (ra_events s)"
  assume "\<not> ra_handled s \<le> j"
  then have j: "j < ra_handled s" by simp
  from assms(4) obtain ty where ty: "ty \<noteq> ''DELETED''" "ra_events s ! j = AdapterEvent ty y"
    by (auto simp: entry_of_def)
  have "history gm ?es"
    using assms(1,2) by (simp add: history_def take_take min_def)
  moreover have "\<forall>i. j < i \<longrightarrow> i < length ?es \<longrightarrow> event_key gm (?es ! i) \<noteq> Some (getNamespaceAndName gm y)"
    using assms(2,5) by (simp add: in_time_def)
  ultimately have "server_view gm ?es (getNamespaceAndName gm y) = Some y"
    using server_view_last [of gm ?es j ty y] j ty assms(2) by simp
  moreover have "server_view gm ?es (getNamespaceAndName gm x) = None"
    using assms(1-3) by (auto simp: history_def)
  ultimately show False using assms(6) by simp
qed

lemma OnWatchEvent_entry:
  assumes "ristretto_ok (ra_cache ad)" and "CHR ''/'' \<notin> set kind" and "CHR ''/'' \<notin> set (md_Namespace (gm x))"
    and "CHR ''/'' \<notin> set ns" and "ty \<in> {''ADDED'', ''MODIFIED'', ''DELETED''}"
    and "v = cache_Get (NewResourceCache kind (newEntityAdapter js ad)) ns name
      (OnWatchEvent gm (NewResourceCache kind (newEntityAdapter js ad)) ty x c)"
  shows "v = None \<or> ty \<noteq> ''DELETED'' \<and> (ns, name) = getNamespaceAndName gm x \<and> v = Some (json_stored js x) \<or>
    (ty = ''ADDED'' \<or> (ns, name) \<noteq> getNamespaceAndName gm x) \<and>
      v = cache_Get (NewResourceCache kind (newEntityAdapter js ad)) ns name c"
proof -
  let ?rc = "NewResourceCache kind (newEntityAdapter js ad)"
  have nn: "getNamespaceAndName gm x = (md_Namespace (gm x), md_Name (gm x))"
    by (simp add: getNamespaceAndName_def Let_def)
  note set = cache_Set_entry [where gm = gm and ad = ad and kind = kind and x = x and ns = ns and js = js, OF assms(1-4) refl]
  note del = cache_Delete_entry [where ad = ad and kind = kind and ns = ns and js = js, OF assms(1,2,3,4) refl]
  from assms(5) consider "ty = ''ADDED''" | "ty = ''MODIFIED''" | "ty = ''DELETED''" by blast
  then show ?thesis
  proof cases
    case 1
    with set [of name c] assms(6) show ?thesis by (auto simp: OnWatchEvent_def)
  next
    case 2
    then have v: "v = cache_Get ?rc ns name (snd (cache_Set gm ?rc x
        (cache_Delete ?rc (md_Namespace (gm x)) (md_Name (gm x)) c)))"
      by (simp add: assms(6) OnWatchEvent_def nn)
    from set [of name "cache_Delete ?rc (md_Namespace (gm x)) (md_Name (gm x)) c"]
      del [of name "md_Name (gm x)" c] 2 show ?thesis unfolding v nn by auto
  next
    case 3
    then have v: "v = cache_Get ?rc ns name (cache_Delete ?rc (md_Namespace (gm x)) (md_Name (gm x)) c)"
      by (simp add: assms(6) OnWatchEvent_def nn)
    from del [of name "md_Name (gm x)" c] show ?thesis unfolding v nn by auto
  qed
qed

text \<open>
  A step keeps the invariant if each entry after it is a new one of an event that counts, or an old one
  of an object whose events still count.
\<close>

lemma current_entries_change:
  assumes "current_entries gm ad js kind s"
    and "\<And>ns name v. CHR ''/'' \<notin> set ns \<Longrightarrow>
      cache_Get (NewResourceCache kind (newEntityAdapter js ad)) ns name (ra_content s') = Some v \<Longrightarrow>
      (\<exists>j x. entry_of gm s' j x \<and> getNamespaceAndName gm x = (ns, name) \<and> v = json_stored js x \<and> in_time gm s' j x) \<or>
      cache_Get (NewResourceCache kind (newEntityAdapter js ad)) ns name (ra_content s) = Some v \<and>
      (\<forall>j x. entry_of gm s j x \<longrightarrow> getNamespaceAndName gm x = (ns, name) \<longrightarrow> in_time gm s j x \<longrightarrow>
         entry_of gm s' j x \<and> in_time gm s' j x)"
  shows "current_entries gm ad js kind s'"
  unfolding current_entries_def
proof (intro allI impI)
  fix ns name v
  assume ns: "CHR ''/'' \<notin> set ns"
    and v: "cache_Get (NewResourceCache kind (newEntityAdapter js ad)) ns name (ra_content s') = Some v"
  from assms(2) [OF ns v] show "\<exists>j x. entry_of gm s' j x \<and> getNamespaceAndName gm x = (ns, name) \<and>
      v = json_stored js x \<and> in_time gm s' j x"
  proof (elim disjE conjE)
    assume "cache_Get (NewResourceCache kind (newEntityAdapter js ad)) ns name (ra_content s) = Some v"
      and keep: "\<forall>j x. entry_of gm s j x \<longrightarrow> getNamespaceAndName gm x = (ns, name) \<longrightarrow> in_time gm s j x \<longrightarrow>
         entry_of gm s' j x \<and> in_time gm s' j x"
    with assms(1) ns show ?thesis unfolding current_entries_def by meson
  qed
qed

lemma race_step_current:
  assumes step: "race_step gm ad js kind True s s'" and ok: "race_ok gm s" and cur: "current_entries gm ad js kind s"
    and lib: "ristretto_ok (ra_cache ad)" "CHR ''/'' \<notin> set kind"
  shows "current_entries gm ad js kind s'"
proof (rule current_entries_change [OF cur])
  fix ns name v
  assume ns: "CHR ''/'' \<notin> set ns"
    and v: "cache_Get (NewResourceCache kind (newEntityAdapter js ad)) ns name (ra_content s') = Some v"
  let ?new = "\<exists>j x. entry_of gm s' j x \<and> getNamespaceAndName gm x = (ns, name) \<and> v = json_stored js x \<and> in_time gm s' j x"
  let ?old = "cache_Get (NewResourceCache kind (newEntityAdapter js ad)) ns name (ra_content s) = Some v \<and>
      (\<forall>j x. entry_of gm s j x \<longrightarrow> getNamespaceAndName gm x = (ns, name) \<longrightarrow> in_time gm s j x \<longrightarrow>
         entry_of gm s' j x \<and> in_time gm s' j x)"
  from ok have h: "ra_handled s \<le> length (ra_events s)" and hist: "history gm (ra_events s)" by (simp_all add: race_ok_def)
  from step show "?new \<or> ?old"
  proof cases
    case (put x own)
    with v h show ?thesis by (simp add: entry_of_append in_time_append)
  next
    case (drop ns' name' x own)
    with v h show ?thesis by (simp add: entry_of_append in_time_append)
  next
    case (cache_put os j x os')
    with ok have e: "entry_of gm s j x" by (auto simp: race_ok_def owed_ok_def)
    with hist have "CHR ''/'' \<notin> set (md_Namespace (gm x))" by (fastforce simp: entry_of_def history_def)
    from cache_Set_entry [where gm = gm and ad = ad and js = js, OF lib this ns refl, of name "ra_content s"] v
    consider "cache_Get (NewResourceCache kind (newEntityAdapter js ad)) ns name (ra_content s) = Some v"
      | "getNamespaceAndName gm x = (ns, name)" "v = json_stored js x" unfolding cache_put(1) by auto
    then show ?thesis
    proof cases
      case 1
      then show ?thesis unfolding cache_put(1) by simp
    next
      case 2
      with e cache_put(3) show ?thesis unfolding cache_put(1)
        by (intro disjI1 exI [of _ j]) (auto intro: exI [of _ x])
    qed
  next
    case (cache_drop os ns' name' os')
    with ok have "CHR ''/'' \<notin> set ns'" by (auto simp: race_ok_def owed_ok_def)
    from cache_Delete_entry [where ad = ad and js = js, OF lib this ns refl, of name name' "ra_content s"] v
    show ?thesis unfolding cache_drop(1) by auto
  next
    case (adapter ty x)
    with hist have x: "CHR ''/'' \<notin> set (md_Namespace (gm x))" "ty \<in> {''ADDED'', ''MODIFIED'', ''DELETED''}"
      by (fastforce simp: history_def)+
    note it = in_time_handled [where gm = gm, OF adapter(2,3)]
    from OnWatchEvent_entry [where gm = gm and ad = ad and js = js, OF lib x(1) ns x(2) refl, of name "ra_content s"] v adapter(1)
    consider "ty \<noteq> ''DELETED''" "getNamespaceAndName gm x = (ns, name)" "v = json_stored js x"
      | "ty = ''ADDED'' \<or> (ns, name) \<noteq> getNamespaceAndName gm x"
        "cache_Get (NewResourceCache kind (newEntityAdapter js ad)) ns name (ra_content s) = Some v" by auto
    then show ?thesis
    proof cases
      case 1
      have "entry_of gm s (ra_handled s) x" using adapter(2,3) 1(1) by (auto simp: entry_of_def)
      moreover have "in_time gm s (ra_handled s) x" by (simp add: in_time_def)
      ultimately show ?thesis using 1 it unfolding adapter(1) by auto
    next
      case 2
      have "j < ra_handled s \<longrightarrow> getNamespaceAndName gm y \<noteq> getNamespaceAndName gm x"
        if "entry_of gm s j y" "getNamespaceAndName gm y = (ns, name)" "in_time gm s j y" for j y
        using 2(1) added_is_first [OF hist adapter(2) _ that(1,3)] adapter(3) that(2) by fastforce
      with 2(2) it show ?thesis unfolding adapter(1) by simp
    qed
  next
    case (lost c)
    from lost(2) [THEN spec [of _ "key_String (toCacheKey kind ns name)"]] v have "cache_Get (NewResourceCache kind (newEntityAdapter js ad)) ns name (ra_content s) = Some v"
      unfolding lost(1)
      by (cases "rGet (ra_cache ad) (key_String (toCacheKey kind ns name)) (ra_content s)")
        (auto simp: cache_Get_def NewResourceCache_def newEntityAdapter_def entity_Get_def shared_Get_def Let_def)
    then show ?thesis unfolding lost(1) by simp
  qed
qed

lemma race_reach_current:
  assumes "race_reach gm ad js kind True c s" and "cache_agrees ad js kind c (\<lambda>_. None)" and "CHR ''/'' \<notin> set kind"
  shows "race_ok gm s \<and> current_entries gm ad js kind s"
  using assms(1)
proof induction
  case start
  from assms(2) show ?case
    by (auto simp: race_ok_def race_start_def history_def owed_ok_def current_entries_def cache_agrees_def)
next
  case (step s s')
  with assms(2,3) show ?case by (auto simp: cache_agrees_def intro: race_step_ok race_step_current)
qed

text \<open>In a quiet state the last event on an object decides.\<close>

lemma quiet_agrees:
  assumes "race_ok gm s" and "current_entries gm ad js kind s" and "quiet s" and "ristretto_ok (ra_cache ad)"
  shows "cache_agrees ad js kind (ra_content s) (server_view gm (ra_events s))"
  unfolding cache_agrees_def
proof (intro conjI allI impI)
  fix ns name
  assume ns: "CHR ''/'' \<notin> set ns"
  let ?v = "cache_Get (NewResourceCache kind (newEntityAdapter js ad)) ns name (ra_content s)"
  show "?v = None \<or> ?v = map_option (json_stored js) (server_view gm (ra_events s) (ns, name))"
  proof (cases ?v)
    case (Some v)
    with assms(2) ns obtain j x where e: "entry_of gm s j x" "getNamespaceAndName gm x = (ns, name)"
      "v = json_stored js x" "in_time gm s j x" unfolding current_entries_def by blast
    from e(1) obtain ty where ty: "j < length (ra_events s)" "ra_events s ! j = AdapterEvent ty x" "ty \<noteq> ''DELETED''"
      by (auto simp: entry_of_def)
    have "server_view gm (ra_events s) (getNamespaceAndName gm x) = Some x"
      using assms(1,3) e(4) by (intro server_view_last [OF _ ty]) (auto simp: race_ok_def quiet_def in_time_def)
    with e Some show ?thesis by simp
  qed simp
qed (rule assms)

end
