(* ===== verification/Watch_Chain.thy ===== *)
theory Watch_Chain
  imports Joining_Watch
begin

section \<open>Several clients join one after the other\<close>

text \<open>
  Every client that joins before the next bookmark puts one more notifier in front
  (\<open>kubeWatchServiceShared.go\<close>), so the chain of previous notifiers can have any length. An event that
  announces a changed object is handed down as \<open>PREVIOUS\<close>, and each notifier on its way may settle
  whether it is told as an addition or as a modification. Up to that difference each client of the chain
  sees what a watch of its own would show it.
\<close>

subsection \<open>Alike up to additions and modifications\<close>

definition like :: "'t ApiEvent \<Rightarrow> 't ApiEvent \<Rightarrow> bool" where
  "like e e' \<longleftrightarrow> ae_Object e = ae_Object e' \<and>
     (ae_Type e = ae_Type e' \<or> ae_Type e \<in> {''ADDED'', ''MODIFIED''} \<and> ae_Type e' \<in> {''ADDED'', ''MODIFIED''})"

definition alike :: "known \<Rightarrow> known \<Rightarrow> bool" where
  "alike k k' \<longleftrightarrow> (\<forall>key. map_option (\<lambda>v. (vt_resourceVersion v, vt_eventType v = ''DELETED'')) (k key) =
     map_option (\<lambda>v. (vt_resourceVersion v, vt_eventType v = ''DELETED'')) (k' key))"

lemma like_refl [simp, intro]: "like e e"
  by (simp add: like_def)

lemma like_trans: "like a b \<Longrightarrow> like b c \<Longrightarrow> like a c"
  by (auto simp: like_def)

lemma alike_refl [simp, intro]: "alike k k"
  by (simp add: alike_def)

lemma alike_trans: "alike a b \<Longrightarrow> alike b c \<Longrightarrow> alike a c"
  by (simp add: alike_def)

lemma alike_version: "alike k k' \<Longrightarrow> map_option vt_resourceVersion (k key) = map_option vt_resourceVersion (k' key)"
  unfolding alike_def by (drule spec [of _ key]) (cases "k key"; cases "k' key"; simp)

lemma alike_forget: "alike k k' \<Longrightarrow> alike (forget_deleted k) (forget_deleted k')"
  unfolding alike_def
proof (intro allI)
  fix key
  assume "\<forall>key. map_option (\<lambda>v. (vt_resourceVersion v, vt_eventType v = ''DELETED'')) (k key) =
     map_option (\<lambda>v. (vt_resourceVersion v, vt_eventType v = ''DELETED'')) (k' key)"
  from spec [OF this, of key] show "map_option (\<lambda>v. (vt_resourceVersion v, vt_eventType v = ''DELETED'')) (forget_deleted k key) =
     map_option (\<lambda>v. (vt_resourceVersion v, vt_eventType v = ''DELETED'')) (forget_deleted k' key)"
    by (cases "k key"; cases "k' key") (auto simp: forget_deleted_def)
qed

lemma learn_entity:
  assumes "ae_Object e = Entity obj" and "ae_Type e \<noteq> ''BOOKMARK''"
  shows "map_option vt_resourceVersion (known (md_Namespace (getMeta obj), md_Name (getMeta obj))) =
      Some (md_ResourceVersion (getMeta obj)) \<Longrightarrow> learn getMeta e known = known"
    and "map_option vt_resourceVersion (known (md_Namespace (getMeta obj), md_Name (getMeta obj))) \<noteq>
      Some (md_ResourceVersion (getMeta obj)) \<Longrightarrow> learn getMeta e known =
      known((md_Namespace (getMeta obj), md_Name (getMeta obj)) \<mapsto>
        \<lparr> vt_resourceVersion = md_ResourceVersion (getMeta obj), vt_eventType = ae_Type e \<rparr>)"
  unfolding learn.simps assms(1) payload.case using assms(2) by (simp_all only: if_False if_True simp_thms)

lemma alike_learn:
  assumes "alike k k'" and "like e e'"
  shows "alike (learn getMeta e k) (learn getMeta e' k')"
proof (cases "ae_Object e")
  case (Text s)
  then have "ae_Object e' = Text s" using assms(2) by (simp add: like_def)
  with Text assms(1) show ?thesis by (simp add: learn.simps)
next
  case (Entity obj)
  let ?key = "(md_Namespace (getMeta obj), md_Name (getMeta obj))"
  from assms(2) Entity have e': "ae_Object e' = Entity obj" and b: "ae_Type e = ''BOOKMARK'' \<longleftrightarrow> ae_Type e' = ''BOOKMARK''"
    and d: "ae_Type e = ''DELETED'' \<longleftrightarrow> ae_Type e' = ''DELETED''"
    by (auto simp: like_def)
  show ?thesis
  proof (cases "ae_Type e = ''BOOKMARK''")
    case True
    with Entity e' b alike_forget [OF assms(1)] show ?thesis by (simp add: learn.simps)
  next
    case False
    with b have nb: "ae_Type e \<noteq> ''BOOKMARK''" "ae_Type e' \<noteq> ''BOOKMARK''" by auto
    show ?thesis
    proof (cases "map_option vt_resourceVersion (k ?key) = Some (md_ResourceVersion (getMeta obj))")
      case True
      with alike_version [OF assms(1), of ?key] have
        "map_option vt_resourceVersion (k' ?key) = Some (md_ResourceVersion (getMeta obj))" by metis
      from learn_entity(1) [where getMeta = getMeta and known = k, OF Entity nb(1) True]
        learn_entity(1) [where getMeta = getMeta and known = k', OF e' nb(2) this] assms(1)
      show ?thesis by simp
    next
      case ne: False
      with alike_version [OF assms(1), of ?key] have
        "map_option vt_resourceVersion (k' ?key) \<noteq> Some (md_ResourceVersion (getMeta obj))" by metis
      from learn_entity(2) [where getMeta = getMeta and known = k, OF Entity nb(1) ne]
        learn_entity(2) [where getMeta = getMeta and known = k', OF e' nb(2) this] assms(1) d
      show ?thesis by (auto simp: alike_def)
    qed
  qed
qed

lemma alike_fold: "alike k k' \<Longrightarrow> alike (fold (learn getMeta) evs k) (fold (learn getMeta) evs k')"
  by (induction evs arbitrary: k k') (auto intro: alike_learn)

text \<open>What a watch shows depends on the knowledge up to this likeness only.\<close>

lemma private_watch_one_alike: "alike k k' \<Longrightarrow> private_watch getMeta f k [ev] = private_watch getMeta f k' [ev]"
proof (cases "ae_Object ev")
  case (Entity obj)
  assume a: "alike k k'"
  show ?thesis
  proof (cases "ae_Type ev = ''BOOKMARK''")
    case False
    show ?thesis
      unfolding private_watch_Cons [OF Entity False] alike_version [OF a] by (simp only: private_watch.simps(1))
  qed (simp add: Entity)
qed simp

lemma private_watch_alike: "alike k k' \<Longrightarrow> private_watch getMeta f k evs = private_watch getMeta f k' evs"
proof (induction evs arbitrary: k k')
  case (Cons ev evs)
  have "private_watch getMeta f k (ev # evs) =
      private_watch getMeta f k [ev] @ private_watch getMeta f (learn getMeta ev k) evs"
    by (rule private_watch_first)
  also have "\<dots> = private_watch getMeta f k' [ev] @ private_watch getMeta f (learn getMeta ev k') evs"
    by (simp only: private_watch_one_alike [OF Cons.prems] Cons.IH [OF alike_learn [OF Cons.prems like_refl]])
  finally show ?case by (simp only: private_watch_first [symmetric])
qed simp

subsection \<open>One event through a chain\<close>

definition chain_ok :: "(string \<Rightarrow> bool) \<Rightarrow> notifier list \<Rightarrow> bool" where
  "chain_ok slow chain \<longleftrightarrow> list_all (keeps_up slow) chain \<and> distinct (chain_ids chain)"

definition plain :: "'t ApiEvent \<Rightarrow> 't ApiEvent" where
  "plain ev = (if ae_Type ev = ''PREVIOUS'' then ev\<lparr>ae_Type := ''ADDED''\<rparr> else ev)"

text \<open>What an event does to a notifier and its clients, up to the likeness.\<close>

definition shown :: "(string \<Rightarrow> bool) \<Rightarrow> ('t \<Rightarrow> Metadata) \<Rightarrow> 't ApiEvent list \<Rightarrow> 't signal list \<Rightarrow> notifier \<Rightarrow> notifier \<Rightarrow> bool" where
  "shown slow getMeta evs out n n' \<longleftrightarrow> nt_clients n' = nt_clients n \<and> keeps_up slow n' \<and>
     alike (map_of (nt_versions n')) (fold (learn getMeta) evs (map_of (nt_versions n))) \<and>
     (\<forall>cid f. (cid, f) \<in> set (nt_clients n) \<longrightarrow>
        list_all2 like (events_for cid out) (private_watch getMeta f (map_of (nt_versions n)) evs))"

definition shown_exactly ::
  "(string \<Rightarrow> bool) \<Rightarrow> ('t \<Rightarrow> Metadata) \<Rightarrow> 't ApiEvent list \<Rightarrow> 't signal list \<Rightarrow> notifier \<Rightarrow> notifier \<Rightarrow> bool" where
  "shown_exactly slow getMeta evs out n n' \<longleftrightarrow> nt_clients n' = nt_clients n \<and> keeps_up slow n' \<and>
     map_of (nt_versions n') = fold (learn getMeta) evs (map_of (nt_versions n)) \<and>
     (\<forall>cid f. (cid, f) \<in> set (nt_clients n) \<longrightarrow>
        events_for cid out = private_watch getMeta f (map_of (nt_versions n)) evs)"

lemma shown_exactly_imp: "shown_exactly slow getMeta evs out n n' \<Longrightarrow> shown slow getMeta evs out n n'"
  by (simp add: shown_exactly_def shown_def list_all2_refl)

lemma shown_cong:
  assumes "shown slow getMeta evs out n n'" and "\<And>cid. cid \<in> fst ` set (nt_clients n) \<Longrightarrow> events_for cid out' = events_for cid out"
  shows "shown slow getMeta evs out' n n'"
  using assms unfolding shown_def by force

lemma resolved_like: "ae_Type ev \<noteq> ''PREVIOUS'' \<Longrightarrow> like (resolved known meta ev) (plain ev)"
  "like (plain ev) ev' \<Longrightarrow> like (resolved known meta ev) ev'"
  by (auto simp: like_def resolved_def plain_def split: option.split)

lemma served_shown:
  assumes s: "served slow getMeta n obj ev' n' out'" and ev: "ae_Object ev = Entity obj" "ae_Type ev \<noteq> ''BOOKMARK''"
    and l: "like ev' ev" and none: "\<And>cid. cid \<in> fst ` set (nt_clients n) \<Longrightarrow> events_for cid out = []"
  shows "shown slow getMeta [ev] (out @ out') n n'"
    and "ev' = ev \<Longrightarrow> shown_exactly slow getMeta [ev] (out @ out') n n'"
proof -
  have e: "events_for cid (out @ out') = events_for cid out'" if "(cid, f) \<in> set (nt_clients n)" for cid f
    using none [OF imageI [OF that, of fst]] by (simp add: events_for_append)
  show "shown slow getMeta [ev] (out @ out') n n'"
    using s l alike_learn [OF alike_refl l] unfolding shown_def private_watch_Cons [OF ev]
    by (auto simp: served_def e private_watch.simps(1))
  show "shown_exactly slow getMeta [ev] (out @ out') n n'" if "ev' = ev"
    using s that unfolding shown_exactly_def private_watch_Cons [OF ev]
    by (auto simp: served_def e private_watch.simps(1))
qed

lemma chain_ok_Cons:
  "chain_ok slow (n # ns) \<longleftrightarrow> keeps_up slow n \<and> chain_ok slow ns \<and> fst ` set (nt_clients n) \<inter> set (chain_ids ns) = {}"
  by (auto simp: chain_ok_def keeps_up_def)

lemma client_in_chain: "p \<in> set ps \<Longrightarrow> cid \<in> fst ` set (nt_clients p) \<Longrightarrow> cid \<in> set (chain_ids ps)"
  by (auto simp: chain_ids_def)

text \<open>The event that comes back: settled, if it was internal, and else unchanged.\<close>

definition settled :: "'t ApiEvent \<Rightarrow> 't ApiEvent \<Rightarrow> bool" where
  "settled ev ev' \<longleftrightarrow> ae_Object ev' = ae_Object ev \<and>
     (if ae_Type ev = ''PREVIOUS'' then ae_Type ev' \<in> {''PREVIOUS'', ''ADDED'', ''MODIFIED''} else ev' = ev)"

lemma settled_resolved:
  assumes "settled ev e1" and "e \<in> {e1, resolved known meta e1}"
  shows "settled ev e" and "like (resolved known meta e1) (plain ev)"
    and "ae_Type ev \<noteq> ''PREVIOUS'' \<Longrightarrow> resolved known meta e1 = ev"
  using assms by (auto simp: settled_def resolved_def like_def plain_def split: option.splits if_splits)

lemma list_all2_conj_set: "list_all2 P xs ys \<Longrightarrow> list_all2 (\<lambda>x y. P x y \<and> x \<in> set xs) xs ys"
  by (auto simp: list_all2_conv_all_nth)

lemma acceptEvent_chain:
  fixes getMeta :: "'t \<Rightarrow> Metadata"
  assumes "chain_ok slow chain" and "ae_Object ev = Entity obj" and "ae_Type ev \<noteq> ''BOOKMARK''"
  shows "\<exists>chain' out ev'. acceptEvent getMeta slow ev chain = (chain', out, ev') \<and> closed_ids out = [] \<and>
    settled ev ev' \<and> (\<forall>cid. cid \<notin> set (chain_ids chain) \<longrightarrow> events_for cid out = []) \<and>
    list_all2 (shown slow getMeta [plain ev] out) chain chain' \<and>
    (ae_Type ev \<noteq> ''PREVIOUS'' \<longrightarrow> chain \<noteq> [] \<longrightarrow> shown_exactly slow getMeta [ev] out (hd chain) (hd chain'))"
  using assms
proof (induction chain arbitrary: ev)
  case Nil
  then show ?case by (simp add: settled_def)
next
  case (Cons n prev)
  from Cons.prems(1) have n: "keeps_up slow n" and prev: "chain_ok slow prev"
    and disj: "fst ` set (nt_clients n) \<inter> set (chain_ids prev) = {}" by (simp_all add: chain_ok_Cons)
  have pobj: "ae_Object (plain ev) = Entity obj" "ae_Type (plain ev) \<noteq> ''BOOKMARK''"
    using Cons.prems(2,3) by (simp_all add: plain_def)
  obtain prev' out1 e1 where p: "pass_on getMeta slow ev (getMeta obj) prev = (prev', out1, e1)"
    and 1: "closed_ids out1 = []" "settled ev e1" "\<forall>cid. cid \<notin> set (chain_ids prev) \<longrightarrow> events_for cid out1 = []"
      "list_all2 (shown slow getMeta [plain ev] out1) prev prev'"
  proof (cases "prev = []")
    case True
    then show ?thesis by (intro that [of "[]" "[]" ev]) (auto simp: pass_on_def settled_def)
  next
    case ne: False
    show ?thesis
    proof (cases "ae_Type ev = ''ADDED'' \<and> md_Generation (getMeta obj) > 1")
      case True
      let ?ev = "ev\<lparr>ae_Type := ''PREVIOUS''\<rparr>"
      have "ae_Object ?ev = Entity obj" "ae_Type ?ev \<noteq> ''BOOKMARK''" using Cons.prems(2) by simp_all
      from Cons.IH [OF prev this] obtain prev' out1 e' where
        "acceptEvent getMeta slow ?ev prev = (prev', out1, e')" "closed_ids out1 = []"
        "\<forall>cid. cid \<notin> set (chain_ids prev) \<longrightarrow> events_for cid out1 = []"
        "list_all2 (shown slow getMeta [plain ?ev] out1) prev prev'" by blast
      moreover have "plain ?ev = plain ev" using True by (cases ev) (simp add: plain_def)
      ultimately show ?thesis using True ne
        by (intro that [of prev' out1 ev]) (auto simp: pass_on_def settled_def simp del: acceptEvent.simps)
    next
      case False
      from Cons.IH [OF prev Cons.prems(2,3)] obtain prev' out1 e' where
        "acceptEvent getMeta slow ev prev = (prev', out1, e')" "closed_ids out1 = []" "settled ev e'"
        "\<forall>cid. cid \<notin> set (chain_ids prev) \<longrightarrow> events_for cid out1 = []"
        "list_all2 (shown slow getMeta [plain ev] out1) prev prev'" by blast
      with False ne show ?thesis
        by (intro that [of prev' out1 e']) (auto simp: pass_on_def simp del: acceptEvent.simps)
    qed
  qed
  have e1: "ae_Object e1 = Entity obj" "ae_Type e1 \<noteq> ''BOOKMARK''"
    using 1(2) Cons.prems(2,3) by (auto simp: settled_def split: if_splits)
  from take_event_sent [OF n e1, of getMeta prev' out1] obtain n' out2 e where
    t: "take_event slow (getMeta obj) n prev' out1 e1 = (n' # prev', out1 @ out2, e)"
    and e: "e \<in> {e1, resolved (map_of (nt_versions n)) (getMeta obj) e1}"
    and s: "served slow getMeta n obj (resolved (map_of (nt_versions n)) (getMeta obj) e1) n' out2" .
  have a: "acceptEvent getMeta slow ev (n # prev) = (n' # prev', out1 @ out2, e)"
    by (simp only: acceptEvent_entity [OF Cons.prems(2,3)] p t prod.case)
  have none: "events_for cid out1 = []" if "cid \<in> fst ` set (nt_clients n)" for cid
    using 1(3) that disj by blast
  have head: "shown slow getMeta [plain ev] (out1 @ out2) n n'"
    by (rule served_shown(1) [OF s pobj settled_resolved(2) [OF 1(2) e] none])
  have exact: "shown_exactly slow getMeta [ev] (out1 @ out2) n n'" if "ae_Type ev \<noteq> ''PREVIOUS''"
    using served_shown(2) [OF s Cons.prems(2,3) _ none] settled_resolved(3) [OF 1(2) e that] by simp
  have "list_all2 (shown slow getMeta [plain ev] (out1 @ out2)) prev prev'"
  proof (rule list_all2_mono [OF list_all2_conj_set [OF 1(4)]])
    fix q q'
    assume "shown slow getMeta [plain ev] out1 q q' \<and> q \<in> set prev"
    moreover have "events_for cid out2 = []" if "cid \<in> fst ` set (nt_clients q)" "q \<in> set prev" for cid
    proof -
      from s have "cid \<notin> fst ` set (nt_clients n) \<longrightarrow> events_for cid out2 = []" by (simp add: served_def)
      with client_in_chain [OF that(2,1)] disj show ?thesis by blast
    qed
    ultimately show "shown slow getMeta [plain ev] (out1 @ out2) q q'"
      by (elim conjE shown_cong) (simp add: events_for_append)
  qed
  with a head exact settled_resolved(1) [OF 1(2) e] 1(1,3) s show ?case
    by (auto simp: served_def events_for_append simp del: acceptEvent.simps)
qed

subsection \<open>Sequences of events\<close>

lemma chain_ids_clients: "map nt_clients ns = map nt_clients ms \<Longrightarrow> chain_ids ns = chain_ids ms"
  by (simp add: chain_ids_def flip: map_map [of "map fst" nt_clients, unfolded comp_def])

lemma shown_clients: "list_all2 (shown slow getMeta evs out) ns ms \<Longrightarrow> map nt_clients ms = map nt_clients ns"
  by (auto simp: list_all2_conv_all_nth shown_def intro: nth_equalityI)

lemma shown_chain_ok:
  assumes "list_all2 (shown slow getMeta evs out) ns ms" and "chain_ok slow ns"
  shows "chain_ok slow ms"
proof -
  have "list_all (keeps_up slow) ms"
    using assms(1) by (auto simp: list_all2_conv_all_nth list_all_length shown_def)
  with assms(2) chain_ids_clients [OF shown_clients [OF assms(1)]] show ?thesis by (simp add: chain_ok_def)
qed

lemma shown_Nil: "keeps_up slow n \<Longrightarrow> shown_exactly slow getMeta [] [] n n"
  by (simp add: shown_exactly_def)

text \<open>What one event showed and what the later ones did.\<close>

lemma shown_Cons:
  assumes "shown slow getMeta [ev] out n n1" and "shown slow getMeta evs out' n1 n2"
  shows "shown slow getMeta (ev # evs) (out @ out') n n2"
  unfolding shown_def
proof (intro conjI allI impI)
  let ?k = "map_of (nt_versions n)" and ?k1 = "map_of (nt_versions n1)"
  from assms show "nt_clients n2 = nt_clients n" and "keeps_up slow n2" by (simp_all add: shown_def)
  have k1: "alike ?k1 (learn getMeta ev ?k)" using assms(1) by (simp add: shown_def)
  from assms(2) alike_fold [OF k1, of getMeta evs]
  show "alike (map_of (nt_versions n2)) (fold (learn getMeta) (ev # evs) ?k)"
    by (auto simp: shown_def intro: alike_trans)
  fix cid f
  assume c: "(cid, f) \<in> set (nt_clients n)"
  then have "list_all2 like (events_for cid out) (private_watch getMeta f ?k [ev])"
    "list_all2 like (events_for cid out') (private_watch getMeta f ?k1 evs)"
    using assms by (simp_all add: shown_def)
  then have "list_all2 like (events_for cid (out @ out'))
      (private_watch getMeta f ?k [ev] @ private_watch getMeta f (learn getMeta ev ?k) evs)"
    unfolding events_for_append private_watch_alike [OF k1, symmetric] by (rule list_all2_appendI)
  then show "list_all2 like (events_for cid (out @ out')) (private_watch getMeta f ?k (ev # evs))"
    by (simp only: private_watch_first [symmetric])
qed

lemma shown_exactly_Cons:
  assumes "shown_exactly slow getMeta [ev] out n n1" and "shown_exactly slow getMeta evs out' n1 n2"
  shows "shown_exactly slow getMeta (ev # evs) (out @ out') n n2"
  unfolding shown_exactly_def
proof (intro conjI allI impI)
  from assms show "nt_clients n2 = nt_clients n" and "keeps_up slow n2" by (simp_all add: shown_exactly_def)
  from assms show "map_of (nt_versions n2) = fold (learn getMeta) (ev # evs) (map_of (nt_versions n))"
    by (simp add: shown_exactly_def)
  fix cid f
  assume c: "(cid, f) \<in> set (nt_clients n)"
  with assms have "events_for cid (out @ out') = private_watch getMeta f (map_of (nt_versions n)) [ev] @
      private_watch getMeta f (learn getMeta ev (map_of (nt_versions n))) evs"
    unfolding shown_exactly_def events_for_append by (simp del: private_watch.simps)
  then show "events_for cid (out @ out') = private_watch getMeta f (map_of (nt_versions n)) (ev # evs)"
    by (simp only: private_watch_first [symmetric])
qed

lemma list_all2_shown_Cons:
  "list_all2 (shown slow getMeta [ev] out) ns ms \<Longrightarrow> list_all2 (shown slow getMeta evs out') ms ks \<Longrightarrow>
   list_all2 (shown slow getMeta (ev # evs) (out @ out')) ns ks"
  by (rule list_all2_trans [OF shown_Cons])

lemma Text_shown:
  assumes "ae_Object ev = Text s" and "keeps_up slow n"
  shows "shown_exactly slow getMeta [ev] [] n n"
  using assms by (simp add: shown_exactly_def learn.simps)

lemma accept_all_chain:
  "chain_ok slow (n # older) \<Longrightarrow> \<forall>ev \<in> set evs. ae_Type ev \<notin> {''BOOKMARK'', ''PREVIOUS''} \<Longrightarrow>
   \<exists>n' older' out. accept_all getMeta slow evs (n # older) = (n' # older', out) \<and> closed_ids out = [] \<and>
     list_all2 (shown slow getMeta evs out) older older' \<and> shown_exactly slow getMeta evs out n n'"
proof (induction evs arbitrary: n older)
  case Nil
  then have "list_all2 (shown slow getMeta [] []) older older" "keeps_up slow n"
    by (auto simp: list_all2_same chain_ok_def list_all_iff intro: shown_exactly_imp shown_Nil)
  then show ?case by (simp add: shown_Nil)
next
  case (Cons ev evs)
  from Cons.prems(2) have ty: "ae_Type ev \<noteq> ''BOOKMARK''" "ae_Type ev \<noteq> ''PREVIOUS''" by auto
  obtain n1 older1 o1 where 1: "acceptEvent getMeta slow ev (n # older) = (n1 # older1, o1, ev)" "closed_ids o1 = []"
    "list_all2 (shown slow getMeta [ev] o1) older older1" "shown_exactly slow getMeta [ev] o1 n n1"
  proof (cases "ae_Object ev")
    case (Text s)
    from Cons.prems(1) have "list_all2 (shown slow getMeta [ev] []) older older" "keeps_up slow n"
      using Text_shown [OF Text] by (auto simp: list_all2_same chain_ok_def list_all_iff intro: shown_exactly_imp)
    with Text Text_shown [OF Text] show ?thesis by (intro that [of n older "[]"]) simp_all
  next
    case (Entity obj)
    from ty(2) have pl: "plain ev = ev" by (simp add: plain_def)
    from acceptEvent_chain [OF Cons.prems(1) Entity ty(1), of getMeta] obtain chain' o1 ev' where
      a: "acceptEvent getMeta slow ev (n # older) = (chain', o1, ev')" "closed_ids o1 = []" "settled ev ev'"
        "list_all2 (shown slow getMeta [ev] o1) (n # older) chain'"
        "shown_exactly slow getMeta [ev] o1 n (hd chain')" using ty(2) pl by auto
    from a(4) obtain n1 older1 where "chain' = n1 # older1" "list_all2 (shown slow getMeta [ev] o1) older older1"
      by (cases chain') auto
    with a ty(2) show ?thesis by (intro that [of n1 older1 o1]) (simp_all add: settled_def del: acceptEvent.simps)
  qed
  have "list_all2 (shown slow getMeta [ev] o1) (n # older) (n1 # older1)"
    using 1(3) shown_exactly_imp [OF 1(4)] by simp
  from shown_chain_ok [OF this Cons.prems(1)] Cons.IH [of n1 older1] Cons.prems(2) obtain n2 older2 o2 where
    2: "accept_all getMeta slow evs (n1 # older1) = (n2 # older2, o2)" "closed_ids o2 = []"
      "list_all2 (shown slow getMeta evs o2) older1 older2" "shown_exactly slow getMeta evs o2 n1 n2" by auto
  from 1 2 list_all2_shown_Cons [OF 1(3) 2(3)] shown_exactly_Cons [OF 1(4) 2(4)] show ?case
    by (intro exI [of _ n2] exI [of _ older2] exI [of _ "o1 @ o2"]) (simp del: acceptEvent.simps)
qed

subsection \<open>The bookmark\<close>

lemma distinct_concat_rev: "distinct (concat (map g (rev xs))) \<longleftrightarrow> distinct (concat (map g xs))"
  by (induction xs) auto

lemma accept_bookmark_chain:
  assumes "chain_ok slow (n # older)" and "ae_Type bm = ''BOOKMARK''" and "ae_Object bm = Entity obj"
  shows "\<exists>m out. acceptEvent getMeta slow bm (n # older) = ([m], out, bm) \<and> closed_ids out = [] \<and> keeps_up slow m \<and>
    nt_clients m = concat (map nt_clients (rev (n # older))) \<and>
    map_of (nt_versions m) = forget_deleted (map_of (nt_versions n)) \<and>
    (\<forall>q \<in> set (n # older). \<forall>cid f. (cid, f) \<in> set (nt_clients q) \<longrightarrow>
       events_for cid out = (if fm_WatchBookmark f then [bm] else []))"
proof -
  let ?cs = "concat (map nt_clients (rev (n # older)))"
  let ?m = "n\<lparr>nt_clients := ?cs, nt_versions := filter (\<lambda>(k, v). vt_eventType v \<noteq> ''DELETED'') (nt_versions n)\<rparr>"
  have set: "set ?cs = (\<Union>q \<in> set (n # older). set (nt_clients q))" by auto
  have fast: "\<forall>(cid, f) \<in> set ?cs. \<not> slow cid"
    using assms(1) unfolding set chain_ok_def keeps_up_def list_all_iff by force
  have "map fst ?cs = concat (map (\<lambda>n. map fst (nt_clients n)) (rev (n # older)))"
    by (simp add: map_concat rev_map comp_def)
  with assms(1) have d: "distinct (map fst ?cs)"
    by (simp only: chain_ok_def chain_ids_def distinct_concat_rev)
  have v: "distinct (map fst (nt_versions n))" using assms(1) by (simp add: chain_ok_def keeps_up_def)
  from acceptEvent_bookmark [OF _ assms(2,3), of n older slow getMeta] assms(1) fast
  have a: "acceptEvent getMeta slow bm (n # older) =
      ([?m], map (\<lambda>(cid, f). Sent cid bm) (filter (\<lambda>(cid, f). fm_WatchBookmark f) ?cs), bm)"
    by (fastforce simp: chain_ok_def simp del: acceptEvent.simps)
  have "\<forall>cid \<in> fst ` set ?cs. \<not> slow cid" using fast by (simp only: ball_simps split_def)
  moreover have "nt_clients ?m = ?cs" "nt_versions ?m = filter (\<lambda>(k, v). vt_eventType v \<noteq> ''DELETED'') (nt_versions n)"
    by simp_all
  ultimately have "keeps_up slow ?m" using d v by (simp only: keeps_up_def distinct_forget simp_thms)
  moreover have "events_for cid (map (\<lambda>(cid, f). Sent cid bm) (filter (\<lambda>(cid, f). fm_WatchBookmark f) ?cs)) =
      (if fm_WatchBookmark f then [bm] else [])" if "q \<in> set (n # older)" "(cid, f) \<in> set (nt_clients q)" for q cid f
    by (rule events_for_sent [OF _ d]) (use that in \<open>auto simp: set\<close>)
  moreover have "closed_ids (map (\<lambda>(cid, f). Sent cid bm) (filter (\<lambda>(cid, f). fm_WatchBookmark f) ?cs)) = []"
    by (rule closed_ids_sent)
  moreover have "nt_clients ?m = ?cs" "map_of (nt_versions ?m) = forget_deleted (map_of (nt_versions n))"
    using v by (simp_all add: map_of_forget)
  ultimately show ?thesis
    using a by (intro exI [of _ ?m] exI conjI ballI allI impI) assumption+
qed

text \<open>The whole life of the clients of a chain.\<close>

lemma chain_life:
  assumes ok: "chain_ok slow (n # older)"
    and before: "\<forall>ev \<in> set before. ae_Type ev \<notin> {''BOOKMARK'', ''PREVIOUS''}"
    and bm: "ae_Type bm = ''BOOKMARK''" "ae_Object bm = Entity obj"
    and later: "\<forall>ev \<in> set later. ae_Type ev \<noteq> ''PREVIOUS''"
  shows "\<exists>m out. accept_all getMeta slow (before @ bm # later) (n # older) = ([m], out) \<and> closed_ids out = [] \<and>
    (\<forall>cid f. (cid, f) \<in> set (nt_clients n) \<longrightarrow>
       events_for cid out = private_watch getMeta f (map_of (nt_versions n)) (before @ bm # later)) \<and>
    (\<forall>p \<in> set older. \<forall>cid f. (cid, f) \<in> set (nt_clients p) \<longrightarrow>
       (\<exists>seen. list_all2 like seen (private_watch getMeta f (map_of (nt_versions p)) before) \<and>
          events_for cid out = seen @
            private_watch getMeta f (fold (learn getMeta) before (map_of (nt_versions n))) (bm # later)))"
proof -
  from accept_all_chain [OF ok before, of getMeta] obtain n1 older1 o1 where
    1: "accept_all getMeta slow before (n # older) = (n1 # older1, o1)" "closed_ids o1 = []"
      "list_all2 (shown slow getMeta before o1) older older1" "shown_exactly slow getMeta before o1 n n1" by blast
  have all: "list_all2 (shown slow getMeta before o1) (n # older) (n1 # older1)"
    using 1(3) shown_exactly_imp [OF 1(4)] by simp
  from accept_bookmark_chain [OF shown_chain_ok [OF all ok] bm, of getMeta] obtain m o2 where
    2: "acceptEvent getMeta slow bm (n1 # older1) = ([m], o2, bm)" "closed_ids o2 = []" "keeps_up slow m"
      "nt_clients m = concat (map nt_clients (rev (n1 # older1)))"
      "map_of (nt_versions m) = forget_deleted (map_of (nt_versions n1))"
    and eb: "\<And>q cid f. q \<in> set (n1 # older1) \<Longrightarrow> (cid, f) \<in> set (nt_clients q) \<Longrightarrow>
      events_for cid o2 = (if fm_WatchBookmark f then [bm] else [])" by blast
  from 2(3) later accept_all_alone [of m slow later getMeta] obtain m2 o3 where
    3: "accept_all getMeta slow later [m] = ([m2], o3)" "closed_ids o3 = []"
    and el: "\<And>cid f. (cid, f) \<in> set (nt_clients m) \<Longrightarrow> events_for cid o3 = private_watch getMeta f (map_of (nt_versions m)) later"
    unfolding keeps_up_def by blast
  have k1: "map_of (nt_versions n1) = fold (learn getMeta) before (map_of (nt_versions n))"
    using 1(4) by (simp add: shown_exactly_def)
  have after: "events_for cid (o2 @ o3) = private_watch getMeta f (fold (learn getMeta) before (map_of (nt_versions n))) (bm # later)"
    if p: "p \<in> set (n # older)" "(cid, f) \<in> set (nt_clients p)" for p cid f
  proof -
    from shown_clients [OF all] p have "nt_clients p \<in> nt_clients ` set (n1 # older1)"
      by (metis image_eqI set_map)
    then obtain q where q: "q \<in> set (n1 # older1)" "nt_clients p = nt_clients q" by blast
    with p(2) have q: "q \<in> set (n1 # older1)" "(cid, f) \<in> set (nt_clients q)" by simp_all
    then have "(cid, f) \<in> set (nt_clients m)" unfolding 2(4) by auto
    with eb [OF q] el 2(5) bm k1 show ?thesis by (simp add: events_for_append)
  qed
  have "accept_all getMeta slow (before @ bm # later) (n # older) = ([m2], o1 @ o2 @ o3)"
    using 1(1) 2(1) 3(1) by (simp add: accept_all_append del: acceptEvent.simps)
  moreover have "closed_ids (o1 @ o2 @ o3) = []" using 1(2) 2(2) 3(2) by simp
  moreover have "events_for cid (o1 @ o2 @ o3) = private_watch getMeta f (map_of (nt_versions n)) (before @ bm # later)"
    if "(cid, f) \<in> set (nt_clients n)" for cid f
  proof -
    from 1(4) that have "events_for cid o1 = private_watch getMeta f (map_of (nt_versions n)) before"
      by (simp add: shown_exactly_def)
    with after [OF _ that] show ?thesis
      unfolding events_for_append [of cid o1] private_watch_append by simp
  qed
  moreover have "\<exists>seen. list_all2 like seen (private_watch getMeta f (map_of (nt_versions p)) before) \<and>
      events_for cid (o1 @ o2 @ o3) = seen @
        private_watch getMeta f (fold (learn getMeta) before (map_of (nt_versions n))) (bm # later)"
    if p: "p \<in> set older" "(cid, f) \<in> set (nt_clients p)" for p cid f
  proof -
    from 1(3) p(1) obtain p' where "shown slow getMeta before o1 p p'"
      by (auto simp: list_all2_conv_all_nth in_set_conv_nth)
    with p(2) have "list_all2 like (events_for cid o1) (private_watch getMeta f (map_of (nt_versions p)) before)"
      by (simp add: shown_def)
    with after [OF _ p(2)] p(1) show ?thesis
      unfolding events_for_append [of cid o1] by auto
  qed
  ultimately show ?thesis
    by (intro exI [of _ m2] exI [of _ "o1 @ o2 @ o3"] conjI ballI allI impI) assumption+
qed

end
