(* ===== verification/Chain_Guarantees.thy ===== *)
theory Chain_Guarantees
  imports Watch_Chain Watch_Guarantees
begin

section \<open>Properties of a chain of notifiers\<close>

text \<open>
  What each client of a shared watch sees when any number of clients joined since the last bookmark
  (\<open>kubeWatchServiceShared.go\<close>).
\<close>

text \<open>
  C5: however many clients joined one after the other since the last bookmark, as long as all keep
  up no client is closed; the newest one sees exactly a watch of its own; each of the others sees,
  up to the bookmark, the watch of its own over what the restarted watch announces, except that an
  addition may come as a modification and the reverse; and from the bookmark on all see the same
  watch, which knows what the newest notifier learned.
\<close>

theorem chain_refines_private_watches:
  assumes "chain_ok slow (n # older)"
    and "\<forall>ev \<in> set before. ae_Type ev \<notin> {''BOOKMARK'', ''PREVIOUS''}"
    and "ae_Type bm = ''BOOKMARK''" and "ae_Object bm = Entity obj"
    and "\<forall>ev \<in> set later. ae_Type ev \<noteq> ''PREVIOUS''"
  shows "let out = snd (accept_all getMeta slow (before @ bm # later) (n # older)) in closed_ids out = [] \<and>
    (\<forall>(cid, f) \<in> set (nt_clients n).
       events_for cid out = private_watch getMeta f (map_of (nt_versions n)) (before @ bm # later)) \<and>
    (\<forall>p \<in> set older. \<forall>(cid, f) \<in> set (nt_clients p).
       \<exists>seen. list_all2 like seen (private_watch getMeta f (map_of (nt_versions p)) before) \<and>
         events_for cid out = seen @
           private_watch getMeta f (fold (learn getMeta) before (map_of (nt_versions n))) (bm # later))"
proof -
  from chain_life [OF assms, of getMeta] obtain m out where
    a: "accept_all getMeta slow (before @ bm # later) (n # older) = ([m], out)" and
    b: "closed_ids out = []"
      "\<forall>cid f. (cid, f) \<in> set (nt_clients n) \<longrightarrow>
         events_for cid out = private_watch getMeta f (map_of (nt_versions n)) (before @ bm # later)"
      "\<forall>p \<in> set older. \<forall>cid f. (cid, f) \<in> set (nt_clients p) \<longrightarrow>
         (\<exists>seen. list_all2 like seen (private_watch getMeta f (map_of (nt_versions p)) before) \<and>
          events_for cid out = seen @
            private_watch getMeta f (fold (learn getMeta) before (map_of (nt_versions n))) (bm # later))" by blast
  show ?thesis unfolding a snd_conv Let_def using b by blast
qed

text \<open>Three clients, the oldest of which knows the object that the restarted watch announces as changed.\<close>

theorem chain_refines_private_watches_witness:
  "\<exists>seen. length seen = 1 \<and> events_for ''1'' (snd (accept_all ns_Metadata (\<lambda>_. False)
      ([event_of ''ADDED'' (thing 2 ''7'')] @ event_of ''BOOKMARK'' (thing 0 ''9'') # [event_of ''DELETED'' (thing 2 ''10'')])
      [one_client ''3'', one_client ''2'', knows_thing ''1''])) =
     seen @ private_watch ns_Metadata any_filter
       (fold (learn ns_Metadata) [event_of ''ADDED'' (thing 2 ''7'')] (map_of (nt_versions (one_client ''3''))))
       (event_of ''BOOKMARK'' (thing 0 ''9'') # [event_of ''DELETED'' (thing 2 ''10'')])"
proof -
  let ?b = "[event_of ''ADDED'' (thing 2 ''7'')]" and ?m = "event_of ''BOOKMARK'' (thing 0 ''9'')"
    and ?l = "[event_of ''DELETED'' (thing 2 ''10'')]"
  have ok: "chain_ok (\<lambda>_. False) [one_client ''3'', one_client ''2'', knows_thing ''1'']"
    by (simp add: chain_ok_def keeps_up_def one_client_def knows_thing_def)
  have c: "(''1'', any_filter) \<in> set (nt_clients (knows_thing ''1''))" by (simp add: knows_thing_def one_client_def)
  have ty: "\<forall>ev \<in> set ?b. ae_Type ev \<notin> {''BOOKMARK'', ''PREVIOUS''}" "ae_Type ?m = ''BOOKMARK''"
    "ae_Object ?m = Entity (thing 0 ''9'')" "\<forall>ev \<in> set ?l. ae_Type ev \<noteq> ''PREVIOUS''"
    by (simp_all add: event_of_def)
  have len: "length (private_watch ns_Metadata any_filter (map_of (nt_versions (knows_thing ''1''))) ?b) = 1" by code_simp
  from chain_refines_private_watches [OF ok ty, of ns_Metadata] c obtain seen where
    "list_all2 like seen (private_watch ns_Metadata any_filter (map_of (nt_versions (knows_thing ''1''))) ?b)"
    "events_for ''1'' (snd (accept_all ns_Metadata (\<lambda>_. False) (?b @ ?m # ?l)
       [one_client ''3'', one_client ''2'', knows_thing ''1''])) = seen @
         private_watch ns_Metadata any_filter (fold (learn ns_Metadata) ?b (map_of (nt_versions (one_client ''3'')))) (?m # ?l)"
    unfolding Let_def by fastforce
  with len show ?thesis by (metis list_all2_lengthD)
qed

end
