(* ===== verification/Rollout_Order.thy ===== *)
theory Rollout_Order
  imports Openshift_Client
begin

section \<open>Rollouts one after the other\<close>

text \<open>
  \<open>RolloutDeployments\<close> of \<open>service/internal/kubernetes/pod.go\<close> and of the OpenShift variant: the
  deployments are the tasks of a pool that the method makes for itself, with one worker and room for
  all of them. Such a pool runs its tasks in the order they were submitted; so here each rollout starts
  in the state its predecessor left.
\<close>

subsection \<open>The methods\<close>

record ('w, 'c) DeployableTask =
  dt_Name :: string
  dt_Task :: "string \<Rightarrow> ('w, 'c, DeploymentRollout option) loop_act"

definition DeployableTask_Run :: "('w, 'c) DeployableTask \<Rightarrow> ('w, 'c, DeploymentRollout option) loop_act" where
  "DeployableTask_Run t = dt_Task t (dt_Name t)"

definition rollout_tasks ::
  "(string \<Rightarrow> ('w, 'c, DeploymentRollout option) loop_act) \<Rightarrow> string list \<Rightarrow> ('w, 'c) DeployableTask list" where
  "rollout_tasks deploy deploymentNames = map (\<lambda>deploymentName. \<lparr> dt_Name = deploymentName, dt_Task = deploy \<rparr>) deploymentNames"

text \<open>The worker goes on with the next task after an error, and after a panic too.\<close>

fun run_tasks :: "('w, 'c) DeployableTask list \<Rightarrow> ('w, 'c) kstate \<Rightarrow>
    (DeploymentRollout option res list \<times> ('w, 'c) kstate) option" where
  "run_tasks [] s = Some ([], s)"
| "run_tasks (t # ts) s =
     (case DeployableTask_Run t s of
        None \<Rightarrow> None
      | Some (r, s') \<Rightarrow> (case run_tasks ts s' of None \<Rightarrow> None | Some (rs, s'') \<Rightarrow> Some (r # rs, s'')))"

fun result_of_task :: "DeploymentRollout option res \<Rightarrow> DeploymentRollout option TaskResult" where
  "result_of_task (Ok d) = \<lparr> tr_Result = d, tr_Err = None \<rparr>"
| "result_of_task (Err e) = \<lparr> tr_Result = None, tr_Err = Some e \<rparr>"
| "result_of_task Crash = \<lparr> tr_Result = None, tr_Err = None \<rparr>"

text \<open>After a panic the submission waits for ever, so that the method does not return.\<close>

definition rolloutDeployments_sequential ::
  "(string \<Rightarrow> ('w, 'c, DeploymentRollout option) loop_act) \<Rightarrow> string list \<Rightarrow> ('w, 'c, DeploymentResponse) loop_act" where
  "rolloutDeployments_sequential deploy deploymentNames s =
     (case run_tasks (rollout_tasks deploy deploymentNames) s of
        None \<Rightarrow> None
      | Some (outcomes, s') \<Rightarrow>
          if Crash \<in> set outcomes then None
          else Some (of_sum (rollout_response (Inr (map result_of_task outcomes))) s'))"

text \<open>The pointer to a rollout that succeeded is not nil.\<close>

definition rollout_pointer :: "('w, 'c, DeploymentRollout) loop_act \<Rightarrow> ('w, 'c, DeploymentRollout option) loop_act" where
  "rollout_pointer m = bind_loop m (\<lambda>d. done_act (ret (Some d)))"

definition RolloutDeployments :: "'w pod_api \<Rightarrow> string list \<Rightarrow> ('w, 'c, DeploymentResponse) loop_act" where
  "RolloutDeployments a = rolloutDeployments_sequential (\<lambda>name. rollout_pointer (RolloutDeployment a name))"

definition os_RolloutDeployments ::
  "'w OpenshiftV3Client \<Rightarrow> 'w pod_api \<Rightarrow> string \<Rightarrow> string list \<Rightarrow> ('w, 'c, DeploymentResponse) loop_act" where
  "os_RolloutDeployments os a namespace =
     rolloutDeployments_sequential (\<lambda>name. os_RolloutDeployment os a name namespace)"

text \<open>In parallel the tasks go to the executor of the client, whose answer is given.\<close>

definition RolloutDeploymentsInParallel ::
  "go_error + DeploymentRollout option TaskResult list \<Rightarrow> ('w, 'c, DeploymentResponse) act" where
  "RolloutDeploymentsInParallel answer = of_sum (rollout_response answer)"

definition os_RolloutDeploymentsInParallel ::
  "go_error + DeploymentRollout option TaskResult list \<Rightarrow> ('w, 'c, DeploymentResponse) act" where
  "os_RolloutDeploymentsInParallel answer = of_sum (os_rollout_response answer)"

subsection \<open>A pool with one worker\<close>

text \<open>
  The results of a batch, then its tasks with the worker, in the channel and still to be sent, in this
  order; tasks that panic leave no trace.
\<close>

definition in_flight :: "nat \<Rightarrow> 'r pool \<Rightarrow> 'r task list" where
  "in_flight b p = map snd (filter (\<lambda>x. fst x = b) (List.map_filter id (pl_workers p) @ pl_wChan p))
     @ bt_unsent (pl_batches p ! b)"

definition order_of :: "nat \<Rightarrow> 'r pool \<Rightarrow> 'r task list" where
  "order_of b p = map Completes (bt_results (pl_batches p ! b)) @ filter (\<lambda>t. t \<noteq> Panics) (in_flight b p)"

inductive_cases pool_stepE: "pool_step p p'"

lemma nth_update: "b < length xs \<Longrightarrow> xs[c := x] ! b = (if c = b then x else xs ! b)"
  by (cases "c = b") simp_all

lemma pool_step_batch:
  assumes "pool_step p p'" and "b < length (pl_batches p)"
  shows "length (pl_batches p') = length (pl_batches p) \<and>
     bt_tasks (pl_batches p' ! b) = bt_tasks (pl_batches p ! b) \<and> length (pl_workers p') = length (pl_workers p)"
  using assms by (elim pool_stepE) (auto simp: nth_update)

lemma map_filter_one: "List.map_filter id [w] = (case w of None \<Rightarrow> [] | Some x \<Rightarrow> [x])"
  by (simp add: map_filter_simps split: option.split)

lemma pool_step_order:
  assumes "pool_step p p'" and b: "b < length (pl_batches p)" and one: "length (pl_workers p) = 1"
  shows "order_of b p' = order_of b p"
proof -
  obtain w where w: "pl_workers p = [w]" using one by (cases "pl_workers p") auto
  show ?thesis
    using assms(1)
    by (rule pool_stepE)
      (use b in \<open>auto simp: order_of_def in_flight_def w map_filter_one nth_update less_Suc_eq\<close>)
qed

lemma pool_reach_order:
  assumes "pool_reach n buf p" and "n = 1" and "b < length (pl_batches p)"
  shows "order_of b p = filter (\<lambda>t. t \<noteq> Panics) (bt_tasks (pl_batches p ! b))"
  using assms
proof (induction arbitrary: b rule: pool_reach.induct)
  case start
  then show ?case by (simp add: NewFixedPool_def)
next
  case (inner p p')
  have l: "length (pl_workers p) = 1" using pool_reach_workers [OF inner.hyps(1)] inner.prems(1) by simp
  have b: "b < length (pl_batches p)"
    using inner.hyps(2) inner.prems(2) by (elim pool_stepE) simp_all
  from pool_step_order [OF inner.hyps(2) b l] pool_step_batch [OF inner.hyps(2) b] inner.IH [OF inner.prems(1) b]
  show ?case by simp
next
  case (submit p tasks p')
  then have p': "p' = p\<lparr>pl_batches := pl_batches p @ [new_batch tasks]\<rparr>" by (simp add: Submit_def split: if_splits)
  show ?case
  proof (cases "b < length (pl_batches p)")
    case True
    with submit.IH [OF submit.prems(1) True] show ?thesis
      by (simp add: p' order_of_def in_flight_def nth_append)
  next
    case False
    with submit.prems p' have b: "b = length (pl_batches p)" by simp
    obtain w where w: "pl_workers p = [w]"
      using pool_reach_workers [OF submit.hyps(1)] submit.prems(1) by (cases "pl_workers p") auto
    have "\<forall>x \<in># mset (pl_wChan p) + work_of [w]. fst x < b"
      using pool_reach_ok [OF submit.hyps(1)] w b by (simp add: pool_ok_def)
    then have "filter (\<lambda>x. fst x = b) (List.map_filter id [w] @ pl_wChan p) = []"
      by (auto simp: filter_empty_conv map_filter_one split: option.splits)
    then show ?thesis by (simp add: p' b order_of_def in_flight_def w new_batch_def)
  qed
next
  case (stop p)
  then show ?case by (simp add: Stop_def order_of_def in_flight_def split: if_splits)
qed

text \<open>A submission to it that returned has the results in the order of the tasks.\<close>

lemma one_worker_results:
  assumes "pool_reach 1 buf p" and "b < length (pl_batches p)" and "bt_returned (pl_batches p ! b)"
  shows "bt_tasks (pl_batches p ! b) = map Completes (bt_results (pl_batches p ! b))"
proof -
  let ?x = "pl_batches p ! b"
  from returned_results [OF assms] have m: "mset (bt_tasks ?x) = mset (map Completes (bt_results ?x))" by simp
  from arg_cong [OF m, of set_mset] have "\<forall>t \<in> set (bt_tasks ?x). t \<noteq> Panics" by auto
  with pool_reach_order [OF assms(1) refl assms(2)]
  have o: "bt_tasks ?x = map Completes (bt_results ?x) @ filter (\<lambda>t. t \<noteq> Panics) (in_flight b p)"
    by (simp add: order_of_def)
  from arg_cong [OF m, of size] arg_cong [OF o, of length]
  have "filter (\<lambda>t. t \<noteq> Panics) (in_flight b p) = []" by (metis add_cancel_right_right length_0_conv length_append size_mset)
  with o show ?thesis by simp
qed

subsection \<open>Laws\<close>

lemma task_of_outcome: "x \<noteq> Crash \<Longrightarrow> os_rollout_task x = Completes (result_of_task x)"
  by (cases x) (simp_all add: os_rollout_task_def)

lemma run_tasks_length: "run_tasks ts s = Some (rs, s') \<Longrightarrow> length rs = length ts"
  by (induction ts arbitrary: s rs) (auto split: option.splits prod.splits)

text \<open>The outcomes are those of the tasks in turn.\<close>

lemma run_tasks_outcomes:
  "run_tasks ts s = Some (rs, s') \<Longrightarrow> list_all2 (\<lambda>t r. \<exists>u v. DeployableTask_Run t u = Some (r, v)) ts rs"
  by (induction ts arbitrary: s rs) (auto split: option.splits prod.splits)

lemma run_tasks_append:
  "run_tasks (ts @ us) s = (case run_tasks ts s of
     None \<Rightarrow> None
   | Some (rs, s') \<Rightarrow> (case run_tasks us s' of None \<Rightarrow> None | Some (rs', s'') \<Rightarrow> Some (rs @ rs', s'')))"
  by (induction ts arbitrary: s) (auto split: option.splits)

lemma HasErrors_outcomes:
  "HasErrors (map result_of_task outcomes) \<longleftrightarrow> (\<exists>e. Err e \<in> set outcomes)"
proof -
  have "tr_Err (result_of_task x) \<noteq> None \<longleftrightarrow> (\<exists>e. x = Err e)" for x by (cases x) simp_all
  then show ?thesis by (auto simp: HasErrors_iff)
qed

lemma rolled_out_Ok:
  assumes "rolloutDeployments_sequential deploy names s = Some (Ok r, s')"
  obtains ds where "run_tasks (rollout_tasks deploy names) s = Some (map Ok ds, s')"
    and "drs_Deployments r = NewDeploymentResponse_loop ds"
proof -
  from assms obtain outcomes where o: "run_tasks (rollout_tasks deploy names) s = Some (outcomes, s')"
    and nc: "Crash \<notin> set outcomes" and ne: "\<not> HasErrors (map result_of_task outcomes)"
    and r: "r = NewDeploymentResponse (GetResults (map result_of_task outcomes))"
    by (auto simp: rolloutDeployments_sequential_def rollout_response_def of_sum_def
        split: option.splits prod.splits if_splits)
  let ?d = "\<lambda>x. case x of Ok d \<Rightarrow> d | _ \<Rightarrow> None"
  have all: "x \<in> set outcomes \<Longrightarrow> \<exists>d. x = Ok d" for x
    using ne nc by (cases x) (auto simp: HasErrors_outcomes)
  then have "\<forall>x \<in> set outcomes. Ok (?d x) = x" by (force split: res.splits)
  then have "outcomes = map Ok (map ?d outcomes)" by (simp add: map_idI)
  moreover have "GetResults (map result_of_task outcomes) = map ?d outcomes"
    by (force simp: GetResults_map dest: all)
  ultimately show thesis
    by (intro that [of "map ?d outcomes"]) (use o r in \<open>simp_all add: NewDeploymentResponse_def\<close>)
qed

lemma RolloutDeployment_names:
  "RolloutDeployment a name s = Some (Ok d, s') \<Longrightarrow> dr_Name d = name"
  by (auto simp: RolloutDeployment_def NewDeploymentRolloutResponseObj_def
      split: option.splits prod.splits res.splits)

lemma rollout_pointer_Ok:
  "rollout_pointer m s = Some (Ok x, s') \<longleftrightarrow> (\<exists>d. x = Some d \<and> m s = Some (Ok d, s'))"
  by (auto simp: rollout_pointer_def bind_loop_def done_act_def ret_def split: option.splits prod.splits res.splits)

end
