(* ===== verification/Order_Guarantees.thy ===== *)
theory Order_Guarantees
  imports Rollout_Order Exec_Guarantees
begin

section \<open>Properties of rollouts one after the other\<close>

text \<open>
  What \<open>RolloutDeployments\<close> answers, against the pool of one worker that it makes for itself.
\<close>

lemma returned_outcomes:
  assumes "map os_rollout_task outcomes = map Completes results"
  shows "Crash \<notin> set outcomes \<and> map result_of_task outcomes = results"
proof -
  have nc: "x \<noteq> Crash" if "x \<in> set outcomes" for x
  proof
    assume "x = Crash"
    with that have "Panics \<in> set (map os_rollout_task outcomes)" by (force simp: os_rollout_task_def)
    with assms show False by auto
  qed
  then have "map os_rollout_task outcomes = map (Completes \<circ> result_of_task) outcomes"
    by (auto simp: task_of_outcome)
  with assms have "map Completes (map result_of_task outcomes) = map Completes results" by simp
  then have "map result_of_task outcomes = results" by (rule list.inj_map_strong [rotated]) simp
  with nc show ?thesis by auto
qed

abbreviation shop_rollout :: DeploymentRollout where
  "shop_rollout \<equiv> NewDeploymentRolloutResponseObj ''shop'' ''shop-2'' ''shop-1''"

lemma shop_tasks:
  "run_tasks (rollout_tasks (\<lambda>name. rollout_pointer (RolloutDeployment restarting name)) [''shop''])
     \<lparr> ks_world = False, ks_cache = () \<rparr> = Some ([Ok (Some shop_rollout)], \<lparr> ks_world = True, ks_cache = () \<rparr>)"
  by (simp add: rollout_tasks_def DeployableTask_Run_def rollout_pointer_def bind_loop_def done_act_def ret_def rollout_outcome_witness)

text \<open>
  C24: restarting deployments one after the other is what the pool of one worker does with their
  tasks, however its goroutines are scheduled: when the submission returns, its results stand in
  the order of the names and the method answers what it makes of them; an error of one restart does
  not keep the later ones from being tried; when a restart panics the submission never returns, and
  neither does the method.
\<close>

theorem rollouts_one_by_one:
  assumes "run_tasks (rollout_tasks (\<lambda>name. rollout_pointer (RolloutDeployment a name)) names) s = Some (outcomes, s')"
    and "pool_reach 1 buf p" and "b < length (pl_batches p)"
    and "bt_tasks (pl_batches p ! b) = map os_rollout_task outcomes"
  shows "length outcomes = length names \<and>
    (bt_returned (pl_batches p ! b) \<longrightarrow>
      bt_results (pl_batches p ! b) = map result_of_task outcomes \<and>
      RolloutDeployments a names s = Some (of_sum (rollout_response (Inr (bt_results (pl_batches p ! b)))) s')) \<and>
    (Crash \<in> set outcomes \<longrightarrow> \<not> bt_returned (pl_batches p ! b) \<and> RolloutDeployments a names s = None)"
proof -
  have d: "RolloutDeployments a names s = (if Crash \<in> set outcomes then None
      else Some (of_sum (rollout_response (Inr (map result_of_task outcomes))) s'))"
    using assms(1) by (simp add: RolloutDeployments_def rolloutDeployments_sequential_def)
  have "Crash \<notin> set outcomes \<and> map result_of_task outcomes = bt_results (pl_batches p ! b)"
    if "bt_returned (pl_batches p ! b)"
    using one_worker_results [OF assms(2,3) that] assms(4) by (intro returned_outcomes) simp
  with d run_tasks_length [OF assms(1)] show ?thesis by (auto simp: rollout_tasks_def)
qed

theorem rollouts_one_by_one_witness:
  "RolloutDeployments restarting [''shop''] \<lparr> ks_world = False, ks_cache = () \<rparr> =
     Some (Ok \<lparr> drs_Deployments = [shop_rollout] \<rparr>, \<lparr> ks_world = True, ks_cache = () \<rparr>)"
proof -
  let ?r = "\<lparr> tr_Result = Some shop_rollout, tr_Err = None \<rparr>"
  have "bt_tasks (pl_batches (one_task_done ?r) ! 0) = map os_rollout_task [Ok (Some shop_rollout)]"
    "0 < length (pl_batches (one_task_done ?r))" "bt_returned (pl_batches (one_task_done ?r) ! 0)"
    by (simp_all add: one_task_done_def os_rollout_task_def)
  with rollouts_one_by_one [OF shop_tasks one_task_reach, of 0 ?r] show ?thesis
    by (simp add: one_task_done_def rollout_response_def HasErrors_def of_sum_def NewDeploymentResponse_def)
qed

text \<open>
  the answer of a rollout of several deployments without an error names each deployment once,
  in the order it was asked for, on Kubernetes.
\<close>

theorem rollouts_answer_in_order:
  assumes "RolloutDeployments a names s = Some (Ok r, s')"
  shows "map dr_Name (drs_Deployments r) = names"
proof -
  from assms [unfolded RolloutDeployments_def] obtain ds where
    run: "run_tasks (rollout_tasks (\<lambda>name. rollout_pointer (RolloutDeployment a name)) names) s = Some (map Ok ds, s')"
    and r: "drs_Deployments r = NewDeploymentResponse_loop ds" by (rule rolled_out_Ok)
  from run_tasks_outcomes [OF run]
  have "list_all2 (\<lambda>name d. \<exists>x. d = Some x \<and> dr_Name x = name) names ds"
    by (fastforce simp: rollout_tasks_def list_all2_conv_all_nth DeployableTask_Run_def rollout_pointer_Ok
        dest: RolloutDeployment_names)
  then have "map dr_Name (NewDeploymentResponse_loop ds) = names"
    by (induction rule: list_all2_induct) auto
  with r show ?thesis by simp
qed

theorem rollouts_answer_in_order_witness:
  "map dr_Name (drs_Deployments \<lparr> drs_Deployments = [shop_rollout] \<rparr>) = [''shop'']"
proof -
  have "RolloutDeployments restarting [''shop''] \<lparr> ks_world = False, ks_cache = () \<rparr> =
     Some (Ok \<lparr> drs_Deployments = [shop_rollout] \<rparr>, \<lparr> ks_world = True, ks_cache = () \<rparr>)"
    by (simp add: RolloutDeployments_def rolloutDeployments_sequential_def shop_tasks rollout_response_def HasErrors_def
        of_sum_def NewDeploymentResponse_def)
  from rollouts_answer_in_order [OF this] show ?thesis .
qed

end
