(* ===== verification/Public_Interface.thy ===== *)
theory Public_Interface
  imports Rollout_Order Restart_Watch Secret_Token Platform_Service
begin

section \<open>The public interface\<close>

text \<open>
  \<open>service/service.go\<close>: an interface is the record of its methods, \<open>PlatformService\<close> the record of the
  interfaces it embeds. \<open>kubernetes_service\<close> is the method set of \<open>*Kubernetes\<close>, \<open>openshift_service\<close> that
  of \<open>*OpenshiftV3Client\<close>: the struct embeds the Kubernetes client, so that each of its methods is
  promoted unless the struct has one of the same name.
\<close>

subsection \<open>The interfaces\<close>

text \<open>
  A watch takes and gives the handlers of the client, and the answer of the watch on the API server.
\<close>

type_synonym 'r watch_method =
  "string \<Rightarrow> filter_Meta \<Rightarrow> go_error option \<Rightarrow> 'r SharedWatchHandlers \<Rightarrow> (go_error + string) \<times> 'r SharedWatchHandlers"

record ('w, 'c, 'r) RouteInterface =
  ri_CreateRoute :: "Route \<Rightarrow> string \<Rightarrow> ('w, 'c, Route option) act"
  ri_DeleteRoute :: "string \<Rightarrow> string \<Rightarrow> ('w, 'c, unit) act"
  ri_GetBadRouteLists :: "(string \<times> string list) list"
  ri_GetRoute :: "string \<Rightarrow> string \<Rightarrow> ('w, 'c, Route option) act"
  ri_GetRouteList :: "string \<Rightarrow> filter_Meta \<Rightarrow> ('w, 'c, Route list) loop_act"
  ri_UpdateOrCreateRoute :: "Route \<Rightarrow> string \<Rightarrow> ('w, 'c, Route option) act"
  ri_WatchRoutes :: "'r watch_method"

record ('w, 'c, 'r) HttpRouteInterface =
  hi_GetHttpRouteList :: "string \<Rightarrow> filter_Meta \<Rightarrow> ('w, 'c, HttpRoute list) loop_act"
  hi_WatchGatewayHTTPRoutes :: "'r watch_method"

record ('w, 'c, 'r) GrpcRouteInterface =
  gi_GetGrpcRouteList :: "string \<Rightarrow> filter_Meta \<Rightarrow> ('w, 'c, GrpcRoute list) loop_act"
  gi_WatchGatewayGRPCRoutes :: "'r watch_method"

record ('w, 'c, 'r) ConfigMapInterface =
  ci_CreateConfigMap :: "ConfigMap \<Rightarrow> string \<Rightarrow> ('w, 'c, ConfigMap) act"
  ci_DeleteConfigMap :: "string \<Rightarrow> string \<Rightarrow> ('w, 'c, unit) act"
  ci_GetConfigMap :: "string \<Rightarrow> string \<Rightarrow> ('w, 'c, ConfigMap option) act"
  ci_GetConfigMapList :: "string \<Rightarrow> filter_Meta \<Rightarrow> ('w, 'c, ConfigMap list) loop_act"
  ci_UpdateOrCreateConfigMap :: "ConfigMap \<Rightarrow> string \<Rightarrow> ('w, 'c, ConfigMap) act"
  ci_WatchConfigMaps :: "'r watch_method"

text \<open>\<open>RolloutDeploymentsInParallel\<close> is a function of what the executor answers.\<close>

record ('w, 'c) PodInterface =
  pi_GetPod :: "string \<Rightarrow> string \<Rightarrow> ('w, 'c, Pod option) act"
  pi_GetPodList :: "string \<Rightarrow> filter_Meta \<Rightarrow> ('w, 'c, Pod list) loop_act"
  pi_RolloutDeployment :: "string \<Rightarrow> string \<Rightarrow> ('w, 'c, DeploymentRollout option) loop_act"
  pi_RolloutDeployments :: "string \<Rightarrow> string list \<Rightarrow> ('w, 'c, DeploymentResponse) loop_act"
  pi_RolloutDeploymentsInParallel ::
    "go_error + DeploymentRollout option TaskResult list \<Rightarrow> ('w, 'c, DeploymentResponse) act"
  pi_WatchPodsRestarting :: "string \<Rightarrow> filter_Meta \<Rightarrow> go_error option \<Rightarrow> bool \<Rightarrow> ('w, 'c, string \<times> watch_loop) act"

record ('w, 'c, 'r) ServiceInterface =
  si_CreateService :: "Service \<Rightarrow> string \<Rightarrow> ('w, 'c, Service) act"
  si_DeleteService :: "string \<Rightarrow> string \<Rightarrow> ('w, 'c, unit) act"
  si_GetService :: "string \<Rightarrow> string \<Rightarrow> ('w, 'c, Service option) act"
  si_GetServiceList :: "string \<Rightarrow> filter_Meta \<Rightarrow> ('w, 'c, Service list) loop_act"
  si_UpdateOrCreateService :: "Service \<Rightarrow> string \<Rightarrow> ('w, 'c, Service) act"
  si_WatchServices :: "'r watch_method"

record ('w, 'c, 'r) SecretInterface =
  se_CreateSecret :: "Secret \<Rightarrow> string \<Rightarrow> ('w, 'c, Secret) act"
  se_DeleteSecret :: "string \<Rightarrow> string \<Rightarrow> ('w, 'c, unit) act"
  se_GetOrCreateSecretWithServiceAccountToken :: "string \<Rightarrow> string \<Rightarrow> ('w, 'c, Secret option) loop_act"
  se_GetSecret :: "string \<Rightarrow> string \<Rightarrow> ('w, 'c, Secret option) act"
  se_GetSecretList :: "string \<Rightarrow> filter_Meta \<Rightarrow> ('w, 'c, Secret list) loop_act"
  se_UpdateOrCreateSecret :: "Secret \<Rightarrow> string \<Rightarrow> ('w, 'c, Secret) act"
  se_WatchSecrets :: "'r watch_method"

record ('w, 'c) NamespaceInterface =
  ni_GetNamespace :: "string \<Rightarrow> ('w, 'c, Namespace option) act"
  ni_GetNamespaces :: "filter_Meta \<Rightarrow> ('w, 'c, Namespace list) act"
  ni_WatchNamespaces :: "string \<Rightarrow> go_error option \<Rightarrow> bool \<Rightarrow> go_error + watch_loop"

record ('w, 'c, 'r) ServiceAccountInterface =
  sa_CreateServiceAccount :: "ServiceAccount \<Rightarrow> string \<Rightarrow> ('w, 'c, ServiceAccount) act"
  sa_DeleteServiceAccount :: "string \<Rightarrow> string \<Rightarrow> ('w, 'c, unit) act"
  sa_GetServiceAccount :: "string \<Rightarrow> string \<Rightarrow> ('w, 'c, ServiceAccount option) act"
  sa_GetServiceAccountList :: "string \<Rightarrow> filter_Meta \<Rightarrow> ('w, 'c, ServiceAccount list) loop_act"
  sa_WatchServiceAccounts :: "'r watch_method"

record ('w, 'c) DeploymentFamilyVersionsInterface =
  fi_GetDeploymentFamilyVersions :: "string \<Rightarrow> string \<Rightarrow> ('w, 'c, DeploymentFamilyVersion list) loop_act"

record ('w, 'c) DeploymentInterface =
  di_GetDeployment :: "string \<Rightarrow> string \<Rightarrow> ('w, 'c, Deployment option) act"
  di_GetDeploymentList :: "string \<Rightarrow> filter_Meta \<Rightarrow> ('w, 'c, Deployment list) loop_act"

record ('w, 'c) CertificateInterface =
  ti_CreateCertificate :: "Certificate \<Rightarrow> string \<Rightarrow> ('w, 'c, Certificate) act"
  ti_DeleteCertificate :: "string \<Rightarrow> string \<Rightarrow> ('w, 'c, unit) act"
  ti_GetCertificate :: "string \<Rightarrow> string \<Rightarrow> ('w, 'c, Certificate option) act"
  ti_GetCertificateList :: "string \<Rightarrow> filter_Meta \<Rightarrow> ('w, 'c, Certificate list) loop_act"
  ti_UpdateOrCreateCertificate :: "Certificate \<Rightarrow> string \<Rightarrow> ('w, 'c, Certificate) act"

record ('w, 'c, 'r) PlatformServiceInterface =
  ps_Certificate :: "('w, 'c) CertificateInterface"
  ps_ConfigMap :: "('w, 'c, 'r) ConfigMapInterface"
  ps_DeploymentFamilyVersions :: "('w, 'c) DeploymentFamilyVersionsInterface"
  ps_Deployment :: "('w, 'c) DeploymentInterface"
  ps_Namespace :: "('w, 'c) NamespaceInterface"
  ps_Pod :: "('w, 'c) PodInterface"
  ps_Route :: "('w, 'c, 'r) RouteInterface"
  ps_Secret :: "('w, 'c, 'r) SecretInterface"
  ps_ServiceAccount :: "('w, 'c, 'r) ServiceAccountInterface"
  ps_Service :: "('w, 'c, 'r) ServiceInterface"
  ps_HttpRoute :: "('w, 'c, 'r) HttpRouteInterface"
  ps_GrpcRoute :: "('w, 'c, 'r) GrpcRouteInterface"

subsection \<open>The Kubernetes client\<close>

text \<open>
  What the methods of the client use beside the record \<open>Kubernetes\<close>: the clients of pods and of
  deployments, the discovery, the comparison of versions, and the table of bad routes.
\<close>

record 'w kube_calls =
  kx_pods :: "string \<Rightarrow> 'w pod_api"
  kx_apps_List :: "string \<Rightarrow> ('w, unit) io"
  kx_extension_List :: "string \<Rightarrow> ('w, unit) io"
  kx_ServerVersion :: "('w, string) io"
  kx_semver_Compare :: "string \<Rightarrow> string \<Rightarrow> int"
  kx_BadRouteLists :: "(string \<times> string list) list"

definition kubernetes_service :: "'w kube_calls \<Rightarrow> ('w, 'c) Kubernetes \<Rightarrow> ('w, 'c, 'r) PlatformServiceInterface" where
  "kubernetes_service x k = \<lparr>
     ps_Certificate = \<lparr>
       ti_CreateCertificate = CreateCertificate k, ti_DeleteCertificate = DeleteCertificate k,
       ti_GetCertificate = GetCertificate k, ti_GetCertificateList = GetCertificateList k,
       ti_UpdateOrCreateCertificate = UpdateOrCreateCertificate k \<rparr>,
     ps_ConfigMap = \<lparr>
       ci_CreateConfigMap = CreateConfigMap k, ci_DeleteConfigMap = DeleteConfigMap k,
       ci_GetConfigMap = GetConfigMap k, ci_GetConfigMapList = GetConfigMapList k,
       ci_UpdateOrCreateConfigMap = UpdateOrCreateConfigMap k, ci_WatchConfigMaps = WatchConfigMaps \<rparr>,
     ps_DeploymentFamilyVersions = \<lparr> fi_GetDeploymentFamilyVersions = GetDeploymentFamilyVersions k \<rparr>,
     ps_Deployment = \<lparr> di_GetDeployment = GetDeployment k, di_GetDeploymentList = GetDeploymentList k \<rparr>,
     ps_Namespace = \<lparr>
       ni_GetNamespace = GetNamespace k, ni_GetNamespaces = GetNamespaces k,
       ni_WatchNamespaces = WatchNamespaces (k_labels_String k) \<rparr>,
     ps_Pod = \<lparr>
       pi_GetPod = (\<lambda>name ns. GetPod (k_errs k) (kx_pods x ns) name ns),
       pi_GetPodList = (\<lambda>ns f. GetPodList (k_errs k) (k_labels_String k) (kx_pods x ns) f),
       pi_RolloutDeployment = (\<lambda>name ns. rollout_pointer (RolloutDeployment (kx_pods x ns) name)),
       pi_RolloutDeployments = (\<lambda>ns names. RolloutDeployments (kx_pods x ns) names),
       pi_RolloutDeploymentsInParallel = RolloutDeploymentsInParallel,
       pi_WatchPodsRestarting = (\<lambda>ns f err nil_watcher.
         WatchPodsRestarting (k_labels_String k) (kx_apps_List x ns) (kx_extension_List x ns) ns f err nil_watcher) \<rparr>,
     ps_Route = \<lparr>
       ri_CreateRoute = CreateRoute k, ri_DeleteRoute = DeleteRoute k,
       ri_GetBadRouteLists = (if IsGatewayAPIEnabled (k_GatewaySystem k) then [] else kx_BadRouteLists x),
       ri_GetRoute = GetRoute k, ri_GetRouteList = GetRouteList k,
       ri_UpdateOrCreateRoute = UpdateOrCreateRoute k,
       ri_WatchRoutes = WatchRoutes (k_GatewaySystem k) (k_UseNetworkingV1Ingress k) \<rparr>,
     ps_Secret = \<lparr>
       se_CreateSecret = CreateSecret k, se_DeleteSecret = DeleteSecret k,
       se_GetOrCreateSecretWithServiceAccountToken =
         GetOrCreateSecretWithServiceAccountToken (kx_semver_Compare x) (kx_ServerVersion x) k,
       se_GetSecret = GetSecret k, se_GetSecretList = GetSecretList k,
       se_UpdateOrCreateSecret = UpdateOrCreateSecret k, se_WatchSecrets = WatchSecrets \<rparr>,
     ps_ServiceAccount = \<lparr>
       sa_CreateServiceAccount = CreateServiceAccount k, sa_DeleteServiceAccount = DeleteServiceAccount k,
       sa_GetServiceAccount = GetServiceAccount k, sa_GetServiceAccountList = GetServiceAccountList k,
       sa_WatchServiceAccounts = WatchServiceAccounts \<rparr>,
     ps_Service = \<lparr>
       si_CreateService = CreateService k, si_DeleteService = DeleteService k,
       si_GetService = GetService k, si_GetServiceList = GetServiceList k,
       si_UpdateOrCreateService = UpdateOrCreateService k, si_WatchServices = WatchServices \<rparr>,
     ps_HttpRoute = \<lparr>
       hi_GetHttpRouteList = GetHttpRouteList k, hi_WatchGatewayHTTPRoutes = WatchGatewayHTTPRoutes \<rparr>,
     ps_GrpcRoute = \<lparr>
       gi_GetGrpcRouteList = GetGrpcRouteList k, gi_WatchGatewayGRPCRoutes = WatchGatewayGRPCRoutes \<rparr> \<rparr>"

subsection \<open>The OpenShift client\<close>

definition openshift_service ::
  "'w OpenshiftV3Client \<Rightarrow> 'w kube_calls \<Rightarrow> ('w, 'c) Kubernetes \<Rightarrow> ('w, 'c, 'r) PlatformServiceInterface" where
  "openshift_service os x k = (let kube = kubernetes_service x k in kube \<lparr>
     ps_DeploymentFamilyVersions := \<lparr> fi_GetDeploymentFamilyVersions = os_GetDeploymentFamilyVersions os k \<rparr>,
     ps_Deployment := \<lparr> di_GetDeployment = os_GetDeployment os k, di_GetDeploymentList = os_GetDeploymentList os k \<rparr>,
     ps_Namespace := (ps_Namespace kube) \<lparr>
       ni_GetNamespaces := os_GetNamespaces os, ni_WatchNamespaces := os_WatchNamespaces (k_labels_String k) \<rparr>,
     ps_Pod := (ps_Pod kube) \<lparr>
       pi_RolloutDeployment := (\<lambda>name ns. os_RolloutDeployment os (kx_pods x ns) name ns),
       pi_RolloutDeployments := (\<lambda>ns names. os_RolloutDeployments os (kx_pods x ns) ns names),
       pi_RolloutDeploymentsInParallel := os_RolloutDeploymentsInParallel \<rparr>,
     ps_Route := (ps_Route kube) \<lparr>
       ri_GetRoute := os_GetRoute os k, ri_GetRouteList := os_GetRouteList os k \<rparr> \<rparr>)"

text \<open>What \<open>createPlatformService\<close> returns, as a service: the client of either platform.\<close>

definition service_of ::
  "'w kube_calls \<Rightarrow> (('w, 'c) Kubernetes, 'w OpenshiftV3Client) PlatformService \<Rightarrow> ('w, 'c, 'r) PlatformServiceInterface" where
  "service_of x p =
     (case p of OnKubernetes k \<Rightarrow> kubernetes_service x k | OnOpenshift k os \<Rightarrow> openshift_service os x k)"

end
