(* ===== verification/Ingress_Guarantees.thy ===== *)
theory Ingress_Guarantees
  imports Route_Guarantees
begin

section \<open>Routes that are kept as Ingresses\<close>

text \<open>
  Updates and reads in the legacy mode, on a server that stores what it admits, without a cache of
  routes (\<open>service/internal/kubernetes/route.go\<close>).
\<close>

definition ingress_only :: "('w, 'c) Kubernetes \<Rightarrow> bool" where
  "ingress_only k \<longleftrightarrow> \<not> IsGatewayAPIEnabled (k_GatewaySystem k) \<and> IsIngressEnabled (k_GatewaySystem k) \<and>
     ch_Ingresses (k_Cache k) = None"

text \<open>The fields of an Ingress that a route is read from.\<close>

definition ingress_view :: "net_Ingress \<Rightarrow> string gomap \<times> net_Rule list \<times> string option" where
  "ingress_view i = (om_Annotations (ni_Meta i), ni_Rules i, ni_IngressClassName i)"

text \<open>
  An update without a class keeps that of the Ingress there is; a creation and a named class leave it to
  the caller.
\<close>

definition inherited_class :: "net_Ingress option \<Rightarrow> string option \<Rightarrow> string option" where
  "inherited_class old className =
     (case old of
        None \<Rightarrow> className
      | Some i \<Rightarrow> if className = None \<or> className = Some [] then ni_IngressClassName i else className)"

lemma not_both: "ingress_only k \<Longrightarrow> \<not> IsBothGatewaySystemsEnabled (k_GatewaySystem k)"
  by (simp add: ingress_only_def IsBothGatewaySystemsEnabled_iff)

lemma no_route_cache: "ingress_only k \<Longrightarrow> cacheIngressRoute k x = ret ()"
  by (simp add: ingress_only_def cacheIngressRoute_def)

lemma UpdateOrCreateRoute_ingress:
  assumes "ingress_only k" and "upsertLegacyIngress k r ns s = (Ok x, s')" and "rr_err x = None" and "rr_route x = Some q"
  shows "UpdateOrCreateRoute k r ns s = (Ok (Some q), s')"
  using assms
  by (simp add: ingress_only_def UpdateOrCreateRoute_def IsRouteCreationAllowed_def act_defs Let_def
      resolveRouteResult_def finishRouteOperation_def)

text \<open>What is sent to the server.\<close>

definition ingress_sent :: "('w, 'c) Kubernetes \<Rightarrow> Route \<Rightarrow> net_Ingress option \<Rightarrow> net_Ingress" where
  "ingress_sent k r old =
     (let i = ToIngressNetworkingV1 r in
      i\<lparr>ni_Meta := (case old of None \<Rightarrow> ni_Meta i | Some o1 \<Rightarrow> (ni_Meta i)\<lparr>om_ResourceVersion := om_ResourceVersion (ni_Meta o1)\<rparr>),
        ni_IngressClassName := ingress_class_for_BG2 k (inherited_class old (rs_IngressClassName (rt_Spec r)))\<rparr>)"

lemma ingress_sent_name: "om_Name (ni_Meta (ingress_sent k r old)) = md_Name (rt_Metadata r)"
  by (simp add: ingress_sent_def Let_def ToIngressNetworkingV1_def split: option.split)

text \<open>The route that a stored Ingress gives, when the server kept what it is read from.\<close>

lemma ingress_sent_route:
  assumes "ingress_view i = ingress_view (ingress_sent k r old)"
  obtains q where "RouteFromIngressNetworkingV1 i = Ret q" and "rt_Spec q = (rt_Spec r)\<lparr>
       rs_PathType := (if rs_PathType (rt_Spec r) = [] then ''Prefix'' else rs_PathType (rt_Spec r)),
       rs_Path := routePathValue (rs_Path (rt_Spec r)), rs_Port := routeBackendPort (rs_Port (rt_Spec r)),
       rs_Filters := [], rs_StreamIdleTimeout := [],
       rs_IngressClassName := ingress_class_for_BG2 k (inherited_class old (rs_IngressClassName (rt_Spec r)))\<rparr>"
    and "md_Annotations (rt_Metadata q) = md_Annotations (rt_Metadata r)"
proof -
  from assms have v: "ni_Rules i = ni_Rules (ToIngressNetworkingV1 r)"
    "om_Annotations (ni_Meta i) = md_Annotations (rt_Metadata r)"
    "ni_IngressClassName i = ingress_class_for_BG2 k (inherited_class old (rs_IngressClassName (rt_Spec r)))"
    by (auto simp: ingress_view_def ingress_sent_def Let_def ToIngressNetworkingV1_def split: option.splits)
  show thesis
    by (rule that [of "\<lparr> rt_Metadata = FromObjectMeta ''Route'' (ni_Meta i), rt_Spec = (rt_Spec r)\<lparr>
       rs_PathType := (if rs_PathType (rt_Spec r) = [] then ''Prefix'' else rs_PathType (rt_Spec r)),
       rs_Path := routePathValue (rs_Path (rt_Spec r)), rs_Port := routeBackendPort (rs_Port (rt_Spec r)),
       rs_Filters := [], rs_StreamIdleTimeout := [],
       rs_IngressClassName := ingress_class_for_BG2 k (inherited_class old (rs_IngressClassName (rt_Spec r)))\<rparr> \<rparr>"])
      (simp_all add: RouteFromIngressNetworkingV1_def v ToIngressNetworkingV1_def Let_def zero_RouteSpec_def
        routeBackendPort_def routePathValue_def)
qed

lemma upsert_ingress:
  assumes mode: "ingress_only k" "k_UseNetworkingV1Ingress k"
    and st: "store_client (k_errs k) (\<lambda>i. om_Name (ni_Meta i)) admit objects (k_NetIngresses k ns)"
    and keeps: "\<And>i. ingress_view (admit i) = ingress_view i"
    and q: "RouteFromIngressNetworkingV1 (admit (ingress_sent k r (objects (ks_world s) (md_Name (rt_Metadata r))))) = Ret q"
  shows "\<exists>w x. upsertLegacyIngress k r ns s = (Ok x, s\<lparr>ks_world := w\<rparr>) \<and> rr_err x = None \<and> rr_route x = Some q \<and>
    objects w = (objects (ks_world s))(md_Name (rt_Metadata r) \<mapsto>
      admit (ingress_sent k r (objects (ks_world s) (md_Name (rt_Metadata r)))))"
proof (cases "objects (ks_world s) (md_Name (rt_Metadata r))")
  case None
  let ?i = "ingress_sent k r None"
  have i: "configureIngress_net k (ToIngressNetworkingV1 r) = ?i"
    using not_both [OF mode(1)]
    by (simp add: configureIngress_net_def ingress_sent_def inherited_class_def Let_def ToIngressNetworkingV1_def)
  from store_clientD(2) [OF st None] obtain e where
    g: "cl_Get (k_NetIngresses k ns) (md_Name (rt_Metadata r)) (ks_world s) = (Inl e, ks_world s)" "IsNotFound (k_errs k) e"
    by blast
  from store_clientD(3) [OF st, of "ks_world s" ?i] None ingress_sent_name [of k r None] obtain w where
    c: "cl_Create (k_NetIngresses k ns) ?i (ks_world s) = (Inr (admit ?i), w)"
      "objects w = (objects (ks_world s))(md_Name (rt_Metadata r) \<mapsto> admit ?i)" by auto
  have "upsertLegacyIngress k r ns s = (Ok (result_of routeStatusCreated (Inr q)), s\<lparr>ks_world := w\<rparr>)"
    using g c(1) q None mode(2) no_route_cache [OF mode(1)]
    by (simp add: upsertLegacyIngress_def upsertNetworkingV1Ingress_def createRouteLegacyIngress_def
        createNetworkingV1IngressRoute_def i act_defs Let_def)
  with c(2) None show ?thesis
    by (intro exI [of _ w] exI [of _ "result_of routeStatusCreated (Inr q)"]) (simp add: result_of_def)
next
  case (Some old)
  let ?i = "ingress_sent k r (Some old)" and ?c = "rs_IngressClassName (rt_Spec r)"
  let ?t = "(ToIngressNetworkingV1 r)\<lparr>ni_Meta := (ni_Meta (ToIngressNetworkingV1 r))\<lparr>om_ResourceVersion :=
      om_ResourceVersion (ni_Meta old)\<rparr>\<rparr>"
  have i: "configureIngress_net k (if ni_IngressClassName ?t = None \<or> ni_IngressClassName ?t = Some []
      then ?t\<lparr>ni_IngressClassName := ni_IngressClassName old\<rparr> else ?t) = ?i"
    using not_both [OF mode(1)]
    by (simp add: configureIngress_net_def ingress_sent_def inherited_class_def Let_def ToIngressNetworkingV1_def)
  note g = store_clientD(1) [OF st Some]
  from store_clientD(4) [OF st, of "ks_world s" ?i] Some ingress_sent_name [of k r "Some old"] obtain w where
    u: "cl_Update (k_NetIngresses k ns) ?i (ks_world s) = (Inr (admit ?i), w)"
      "objects w = (objects (ks_world s))(md_Name (rt_Metadata r) \<mapsto> admit ?i)" by auto
  have "upsertLegacyIngress k r ns s = (Ok (result_of routeStatusUpdated (Inr q)), s\<lparr>ks_world := w\<rparr>)"
    using g u(1) q Some mode(2) no_route_cache [OF mode(1)] i
    by (simp add: upsertLegacyIngress_def upsertNetworkingV1Ingress_def upsert_result_def act_defs Let_def)
  with u(2) Some show ?thesis
    by (intro exI [of _ w] exI [of _ "result_of routeStatusUpdated (Inr q)"]) (simp add: result_of_def)
qed


text \<open>An update, without a class, of an Ingress that has one.\<close>

definition ingress_mode :: GatewaySystem where
  "ingress_mode = \<lparr> gs_Type = LegacyIngress, gs_Namespace = [], gs_Name = [] \<rparr>"

lemma ingress_only_sample: "ingress_only (sample_kube ingress_mode)" "k_UseNetworkingV1Ingress (sample_kube ingress_mode)"
proof -
  have "\<not> IsGatewayAPIEnabled ingress_mode" "IsIngressEnabled ingress_mode" by code_simp+
  then show "ingress_only (sample_kube ingress_mode)"
    by (simp add: ingress_only_def) (simp add: sample_kube_def no_caches_def)
qed (simp add: sample_kube_def)

definition plain_route :: Route where
  "plain_route = sample_route\<lparr>rt_Spec := (rt_Spec sample_route)\<lparr>rs_IngressClassName := None\<rparr>\<rparr>"

definition nginx_ingress :: net_Ingress where
  "nginx_ingress = (ToIngressNetworkingV1 plain_route)\<lparr>ni_IngressClassName := Some ''nginx''\<rparr>"


text \<open>
  On a cluster before version 1.22 the Ingress is one of \<open>extensions/v1beta1\<close>, and an update without a class
  does not keep the one there is: the Ingress loses it, or in BlueGreen mode moves to the class of that mode.
\<close>

theorem extensions_update_drops_class:
  fixes r :: Route
  defines "name \<equiv> md_Name (rt_Metadata r)"
  assumes "ingress_only k" and "\<not> k_UseNetworkingV1Ingress k" and "rs_IngressClassName (rt_Spec r) = None"
    and "cl_Get (k_ExtIngresses k ns) name (ks_world s) = (Inr old, w)"
    and "cl_Update (k_ExtIngresses k ns) ((ToIngress r)\<lparr>bi_Meta := (bi_Meta (ToIngress r))\<lparr>om_ResourceVersion :=
      om_ResourceVersion (bi_Meta old)\<rparr>, bi_IngressClassName := ingress_class_for_BG2 k None\<rparr>) w = (Inr i, w')"
  shows "UpdateOrCreateRoute k r ns s = (Ok (Some (RouteFromIngress i)), s\<lparr>ks_world := w'\<rparr>)"
proof -
  have i: "configureIngress_ext k ((ToIngress r)\<lparr>bi_Meta := (bi_Meta (ToIngress r))\<lparr>om_ResourceVersion :=
      om_ResourceVersion (bi_Meta old)\<rparr>\<rparr>) = (ToIngress r)\<lparr>bi_Meta := (bi_Meta (ToIngress r))\<lparr>om_ResourceVersion :=
      om_ResourceVersion (bi_Meta old)\<rparr>, bi_IngressClassName := ingress_class_for_BG2 k None\<rparr>"
    using not_both [OF assms(2)] assms(4) by (simp add: configureIngress_ext_def Let_def ToIngress_def)
  have "upsertLegacyIngress k r ns s = (Ok (result_of routeStatusUpdated (Inr (RouteFromIngress i))), s\<lparr>ks_world := w'\<rparr>)"
    using assms(3,5,6) no_route_cache [OF assms(2)] i
    by (simp add: upsertLegacyIngress_def upsertExtensionsV1Ingress_def upsert_result_def act_defs Let_def name_def)
  then show ?thesis by (rule UpdateOrCreateRoute_ingress [OF assms(2)]) (simp_all add: result_of_def)
qed

end
