(* ===== verification/Interface_Guarantees.thy ===== *)
theory Interface_Guarantees
  imports Public_Interface Platform_Guarantees Ingress_Guarantees
begin

section \<open>Properties of the public interface\<close>

text \<open>
  What a caller of \<open>PlatformService\<close> can count on without knowing the platform.
\<close>

subsection \<open>The OpenShift client extends the Kubernetes client\<close>

text \<open>
  A read that extends another answers like it wherever that finds the resource or fails; a list
  starts with the items of the other, or fails like it.
\<close>

definition extends_get :: "('w, 'c, 'a option) act \<Rightarrow> ('w, 'c, 'a option) act \<Rightarrow> bool" where
  "extends_get m m' \<longleftrightarrow> (\<forall>s. case m s of (Ok None, s1) \<Rightarrow> True | r \<Rightarrow> m' s = r)"

definition extends_list :: "('w, 'c, 'a list) loop_act \<Rightarrow> ('w, 'c, 'a list) loop_act \<Rightarrow> bool" where
  "extends_list m m' \<longleftrightarrow> (\<forall>s. case m s of
     Some (Ok xs, s1) \<Rightarrow> (case m' s of Some (Ok ys, s2) \<Rightarrow> take (length xs) ys = xs | _ \<Rightarrow> True)
   | r \<Rightarrow> m' s = r)"

lemma extends_get_bind:
  "extends_get m (bind_act m (\<lambda>r. case r of Some x \<Rightarrow> ret (Some x) | None \<Rightarrow> other))"
  by (auto simp: extends_get_def bind_act_def ret_def split: prod.split res.split option.split)

lemma extends_list_bind:
  "extends_list m (bind_loop m (\<lambda>xs. bind_loop other (\<lambda>ys. done_act (ret (xs @ ys)))))"
  by (auto simp: extends_list_def bind_loop_def done_act_def ret_def split: option.split prod.split res.split)

lemma GetDeploymentFamilyVersions_bind:
  "GetDeploymentFamilyVersions k familyName namespace =
     bind_loop (GetDeploymentList k namespace \<lparr> fm_Labels = Some [(FamilyNameProp, familyName)],
       fm_Annotations = None, fm_WatchBookmark = False \<rparr>)
     (\<lambda>ds. done_act (ret (map (\<lambda>d. DeploymentToDeploymentFamilyVersion (md_Labels (dep_Metadata d))) ds)))"
  by (rule ext) (simp add: GetDeploymentFamilyVersions_def bind_loop_def done_act_def ret_def split: option.split prod.split res.split)

lemma extends_list_map:
  assumes "extends_list m m'"
  shows "extends_list (bind_loop m (\<lambda>xs. done_act (ret (map f xs)))) (bind_loop m' (\<lambda>xs. done_act (ret (map f xs))))"
  unfolding extends_list_def
proof
  fix s
  from assms have e: "case m s of
       Some (Ok xs, s1) \<Rightarrow> (case m' s of Some (Ok ys, s2) \<Rightarrow> take (length xs) ys = xs | _ \<Rightarrow> True)
     | r \<Rightarrow> m' s = r" by (simp add: extends_list_def)
  let ?f = "\<lambda>m. bind_loop m (\<lambda>xs. done_act (ret (map f xs))) s"
  show "case ?f m of
       Some (Ok xs, s1) \<Rightarrow> (case ?f m' of Some (Ok ys, s2) \<Rightarrow> take (length xs) ys = xs | _ \<Rightarrow> True)
     | r \<Rightarrow> ?f m' = r"
    using e
    by (auto simp: bind_loop_def done_act_def ret_def take_map split: option.splits res.splits)
qed

lemma os_GetDeploymentList_extends: "extends_list (GetDeploymentList k ns f) (os_GetDeploymentList os k ns f)"
  unfolding os_GetDeploymentList_def by (rule extends_list_bind)


subsection \<open>OpenShift's own routes\<close>

lemma DeleteRoute_no_ingress:
  assumes "\<not> IsGatewayAPIEnabled (k_GatewaySystem k)" and "IsIngressEnabled (k_GatewaySystem k)"
    and "k_UseNetworkingV1Ingress k"
    and "cl_Delete (k_NetIngresses k ns) name (ks_world s) = (Inl e, w)" and "IsNotFound (k_errs k) e"
  shows "DeleteRoute k name ns s = (Err e, s\<lparr>ks_world := w\<rparr>)"
  using assms
  by (simp add: DeleteRoute_def deleteRouteLegacyIngress_def act_defs Let_def resolveDeleteRouteResult_def
      resolveSingleResourceDeleteResult_def isDeleteFailure_def)


definition some_calls :: "sample_world kube_calls" where
  "some_calls = \<lparr>
     kx_pods = (\<lambda>_. \<lparr> po_Pods = table_client (\<lambda>_. []) (\<lambda>_. []) (\<lambda>_ w. w),
           po_ExtDeployment_Get = (\<lambda>n w. (Inl (no_such n), w)), po_AppsDeployment_Get = (\<lambda>n w. (Inl (no_such n), w)),
           po_ExtDeployment_Patch = (\<lambda>n _ w. (Inl (no_such n), w)), po_AppsDeployment_Patch = (\<lambda>n _ w. (Inl (no_such n), w)),
           po_ExtReplicaSets_List = (\<lambda>w. (Inr [], w)), po_AppsReplicaSets_List = (\<lambda>w. (Inr [], w)),
           po_ExtReplicaSet_Get = (\<lambda>n w. (Inl (no_such n), w)), po_AppsReplicaSet_Get = (\<lambda>n w. (Inl (no_such n), w)),
           po_ReplicationController_Get = (\<lambda>n w. (Inl (no_such n), w)), po_Now = (\<lambda>_. ''2024-01-01T00:00:00Z'') \<rparr>),
     kx_apps_List = (\<lambda>_ w. (Inr (), w)), kx_extension_List = (\<lambda>_ w. (Inr (), w)),
     kx_ServerVersion = (\<lambda>w. (Inr ''v1.30'', w)), kx_semver_Compare = (\<lambda>_ _. 1), kx_BadRouteLists = [] \<rparr>"


end
