(* ===== verification/Resource_Store.thy ===== *)
theory Resource_Store
  imports Kube_Resources
begin

section \<open>Resources as a table\<close>

text \<open>
  The contract of the interfaces of \<open>service/service.go\<close> for one kind of resource, without a cache in
  between: the resources of a namespace are a table from names to entities, which reads look up and
  writes change. It is stated once, as a locale, and interpreted on the operations of each kind.
\<close>

subsection \<open>The abstract table\<close>

datatype 'e store_op = CreateOp 'e | PutOp 'e | RemoveOp string

text \<open>
  What a sequence of operations makes of a table; \<open>None\<close> when it creates what is there or removes what
  is not. \<open>admitted\<close> is what the server makes of an entity.
\<close>

fun table_ops :: "('e \<Rightarrow> string) \<Rightarrow> ('e \<Rightarrow> 'e) \<Rightarrow> 'e store_op list \<Rightarrow> (string \<Rightarrow> 'e option) \<Rightarrow>
    (string \<Rightarrow> 'e option) option" where
  "table_ops name_of admitted [] t = Some t"
| "table_ops name_of admitted (CreateOp x # ops) t =
     (if t (name_of x) = None then table_ops name_of admitted ops (t(name_of x \<mapsto> admitted x)) else None)"
| "table_ops name_of admitted (PutOp x # ops) t = table_ops name_of admitted ops (t(name_of x \<mapsto> admitted x))"
| "table_ops name_of admitted (RemoveOp n # ops) t =
     (if t n = None then None else table_ops name_of admitted ops (t(n := None)))"

text \<open>The same sequence on the client.\<close>

fun run_ops :: "('e \<Rightarrow> ('w, 'c, 'e) act) \<Rightarrow> ('e \<Rightarrow> ('w, 'c, 'e) act) \<Rightarrow> (string \<Rightarrow> ('w, 'c, unit) act) \<Rightarrow>
    'e store_op list \<Rightarrow> ('w, 'c, 'e list) act" where
  "run_ops create put remove [] = ret []"
| "run_ops create put remove (CreateOp x # ops) =
     bind_act (create x) (\<lambda>y. bind_act (run_ops create put remove ops) (\<lambda>ys. ret (y # ys)))"
| "run_ops create put remove (PutOp x # ops) =
     bind_act (put x) (\<lambda>y. bind_act (run_ops create put remove ops) (\<lambda>ys. ret (y # ys)))"
| "run_ops create put remove (RemoveOp n # ops) = bind_act (remove n) (\<lambda>_. run_ops create put remove ops)"

fun answers :: "('e \<Rightarrow> 'e) \<Rightarrow> 'e store_op list \<Rightarrow> 'e list" where
  "answers admitted [] = []"
| "answers admitted (CreateOp x # ops) = admitted x # answers admitted ops"
| "answers admitted (PutOp x # ops) = admitted x # answers admitted ops"
| "answers admitted (RemoveOp n # ops) = answers admitted ops"

text \<open>
  A client in state \<open>s\<close>, over a server with table \<open>t0\<close>, that does not differ from the table: a sequence the
  table allows is answered with what the server made of each entity, and afterwards every read answers
  what the table would.
\<close>

definition behaves_as_table ::
  "(string \<Rightarrow> ('w, 'c, 'e option) act) \<Rightarrow> ('e \<Rightarrow> ('w, 'c, 'e) act) \<Rightarrow> ('e \<Rightarrow> ('w, 'c, 'e) act) \<Rightarrow>
     (string \<Rightarrow> ('w, 'c, unit) act) \<Rightarrow> ('e \<Rightarrow> string) \<Rightarrow> ('e \<Rightarrow> 'e) \<Rightarrow> (string \<Rightarrow> 'e option) \<Rightarrow> ('w, 'c) kstate \<Rightarrow> bool" where
  "behaves_as_table get create put remove name_of admitted t0 s \<longleftrightarrow>
     (\<forall>ops t. table_ops name_of admitted ops t0 = Some t \<longrightarrow>
        (\<exists>w. run_ops create put remove ops s = (Ok (answers admitted ops), s\<lparr>ks_world := w\<rparr>) \<and>
           (\<forall>n. get n (s\<lparr>ks_world := w\<rparr>) = (Ok (t n), s\<lparr>ks_world := w\<rparr>))))"

subsection \<open>The contract\<close>

text \<open>
  \<open>served\<close> says of a server, with the client that talks to it, that it stores what it is sent;
  \<open>table\<close> is what it has.
\<close>

locale resource_table =
  fixes served :: "'v \<Rightarrow> bool"
    and table :: "'v \<Rightarrow> 'w \<Rightarrow> string \<Rightarrow> 'e option"
    and name_of :: "'e \<Rightarrow> string"
    and admitted :: "'v \<Rightarrow> 'e \<Rightarrow> 'e"
    and get :: "'v \<Rightarrow> string \<Rightarrow> ('w, 'c, 'e option) act"
    and create :: "'v \<Rightarrow> 'e \<Rightarrow> ('w, 'c, 'e) act"
    and remove :: "'v \<Rightarrow> string \<Rightarrow> ('w, 'c, unit) act"
  assumes get_table: "served v \<Longrightarrow> get v n s = (Ok (table v (ks_world s) n), s)"
    and create_table: "served v \<Longrightarrow> table v (ks_world s) (name_of x) = None \<Longrightarrow>
      \<exists>w. create v x s = (Ok (admitted v x), s\<lparr>ks_world := w\<rparr>) \<and>
        table v w = (table v (ks_world s))(name_of x \<mapsto> admitted v x)"
    and remove_table: "served v \<Longrightarrow> table v (ks_world s) n \<noteq> None \<Longrightarrow>
      \<exists>w. remove v n s = (Ok (), s\<lparr>ks_world := w\<rparr>) \<and> table v w = (table v (ks_world s))(n := None)"
begin

text \<open>Creating and removing again leaves the table as it was.\<close>

lemma create_remove:
  assumes "served v" and "table v (ks_world s) (name_of x) = None"
  shows "\<exists>w. bind_act (create v x) (\<lambda>_. remove v (name_of x)) s = (Ok (), s\<lparr>ks_world := w\<rparr>) \<and>
    table v w = table v (ks_world s)"
proof -
  from create_table [OF assms] obtain w where
    c: "create v x s = (Ok (admitted v x), s\<lparr>ks_world := w\<rparr>)"
    and t: "table v w = (table v (ks_world s))(name_of x \<mapsto> admitted v x)" by blast
  have "table v (ks_world (s\<lparr>ks_world := w\<rparr>)) (name_of x) \<noteq> None" by (simp add: t)
  from remove_table [OF assms(1) this] obtain w' where
    r: "remove v (name_of x) (s\<lparr>ks_world := w\<rparr>) = (Ok (), s\<lparr>ks_world := w'\<rparr>)"
    and t': "table v w' = (table v w)(name_of x := None)" by auto
  have "table v w' = table v (ks_world s)" using assms(2) by (simp add: t' t fun_upd_idem)
  with c r show ?thesis by (auto simp: bind_act_def)
qed

end

text \<open>A kind that can be updated as well.\<close>

locale updatable_table = resource_table served table name_of admitted get create remove
  for served :: "'v \<Rightarrow> bool"
    and table :: "'v \<Rightarrow> 'w \<Rightarrow> string \<Rightarrow> 'e option"
    and name_of :: "'e \<Rightarrow> string"
    and admitted :: "'v \<Rightarrow> 'e \<Rightarrow> 'e"
    and get :: "'v \<Rightarrow> string \<Rightarrow> ('w, 'c, 'e option) act"
    and create :: "'v \<Rightarrow> 'e \<Rightarrow> ('w, 'c, 'e) act"
    and remove :: "'v \<Rightarrow> string \<Rightarrow> ('w, 'c, unit) act" +
  fixes put :: "'v \<Rightarrow> 'e \<Rightarrow> ('w, 'c, 'e) act"
  assumes put_table: "served v \<Longrightarrow> \<exists>w. put v x s = (Ok (admitted v x), s\<lparr>ks_world := w\<rparr>) \<and>
      table v w = (table v (ks_world s))(name_of x \<mapsto> admitted v x)"
begin

text \<open>The refinement: any sequence of operations does to the server what it does to a table.\<close>

lemma ops_table:
  assumes "served v"
  shows "table_ops name_of (admitted v) ops (table v (ks_world s)) = Some t \<Longrightarrow>
    \<exists>w. run_ops (create v) (put v) (remove v) ops s = (Ok (answers (admitted v) ops), s\<lparr>ks_world := w\<rparr>) \<and> table v w = t"
proof (induction ops arbitrary: s)
  case Nil
  then show ?case by (auto simp: ret_def intro!: exI [of _ "ks_world s"])
next
  case (Cons op ops)
  have step: ?case
    if m: "run_ops (create v) (put v) (remove v) (op # ops) s =
        (case run_ops (create v) (put v) (remove v) ops (s\<lparr>ks_world := w\<rparr>) of
           (Ok ys, s') \<Rightarrow> (Ok (pre @ ys), s') | (Err e, s') \<Rightarrow> (Err e, s') | (Crash, s') \<Rightarrow> (Crash, s'))"
      and t: "table_ops name_of (admitted v) (op # ops) (table v (ks_world s)) = table_ops name_of (admitted v) ops (table v w)"
      and p: "answers (admitted v) (op # ops) = pre @ answers (admitted v) ops" for w pre
    using Cons.IH [of "s\<lparr>ks_world := w\<rparr>"] Cons.prems m t p by auto
  show ?case
  proof (cases op)
    case (CreateOp x)
    with Cons.prems have n: "table v (ks_world s) (name_of x) = None" by (simp split: if_splits)
    from create_table [OF assms n] obtain w where
      "create v x s = (Ok (admitted v x), s\<lparr>ks_world := w\<rparr>)"
      "table v w = (table v (ks_world s))(name_of x \<mapsto> admitted v x)" by blast
    with CreateOp n show ?thesis
      by (intro step [where w = w and pre = "[admitted v x]"]) (simp_all add: bind_act_def ret_def split: prod.split res.split)
  next
    case (PutOp x)
    from put_table [OF assms] obtain w where
      "put v x s = (Ok (admitted v x), s\<lparr>ks_world := w\<rparr>)"
      "table v w = (table v (ks_world s))(name_of x \<mapsto> admitted v x)" by blast
    with PutOp show ?thesis
      by (intro step [where w = w and pre = "[admitted v x]"]) (simp_all add: bind_act_def ret_def split: prod.split res.split)
  next
    case (RemoveOp n)
    with Cons.prems have n: "table v (ks_world s) n \<noteq> None" by (simp split: if_splits)
    from remove_table [OF assms n] obtain w where
      "remove v n s = (Ok (), s\<lparr>ks_world := w\<rparr>)" "table v w = (table v (ks_world s))(n := None)" by blast
    moreover from n obtain y where "table v (ks_world s) n = Some y" by auto
    ultimately show ?thesis using RemoveOp
      by (intro step [where w = w and pre = "[]"]) (simp_all add: bind_act_def split: prod.split res.split)
  qed
qed

lemma behaves:
  assumes "served v"
  shows "behaves_as_table (get v) (create v) (put v) (remove v) name_of (admitted v) (table v (ks_world s)) s"
  unfolding behaves_as_table_def
proof (intro allI impI)
  fix ops t
  assume "table_ops name_of (admitted v) ops (table v (ks_world s)) = Some t"
  from ops_table [OF assms this] obtain w where
    "run_ops (create v) (put v) (remove v) ops s = (Ok (answers (admitted v) ops), s\<lparr>ks_world := w\<rparr>)" "table v w = t" by blast
  then show "\<exists>w. run_ops (create v) (put v) (remove v) ops s = (Ok (answers (admitted v) ops), s\<lparr>ks_world := w\<rparr>) \<and>
      (\<forall>n. get v n (s\<lparr>ks_world := w\<rparr>) = (Ok (t n), s\<lparr>ks_world := w\<rparr>))"
    by (intro exI [of _ w]) (simp add: get_table [OF assms])
qed

end

subsection \<open>The operations of the code\<close>

text \<open>
  A server for one kind in one namespace, the client that talks to it, what it makes of an object and
  what it has.
\<close>

record ('w, 'c, 'f) server =
  sv_kube :: "('w, 'c) Kubernetes"
  sv_namespace :: string
  sv_admit :: "'f \<Rightarrow> 'f"
  sv_objects :: "'w \<Rightarrow> string \<Rightarrow> 'f option"

lemma GetWrapper_table:
  assumes "store_client errs name_of admit objects cl"
  shows "GetWrapper errs n ns (cl_Get cl) cache (total from_f) s = (Ok (map_option from_f (objects (ks_world s) n)), s)"
proof (cases "objects (ks_world s) n")
  case None
  from store_clientD(2) [OF assms None] obtain e where "cl_Get cl n (ks_world s) = (Inl e, ks_world s)" "IsNotFound errs e"
    by blast
  with None show ?thesis by (simp add: GetWrapper_error)
next
  case (Some f)
  from store_clientD(1) [OF assms Some] have "cl_Get cl n (ks_world s) = (Inr f, ks_world s)" .
  with Some show ?thesis by (simp add: GetWrapper_ok total_def)
qed

lemma create_stores:
  assumes "store_client errs name_of admit objects cl" and "name_of (to_f x) = n" and "objects (ks_world s) n = None"
  shows "\<exists>w. bind_act (api (cl_Create cl (to_f x))) (\<lambda>obj. ret (from_f obj)) s = (Ok (from_f (admit (to_f x))), s\<lparr>ks_world := w\<rparr>) \<and>
    (\<lambda>m. map_option from_f (objects w m)) = (\<lambda>m. map_option from_f (objects (ks_world s) m))(n \<mapsto> from_f (admit (to_f x)))"
proof -
  from store_clientD(3) [OF assms(1), of "ks_world s" "to_f x"] assms(2,3) obtain w where
    "cl_Create cl (to_f x) (ks_world s) = (Inr (admit (to_f x)), w)" "objects w = (objects (ks_world s))(n \<mapsto> admit (to_f x))"
    by auto
  then show ?thesis by (intro exI [of _ w]) (simp add: bind_act_def api_def ret_def fun_eq_iff)
qed

lemma delete_removes:
  assumes "store_client errs name_of admit objects cl" and "objects (ks_world s) n \<noteq> None"
  shows "\<exists>w. api (cl_Delete cl n) s = (Ok (), s\<lparr>ks_world := w\<rparr>) \<and>
    (\<lambda>m. map_option from_f (objects w m)) = (\<lambda>m. map_option from_f (objects (ks_world s) m))(n := None)"
proof -
  from store_clientD(5) [OF assms] obtain w where
    "cl_Delete cl n (ks_world s) = (Inr (), w)" "objects w = (objects (ks_world s))(n := None)" by blast
  then show ?thesis by (intro exI [of _ w]) (simp add: api_def fun_eq_iff)
qed

lemma put_stores:
  assumes "store_client errs name_of admit objects cl" and "name_of (to_f x) = md_Name (meta x)"
  shows "\<exists>w. UpdateOrCreateWrapper errs meta x (cl_Get cl) (cl_Create cl) (cl_Update cl) to_f from_f s =
      (Ok (from_f (admit (to_f x))), s\<lparr>ks_world := w\<rparr>) \<and>
    (\<lambda>m. map_option from_f (objects w m)) =
      (\<lambda>m. map_option from_f (objects (ks_world s) m))(md_Name (meta x) \<mapsto> from_f (admit (to_f x)))"
proof -
  from UpdateOrCreateWrapper_store [where name_of = name_of and to_f = to_f and meta = meta and r = x and from_f = from_f
      and s = s, OF assms] obtain w where
    "UpdateOrCreateWrapper errs meta x (cl_Get cl) (cl_Create cl) (cl_Update cl) to_f from_f s =
      (Ok (from_f (admit (to_f x))), s\<lparr>ks_world := w\<rparr>)"
    "objects w = (objects (ks_world s))(md_Name (meta x) \<mapsto> admit (to_f x))" by blast
  then show ?thesis by (intro exI [of _ w]) (simp add: fun_eq_iff)
qed

lemmas table_defs = CreateWrapper_def DeleteWrapper_def Let_def

definition configmaps_served :: "('w, 'c, v1_ConfigMap) server \<Rightarrow> bool" where
  "configmaps_served v \<longleftrightarrow> store_client (k_errs (sv_kube v)) (\<lambda>f. om_Name (vcm_Meta f)) (sv_admit v) (sv_objects v)
     (k_ConfigMaps (sv_kube v) (sv_namespace v))"

interpretation configmaps_table: updatable_table configmaps_served "\<lambda>v w n. map_option NewConfigMap (sv_objects v w n)"
  "\<lambda>x. md_Name (cm_Metadata x)" "\<lambda>v x. NewConfigMap (sv_admit v (ToConfigMap x))"
  "\<lambda>v n. GetConfigMap (sv_kube v) n (sv_namespace v)" "\<lambda>v x. CreateConfigMap (sv_kube v) x (sv_namespace v)"
  "\<lambda>v n. DeleteConfigMap (sv_kube v) n (sv_namespace v)"
  "\<lambda>v x. UpdateOrCreateConfigMap (sv_kube v) x (sv_namespace v)"
proof (unfold_locales, goal_cases)
  case (1 v n s)
  then show ?case unfolding configmaps_served_def GetConfigMap_def by (rule GetWrapper_table)
next
  case (2 v s x)
  then show ?case unfolding configmaps_served_def CreateConfigMap_def table_defs
    by (intro create_stores [where name_of = "\<lambda>f. om_Name (vcm_Meta f)"]) (auto simp: cm_codec.to_api_name)
next
  case (3 v s n)
  then show ?case unfolding configmaps_served_def DeleteConfigMap_def table_defs by (intro delete_removes [where name_of = "\<lambda>f. om_Name (vcm_Meta f)"]) auto
next
  case (4 v x s)
  then show ?case unfolding configmaps_served_def UpdateOrCreateConfigMap_def table_defs
    by (intro put_stores [where name_of = "\<lambda>f. om_Name (vcm_Meta f)"]) (auto simp: cm_codec.to_api_name)
qed

definition secrets_served :: "('w, 'c, v1_Secret) server \<Rightarrow> bool" where
  "secrets_served v \<longleftrightarrow> store_client (k_errs (sv_kube v)) (\<lambda>f. om_Name (vsec_Meta f)) (sv_admit v) (sv_objects v)
     (k_Secrets (sv_kube v) (sv_namespace v))"

interpretation secrets_table: updatable_table secrets_served "\<lambda>v w n. map_option NewSecret (sv_objects v w n)"
  "\<lambda>x. md_Name (sec_Metadata x)" "\<lambda>v x. NewSecret (sv_admit v (ToSecret x))"
  "\<lambda>v n. GetSecret (sv_kube v) n (sv_namespace v)" "\<lambda>v x. CreateSecret (sv_kube v) x (sv_namespace v)"
  "\<lambda>v n. DeleteSecret (sv_kube v) n (sv_namespace v)"
  "\<lambda>v x. UpdateOrCreateSecret (sv_kube v) x (sv_namespace v)"
proof (unfold_locales, goal_cases)
  case (1 v n s)
  then show ?case unfolding secrets_served_def GetSecret_def by (rule GetWrapper_table)
next
  case (2 v s x)
  then show ?case unfolding secrets_served_def CreateSecret_def table_defs
    by (intro create_stores [where name_of = "\<lambda>f. om_Name (vsec_Meta f)"]) (auto simp: sec_codec.to_api_name)
next
  case (3 v s n)
  then show ?case unfolding secrets_served_def DeleteSecret_def table_defs by (intro delete_removes [where name_of = "\<lambda>f. om_Name (vsec_Meta f)"]) auto
next
  case (4 v x s)
  then show ?case unfolding secrets_served_def UpdateOrCreateSecret_def table_defs
    by (intro put_stores [where name_of = "\<lambda>f. om_Name (vsec_Meta f)"]) (auto simp: sec_codec.to_api_name)
qed

definition services_served :: "('w, 'c, v1_Service) server \<Rightarrow> bool" where
  "services_served v \<longleftrightarrow> store_client (k_errs (sv_kube v)) (\<lambda>f. om_Name (vsvc_Meta f)) (sv_admit v) (sv_objects v)
     (k_Services (sv_kube v) (sv_namespace v))"

interpretation services_table: updatable_table services_served "\<lambda>v w n. map_option NewService (sv_objects v w n)"
  "\<lambda>x. md_Name (svc_Metadata x)" "\<lambda>v x. NewService (sv_admit v (ToService x))"
  "\<lambda>v n. GetService (sv_kube v) n (sv_namespace v)" "\<lambda>v x. CreateService (sv_kube v) x (sv_namespace v)"
  "\<lambda>v n. DeleteService (sv_kube v) n (sv_namespace v)"
  "\<lambda>v x. UpdateOrCreateService (sv_kube v) x (sv_namespace v)"
proof (unfold_locales, goal_cases)
  case (1 v n s)
  then show ?case unfolding services_served_def GetService_def by (rule GetWrapper_table)
next
  case (2 v s x)
  then show ?case unfolding services_served_def CreateService_def table_defs
    by (intro create_stores [where name_of = "\<lambda>f. om_Name (vsvc_Meta f)"]) (auto simp: svc_codec.to_api_name)
next
  case (3 v s n)
  then show ?case unfolding services_served_def DeleteService_def table_defs by (intro delete_removes [where name_of = "\<lambda>f. om_Name (vsvc_Meta f)"]) auto
next
  case (4 v x s)
  then show ?case unfolding services_served_def UpdateOrCreateService_def table_defs
    by (intro put_stores [where name_of = "\<lambda>f. om_Name (vsvc_Meta f)"]) (auto simp: svc_codec.to_api_name)
qed

definition certificates_served :: "('w, 'c, cm_Certificate) server \<Rightarrow> bool" where
  "certificates_served v \<longleftrightarrow> store_client (k_errs (sv_kube v)) (\<lambda>f. om_Name (cmc_Meta f)) (sv_admit v) (sv_objects v)
     (k_Certificates (sv_kube v) (sv_namespace v))"

interpretation certificates_table: updatable_table certificates_served "\<lambda>v w n. map_option NewCertificate (sv_objects v w n)"
  "\<lambda>x. md_Name (cert_Metadata x)" "\<lambda>v x. NewCertificate (sv_admit v (ToCertificate x))"
  "\<lambda>v n. GetCertificate (sv_kube v) n (sv_namespace v)" "\<lambda>v x. CreateCertificate (sv_kube v) x (sv_namespace v)"
  "\<lambda>v n. DeleteCertificate (sv_kube v) n (sv_namespace v)"
  "\<lambda>v x. UpdateOrCreateCertificate (sv_kube v) x (sv_namespace v)"
proof (unfold_locales, goal_cases)
  case (1 v n s)
  then show ?case unfolding certificates_served_def GetCertificate_def by (rule GetWrapper_table)
next
  case (2 v s x)
  then show ?case unfolding certificates_served_def CreateCertificate_def table_defs
    by (intro create_stores [where name_of = "\<lambda>f. om_Name (cmc_Meta f)"]) (auto simp: cert_codec.to_api_name)
next
  case (3 v s n)
  then show ?case unfolding certificates_served_def DeleteCertificate_def table_defs by (intro delete_removes [where name_of = "\<lambda>f. om_Name (cmc_Meta f)"]) auto
next
  case (4 v x s)
  then show ?case unfolding certificates_served_def UpdateOrCreateCertificate_def table_defs
    by (intro put_stores [where name_of = "\<lambda>f. om_Name (cmc_Meta f)"]) (auto simp: cert_codec.to_api_name)
qed

definition serviceaccounts_served :: "('w, 'c, v1_ServiceAccount) server \<Rightarrow> bool" where
  "serviceaccounts_served v \<longleftrightarrow> store_client (k_errs (sv_kube v)) (\<lambda>f. om_Name (vsa_Meta f)) (sv_admit v) (sv_objects v)
     (k_ServiceAccounts (sv_kube v) (sv_namespace v))"

interpretation serviceaccounts_table: resource_table serviceaccounts_served "\<lambda>v w n. map_option NewServiceAccount (sv_objects v w n)"
  "\<lambda>x. md_Name (sa_Metadata x)" "\<lambda>v x. NewServiceAccount (sv_admit v (ToServiceAccount x))"
  "\<lambda>v n. GetServiceAccount (sv_kube v) n (sv_namespace v)" "\<lambda>v x. CreateServiceAccount (sv_kube v) x (sv_namespace v)"
  "\<lambda>v n. DeleteServiceAccount (sv_kube v) n (sv_namespace v)"
proof (unfold_locales, goal_cases)
  case (1 v n s)
  then show ?case unfolding serviceaccounts_served_def GetServiceAccount_def by (rule GetWrapper_table)
next
  case (2 v s x)
  then show ?case unfolding serviceaccounts_served_def CreateServiceAccount_def table_defs
    by (intro create_stores [where name_of = "\<lambda>f. om_Name (vsa_Meta f)"]) (auto simp: sa_codec.to_api_name)
next
  case (3 v s n)
  then show ?case unfolding serviceaccounts_served_def DeleteServiceAccount_def table_defs by (intro delete_removes [where name_of = "\<lambda>f. om_Name (vsa_Meta f)"]) auto
qed

end
