(* ===== verification/Store_Guarantees.thy ===== *)
theory Store_Guarantees
  imports Resource_Store Resource_Guarantees
begin

section \<open>Resources are tables\<close>

text \<open>
  The operations on config maps, secrets, services and certificates against the abstract table of
  \<open>Resource_Store\<close>.
\<close>


text \<open>A config map that is created, updated and joined by another one, which is deleted again.\<close>

definition sample_server :: "(sample_world, unit, v1_ConfigMap) server" where
  "sample_server = \<lparr> sv_kube = sample_kube gateway_mode, sv_namespace = ''ns'', sv_admit = (\<lambda>m. m),
     sv_objects = (\<lambda>w. map_of (sm_ConfigMaps w)) \<rparr>"

lemma sample_served: "configmaps_served sample_server"
  by (simp add: configmaps_served_def sample_server_def sample_kube_def table_client_store)

definition other_configmap :: ConfigMap where
  "other_configmap = \<lparr> cm_Metadata = NewMetadata ''ConfigMap'' ''other'' ''ns'' [] 0 [] None None, cm_Data = None \<rparr>"


end
