(* ===== verification/Piped_Race.thy ===== *)
theory Piped_Race
  imports Cache_Race Event_Pipeline Joining_Watch
begin

section \<open>Writes of the client against the whole way of the events\<close>

text \<open>
  In \<open>Cache_Race\<close> the cache adapter gets each event of the server once. Here the events come as the
  code gets them: the loop of \<open>kubeWatchService.go\<close> receives them and resumes a lost connection from
  the last bookmark, the notifier of \<open>kubeWatchServiceShared.go\<close> passes on what it does not know yet,
  and the adapter (\<open>adapterForCache.go\<close>) applies this in a goroutine of its own, while clients write to the
  cache after their calls. The channels between them are unbounded queues.
\<close>

subsection \<open>The parts\<close>

text \<open>
  The watched kind, the watch on the API server, the notifier and the adapter's place in it, the cache,
  and the resource version that the server gives to the state after so many events.
\<close>

record ('c, 'f, 't) pipe =
  pp_meta :: "'t \<Rightarrow> Metadata"
  pp_watch :: "('f, 't) watch_config"
  pp_slow :: "string \<Rightarrow> bool"
  pp_notifier :: notifier
  pp_client :: string
  pp_adapter :: "'c ristrettoCacheAdapter"
  pp_json :: "'t json"
  pp_kind :: string
  pp_mark :: "nat \<Rightarrow> string"

text \<open>
  The events of the server, how many the present connection is past, the state of the loop, all it sent to
  the notifier, how much of what the notifier sends the adapter has applied, the outstanding writes and the cache.
\<close>

record ('c, 't) piped =
  pi_events :: "'t adapter_input list"
  pi_next :: nat
  pi_loop :: watch_loop
  pi_sent :: "'t ApiEvent list"
  pi_applied :: nat
  pi_owed :: "'t owed list"
  pi_content :: 'c

definition pipe_cache :: "('c, 'f, 't) pipe \<Rightarrow> ('c, 't) ResourceCache" where
  "pipe_cache p = NewResourceCache (pp_kind p) (newEntityAdapter (pp_json p) (pp_adapter p))"

text \<open>What the notifier sends the adapter.\<close>

definition inbox :: "('c, 'f, 't) pipe \<Rightarrow> ('c, 't) piped \<Rightarrow> 't adapter_input list" where
  "inbox p s = adapter_inputs (events_for (pp_client p)
     (snd (accept_all (pp_meta p) (pp_slow p) (pi_sent s) [pp_notifier p])))"

text \<open>The last of some inputs on an object.\<close>

definition last_on :: "('t \<Rightarrow> Metadata) \<Rightarrow> string \<times> string \<Rightarrow> 't adapter_input list \<Rightarrow> 't adapter_input option" where
  "last_on gm key is = find (\<lambda>i. event_key gm i = Some key) (rev is)"

text \<open>
  A cache write for the object of an event is in turn if what the adapter applied last on that object is
  not a later event.
\<close>

definition in_turn :: "('c, 'f, 't) pipe \<Rightarrow> ('c, 't) piped \<Rightarrow> nat \<Rightarrow> 't \<Rightarrow> bool" where
  "in_turn p s j x \<longleftrightarrow> (\<forall>i. j < i \<longrightarrow> i < length (pi_events s) \<longrightarrow>
     last_on (pp_meta p) (getNamespaceAndName (pp_meta p) x) (take (pi_applied s) (inbox p s)) \<noteq> Some (pi_events s ! i))"

text \<open>Each write and each deletion gives the object a resource version of its own.\<close>

definition fresh :: "('t \<Rightarrow> Metadata) \<Rightarrow> 't adapter_input list \<Rightarrow> 't \<Rightarrow> bool" where
  "fresh gm es x \<longleftrightarrow> (\<forall>ty y. AdapterEvent ty y \<in> set es \<longrightarrow> getNamespaceAndName gm y = getNamespaceAndName gm x \<longrightarrow>
     md_ResourceVersion (gm y) \<noteq> md_ResourceVersion (gm x))"

subsection \<open>Steps\<close>

definition forward :: "'t ApiEvent option \<Rightarrow> 't ApiEvent list" where
  "forward out = (case out of None \<Rightarrow> [] | Some ev \<Rightarrow> [ev])"

text \<open>
  Writes and deletions of objects that the kind's conversion takes, on the server, by this client (\<open>own\<close>) or others; the loop receives the next event,
  a bookmark, the end of its connection, and a new connection from its bookmark; the adapter applies its
  next event; the outstanding cache writes; and the loss of entries.
\<close>

inductive pipe_step :: "('c, 'f, 't) pipe \<Rightarrow> ('c, 't) piped \<Rightarrow> ('c, 't) piped \<Rightarrow> bool" for p where
  put: "CHR ''/'' \<notin> set (md_Namespace (pp_meta p x)) \<Longrightarrow> fresh (pp_meta p) (pi_events s) x \<Longrightarrow>
    wc_Converter (pp_watch p) f = Ret x \<Longrightarrow>
    pipe_step p s (s\<lparr>pi_events := pi_events s @ [put_event (pp_meta p) (pi_events s) x],
      pi_owed := pi_owed s @ (if own then [PutEntry (length (pi_events s)) x] else [])\<rparr>)"
| drop: "server_view (pp_meta p) (pi_events s) (ns, name) \<noteq> None \<Longrightarrow>
    getNamespaceAndName (pp_meta p) x = (ns, name) \<Longrightarrow> fresh (pp_meta p) (pi_events s) x \<Longrightarrow>
    wc_Converter (pp_watch p) f = Ret x \<Longrightarrow>
    pipe_step p s (s\<lparr>pi_events := pi_events s @ [AdapterEvent ''DELETED'' x],
      pi_owed := pi_owed s @ (if own then [DropEntry ns name] else [])\<rparr>)"
| receive: "wl_state (pi_loop s) = Running \<Longrightarrow> pi_next s < length (pi_events s) \<Longrightarrow>
    pi_events s ! pi_next s = AdapterEvent ty x \<Longrightarrow> wc_Converter (pp_watch p) f = Ret x \<Longrightarrow>
    loop_step (pp_watch p) (pi_loop s) (Received ty (Typed f)) = Ret (l, out) \<Longrightarrow>
    pipe_step p s (s\<lparr>pi_next := Suc (pi_next s), pi_loop := l, pi_sent := pi_sent s @ forward out\<rparr>)"
| bookmark: "wl_state (pi_loop s) = Running \<Longrightarrow> wc_ResourceVersion (pp_watch p) f = pp_mark p (pi_next s) \<Longrightarrow>
    loop_step (pp_watch p) (pi_loop s) (Received ''BOOKMARK'' (Typed f)) = Ret (l, out) \<Longrightarrow>
    pipe_step p s (s\<lparr>pi_loop := l, pi_sent := pi_sent s @ forward out\<rparr>)"
| lose: "wl_state (pi_loop s) = Running \<Longrightarrow>
    loop_step (pp_watch p) (pi_loop s) ChannelClosed = Ret (l, out) \<Longrightarrow>
    pipe_step p s (s\<lparr>pi_loop := l, pi_sent := pi_sent s @ forward out\<rparr>)"
| resume: "wl_state (pi_loop s) = Connect \<Longrightarrow> wl_bookmark (pi_loop s) \<noteq> [] \<Longrightarrow>
    loop_step (pp_watch p) (pi_loop s) (Connected None False) = Ret (l, out) \<Longrightarrow>
    wo_ResourceVersion (last (wl_requests l)) = pp_mark p m \<Longrightarrow>
    pipe_step p s (s\<lparr>pi_next := m, pi_loop := l, pi_sent := pi_sent s @ forward out\<rparr>)"
| adapter: "pi_applied s < length (inbox p s) \<Longrightarrow> inbox p s ! pi_applied s = AdapterEvent ty x \<Longrightarrow>
    pipe_step p s (s\<lparr>pi_applied := Suc (pi_applied s),
      pi_content := OnWatchEvent (pp_meta p) (pipe_cache p) ty x (pi_content s)\<rparr>)"
| cache_put: "pi_owed s = os @ PutEntry j x # os' \<Longrightarrow> in_turn p s j x \<Longrightarrow>
    pipe_step p s (s\<lparr>pi_owed := os @ os',
      pi_content := snd (cache_Set (pp_meta p) (pipe_cache p) x (pi_content s))\<rparr>)"
| cache_drop: "pi_owed s = os @ DropEntry ns name # os' \<Longrightarrow>
    pipe_step p s (s\<lparr>pi_owed := os @ os', pi_content := cache_Delete (pipe_cache p) ns name (pi_content s)\<rparr>)"
| lost: "\<forall>k. rGet (ra_cache (pp_adapter p)) k c = None \<or>
      rGet (ra_cache (pp_adapter p)) k c = rGet (ra_cache (pp_adapter p)) k (pi_content s) \<Longrightarrow>
    pipe_step p s (s\<lparr>pi_content := c\<rparr>)"

inductive_cases pipe_stepE: "pipe_step p s s'"

definition pipe_start :: "watch_loop \<Rightarrow> 'c \<Rightarrow> ('c, 't) piped" where
  "pipe_start l c = \<lparr> pi_events = [], pi_next = 0, pi_loop = l, pi_sent = [], pi_applied = 0, pi_owed = [], pi_content = c \<rparr>"

text \<open>The watch was just opened, by the \<open>Watch\<close> of the REST handler.\<close>

inductive pipe_reach :: "('c, 'f, 't) pipe \<Rightarrow> 'c \<Rightarrow> ('c, 't) piped \<Rightarrow> bool" for p c where
  start: "rest_Watch (pp_watch p) None False = Inr l \<Longrightarrow> pipe_reach p c (pipe_start l c)"
| step: "pipe_reach p c s \<Longrightarrow> pipe_step p s s' \<Longrightarrow> pipe_reach p c s'"

text \<open>Everything received and applied, nothing outstanding.\<close>

definition settled :: "('c, 'f, 't) pipe \<Rightarrow> ('c, 't) piped \<Rightarrow> bool" where
  "settled p s \<longleftrightarrow> pi_next s = length (pi_events s) \<and> pi_applied s = length (inbox p s) \<and> pi_owed s = []"

text \<open>
  The watch does not filter by annotations, the adapter is a client of a notifier that starts with it and whose clients keep up,
  and the resource versions of bookmarks tell the states of the server apart.
\<close>

definition pipe_ok :: "('c, 'f, 't) pipe \<Rightarrow> bool" where
  "pipe_ok p \<longleftrightarrow> gm_len (fm_Annotations (wc_Filter (pp_watch p))) = 0 \<and>
     nt_versions (pp_notifier p) = [] \<and> distinct (map fst (nt_clients (pp_notifier p))) \<and>
     (pp_client p, adapter_filter) \<in> set (nt_clients (pp_notifier p)) \<and>
     (\<forall>i \<in> fst ` set (nt_clients (pp_notifier p)). \<not> pp_slow p i) \<and>
     (\<forall>i j. pp_mark p i = pp_mark p j \<longrightarrow> i = j) \<and>
     ristretto_ok (ra_cache (pp_adapter p)) \<and> CHR ''/'' \<notin> set (pp_kind p)"

subsection \<open>The last event on an object\<close>

lemma last_on_simps [simp]:
  "last_on gm key [] = None"
  "last_on gm key (is @ [i]) = (if event_key gm i = Some key then Some i else last_on gm key is)"
  by (simp_all add: last_on_def)

lemma last_on_Some: "last_on gm key is = Some i \<Longrightarrow> i \<in> set is \<and> event_key gm i = Some key"
  by (induction "is" rule: rev_induct) (auto split: if_splits)

lemma take_Suc_last_on:
  "n < length is \<Longrightarrow> last_on gm key (take (Suc n) is) =
     (if event_key gm (is ! n) = Some key then Some (is ! n) else last_on gm key (take n is))"
  by (simp add: take_Suc_conv_app_nth)

subsection \<open>What the adapter has in front of it\<close>

text \<open>
  Of every object the inputs end with the last event before a position of the history: no event
  on the object between them was left out.
\<close>

definition up_to :: "('t \<Rightarrow> Metadata) \<Rightarrow> 't adapter_input list \<Rightarrow> nat \<Rightarrow> 't adapter_input list \<Rightarrow> string \<times> string \<Rightarrow> bool" where
  "up_to gm es n is key \<longleftrightarrow> (case last_on gm key is of
     None \<Rightarrow> \<forall>i < n. event_key gm (es ! i) \<noteq> Some key
   | Some e \<Rightarrow> \<exists>l < length es. es ! l = e \<and> (\<forall>i. l < i \<longrightarrow> i < n \<longrightarrow> event_key gm (es ! i) \<noteq> Some key))"

lemma up_to_append: "up_to gm es n is key \<Longrightarrow> n \<le> length es \<Longrightarrow> up_to gm (es @ es') n is key"
  unfolding up_to_def
proof (cases "last_on gm key is")
  case (Some e)
  assume n: "n \<le> length es" and "case last_on gm key is of
     None \<Rightarrow> \<forall>i < n. event_key gm (es ! i) \<noteq> Some key
   | Some e \<Rightarrow> \<exists>l < length es. es ! l = e \<and> (\<forall>i. l < i \<longrightarrow> i < n \<longrightarrow> event_key gm (es ! i) \<noteq> Some key)"
  with Some obtain l where "l < length es" "es ! l = e" "\<forall>i. l < i \<longrightarrow> i < n \<longrightarrow> event_key gm (es ! i) \<noteq> Some key" by auto
  with n Some show "case last_on gm key is of
     None \<Rightarrow> \<forall>i < n. event_key gm ((es @ es') ! i) \<noteq> Some key
   | Some e \<Rightarrow> \<exists>l < length (es @ es'). (es @ es') ! l = e \<and> (\<forall>i. l < i \<longrightarrow> i < n \<longrightarrow> event_key gm ((es @ es') ! i) \<noteq> Some key)"
    by (auto simp: nth_append intro!: exI [of _ l])
qed (auto simp: nth_append)

lemma up_to_less: "up_to gm es n is key \<Longrightarrow> m \<le> n \<Longrightarrow> up_to gm es m is key"
  unfolding up_to_def by (auto split: option.splits)

lemma up_to_Suc:
  assumes "up_to gm es n is key" and "n < length es"
    and "last_on gm key is' = (if event_key gm (es ! n) = Some key then Some (es ! n) else last_on gm key is)"
  shows "up_to gm es (Suc n) is' key"
proof (cases "event_key gm (es ! n) = Some key")
  case True
  with assms(2,3) show ?thesis by (auto simp: up_to_def)
next
  case False
  with assms(1,3) show ?thesis by (auto simp: up_to_def less_Suc_eq split: option.splits)
qed

text \<open>All versions of an object differ, so that an event has one place in the history.\<close>

definition versions_differ :: "('t \<Rightarrow> Metadata) \<Rightarrow> 't adapter_input list \<Rightarrow> bool" where
  "versions_differ gm es \<longleftrightarrow> (\<forall>i j ty x ty' y. i < j \<longrightarrow> j < length es \<longrightarrow> es ! i = AdapterEvent ty x \<longrightarrow>
     es ! j = AdapterEvent ty' y \<longrightarrow> getNamespaceAndName gm x = getNamespaceAndName gm y \<longrightarrow>
     md_ResourceVersion (gm x) \<noteq> md_ResourceVersion (gm y))"

lemma versions_differ_snoc: "versions_differ gm es \<Longrightarrow> fresh gm es x \<Longrightarrow> versions_differ gm (es @ [AdapterEvent ty x])"
  unfolding versions_differ_def fresh_def by (fastforce simp: nth_append less_Suc_eq in_set_conv_nth)

lemma versions_differ_same:
  assumes "versions_differ gm es" and "i < length es" and "j < length es"
    and "es ! i = AdapterEvent ty x" and "es ! j = AdapterEvent ty' y"
    and "getNamespaceAndName gm x = getNamespaceAndName gm y" and "md_ResourceVersion (gm x) = md_ResourceVersion (gm y)"
  shows "i = j"
proof (rule ccontr)
  assume "i \<noteq> j"
  then consider "i < j" | "j < i" by linarith
  then show False
    by cases (use assms in \<open>unfold versions_differ_def, metis\<close>)+
qed

lemma versions_differ_key:
  "versions_differ gm es \<Longrightarrow> i < length es \<Longrightarrow> j < length es \<Longrightarrow> event_key gm (es ! i) = Some key \<Longrightarrow> es ! i = es ! j \<Longrightarrow> i = j"
  by (cases "es ! j") (auto simp: event_key_def split: adapter_input.splits intro: versions_differ_same)

subsection \<open>The inputs of the adapter\<close>

definition knows :: "('c, 'f, 't) pipe \<Rightarrow> ('c, 't) piped \<Rightarrow> known" where
  "knows p s = fold (learn (pp_meta p)) (pi_sent s) (\<lambda>_. None)"

lemma adapter_inputs_append: "adapter_inputs (a @ b) = adapter_inputs a @ adapter_inputs b"
  by (induction a) (auto split: payload.split)

lemma inbox_private:
  assumes "pipe_ok p" and "\<forall>ev \<in> set (pi_sent s). ae_Type ev \<noteq> ''PREVIOUS''"
  shows "inbox p s = adapter_inputs (private_watch (pp_meta p) adapter_filter (\<lambda>_. None) (pi_sent s))"
proof -
  from assms(1) have n: "nt_versions (pp_notifier p) = []" "distinct (map fst (nt_clients (pp_notifier p)))"
    "(pp_client p, adapter_filter) \<in> set (nt_clients (pp_notifier p))"
    "\<forall>i \<in> fst ` set (nt_clients (pp_notifier p)). \<not> pp_slow p i" by (auto simp: pipe_ok_def)
  from accept_all_alone [OF n(4,2) _ assms(2), of "pp_meta p"] n(1,3) show ?thesis
    unfolding inbox_def by fastforce
qed

lemma inbox_same [simp]:
  "inbox p (s\<lparr>pi_events := es\<rparr>) = inbox p s" "inbox p (s\<lparr>pi_owed := os\<rparr>) = inbox p s"
  "inbox p (s\<lparr>pi_next := n\<rparr>) = inbox p s" "inbox p (s\<lparr>pi_loop := l\<rparr>) = inbox p s"
  "inbox p (s\<lparr>pi_applied := a\<rparr>) = inbox p s" "inbox p (s\<lparr>pi_content := c\<rparr>) = inbox p s"
  by (simp_all add: inbox_def)

lemma knows_same [simp]:
  "knows p (s\<lparr>pi_events := es\<rparr>) = knows p s" "knows p (s\<lparr>pi_owed := os\<rparr>) = knows p s"
  "knows p (s\<lparr>pi_next := n\<rparr>) = knows p s" "knows p (s\<lparr>pi_loop := l\<rparr>) = knows p s"
  "knows p (s\<lparr>pi_applied := a\<rparr>) = knows p s" "knows p (s\<lparr>pi_content := c\<rparr>) = knows p s"
  by (simp_all add: knows_def)

lemma knows_sent: "knows p (s\<lparr>pi_sent := pi_sent s @ [ev]\<rparr>) = learn (pp_meta p) ev (knows p s)"
  by (simp add: knows_def)

lemma inbox_sent:
  assumes "pipe_ok p" and "\<forall>ev \<in> set (pi_sent s). ae_Type ev \<noteq> ''PREVIOUS''" and "ae_Type ev \<noteq> ''PREVIOUS''"
  shows "inbox p (s\<lparr>pi_sent := pi_sent s @ [ev]\<rparr>) =
    inbox p s @ adapter_inputs (private_watch (pp_meta p) adapter_filter (knows p s) [ev])"
  using inbox_private [OF assms(1,2)] inbox_private [OF assms(1), of "s\<lparr>pi_sent := pi_sent s @ [ev]\<rparr>"] assms(2,3)
  by (simp add: private_watch_append adapter_inputs_append knows_def del: private_watch.simps)

lemma inbox_bookmark:
  assumes "pipe_ok p" and "\<forall>ev \<in> set (pi_sent s). ae_Type ev \<noteq> ''PREVIOUS''"
  shows "inbox p (s\<lparr>pi_sent := pi_sent s @ [\<lparr> ae_Type = ''BOOKMARK'', ae_Object = Entity x \<rparr>]\<rparr>) = inbox p s"
    and "knows p (s\<lparr>pi_sent := pi_sent s @ [\<lparr> ae_Type = ''BOOKMARK'', ae_Object = Entity x \<rparr>]\<rparr>) = forget_deleted (knows p s)"
  using inbox_sent [OF assms] by (simp_all add: adapter_filter_def knows_sent learn.simps)

lemma inbox_event:
  fixes p :: "('c, 'f, 't) pipe" and s :: "('c, 't) piped" and x :: 't and ty :: string
  assumes "pipe_ok p" and "\<forall>ev \<in> set (pi_sent s). ae_Type ev \<noteq> ''PREVIOUS''" and "ty \<notin> {''BOOKMARK'', ''PREVIOUS''}"
  defines "s' \<equiv> s\<lparr>pi_sent := pi_sent s @ [\<lparr> ae_Type = ty, ae_Object = Entity x \<rparr>]\<rparr>"
  shows "if map_option vt_resourceVersion (knows p s (getNamespaceAndName (pp_meta p) x)) = Some (md_ResourceVersion (pp_meta p x))
    then inbox p s' = inbox p s \<and> knows p s' = knows p s
    else inbox p s' = inbox p s @ [AdapterEvent ty x] \<and>
      knows p s' = (knows p s)(getNamespaceAndName (pp_meta p) x \<mapsto>
        \<lparr> vt_resourceVersion = md_ResourceVersion (pp_meta p x), vt_eventType = ty \<rparr>)"
  using inbox_sent [OF assms(1,2), of "\<lparr> ae_Type = ty, ae_Object = Entity x \<rparr>"] assms(3)
  by (simp add: s'_def knows_sent learn.simps getNamespaceAndName_def Let_def)

subsection \<open>The invariant\<close>

definition entry_at :: "'t adapter_input list \<Rightarrow> nat \<Rightarrow> 't \<Rightarrow> bool" where
  "entry_at es j x \<longleftrightarrow> j < length es \<and> (\<exists>ty. ty \<noteq> ''DELETED'' \<and> es ! j = AdapterEvent ty x)"

lemma entry_at_append: "entry_at es j x \<Longrightarrow> entry_at (es @ es') j x"
  by (auto simp: entry_at_def nth_append)

definition owed_announced :: "('c, 't) piped \<Rightarrow> bool" where
  "owed_announced s \<longleftrightarrow> (\<forall>j x. PutEntry j x \<in> set (pi_owed s) \<longrightarrow> entry_at (pi_events s) j x) \<and>
     (\<forall>ns name. DropEntry ns name \<in> set (pi_owed s) \<longrightarrow> CHR ''/'' \<notin> set ns)"

lemma owed_announced_less:
  "owed_announced s \<Longrightarrow> set os \<subseteq> set (pi_owed s) \<Longrightarrow> owed_announced (s\<lparr>pi_owed := os, pi_content := c\<rparr>)"
  by (simp add: owed_announced_def) blast

text \<open>The inputs of the adapter are events of the history, each with nothing left out before it.\<close>

definition inputs_ok :: "('t \<Rightarrow> Metadata) \<Rightarrow> 't adapter_input list \<Rightarrow> 't adapter_input list \<Rightarrow> bool" where
  "inputs_ok gm es is \<longleftrightarrow> (\<forall>a < length is. \<exists>q < length es. is ! a = es ! q \<and> (\<forall>key. up_to gm es q (take a is) key))"

lemma inputs_ok_append: "inputs_ok gm es is \<Longrightarrow> inputs_ok gm (es @ es') is"
  unfolding inputs_ok_def by (metis up_to_append less_imp_le nth_append length_append trans_less_add1)

lemma inputs_ok_snoc:
  "inputs_ok gm es is \<Longrightarrow> q < length es \<Longrightarrow> \<forall>key. up_to gm es q is key \<Longrightarrow> inputs_ok gm es (is @ [es ! q])"
  unfolding inputs_ok_def by (auto simp: less_Suc_eq nth_append)

lemma inputs_ok_mem: "inputs_ok gm es is \<Longrightarrow> i \<in> set is \<Longrightarrow> i \<in> set es"
  unfolding inputs_ok_def by (metis in_set_conv_nth)

definition known_last :: "('t \<Rightarrow> Metadata) \<Rightarrow> known \<Rightarrow> 't adapter_input list \<Rightarrow> bool" where
  "known_last gm known is \<longleftrightarrow> (\<forall>key v. known key = Some v \<longrightarrow>
     (\<exists>ty x. last_on gm key is = Some (AdapterEvent ty x) \<and> vt_resourceVersion v = md_ResourceVersion (gm x)))"

lemma known_last_forget: "known_last gm known is \<Longrightarrow> known_last gm (forget_deleted known) is"
  unfolding known_last_def forget_deleted_def by (auto split: option.splits if_splits)

lemma known_last_event:
  "known_last gm known is \<Longrightarrow>
   known_last gm (known(getNamespaceAndName gm x \<mapsto> \<lparr> vt_resourceVersion = md_ResourceVersion (gm x), vt_eventType = ty \<rparr>))
     (is @ [AdapterEvent ty x])"
  by (auto simp: known_last_def event_key_def)

definition pipe_inv :: "('c, 'f, 't) pipe \<Rightarrow> ('c, 't) piped \<Rightarrow> bool" where
  "pipe_inv p s \<longleftrightarrow> history (pp_meta p) (pi_events s) \<and> versions_differ (pp_meta p) (pi_events s) \<and>
     pi_next s \<le> length (pi_events s) \<and>
     (wl_bookmark (pi_loop s) = [] \<or> (\<exists>m \<le> pi_next s. wl_bookmark (pi_loop s) = pp_mark p m)) \<and>
     (\<forall>ev \<in> set (pi_sent s). ae_Type ev \<noteq> ''PREVIOUS'') \<and>
     (\<forall>key. up_to (pp_meta p) (pi_events s) (pi_next s) (inbox p s) key) \<and>
     inputs_ok (pp_meta p) (pi_events s) (inbox p s) \<and> known_last (pp_meta p) (knows p s) (inbox p s) \<and>
     pi_applied s \<le> length (inbox p s) \<and> owed_announced s"

lemma history_event:
  "history gm es \<Longrightarrow> i < length es \<Longrightarrow> es ! i = AdapterEvent ty x \<Longrightarrow>
   ty \<in> {''ADDED'', ''MODIFIED'', ''DELETED''} \<and> CHR ''/'' \<notin> set (md_Namespace (gm x))"
  by (fastforce simp: history_def)

text \<open>One more event on the server.\<close>

lemma pipe_inv_write:
  assumes "pipe_inv p s" and "history (pp_meta p) (pi_events s @ [AdapterEvent ty x])"
    and "fresh (pp_meta p) (pi_events s) x"
    and "owed_announced (s\<lparr>pi_events := pi_events s @ [AdapterEvent ty x], pi_owed := os\<rparr>)"
  shows "pipe_inv p (s\<lparr>pi_events := pi_events s @ [AdapterEvent ty x], pi_owed := os\<rparr>)"
  using assms by (simp add: pipe_inv_def versions_differ_snoc up_to_append inputs_ok_append)

text \<open>What the loop does with what it receives.\<close>

lemma loop_step_event:
  assumes "wc_Converter c f = Ret x" and "wl_state st = Running" and "ty \<noteq> ''ERROR''" and "ty \<noteq> ''BOOKMARK''"
  shows "loop_step c st (Received ty (Typed f)) = Ret (st, Some \<lparr> ae_Type = ty, ae_Object = Entity x \<rparr>)"
  using assms by (simp add: loop_step.simps)

lemma loop_step_bookmark:
  assumes "loop_step c st (Received ''BOOKMARK'' (Typed f)) = Ret (l, out)" and "wl_state st = Running"
  shows "l = st\<lparr>wl_bookmark := wc_ResourceVersion c f\<rparr>"
    and "out = None \<or> (\<exists>x. out = Some \<lparr> ae_Type = ''BOOKMARK'', ae_Object = Entity x \<rparr>)"
  using assms by (auto simp: loop_step.simps Let_def split: if_splits run.splits elim!: bind_run.elims)

lemma loop_step_closed:
  "wl_state st = Running \<Longrightarrow> loop_step c st ChannelClosed = Ret (st\<lparr>wl_state := Connect\<rparr>, None)"
  by (simp add: loop_step.simps)

lemma loop_step_connected:
  assumes "gm_len (fm_Annotations (wc_Filter c)) = 0" and "wl_state st = Connect"
  obtains opts where "loop_step c st (Connected None False) =
      Ret (st\<lparr>wl_requests := wl_requests st @ [opts], wl_state := Running\<rparr>, None)"
    and "wo_ResourceVersion opts = wl_bookmark st"
proof -
  from doWatchRequest_ok [OF assms(1)] obtain opts where
    "doWatchRequest (wc_labels_String c) (wc_Namespace c) (wc_Filter c) (wl_bookmark st) = Inr opts"
    "wo_ResourceVersion opts = wl_bookmark st" by blast
  with assms(2) show ?thesis by (intro that [of opts]) (simp_all add: loop_step.simps Let_def)
qed

text \<open>The next event goes on to the adapter, unless it is the last one already.\<close>

lemma known_event_is_last:
  assumes "known_last gm known is" and "inputs_ok gm es is" and "versions_differ gm es"
    and "n < length es" and "es ! n = AdapterEvent ty x"
    and "map_option vt_resourceVersion (known (getNamespaceAndName gm x)) = Some (md_ResourceVersion (gm x))"
  shows "last_on gm (getNamespaceAndName gm x) is = Some (AdapterEvent ty x)"
proof -
  let ?key = "getNamespaceAndName gm x"
  from assms(6) obtain v where v: "known ?key = Some v" "vt_resourceVersion v = md_ResourceVersion (gm x)" by auto
  with assms(1) obtain ty' y where y: "last_on gm ?key is = Some (AdapterEvent ty' y)"
    "vt_resourceVersion v = md_ResourceVersion (gm y)" unfolding known_last_def by metis
  from last_on_Some [OF y(1)] have "AdapterEvent ty' y \<in> set is" and k: "getNamespaceAndName gm y = ?key"
    by (simp_all add: event_key_def)
  then obtain l where "l < length es" "es ! l = AdapterEvent ty' y"
    using inputs_ok_mem [OF assms(2)] by (metis in_set_conv_nth)
  with versions_differ_same [OF assms(3) _ assms(4) _ assms(5)] k y(2) v(2) have "l = n" by auto
  with \<open>es ! l = _\<close> y(1) assms(5) show ?thesis by simp
qed

text \<open>What a step of the loop does to the rest.\<close>

definition loop_effect :: "('c, 'f, 't) pipe \<Rightarrow> ('c, 't) piped \<Rightarrow> ('c, 't) piped \<Rightarrow> bool" where
  "loop_effect p s s' \<longleftrightarrow> pipe_inv p s' \<and> pi_events s' = pi_events s \<and> pi_applied s' = pi_applied s \<and>
     pi_content s' = pi_content s \<and> (\<exists>is. inbox p s' = inbox p s @ is)"

lemma loop_effect_receive:
  assumes "pipe_ok p" and "pipe_inv p s" and "pi_next s < length (pi_events s)"
    and "pi_events s ! pi_next s = AdapterEvent ty x"
  defines "s' \<equiv> s\<lparr>pi_next := Suc (pi_next s), pi_sent := pi_sent s @ [\<lparr> ae_Type = ty, ae_Object = Entity x \<rparr>]\<rparr>"
  shows "loop_effect p s s'"
proof -
  let ?gm = "pp_meta p" and ?key = "getNamespaceAndName (pp_meta p) x" and ?n = "pi_next s" and ?es = "pi_events s"
  from assms(2) have inv: "history ?gm ?es" "versions_differ ?gm ?es" "\<forall>ev \<in> set (pi_sent s). ae_Type ev \<noteq> ''PREVIOUS''"
    "\<And>key. up_to ?gm ?es ?n (inbox p s) key" "inputs_ok ?gm ?es (inbox p s)" "known_last ?gm (knows p s) (inbox p s)"
    unfolding pipe_inv_def by blast+
  from history_event [OF inv(1) assms(3,4)] have ty: "ty \<notin> {''BOOKMARK'', ''PREVIOUS''}" by auto
  have same: "inbox p s' = inbox p (s\<lparr>pi_sent := pi_sent s'\<rparr>)" "knows p s' = knows p (s\<lparr>pi_sent := pi_sent s'\<rparr>)"
    by (simp_all add: s'_def inbox_def knows_def)
  have step: "if map_option vt_resourceVersion (knows p s ?key) = Some (md_ResourceVersion (?gm x))
    then inbox p s' = inbox p s \<and> knows p s' = knows p s
    else inbox p s' = inbox p s @ [AdapterEvent ty x] \<and>
      knows p s' = (knows p s)(?key \<mapsto> \<lparr> vt_resourceVersion = md_ResourceVersion (?gm x), vt_eventType = ty \<rparr>)"
    using inbox_event [OF assms(1) inv(3) ty, of x] unfolding same by (simp add: s'_def)
  have grow: "inbox p s' = inbox p s \<or> inbox p s' = inbox p s @ [AdapterEvent ty x]" using step by (auto split: if_splits)
  have "up_to ?gm ?es (Suc ?n) (inbox p s') key" for key
    using step known_event_is_last [OF inv(6,5,2) assms(3,4)]
    by (intro up_to_Suc [OF inv(4) assms(3)]) (auto simp: assms(4) event_key_def split: if_splits)
  moreover have "inputs_ok ?gm ?es (inbox p s')"
    using grow inputs_ok_snoc [OF inv(5) assms(3)] inv(4,5) by (auto simp: assms(4))
  moreover have "known_last ?gm (knows p s') (inbox p s')"
    using step known_last_event [OF inv(6)] inv(6) by (auto split: if_splits)
  moreover have "pi_applied s \<le> length (inbox p s')" using grow assms(2) by (auto simp: pipe_inv_def)
  ultimately have "pipe_inv p s'"
    using assms(2,3) ty unfolding pipe_inv_def by (auto simp: s'_def owed_announced_def intro: le_SucI)
  with grow show ?thesis by (auto simp: loop_effect_def s'_def)
qed

text \<open>The other steps of the loop leave the adapter what it has.\<close>

lemma loop_effect_quiet:
  assumes "pipe_inv p s" and "n \<le> pi_next s"
    and s': "s' = s\<lparr>pi_next := n, pi_loop := l, pi_sent := sent\<rparr>"
    and "inbox p s' = inbox p s" and "known_last (pp_meta p) (knows p s') (inbox p s)"
    and "\<forall>ev \<in> set sent. ae_Type ev \<noteq> ''PREVIOUS''"
    and "wl_bookmark l = [] \<or> (\<exists>m \<le> n. wl_bookmark l = pp_mark p m)"
  shows "loop_effect p s s'"
proof -
  from assms(1) have "up_to (pp_meta p) (pi_events s) n (inbox p s) key" for key
    using up_to_less [OF _ assms(2)] unfolding pipe_inv_def by blast
  with assms show ?thesis unfolding loop_effect_def pipe_inv_def owed_announced_def by auto
qed

lemma loop_effect_bookmark:
  assumes "pipe_ok p" and "pipe_inv p s"
    and "l = (pi_loop s)\<lparr>wl_bookmark := pp_mark p (pi_next s)\<rparr>"
    and "out = None \<or> (\<exists>x. out = Some \<lparr> ae_Type = ''BOOKMARK'', ae_Object = Entity x \<rparr>)"
  shows "loop_effect p s (s\<lparr>pi_loop := l, pi_sent := pi_sent s @ forward out\<rparr>)" (is "loop_effect p s ?s'")
proof -
  from assms(2) have inv: "\<forall>ev \<in> set (pi_sent s). ae_Type ev \<noteq> ''PREVIOUS''"
    "known_last (pp_meta p) (knows p s) (inbox p s)" unfolding pipe_inv_def by blast+
  let ?s = "s\<lparr>pi_sent := pi_sent s @ forward out\<rparr>"
  have "inbox p ?s = inbox p s" "knows p ?s = knows p s \<or> knows p ?s = forget_deleted (knows p s)"
    using inbox_bookmark [OF assms(1) inv(1)] assms(4) by (auto simp: forward_def)
  moreover have "inbox p ?s' = inbox p ?s" "knows p ?s' = knows p ?s" by (simp_all add: inbox_def knows_def)
  ultimately show ?thesis using inv known_last_forget [OF inv(2)]
    by (intro loop_effect_quiet [OF assms(2), where n = "pi_next s" and l = l and sent = "pi_sent s @ forward out"])
      (use assms(4) in \<open>auto simp: assms(3) forward_def\<close>)
qed

lemma loop_effect_silent:
  assumes "pipe_inv p s" and "n \<le> pi_next s" and "wl_bookmark l = [] \<or> (\<exists>m \<le> n. wl_bookmark l = pp_mark p m)"
  shows "loop_effect p s (s\<lparr>pi_next := n, pi_loop := l\<rparr>)"
  using assms
  by (intro loop_effect_quiet [OF assms(1,2), where l = l and sent = "pi_sent s"]) (auto simp: pipe_inv_def)

text \<open>All steps: a write on the server, one of the loop, of the adapter, and of the cache.\<close>

lemma pipe_step_cases:
  assumes "pipe_step p s s'" and "pipe_ok p" and "pipe_inv p s"
  obtains (written) ty x os where "s' = s\<lparr>pi_events := pi_events s @ [AdapterEvent ty x], pi_owed := os\<rparr>"
      "fresh (pp_meta p) (pi_events s) x" "history (pp_meta p) (pi_events s @ [AdapterEvent ty x])" "owed_announced s'"
  | (looped) "loop_effect p s s'"
  | (applied) ty x where "s' = s\<lparr>pi_applied := Suc (pi_applied s),
      pi_content := OnWatchEvent (pp_meta p) (pipe_cache p) ty x (pi_content s)\<rparr>"
      "pi_applied s < length (inbox p s)" "inbox p s ! pi_applied s = AdapterEvent ty x"
  | (placed) j x os where "s' = s\<lparr>pi_owed := os, pi_content := snd (cache_Set (pp_meta p) (pipe_cache p) x (pi_content s))\<rparr>"
      "PutEntry j x \<in> set (pi_owed s)" "in_turn p s j x" "set os \<subseteq> set (pi_owed s)"
  | (removed) ns name os where "s' = s\<lparr>pi_owed := os, pi_content := cache_Delete (pipe_cache p) ns name (pi_content s)\<rparr>"
      "CHR ''/'' \<notin> set ns" "set os \<subseteq> set (pi_owed s)"
  | (lost) c where "s' = s\<lparr>pi_content := c\<rparr>" "\<forall>k. rGet (ra_cache (pp_adapter p)) k c = None \<or>
      rGet (ra_cache (pp_adapter p)) k c = rGet (ra_cache (pp_adapter p)) k (pi_content s)"
  using assms(1)
proof cases
  let ?gm = "pp_meta p" and ?es = "pi_events s"
  from assms(3) have inv: "history ?gm ?es" "owed_announced s"
    "wl_bookmark (pi_loop s) = [] \<or> (\<exists>m \<le> pi_next s. wl_bookmark (pi_loop s) = pp_mark p m)" unfolding pipe_inv_def by blast+
  from assms(2) have ann: "gm_len (fm_Annotations (wc_Filter (pp_watch p))) = 0"
    and marks: "\<And>i j. pp_mark p i = pp_mark p j \<Longrightarrow> i = j" by (auto simp: pipe_ok_def)
  {
    case (put x f own)
    define ty where "ty = (if server_view ?gm ?es (getNamespaceAndName ?gm x) = None then ''ADDED'' else ''MODIFIED'')"
    have e: "put_event ?gm ?es x = AdapterEvent ty x" by (simp add: put_event_def ty_def)
    have "entry_at (?es @ [AdapterEvent ty x]) (length ?es) x" by (simp add: entry_at_def ty_def)
    with put inv(1,2) show ?thesis
      by (intro written [OF put(1) [unfolded e]]) (auto simp: history_snoc ty_def e owed_announced_def intro: entry_at_append)
  next
    case (drop ns name x f own)
    from drop(2) server_view_announced [OF inv(1)] obtain y where "(ns, name) = getNamespaceAndName ?gm y"
      "CHR ''/'' \<notin> set (md_Namespace (?gm y))" by blast
    with drop(3) have "CHR ''/'' \<notin> set ns" "CHR ''/'' \<notin> set (md_Namespace (?gm x))"
      by (simp_all add: getNamespaceAndName_def Let_def)
    with drop inv(1,2) show ?thesis
      by (intro written [OF drop(1)]) (auto simp: history_snoc owed_announced_def intro: entry_at_append)
  next
    case (receive ty x f l out)
    from history_event [OF inv(1) receive(3,4)] have "ty \<noteq> ''ERROR''" "ty \<noteq> ''BOOKMARK''" by auto
    from loop_step_event [OF receive(5,2) this] receive(6)
    have "l = pi_loop s" "out = Some \<lparr> ae_Type = ty, ae_Object = Entity x \<rparr>" by auto
    with loop_effect_receive [OF assms(2,3) receive(3,4)] show ?thesis by (intro looped) (simp add: receive(1) forward_def)
  next
    case (bookmark f l out)
    from loop_step_bookmark [OF bookmark(4,2)] bookmark(3) show ?thesis
      by (intro looped, unfold bookmark(1)) (rule loop_effect_bookmark [OF assms(2,3)], auto)
  next
    case (lose l out)
    from loop_step_closed [OF lose(2), of "pp_watch p"] lose(3) have "out = None" "wl_bookmark l = wl_bookmark (pi_loop s)" by auto
    with loop_effect_silent [OF assms(3), of "pi_next s" l] inv(3) show ?thesis by (intro looped) (simp add: lose(1) forward_def)
  next
    case (resume l out m)
    obtain opts where "l = (pi_loop s)\<lparr>wl_requests := wl_requests (pi_loop s) @ [opts], wl_state := Running\<rparr>"
      "out = None" "wo_ResourceVersion opts = wl_bookmark (pi_loop s)"
      using loop_step_connected [OF ann resume(2)] resume(4) by (metis Pair_inject run.inject)
    with loop_effect_silent [OF assms(3), of m l] inv(3) resume(3,5) marks show ?thesis
      by (intro looped) (auto simp: resume(1) forward_def)
  next
    case (adapter ty x)
    then show ?thesis by (rule applied)
  next
    case (cache_put os j x os')
    then show ?thesis by (intro placed [OF cache_put(1)]) auto
  next
    case (cache_drop os ns name os')
    with inv(2) show ?thesis by (intro removed [OF cache_drop(1)]) (auto simp: owed_announced_def)
  next
    case (lost c)
    then show ?thesis by (rule that(6))
  }
qed

lemma pipe_step_inv:
  assumes "pipe_step p s s'" and "pipe_ok p" and "pipe_inv p s"
  shows "pipe_inv p s'"
  using assms
proof (cases rule: pipe_step_cases)
  case (written ty x os)
  with pipe_inv_write [OF assms(3)] show ?thesis by simp
next
  case (placed j x os)
  with assms(3) owed_announced_less [of s os] show ?thesis by (auto simp: pipe_inv_def)
next
  case (removed ns name os)
  with assms(3) owed_announced_less [of s os] show ?thesis by (auto simp: pipe_inv_def)
qed (use assms(3) in \<open>auto simp: loop_effect_def pipe_inv_def owed_announced_def\<close>)

subsection \<open>What the cache holds\<close>

definition in_place :: "('c, 'f, 't) pipe \<Rightarrow> ('c, 't) piped \<Rightarrow> string \<Rightarrow> string \<Rightarrow> 't \<Rightarrow> bool" where
  "in_place p s ns name v \<longleftrightarrow> (\<exists>j x. entry_at (pi_events s) j x \<and>
     getNamespaceAndName (pp_meta p) x = (ns, name) \<and> v = json_stored (pp_json p) x \<and> in_turn p s j x)"

definition turned_entries :: "('c, 'f, 't) pipe \<Rightarrow> ('c, 't) piped \<Rightarrow> bool" where
  "turned_entries p s \<longleftrightarrow> (\<forall>ns name v. CHR ''/'' \<notin> set ns \<longrightarrow>
     cache_Get (pipe_cache p) ns name (pi_content s) = Some v \<longrightarrow> in_place p s ns name v)"

text \<open>After a step each entry is in place, or was there and what was in place still is.\<close>

lemma turned_entries_change:
  assumes "turned_entries p s"
    and "\<And>ns name v. CHR ''/'' \<notin> set ns \<Longrightarrow> cache_Get (pipe_cache p) ns name (pi_content s') = Some v \<Longrightarrow>
      in_place p s' ns name v \<or>
      cache_Get (pipe_cache p) ns name (pi_content s) = Some v \<and> (in_place p s ns name v \<longrightarrow> in_place p s' ns name v)"
  shows "turned_entries p s'"
  using assms unfolding turned_entries_def by meson

text \<open>An entry stays in turn while the server writes and the watch goes on.\<close>

lemma inbox_member:
  "pipe_inv p s \<Longrightarrow> last_on gm key (take a (inbox p s)) = Some e \<Longrightarrow> e \<in> set (pi_events s)"
  using last_on_Some inputs_ok_mem [of "pp_meta p" "pi_events s"] by (metis in_set_takeD pipe_inv_def)

lemma in_turn_write:
  assumes "pipe_inv p s" and "fresh (pp_meta p) (pi_events s) y" and "in_turn p s j x"
  shows "in_turn p (s\<lparr>pi_events := pi_events s @ [AdapterEvent ty y], pi_owed := os\<rparr>) j x"
proof -
  have "last_on (pp_meta p) (getNamespaceAndName (pp_meta p) x) (take (pi_applied s) (inbox p s)) \<noteq> Some (AdapterEvent ty y)"
    using inbox_member [OF assms(1)] assms(2) unfolding fresh_def by blast
  with assms(3) show ?thesis by (auto simp: in_turn_def nth_append less_Suc_eq)
qed

lemma in_turn_grow:
  assumes "pi_events s' = pi_events s" and "pi_applied s' = pi_applied s" and "pi_applied s \<le> length (inbox p s)"
    and "\<exists>is. inbox p s' = inbox p s @ is"
  shows "in_turn p s' j x \<longleftrightarrow> in_turn p s j x"
  using assms by (auto simp: in_turn_def)

lemma turned_entries_write:
  assumes "turned_entries p s" and "pipe_inv p s" and "fresh (pp_meta p) (pi_events s) y"
  shows "turned_entries p (s\<lparr>pi_events := pi_events s @ [AdapterEvent ty y], pi_owed := os\<rparr>)"
proof (rule turned_entries_change [OF assms(1)], intro disjI2 conjI impI, goal_cases)
  case (2 ns name v)
  then show ?case using in_turn_write [OF assms(2,3)] unfolding in_place_def by (fastforce intro: entry_at_append)
qed simp

lemma turned_entries_loop:
  assumes "turned_entries p s" and "pipe_inv p s" and "pi_events s' = pi_events s" and "pi_applied s' = pi_applied s"
    and "pi_content s' = pi_content s" and "\<exists>is. inbox p s' = inbox p s @ is"
  shows "turned_entries p s'"
proof -
  have "pi_applied s \<le> length (inbox p s)" using assms(2) by (simp add: pipe_inv_def)
  from in_turn_grow [OF assms(3,4) this assms(6)] assms(1,3,5) show ?thesis
    by (simp add: turned_entries_def in_place_def)
qed

text \<open>The outstanding writes, and losses.\<close>

lemma in_place_same [simp]: "in_place p (s\<lparr>pi_owed := os\<rparr>) = in_place p s"
  "in_place p (s\<lparr>pi_content := c\<rparr>) = in_place p s"
  by (simp_all add: in_place_def in_turn_def fun_eq_iff)

lemma turned_entries_cache_put:
  assumes "turned_entries p s" and "pipe_ok p" and "pipe_inv p s" and "PutEntry j x \<in> set (pi_owed s)" and "in_turn p s j x"
  shows "turned_entries p (s\<lparr>pi_owed := os, pi_content := snd (cache_Set (pp_meta p) (pipe_cache p) x (pi_content s))\<rparr>)"
proof -
  from assms(2) have lib: "ristretto_ok (ra_cache (pp_adapter p))" "CHR ''/'' \<notin> set (pp_kind p)" by (auto simp: pipe_ok_def)
  from assms(3,4) have e: "entry_at (pi_events s) j x" by (auto simp: pipe_inv_def owed_announced_def)
  with assms(3) history_event [of "pp_meta p" "pi_events s" j] have x: "CHR ''/'' \<notin> set (md_Namespace (pp_meta p x))"
    by (auto simp: pipe_inv_def entry_at_def)
  show ?thesis
  proof (rule turned_entries_change [OF assms(1)])
    fix ns name v
    assume ns: "CHR ''/'' \<notin> set ns" and v: "cache_Get (pipe_cache p) ns name (pi_content
      (s\<lparr>pi_owed := os, pi_content := snd (cache_Set (pp_meta p) (pipe_cache p) x (pi_content s))\<rparr>)) = Some v"
    from cache_Set_entry [where gm = "pp_meta p" and ad = "pp_adapter p" and js = "pp_json p", OF lib x ns refl,
        of name "pi_content s", folded pipe_cache_def] v
    consider "cache_Get (pipe_cache p) ns name (pi_content s) = Some v"
      | "getNamespaceAndName (pp_meta p) x = (ns, name)" "v = json_stored (pp_json p) x" by auto
    then show "in_place p (s\<lparr>pi_owed := os, pi_content := snd (cache_Set (pp_meta p) (pipe_cache p) x (pi_content s))\<rparr>) ns name v \<or>
        cache_Get (pipe_cache p) ns name (pi_content s) = Some v \<and> (in_place p s ns name v \<longrightarrow> in_place p
          (s\<lparr>pi_owed := os, pi_content := snd (cache_Set (pp_meta p) (pipe_cache p) x (pi_content s))\<rparr>) ns name v)"
    proof cases
      case 2
      with e assms(5) have "in_place p s ns name v" unfolding in_place_def by blast
      then show ?thesis by simp
    qed simp
  qed
qed

lemma turned_entries_cache_drop:
  assumes "turned_entries p s" and "pipe_ok p" and "CHR ''/'' \<notin> set ns'"
  shows "turned_entries p (s\<lparr>pi_owed := os, pi_content := cache_Delete (pipe_cache p) ns' name' (pi_content s)\<rparr>)"
proof (rule turned_entries_change [OF assms(1)])
  fix ns name v
  assume ns: "CHR ''/'' \<notin> set ns" and v: "cache_Get (pipe_cache p) ns name (pi_content
    (s\<lparr>pi_owed := os, pi_content := cache_Delete (pipe_cache p) ns' name' (pi_content s)\<rparr>)) = Some v"
  from assms(2) have "ristretto_ok (ra_cache (pp_adapter p))" "CHR ''/'' \<notin> set (pp_kind p)" by (auto simp: pipe_ok_def)
  from cache_Delete_entry [where ad = "pp_adapter p" and js = "pp_json p", OF this assms(3) ns refl, of name name' "pi_content s",
      folded pipe_cache_def] v
  show "in_place p (s\<lparr>pi_owed := os, pi_content := cache_Delete (pipe_cache p) ns' name' (pi_content s)\<rparr>) ns name v \<or>
      cache_Get (pipe_cache p) ns name (pi_content s) = Some v \<and> (in_place p s ns name v \<longrightarrow> in_place p
        (s\<lparr>pi_owed := os, pi_content := cache_Delete (pipe_cache p) ns' name' (pi_content s)\<rparr>) ns name v)"
    by auto
qed

lemma turned_entries_lost:
  assumes "turned_entries p s"
    and "\<forall>k. rGet (ra_cache (pp_adapter p)) k c = None \<or>
      rGet (ra_cache (pp_adapter p)) k c = rGet (ra_cache (pp_adapter p)) k (pi_content s)"
  shows "turned_entries p (s\<lparr>pi_content := c\<rparr>)"
proof (rule turned_entries_change [OF assms(1)])
  fix ns name v
  assume v: "cache_Get (pipe_cache p) ns name (pi_content (s\<lparr>pi_content := c\<rparr>)) = Some v"
  from assms(2) [THEN spec [of _ "key_String (toCacheKey (pp_kind p) ns name)"]] v
  have "cache_Get (pipe_cache p) ns name (pi_content s) = Some v"
    by (cases "rGet (ra_cache (pp_adapter p)) (key_String (toCacheKey (pp_kind p) ns name)) (pi_content s)")
      (auto simp: pipe_cache_def cache_Get_def NewResourceCache_def newEntityAdapter_def entity_Get_def shared_Get_def Let_def)
  then show "in_place p (s\<lparr>pi_content := c\<rparr>) ns name v \<or> cache_Get (pipe_cache p) ns name (pi_content s) = Some v \<and>
      (in_place p s ns name v \<longrightarrow> in_place p (s\<lparr>pi_content := c\<rparr>) ns name v)" by simp
qed

text \<open>The event the adapter applies next is in turn after it, and older entries on its object were too old before it.\<close>

lemma in_turn_applied:
  assumes "pi_applied s < length (inbox p s)"
  shows "in_turn p (s\<lparr>pi_applied := Suc (pi_applied s), pi_content := c\<rparr>) j x \<longleftrightarrow>
    (if event_key (pp_meta p) (inbox p s ! pi_applied s) = Some (getNamespaceAndName (pp_meta p) x)
     then \<forall>i. j < i \<longrightarrow> i < length (pi_events s) \<longrightarrow> pi_events s ! i \<noteq> inbox p s ! pi_applied s
     else in_turn p s j x)"
  using assms by (auto simp: in_turn_def take_Suc_last_on)

lemma added_event_not_later:
  assumes "pipe_inv p s" and "pi_applied s < length (inbox p s)" and "inbox p s ! pi_applied s = AdapterEvent ''ADDED'' x"
    and "entry_at (pi_events s) j y" and "in_turn p s j y"
    and key: "getNamespaceAndName (pp_meta p) y = getNamespaceAndName (pp_meta p) x"
    and i: "j < i" "i < length (pi_events s)"
  shows "pi_events s ! i \<noteq> AdapterEvent ''ADDED'' x"
proof
  let ?gm = "pp_meta p" and ?es = "pi_events s"
  assume at: "?es ! i = AdapterEvent ''ADDED'' x"
  from assms(1) have inv: "history ?gm ?es" "versions_differ ?gm ?es" "inputs_ok ?gm ?es (inbox p s)"
    unfolding pipe_inv_def by blast+
  from inv(3) assms(2) obtain q where q: "q < length ?es" "inbox p s ! pi_applied s = ?es ! q"
    "\<And>key. up_to ?gm ?es q (take (pi_applied s) (inbox p s)) key" unfolding inputs_ok_def by blast
  have "q = i" using versions_differ_key [OF inv(2) q(1) i(2), of "getNamespaceAndName ?gm x"] q(2) at assms(3)
    by (simp add: event_key_def)
  from assms(4) obtain ty where j: "j < length ?es" "ty \<noteq> ''DELETED''" "?es ! j = AdapterEvent ty y" by (auto simp: entry_at_def)
  let ?key = "getNamespaceAndName ?gm x"
  have jk: "event_key ?gm (?es ! j) = Some ?key" by (simp add: j(3) key event_key_def)
  from q(3) [of ?key] jk i(1) \<open>q = i\<close> obtain e l where l: "last_on ?gm ?key (take (pi_applied s) (inbox p s)) = Some e"
    "l < length ?es" "?es ! l = e" "\<forall>i'. l < i' \<longrightarrow> i' < i \<longrightarrow> event_key ?gm (?es ! i') \<noteq> Some ?key"
    by (auto simp: up_to_def split: option.splits)
  from l(4) jk i(1) have "\<not> l < j" by blast
  moreover from assms(5) l(1-3) key have "\<not> j < l" by (auto simp: in_turn_def)
  ultimately have "l = j" by simp
  have "history ?gm (take i ?es)" using inv(1) i(2) by (simp add: history_def take_take min_def)
  moreover have "\<forall>i'. j < i' \<longrightarrow> i' < length (take i ?es) \<longrightarrow> event_key ?gm (take i ?es ! i') \<noteq> Some (getNamespaceAndName ?gm y)"
    using l(4) \<open>l = j\<close> key i(2) by simp
  ultimately have "server_view ?gm (take i ?es) (getNamespaceAndName ?gm y) = Some y"
    using server_view_last [of ?gm "take i ?es" j ty y] j i by simp
  moreover have "server_view ?gm (take i ?es) ?key = None" using inv(1) i(2) at by (auto simp: history_def)
  ultimately show False using key by simp
qed

lemma turned_entries_adapter:
  assumes cur: "turned_entries p s" and ok: "pipe_ok p" and inv: "pipe_inv p s"
    and a: "pi_applied s < length (inbox p s)" "inbox p s ! pi_applied s = AdapterEvent ty x"
  defines "s' \<equiv> s\<lparr>pi_applied := Suc (pi_applied s),
      pi_content := OnWatchEvent (pp_meta p) (pipe_cache p) ty x (pi_content s)\<rparr>"
  shows "turned_entries p s'"
proof (rule turned_entries_change [OF cur])
  let ?gm = "pp_meta p" and ?es = "pi_events s"
  fix ns name v
  assume ns: "CHR ''/'' \<notin> set ns" and v: "cache_Get (pipe_cache p) ns name (pi_content s') = Some v"
  from ok have lib: "ristretto_ok (ra_cache (pp_adapter p))" "CHR ''/'' \<notin> set (pp_kind p)" by (auto simp: pipe_ok_def)
  from inv have hist: "history ?gm ?es" and vs: "versions_differ ?gm ?es" unfolding pipe_inv_def by blast+
  from inv a obtain q where q: "q < length ?es" "?es ! q = AdapterEvent ty x"
    unfolding pipe_inv_def inputs_ok_def by metis
  note x = history_event [OF hist q] and it = in_turn_applied [OF a(1), folded s'_def]
  from OnWatchEvent_entry [where gm = ?gm and ad = "pp_adapter p" and js = "pp_json p",
      OF lib conjunct2 [OF x] ns conjunct1 [OF x] refl, of name "pi_content s", folded pipe_cache_def] v
  consider "ty \<noteq> ''DELETED''" "getNamespaceAndName ?gm x = (ns, name)" "v = json_stored (pp_json p) x"
    | "ty = ''ADDED'' \<or> (ns, name) \<noteq> getNamespaceAndName ?gm x"
      "cache_Get (pipe_cache p) ns name (pi_content s) = Some v" by (auto simp: s'_def)
  then show "in_place p s' ns name v \<or>
      cache_Get (pipe_cache p) ns name (pi_content s) = Some v \<and> (in_place p s ns name v \<longrightarrow> in_place p s' ns name v)"
  proof cases
    case 1
    have "in_turn p s' q x"
      using versions_differ_key [OF vs _ q(1), of _ "getNamespaceAndName ?gm x"] unfolding s'_def in_turn_applied [OF a(1)]
      by (auto simp: a(2) q(2) event_key_def)
    moreover have "entry_at (pi_events s') q x" using q 1(1) by (auto simp: entry_at_def s'_def)
    ultimately show ?thesis using 1 unfolding in_place_def by blast
  next
    case 2
    have "in_turn p s' j y" if "entry_at ?es j y" "getNamespaceAndName ?gm y = (ns, name)" "in_turn p s j y" for j y
      using that 2(1) added_event_not_later [OF inv a(1) _ that(1,3)] a(2) unfolding s'_def in_turn_applied [OF a(1)]
      by (auto simp: event_key_def)
    with 2(2) show ?thesis unfolding in_place_def by (auto simp: s'_def)
  qed
qed

lemma pipe_step_turned:
  assumes "pipe_step p s s'" and "pipe_ok p" and "pipe_inv p s" and "turned_entries p s"
  shows "turned_entries p s'"
  using assms(1-3)
proof (cases rule: pipe_step_cases)
  case (written ty x os)
  show ?thesis unfolding written(1) by (rule turned_entries_write [OF assms(4,3) written(2)])
next
  case looped
  then show ?thesis by (intro turned_entries_loop [OF assms(4,3)]) (auto simp: loop_effect_def)
next
  case (applied ty x)
  show ?thesis unfolding applied(1) by (rule turned_entries_adapter [OF assms(4,2,3) applied(2,3)])
next
  case (placed j x os)
  show ?thesis unfolding placed(1) by (rule turned_entries_cache_put [OF assms(4,2,3) placed(2,3)])
next
  case (removed ns name os)
  show ?thesis unfolding removed(1) by (rule turned_entries_cache_drop [OF assms(4,2) removed(2)])
next
  case (lost c)
  show ?thesis unfolding lost(1) by (rule turned_entries_lost [OF assms(4) lost(2)])
qed

lemma pipe_reach_turned:
  assumes "pipe_reach p c s" and "pipe_ok p" and "cache_agrees (pp_adapter p) (pp_json p) (pp_kind p) c (\<lambda>_. None)"
  shows "pipe_inv p s \<and> turned_entries p s"
  using assms(1)
proof induction
  case (start l)
  have i: "inbox p (pipe_start l c) = []" by (simp add: inbox_def pipe_start_def)
  from start have "wl_bookmark l = []" by (auto simp: rest_Watch_def split: sum.splits)
  with i assms(3) show ?case
    by (auto simp: pipe_inv_def turned_entries_def pipe_start_def history_def versions_differ_def up_to_def inputs_ok_def
      known_last_def knows_def owed_announced_def cache_agrees_def pipe_cache_def)
next
  case (step s s')
  with assms(2) show ?case by (auto intro: pipe_step_inv pipe_step_turned)
qed

text \<open>In a settled state an entry in place is what the server has.\<close>

lemma settled_in_place:
  assumes "pipe_inv p s" and "settled p s" and "in_place p s ns name v"
  shows "\<exists>x. server_view (pp_meta p) (pi_events s) (ns, name) = Some x \<and> v = json_stored (pp_json p) x"
proof -
  let ?gm = "pp_meta p" and ?es = "pi_events s"
  from assms(3) obtain j x where e: "entry_at ?es j x" "getNamespaceAndName ?gm x = (ns, name)" "v = json_stored (pp_json p) x"
    "in_turn p s j x" unfolding in_place_def by blast
  from e(1) obtain ty where j: "j < length ?es" "?es ! j = AdapterEvent ty x" "ty \<noteq> ''DELETED''" by (auto simp: entry_at_def)
  have jk: "event_key ?gm (?es ! j) = Some (ns, name)" by (simp add: j(2) e(2) event_key_def)
  from assms(1,2) have "up_to ?gm ?es (length ?es) (inbox p s) (ns, name)" unfolding pipe_inv_def settled_def by metis
  with j(1) jk obtain l where l: "l < length ?es" "last_on ?gm (ns, name) (inbox p s) = Some (?es ! l)"
    "\<forall>i. l < i \<longrightarrow> i < length ?es \<longrightarrow> event_key ?gm (?es ! i) \<noteq> Some (ns, name)"
    by (auto simp: up_to_def split: option.splits)
  from l(3) j(1) jk have "\<not> l < j" by blast
  moreover from e(4) l(1,2) e(2) assms(2) have "\<not> j < l" by (auto simp: in_turn_def settled_def)
  ultimately have "l = j" by simp
  with l(3) e(2) have "server_view ?gm ?es (getNamespaceAndName ?gm x) = Some x"
    using assms(1) by (intro server_view_last [OF _ j]) (auto simp: pipe_inv_def)
  with e(2,3) show ?thesis by auto
qed

subsection \<open>Catching up\<close>

text \<open>While the watch is connected and nobody writes, all events reach the cache.\<close>

lemma pipe_events_converted:
  assumes "pipe_reach p c s"
  shows "\<forall>i \<in> set (pi_events s). \<exists>ty x f. i = AdapterEvent ty x \<and> wc_Converter (pp_watch p) f = Ret x"
  using assms
proof induction
  case (step s s')
  from step.hyps(2) step.IH show ?case by cases (auto simp: put_event_def)
qed (simp add: pipe_start_def)

lemma pipe_receives_all:
  assumes "pipe_reach p c s" and "pipe_ok p" and "cache_agrees (pp_adapter p) (pp_json p) (pp_kind p) c (\<lambda>_. None)"
    and "wl_state (pi_loop s) = Running"
  shows "\<exists>s'. pipe_reach p c s' \<and> pi_events s' = pi_events s \<and> pi_owed s' = pi_owed s \<and> pi_next s' = length (pi_events s)"
  using assms(1,4)
proof (induction "length (pi_events s) - pi_next s" arbitrary: s)
  case 0
  from pipe_reach_turned [OF 0(2) assms(2,3)] have "pi_next s \<le> length (pi_events s)" by (simp add: pipe_inv_def)
  with 0 show ?case by (intro exI [of _ s]) simp
next
  case (Suc n)
  then have less: "pi_next s < length (pi_events s)" by simp
  with pipe_events_converted [OF Suc.prems(1)] obtain ty x f where e: "pi_events s ! pi_next s = AdapterEvent ty x"
    and conv: "wc_Converter (pp_watch p) f = Ret x" by (metis nth_mem)
  from pipe_reach_turned [OF Suc.prems(1) assms(2,3)] have "history (pp_meta p) (pi_events s)" by (simp add: pipe_inv_def)
  from history_event [OF this less e] have ty: "ty \<noteq> ''ERROR''" "ty \<noteq> ''BOOKMARK''" by auto
  let ?out = "Some \<lparr> ae_Type = ty, ae_Object = Entity x \<rparr>"
  let ?s = "s\<lparr>pi_next := Suc (pi_next s), pi_loop := pi_loop s, pi_sent := pi_sent s @ forward ?out\<rparr>"
  have "pipe_reach p c ?s"
    by (rule pipe_reach.step [OF Suc.prems(1) pipe_step.receive [OF Suc.prems(2) less e conv loop_step_event [OF conv Suc.prems(2) ty]]])
  with Suc.hyps(1) [of ?s] Suc.hyps(2) Suc.prems(2) show ?case by auto
qed

lemma pipe_applies_all:
  assumes "pipe_reach p c s" and "pipe_ok p" and "cache_agrees (pp_adapter p) (pp_json p) (pp_kind p) c (\<lambda>_. None)"
  shows "\<exists>s'. pipe_reach p c s' \<and> pi_events s' = pi_events s \<and> pi_owed s' = pi_owed s \<and> pi_next s' = pi_next s \<and>
    pi_applied s' = length (inbox p s')"
  using assms(1)
proof (induction "length (inbox p s) - pi_applied s" arbitrary: s)
  case 0
  from pipe_reach_turned [OF 0(2) assms(2,3)] have "pi_applied s \<le> length (inbox p s)" by (simp add: pipe_inv_def)
  with 0 show ?case by (intro exI [of _ s]) simp
next
  case (Suc n)
  then have less: "pi_applied s < length (inbox p s)" by simp
  from pipe_reach_turned [OF Suc.prems assms(2,3)] less have "inbox p s ! pi_applied s \<in> set (pi_events s)"
    using inputs_ok_mem nth_mem unfolding pipe_inv_def by blast
  with pipe_events_converted [OF Suc.prems] obtain ty x where e: "inbox p s ! pi_applied s = AdapterEvent ty x" by blast
  let ?s = "s\<lparr>pi_applied := Suc (pi_applied s), pi_content := OnWatchEvent (pp_meta p) (pipe_cache p) ty x (pi_content s)\<rparr>"
  have "pipe_reach p c ?s" by (rule pipe_reach.step [OF Suc.prems pipe_step.adapter [OF less e]])
  moreover have "n = length (inbox p ?s) - pi_applied ?s" using Suc.hyps(2) by simp
  ultimately show ?case using Suc.hyps(1) [of ?s] by simp
qed

lemma pipe_settles:
  assumes "pipe_reach p c s" and "pipe_ok p" and "cache_agrees (pp_adapter p) (pp_json p) (pp_kind p) c (\<lambda>_. None)"
    and "wl_state (pi_loop s) = Running" and "pi_owed s = []"
  shows "\<exists>s'. pipe_reach p c s' \<and> pi_events s' = pi_events s \<and> settled p s'"
proof -
  from pipe_receives_all [OF assms(1-4)] obtain s1 where s1: "pipe_reach p c s1"
    "pi_events s1 = pi_events s" "pi_owed s1 = pi_owed s" "pi_next s1 = length (pi_events s)" by blast
  from pipe_applies_all [OF s1(1) assms(2,3)] s1 assms(5) show ?thesis unfolding settled_def by metis
qed

end
