(* ===== verification/Piped_Guarantees.thy ===== *)
theory Piped_Guarantees
  imports Piped_Race Race_Guarantees System_Guarantees
begin

section \<open>Properties of reads while events, reconnections and writes race\<close>

text \<open>
  What a route read from the cache can be when the API server fails: the events come through the
  loop of \<open>kubeWatchService.go\<close>, which loses and resumes its connection, the notifier of
  \<open>kubeWatchServiceShared.go\<close> and the cache adapter, while this client and others write routes
  (\<open>route.go\<close>). And what a client of the Gateway API gets out of its cache of HTTPRoutes.
\<close>

subsection \<open>What the cache answers\<close>

lemma pipe_cache_Get:
  assumes "pipe_reach p c s" and "pipe_ok p" and "cache_agrees (pp_adapter p) (pp_json p) (pp_kind p) c (\<lambda>_. None)"
    and "CHR ''/'' \<notin> set ns" and "cache_Get (pipe_cache p) ns name (pi_content s) = Some v"
  shows "\<exists>j x. entry_at (pi_events s) j x \<and> getNamespaceAndName (pp_meta p) x = (ns, name) \<and>
      in_turn p s j x \<and> v = json_stored (pp_json p) x"
    and "settled p s \<Longrightarrow> \<exists>x. server_view (pp_meta p) (pi_events s) (ns, name) = Some x \<and> v = json_stored (pp_json p) x"
proof -
  from pipe_reach_turned [OF assms(1-3)] have inv: "pipe_inv p s" and "turned_entries p s" by simp_all
  with assms(4,5) have place: "in_place p s ns name v" by (simp add: turned_entries_def)
  then show "\<exists>j x. entry_at (pi_events s) j x \<and> getNamespaceAndName (pp_meta p) x = (ns, name) \<and>
      in_turn p s j x \<and> v = json_stored (pp_json p) x" by (auto simp: in_place_def)
  show "settled p s \<Longrightarrow> \<exists>x. server_view (pp_meta p) (pi_events s) (ns, name) = Some x \<and> v = json_stored (pp_json p) x"
    using settled_in_place [OF inv _ place] .
qed


subsection \<open>HTTPRoutes\<close>

lemma GetRoute_gateway_outage:
  assumes "IsGatewayAPIEnabled (k_GatewaySystem k)" and "ch_HTTPRoute (k_Cache k) = Some rc"
    and "cl_Get (k_HTTPRoutes k ns) name w = (Inl e, w')" and "\<not> IsNotFound (k_errs k) e"
  shows "GetRoute k name ns \<lparr> ks_world = w, ks_cache = c \<rparr> =
    (case cache_Get rc ns name c of
       None \<Rightarrow> (Err e, \<lparr> ks_world = w', ks_cache = c \<rparr>)
     | Some v \<Rightarrow> (case wrapped v of
         None \<Rightarrow> (Err (Errorf (''HTTPRoute '' @ name @ '' has nil underlying object in namespace '' @ ns) []),
           \<lparr> ks_world = w', ks_cache = c \<rparr>)
       | Some h \<Rightarrow> (case getBackendTrafficPolicy k name ns \<lparr> ks_world = w', ks_cache = c \<rparr> of
           (Ok pol, s') \<Rightarrow> (Ok (Some (RouteFromHTTPRouteWithPolicy h pol)), s')
         | (Err e', s') \<Rightarrow> (Err e', s')
         | (Crash, s') \<Rightarrow> (Crash, s'))))"
  using assms by (simp add: GetRoute_def GetWrapper_error bind_act_def routeFromHTTPRoute_def cache_reader_def act_defs
    split: option.split prod.split res.split)


subsection \<open>A watch that starts anew\<close>

text \<open>
  C34: when the server ends a watch with an event ERROR, as it does when a bookmark is too old, the
  loop asks without a resource version, and the server begins with the objects there are then. An
  object that was deleted meanwhile is never announced as deleted: when no Ingress is left nothing
  more comes, the cache keeps the deleted route, and a read during an outage answers it.
\<close>

theorem deletion_missed_after_error:
  assumes pipe: "pipe_ok p" "pp_meta p = rt_Metadata" and opened: "rest_Watch (pp_watch p) None False = Inr l"
    and route: "wc_Converter (pp_watch p) f = Ret r" "getNamespaceAndName rt_Metadata r = (ns, name)"
    and stored: "cache_Get (pipe_cache p) ns name (snd (cache_Set rt_Metadata (pipe_cache p) r c)) = Some v"
    and client: "caches_ingresses k (pipe_cache p)"
    and outage: "cl_Get (k_NetIngresses k ns) name w = (Inl e, w')" "\<not> IsNotFound (k_errs k) e"
  shows "let events = [\<lparr> ae_Type = ''ADDED'', ae_Object = Entity r \<rparr>]
    in (\<exists>l'. loop_run (pp_watch p) l [Received ''ADDED'' (Typed f), Received ''ERROR'' obj, Connected None False] = Ret (l', events) \<and>
          wl_state l' = Running \<and> wo_ResourceVersion (last (wl_requests l')) = []) \<and>
       (\<exists>c'. watchloop rt_Metadata (pipe_cache p) (adapter_inputs (events_for (pp_client p)
            (snd (accept_all rt_Metadata (pp_slow p) events [pp_notifier p])))) c = Ret c' \<and>
          GetRoute k name ns \<lparr> ks_world = w, ks_cache = c' \<rparr> = (Ok (Some v), \<lparr> ks_world = w', ks_cache = c' \<rparr>))"
proof -
  let ?events = "[\<lparr> ae_Type = ''ADDED'', ae_Object = Entity r \<rparr>]"
  from opened have l: "wl_state l = Running" by (auto simp: rest_Watch_def split: sum.splits)
  let ?l = "l\<lparr>wl_bookmark := [], wl_state := Connect\<rparr>"
  have ann: "gm_len (fm_Annotations (wc_Filter (pp_watch p))) = 0" using pipe(1) by (simp add: pipe_ok_def)
  obtain opts where o: "loop_step (pp_watch p) ?l (Connected None False) =
      Ret (?l\<lparr>wl_requests := wl_requests ?l @ [opts], wl_state := Running\<rparr>, None)" "wo_ResourceVersion opts = wl_bookmark ?l"
    by (rule loop_step_connected [OF ann, of ?l]) simp_all
  have "loop_step (pp_watch p) l (Received ''ERROR'' obj) = Ret (?l, None)" by (simp add: loop_step.simps l)
  then have "loop_run (pp_watch p) l [Received ''ADDED'' (Typed f), Received ''ERROR'' obj, Connected None False] =
      Ret (?l\<lparr>wl_requests := wl_requests ?l @ [opts], wl_state := Running\<rparr>, ?events)"
    using loop_step_event [OF route(1) l, of "''ADDED''"] o(1) by simp
  moreover have "adapter_inputs (events_for (pp_client p) (snd (accept_all rt_Metadata (pp_slow p) ?events [pp_notifier p]))) =
      [AdapterEvent ''ADDED'' r]"
    using inbox_private [OF pipe(1), of "(pipe_start l c)\<lparr>pi_sent := ?events\<rparr>"] pipe(2)
    by (simp add: inbox_def pipe_start_def del: accept_all.simps events_for.simps)
  moreover have "watchloop rt_Metadata (pipe_cache p) [AdapterEvent ''ADDED'' r] c = Ret (snd (cache_Set rt_Metadata (pipe_cache p) r c))"
    by (simp add: OnWatchEvent_def)
  moreover have "GetRoute k name ns \<lparr> ks_world = w, ks_cache = snd (cache_Set rt_Metadata (pipe_cache p) r c) \<rparr> =
      (Ok (Some v), \<lparr> ks_world = w', ks_cache = snd (cache_Set rt_Metadata (pipe_cache p) r c) \<rparr>)"
    by (simp add: GetRoute_outage [OF client outage] stored)
  ultimately show ?thesis using o(2) by (simp del: accept_all.simps events_for.simps loop_run.simps)
qed

subsection \<open>A connection that is lost and resumed\<close>

lemma resumed_run:
  assumes "pipe_ok p" and "rest_Watch (pp_watch p) None False = Inr l"
    and conv: "wc_Converter (pp_watch p) f1 = Ret x1" "wc_Converter (pp_watch p) f2 = Ret x2" "wc_Converter (pp_watch p) fb = Ret xb"
    and key: "getNamespaceAndName (pp_meta p) x1 = (ns, name)" "getNamespaceAndName (pp_meta p) x2 = (ns, name)" "CHR ''/'' \<notin> set ns"
    and versions: "md_ResourceVersion (pp_meta p x1) \<noteq> md_ResourceVersion (pp_meta p x2)"
    and mark: "wc_ResourceVersion (pp_watch p) fb = pp_mark p 1" "pp_mark p 1 \<noteq> []"
  shows "\<exists>s. pipe_reach p c s \<and> pi_events s = [AdapterEvent ''ADDED'' x1, AdapterEvent ''MODIFIED'' x2] \<and>
    pi_owed s = [] \<and> pi_next s = 1 \<and> wl_state (pi_loop s) = Running"
proof -
  let ?a = "AdapterEvent ''ADDED'' x1" and ?m = "AdapterEvent ''MODIFIED'' x2" and ?step = "pipe_step p"
  define s1 where "s1 = (pipe_start l c)\<lparr>pi_events := [?a], pi_owed := [PutEntry 0 x1]\<rparr>"
  define s2 where "s2 = s1\<lparr>pi_owed := [], pi_content := snd (cache_Set (pp_meta p) (pipe_cache p) x1 c)\<rparr>"
  define s3 where "s3 = s2\<lparr>pi_next := 1, pi_loop := l, pi_sent := [\<lparr> ae_Type = ''ADDED'', ae_Object = Entity x1 \<rparr>]\<rparr>"
  from assms(2) have l: "wl_state l = Running" by (auto simp: rest_Watch_def split: sum.splits)
  have ns: "md_Namespace (pp_meta p x1) = ns" "md_Namespace (pp_meta p x2) = ns"
    using key(1,2) by (simp_all add: getNamespaceAndName_def Let_def)
  obtain b out where b: "loop_step (pp_watch p) l (Received ''BOOKMARK'' (Typed fb)) = Ret (b, out)"
    "b = l\<lparr>wl_bookmark := pp_mark p 1\<rparr>"
    using conv(3) l mark(1) by (cases "fm_WatchBookmark (wc_Filter (pp_watch p))") (simp_all add: loop_step.simps Let_def)
  define s4 where "s4 = s3\<lparr>pi_loop := b, pi_sent := pi_sent s3 @ forward out\<rparr>"
  define s5 where "s5 = s4\<lparr>pi_events := [?a, ?m]\<rparr>"
  define s6 where "s6 = s5\<lparr>pi_loop := b\<lparr>wl_state := Connect\<rparr>\<rparr>"
  have "?step (pipe_start l c) s1"
    using pipe_step.put [of p x1 "pipe_start l c" f1 True] conv(1) key(3)
    by (simp add: ns pipe_start_def s1_def put_event_def server_view_def fresh_def)
  moreover have "?step s1 s2"
    using pipe_step.cache_put [of s1 "[]" 0 x1 "[]" p] by (simp add: s1_def s2_def in_turn_def pipe_start_def)
  moreover have "?step s2 s3"
    using pipe_step.receive [of s2 "''ADDED''" x1 p f1 l] loop_step_event [OF conv(1) l, of "''ADDED''"] conv(1) l
    by (simp add: s1_def s2_def s3_def pipe_start_def forward_def)
  moreover have "?step s3 s4"
    using pipe_step.bookmark [of s3 p fb b out] b(1) mark(1) l by (simp add: s3_def s4_def)
  moreover have "?step s4 s5"
    using pipe_step.put [of p x2 s4 f2 False] conv(2) key versions
    by (simp add: ns s1_def s2_def s3_def s4_def s5_def put_event_def server_view_def fresh_def pipe_start_def)
  moreover have "?step s5 s6"
    using pipe_step.lose [of s5 p] loop_step_closed [of b "pp_watch p"] l
    by (simp add: s1_def s2_def s3_def s5_def s4_def s6_def b(2) forward_def pipe_start_def)
  ultimately have 6: "pipe_reach p c s6" using pipe_reach.intros assms(2) by meson
  have ann: "gm_len (fm_Annotations (wc_Filter (pp_watch p))) = 0" using assms(1) by (simp add: pipe_ok_def)
  have c: "wl_state (pi_loop s6) = Connect" by (simp add: s6_def)
  obtain opts where o: "loop_step (pp_watch p) (pi_loop s6) (Connected None False) =
      Ret ((pi_loop s6)\<lparr>wl_requests := wl_requests (pi_loop s6) @ [opts], wl_state := Running\<rparr>, None)"
    "wo_ResourceVersion opts = wl_bookmark (pi_loop s6)" using loop_step_connected [OF ann c] .
  from pipe_reach.step [OF 6 pipe_step.resume [OF c _ o(1), of 1]] o(2) mark(2)
  show ?thesis by (fastforce simp: s6_def s5_def s4_def s3_def s2_def s1_def pipe_start_def b(2) forward_def)
qed

text \<open>Ingresses of the networking API, whose watch the cache adapter shares with nobody.\<close>

definition ingress_version :: "string \<Rightarrow> net_Ingress" where
  "ingress_version v = (ToIngressNetworkingV1 sample_route)\<lparr>ni_Meta := (ni_Meta (ToIngressNetworkingV1 sample_route))\<lparr>om_ResourceVersion := v\<rparr>\<rparr>"

definition ingress_pipe :: "((string \<times> string) list, net_Ingress, Route) pipe" where
  "ingress_pipe = \<lparr> pp_meta = rt_Metadata,
     pp_watch = provider_config (\<lambda>_. []) (\<lambda>i. om_ResourceVersion (ni_Meta i))
       (wh_IngressesNetworkingV1 (NewSharedWatchEventHandlers 0 () () () ())) ''ns'',
     pp_slow = (\<lambda>_. False), pp_notifier = adapter_notifier, pp_client = ''1'',
     pp_adapter = table_adapter, pp_json = route_json, pp_kind = ''Route'', pp_mark = (\<lambda>n. replicate (Suc n) CHR ''1'') \<rparr>"

definition ingress_bookmark :: net_Ingress where
  "ingress_bookmark = \<lparr> ni_Meta = (ni_Meta (ingress_version ''11''))\<lparr>om_Name := [], om_Namespace := [], om_Annotations := None\<rparr>,
     ni_Rules = [], ni_IngressClassName = None \<rparr>"

definition route_version :: "string \<Rightarrow> Route" where
  "route_version v = (case RouteFromIngressNetworkingV1 (ingress_version v) of Ret r \<Rightarrow> r | Panic \<Rightarrow> sample_route)"

lemma route_versions:
  "RouteFromIngressNetworkingV1 (ingress_version ''1'') = Ret (route_version ''1'')"
  "RouteFromIngressNetworkingV1 (ingress_version ''2'') = Ret (route_version ''2'')"
  "case RouteFromIngressNetworkingV1 ingress_bookmark of Ret r \<Rightarrow> True | Panic \<Rightarrow> False"
  "getNamespaceAndName rt_Metadata (route_version ''1'') = (''ns'', ''shop'')"
  "getNamespaceAndName rt_Metadata (route_version ''2'') = (''ns'', ''shop'')"
  "md_ResourceVersion (rt_Metadata (route_version ''1'')) \<noteq> md_ResourceVersion (rt_Metadata (route_version ''2''))"
  by code_simp+

lemma ingress_pipe_sel [simp]:
  "pp_meta ingress_pipe = rt_Metadata" "pp_adapter ingress_pipe = table_adapter" "pp_json ingress_pipe = route_json"
  "pp_kind ingress_pipe = ''Route''" "pp_mark ingress_pipe n = replicate (Suc n) CHR ''1''"
  "wc_Converter (pp_watch ingress_pipe) = RouteFromIngressNetworkingV1"
  "wc_ResourceVersion (pp_watch ingress_pipe) i = om_ResourceVersion (ni_Meta i)"
  by (simp_all add: ingress_pipe_def provider_config_def NewSharedWatchEventHandlers_def NewSharedWatchEventHandler_def)

lemma ingress_pipe_ok: "pipe_ok ingress_pipe"
proof -
  have "ristretto_ok (ra_cache table_adapter)" using empty_agrees [of route_json "''Route''"] by (simp add: cache_agrees_def)
  moreover have "replicate i CHR ''1'' = replicate j CHR ''1'' \<Longrightarrow> i = j" for i j by (metis length_replicate)
  ultimately show ?thesis
    by (simp add: pipe_ok_def) (simp add: ingress_pipe_def provider_config_def shared_filter_def adapter_notifier_def gm_len_def)
qed

lemma ingress_pipe_cache: "pipe_cache ingress_pipe = route_cache"
  by (simp add: pipe_cache_def route_cache_def)

lemma ingress_pipe_opens: "\<exists>l. rest_Watch (pp_watch ingress_pipe) None False = Inr l"
  by (simp add: ingress_pipe_def rest_Watch_def doWatchRequest_def provider_config_def shared_filter_def)


theorem deletion_missed_after_error_witness:
  "\<exists>c'. watchloop rt_Metadata route_cache [AdapterEvent ''ADDED'' (route_version ''1'')] [] = Ret c' \<and>
     fst (GetRoute ingress_kube ''shop'' ''ns'' \<lparr> ks_world = (), ks_cache = c' \<rparr>) = Ok (Some sample_route)"
proof -
  obtain l where l: "rest_Watch (pp_watch ingress_pipe) None False = Inr l" using ingress_pipe_opens ..
  have meta: "md_Namespace (rt_Metadata (route_version ''1'')) = ''ns''" "md_Name (rt_Metadata (route_version ''1'')) = ''shop''"
    using route_versions(4) by (simp_all add: getNamespaceAndName_def Let_def)
  have stored: "cache_Get (pipe_cache ingress_pipe) ''ns'' ''shop''
      (snd (cache_Set rt_Metadata (pipe_cache ingress_pipe) (route_version ''1'') [])) = Some sample_route"
    by (simp add: ingress_pipe_cache route_cache_def cache_Get_def cache_Set_def NewResourceCache_def newEntityAdapter_def
      entity_Get_def entity_Set_def shared_Get_def shared_Set_def table_adapter_def table_ristretto_def route_json_def meta
      Let_def update_conv')
  have "inbox ingress_pipe ((pipe_start l [])\<lparr>pi_sent := [\<lparr> ae_Type = ''ADDED'', ae_Object = Entity (route_version ''1'') \<rparr>]\<rparr>) =
      [AdapterEvent ''ADDED'' (route_version ''1'')]"
    using inbox_private [OF ingress_pipe_ok, of "(pipe_start l [])\<lparr>pi_sent := [\<lparr> ae_Type = ''ADDED'', ae_Object = Entity (route_version ''1'') \<rparr>]\<rparr>"]
    by (simp add: pipe_start_def)
  with deletion_missed_after_error [OF ingress_pipe_ok _ l _ route_versions(4) stored ingress_kube_facts(1) [folded ingress_pipe_cache]
      ingress_kube_facts(2,3), of "ingress_version ''1''" "Typed ingress_bookmark" "()"] route_versions(1)
  show ?thesis by (fastforce simp: inbox_def ingress_pipe_cache pipe_start_def simp del: accept_all.simps events_for.simps loop_run.simps)
qed

subsection \<open>A cache of HTTPRoutes while the server is down\<close>

definition shop_httproute :: HTTPRoute where
  "shop_httproute = ToHTTPRoute ''gateway-system'' ''gw'' sample_route"

definition httproute_json :: "HttpRoute json" where
  "httproute_json = \<lparr> Marshal = (\<lambda>r. Inr ''r''), Unmarshal = (\<lambda>b. WrapHTTPRoute shop_httproute) \<rparr>"

definition httproute_meta :: "HttpRoute \<Rightarrow> Metadata" where
  "httproute_meta r = (case wrapped r of Some h \<Rightarrow> FromObjectMeta (ht_Kind h) (ht_Meta h) | None \<Rightarrow> zero_Metadata)"

definition httproute_pipe :: "((string \<times> string) list, HTTPRoute, HttpRoute) pipe" where
  "httproute_pipe = \<lparr> pp_meta = httproute_meta,
     pp_watch = provider_config (\<lambda>_. []) (\<lambda>h. om_ResourceVersion (ht_Meta h))
       (NewSharedWatchEventHandler Type_HTTPRoutes 0 () (total WrapHTTPRoute)) ''ns'',
     pp_slow = (\<lambda>_. False), pp_notifier = adapter_notifier, pp_client = ''1'', pp_adapter = table_adapter,
     pp_json = httproute_json, pp_kind = ''HttpRoute'', pp_mark = (\<lambda>n. replicate (Suc n) CHR ''1'') \<rparr>"

text \<open>The HTTPRoutes cannot be read; the policies neither, or there is no client of policies.\<close>

definition down_kube :: "bool \<Rightarrow> (unit, (string \<times> string) list) Kubernetes" where
  "down_kube policies = bare_kube\<lparr>k_Cache := no_caches\<lparr>ch_HTTPRoute := Some (pipe_cache httproute_pipe)\<rparr>,
     k_HTTPRoutes := \<lambda>_. (table_client (\<lambda>x. om_Name (ht_Meta x)) (\<lambda>_. []) (\<lambda>_ w. w))
       \<lparr>cl_Get := \<lambda>_ w. (Inl (NewError ''timeout''), w)\<rparr>,
     k_dynamic := (if policies then Some (\<lambda>_. (table_policies (\<lambda>_. []) (\<lambda>_ w. w))
       \<lparr>dy_Get := \<lambda>_ w. (Inl (NewError ''timeout''), w)\<rparr>) else None)\<rparr>"

lemma httproute_pipe_facts:
  "pipe_ok httproute_pipe" "\<exists>l. rest_Watch (pp_watch httproute_pipe) None False = Inr l"
  "pp_meta httproute_pipe = httproute_meta" "pp_json httproute_pipe = httproute_json"
  "wc_Converter (pp_watch httproute_pipe) shop_httproute = Ret (WrapHTTPRoute shop_httproute)"
  "cache_agrees (pp_adapter httproute_pipe) (pp_json httproute_pipe) (pp_kind httproute_pipe) [] (\<lambda>_. None)"
proof -
  have "ristretto_ok (ra_cache table_adapter)" using empty_agrees [of route_json "''Route''"] by (simp add: cache_agrees_def)
  moreover have "replicate i CHR ''1'' = replicate j CHR ''1'' \<Longrightarrow> i = j" for i j by (metis length_replicate)
  ultimately show "pipe_ok httproute_pipe"
    by (simp add: pipe_ok_def httproute_pipe_def provider_config_def shared_filter_def adapter_notifier_def gm_len_def)
qed (simp_all add: httproute_pipe_def rest_Watch_def doWatchRequest_def provider_config_def shared_filter_def
  NewSharedWatchEventHandler_def total_def empty_agrees)

lemma shop_httproute_key: "getNamespaceAndName httproute_meta (WrapHTTPRoute shop_httproute) = (''ns'', ''shop'')"
    "md_Namespace (httproute_meta (WrapHTTPRoute shop_httproute)) = ''ns''"
    "wrapped (json_stored httproute_json (WrapHTTPRoute shop_httproute)) = Some shop_httproute"
  by code_simp+

lemma down_kube_facts:
  "IsGatewayAPIEnabled (k_GatewaySystem (down_kube b))" "ch_HTTPRoute (k_Cache (down_kube b)) = Some (pipe_cache httproute_pipe)"
  "cl_Get (k_HTTPRoutes (down_kube b) ns) name w = (Inl (NewError ''timeout''), w)"
  "\<not> IsNotFound (k_errs (down_kube b)) (NewError ''timeout'')"
  "getBackendTrafficPolicy (down_kube False) name ns s = (Ok None, s)"
  "\<exists>e. getBackendTrafficPolicy (down_kube True) name ns s = (Err e, s)"
  by (simp_all add: down_kube_def bare_kube_def reason_is_def getBackendTrafficPolicy_def backendTrafficPolicyClient_def
    isIgnorablePolicyAbsence_def act_defs sample_errs_def)


end
