(* ===== verification/Overlapping_Loops.thy ===== *)
theory Overlapping_Loops
  imports Shared_Watch
begin

section \<open>The loops of replaced watches beside the current one\<close>

text \<open>
  The goroutines of \<open>service/internal/kubernetes/kubeWatchServiceShared.go\<close>. Each call of
  \<open>Watch\<close> that starts a watch adds a notifier and a goroutine \<open>processServerChannel\<close> for it. The
  goroutine of the watch it replaces is told to end, but may be in the middle of an event, waiting
  for a client, and its \<open>select\<close> may pick one more event before it sees that its context is done.
  The theory \<open>Shared_Watch\<close> takes the loops of replaced watches to have ended; here all of them run, one
  frame of \<open>acceptEvent\<close> and \<open>sendToClients\<close> at a time, between the locks and unlocks of the
  mutexes of the notifiers.

  \<open>clientsCount\<close>, \<open>deleteClient\<close> and \<open>cleanup\<close> never wait for a client: each is one step, at the
  point where it holds the mutexes of the whole chain. They are then called with the mutex of the
  handler held, except for the count before each event.
\<close>

subsection \<open>State\<close>

text \<open>A notifier and its field \<open>previousNotifier\<close>; notifiers are numbered in the order of creation.\<close>

record cell =
  cell_notifier :: notifier
  cell_previous :: "nat option"

text \<open>
  The frames of a goroutine inside \<open>acceptEvent\<close>: about to lock the notifier; waiting for the call
  on the previous notifier, which has or has not got the same pointer to the event; in the loop of
  \<open>sendToClients\<close> with the clients still to come; returned, with the event as it is now.
\<close>

datatype 't event_frame =
    Accepting nat "'t ApiEvent"
  | Passing nat "'t ApiEvent" bool
  | Sending nat "'t ApiEvent" clients
  | Returned "'t ApiEvent"

text \<open>
  \<open>processServerChannel\<close>: in its \<open>select\<close>; about to count the clients for the log entry of an event;
  inside \<open>acceptEvent\<close>; about to clean up; returned.
\<close>

datatype 't event_loop =
    Listening
  | Counting "'t ApiEvent"
  | Working "'t event_frame list"
  | Cleaning
  | Ended

text \<open>The contexts of the first \<open>hs_cancelled\<close> loops are cancelled.\<close>

record 't handler_state =
  hs_count :: nat
  hs_cells :: "cell list"
  hs_cancelled :: nat
  hs_loops :: "'t event_loop list"
  hs_log :: "'t signal list"

definition handler_start :: "'t handler_state" where
  "handler_start = \<lparr> hs_count = 0, hs_cells = [], hs_cancelled = 0, hs_loops = [], hs_log = [] \<rparr>"

subsection \<open>Chains and locks\<close>

text \<open>The notifiers from one back along \<open>previousNotifier\<close>.\<close>

fun chain_from :: "cell list \<Rightarrow> nat \<Rightarrow> nat list" where
  "chain_from cells i =
     i # (case cell_previous (cells ! i) of
            None \<Rightarrow> []
          | Some j \<Rightarrow> if j < i then chain_from cells j else [])"

declare chain_from.simps [simp del]

definition notifiers_at :: "cell list \<Rightarrow> nat list \<Rightarrow> notifier list" where
  "notifiers_at cells js = map (\<lambda>j. cell_notifier (cells ! j)) js"

definition change_cells :: "nat list \<Rightarrow> (cell \<Rightarrow> cell) \<Rightarrow> cell list \<Rightarrow> cell list" where
  "change_cells js f cells = map (\<lambda>j. if j \<in> set js then f (cells ! j) else cells ! j) [0..<length cells]"

fun frame_holds :: "'t event_frame \<Rightarrow> nat list" where
  "frame_holds (Accepting i ev) = []"
| "frame_holds (Passing i ev shared) = [i]"
| "frame_holds (Sending i ev cs) = [i]"
| "frame_holds (Returned ev) = []"

fun loop_holds :: "'t event_loop \<Rightarrow> nat list" where
  "loop_holds (Working stk) = concat (map frame_holds stk)"
| "loop_holds Listening = []"
| "loop_holds (Counting ev) = []"
| "loop_holds Cleaning = []"
| "loop_holds Ended = []"

definition locked :: "'t event_loop list \<Rightarrow> nat list" where
  "locked loops = concat (map loop_holds loops)"

definition chain_free :: "'t handler_state \<Rightarrow> nat \<Rightarrow> bool" where
  "chain_free st i = list_all (\<lambda>j. j \<notin> set (locked (hs_loops st))) (chain_from (hs_cells st) i)"

subsection \<open>Steps inside acceptEvent\<close>

text \<open>The part of \<open>acceptEvent\<close> after the call on the previous notifier.\<close>

definition resolve_event ::
  "('t \<Rightarrow> Metadata) \<Rightarrow> nat \<Rightarrow> 't ApiEvent \<Rightarrow> cell list \<Rightarrow> cell list \<times> 't event_frame" where
  "resolve_event getMeta i event cells =
     (case ae_Object event of
        Text s \<Rightarrow> (cells, Returned event)
      | Entity obj \<Rightarrow>
          let meta = getMeta obj;
              self = cell_notifier (cells ! i);
              key = (md_Namespace meta, md_Name meta);
              found = map_of (nt_versions self) key;
              verAndType = (case found of None \<Rightarrow> zero_version | Some v \<Rightarrow> v)
          in if found \<noteq> None \<and> vt_resourceVersion verAndType = md_ResourceVersion meta
             then (cells, Returned event)
             else
               let event2 = (if ae_Type event = ''PREVIOUS''
                     then event\<lparr>ae_Type :=
                       (if vt_resourceVersion verAndType = [] then ''ADDED'' else ''MODIFIED'')\<rparr>
                     else event);
                   self' = self\<lparr>nt_versions := AList.update key
                     \<lparr> vt_resourceVersion = md_ResourceVersion meta, vt_eventType = ae_Type event2 \<rparr>
                     (nt_versions self)\<rparr>
               in (cells[i := (cells ! i)\<lparr>cell_notifier := self'\<rparr>], Sending i event2 (nt_clients self)))"

text \<open>The filter of \<open>sendToClients\<close> for a bookmark and for any other event.\<close>

definition sending_accept :: "('t \<Rightarrow> Metadata) \<Rightarrow> 't ApiEvent \<Rightarrow> filter_Meta \<Rightarrow> bool" where
  "sending_accept getMeta event f =
     (case ae_Object event of
        Text s \<Rightarrow> False
      | Entity obj \<Rightarrow>
          if ae_Type event = ''BOOKMARK'' then fm_WatchBookmark f else acceptMeta (getMeta obj) f)"

text \<open>
  One step of the topmost frame; \<open>held\<close> are the mutexes that are locked, \<open>taken\<close> says whether the
  client takes the event in time. \<open>drainPrevious\<close> locks no mutex of a previous notifier and leaves
  their client maps as they are.
\<close>

fun frame_step ::
  "('t \<Rightarrow> Metadata) \<Rightarrow> nat list \<Rightarrow> bool \<Rightarrow> cell list \<Rightarrow> 't event_frame list \<Rightarrow>
     (cell list \<times> 't event_frame list \<times> 't signal list) option" where
  "frame_step getMeta held taken cells [] = None"
| "frame_step getMeta held taken cells (Accepting i event # r) =
     (if i \<in> set held then None
      else case ae_Object event of
        Text s \<Rightarrow> Some (cells, Returned event # r, [])
      | Entity obj \<Rightarrow>
          if ae_Type event = ''BOOKMARK'' then
            let js = chain_from cells i;
                clients = drainPrevious (notifiers_at cells js);
                self = cell_notifier (cells ! i);
                updatedMap = filter (\<lambda>(k, v). vt_eventType v \<noteq> ''DELETED'') (nt_versions self);
                cells1 = change_cells js (\<lambda>c. c\<lparr>cell_previous := None\<rparr>) cells;
                self' = self\<lparr>nt_clients := clients, nt_versions := updatedMap\<rparr>
            in Some (cells1[i := (cells1 ! i)\<lparr>cell_notifier := self'\<rparr>], Sending i event clients # r, [])
          else
            (case cell_previous (cells ! i) of
               Some j \<Rightarrow>
                 if ae_Type event = ''ADDED'' \<and> md_Generation (getMeta obj) > 1
                 then Some (cells, Accepting j (event\<lparr>ae_Type := ''PREVIOUS''\<rparr>) # Passing i event False # r, [])
                 else Some (cells, Accepting j event # Passing i event True # r, [])
             | None \<Rightarrow>
                 (case resolve_event getMeta i event cells of (cells', f) \<Rightarrow> Some (cells', f # r, []))))"
| "frame_step getMeta held taken cells (Returned event' # Passing i event shared # r) =
     (case resolve_event getMeta i (if shared then event' else event) cells of
        (cells', f) \<Rightarrow> Some (cells', f # r, []))"
| "frame_step getMeta held taken cells (Sending i event [] # r) = Some (cells, Returned event # r, [])"
| "frame_step getMeta held taken cells (Sending i event ((cid, f) # cs) # r) =
     (if \<not> sending_accept getMeta event f then Some (cells, Sending i event cs # r, [])
      else if taken then Some (cells, Sending i event cs # r, [Sent cid event])
      else
        let self = cell_notifier (cells ! i)
        in Some (cells[i := (cells ! i)\<lparr>cell_notifier := self\<lparr>nt_clients := AList.delete cid (nt_clients self)\<rparr>\<rparr>],
                 Returned event # r, [Closed cid]))"
| "frame_step getMeta held taken cells (Returned event # r) = None"
| "frame_step getMeta held taken cells (Passing i event shared # r) = None"

subsection \<open>Steps of the handler\<close>

datatype 't handler_label =
    NewClient filter_Meta
  | FailedClient
  | StopClient string
  | Receive nat "'t ApiEvent"
  | ChannelClosed nat
  | Quit nat
  | Advance nat bool

text \<open>One step of a loop that is not in its \<open>select\<close>.\<close>

definition loop_advance :: "('t \<Rightarrow> Metadata) \<Rightarrow> nat \<Rightarrow> bool \<Rightarrow> 't handler_state \<Rightarrow> 't handler_state option" where
  "loop_advance getMeta n taken st =
     (case hs_loops st ! n of
        Counting event \<Rightarrow>
          if chain_free st n then Some (st\<lparr>hs_loops := (hs_loops st)[n := Working [Accepting n event]]\<rparr>) else None
      | Working stk \<Rightarrow>
          (case stk of
             [Returned event] \<Rightarrow> Some (st\<lparr>hs_loops := (hs_loops st)[n := Listening]\<rparr>)
           | _ \<Rightarrow>
               (case frame_step getMeta (locked (hs_loops st)) taken (hs_cells st) stk of
                  None \<Rightarrow> None
                | Some (cells', stk', out) \<Rightarrow>
                    Some (st\<lparr>hs_cells := cells', hs_loops := (hs_loops st)[n := Working stk'],
                             hs_log := hs_log st @ out\<rparr>)))
      | Cleaning \<Rightarrow>
          if chain_free st n then
            let js = chain_from (hs_cells st) n
            in Some (st\<lparr>hs_cells := change_cells js
                          (\<lambda>c. c\<lparr>cell_notifier := (cell_notifier c)\<lparr>nt_clients := []\<rparr>\<rparr>) (hs_cells st),
                        hs_loops := (hs_loops st)[n := Ended],
                        hs_log := hs_log st @ snd (cleanup (notifiers_at (hs_cells st) js))\<rparr>)
          else None
      | Listening \<Rightarrow> None
      | Ended \<Rightarrow> None)"

fun handler_step :: "('t \<Rightarrow> Metadata) \<Rightarrow> 't handler_label \<Rightarrow> 't handler_state \<Rightarrow> 't handler_state option" where
  "handler_step getMeta (NewClient f) st =
     (let k = hs_count st + 1; n = length (hs_cells st); cid = pad6 k
      in Some (st\<lparr>hs_count := k,
           hs_cells := hs_cells st @
             [\<lparr> cell_notifier = \<lparr> nt_id = cid, nt_clients = [(cid, f)], nt_versions = [] \<rparr>,
                cell_previous = (if n = 0 then None else Some (n - 1)) \<rparr>],
           hs_cancelled := n, hs_loops := hs_loops st @ [Listening]\<rparr>))"
| "handler_step getMeta FailedClient st =
     Some (st\<lparr>hs_count := hs_count st + 1, hs_cancelled := length (hs_cells st)\<rparr>)"
| "handler_step getMeta (StopClient cid) st =
     (let n = length (hs_cells st)
      in if n = 0 \<or> \<not> chain_free st (n - 1) then None
         else Some (st\<lparr>hs_cells := change_cells (chain_from (hs_cells st) (n - 1))
                (\<lambda>c. c\<lparr>cell_notifier := (cell_notifier c)\<lparr>nt_clients :=
                   AList.delete cid (nt_clients (cell_notifier c))\<rparr>\<rparr>) (hs_cells st)\<rparr>))"
| "handler_step getMeta (Receive n event) st =
     (if n < length (hs_loops st) \<and> hs_loops st ! n = Listening
      then (case ae_Object event of
              Text s \<Rightarrow> Some st
            | Entity obj \<Rightarrow> Some (st\<lparr>hs_loops := (hs_loops st)[n := Counting event]\<rparr>))
      else None)"
| "handler_step getMeta (ChannelClosed n) st =
     (if n < length (hs_loops st) \<and> hs_loops st ! n = Listening \<and> hs_cancelled st \<le> n
      then Some (st\<lparr>hs_loops := (hs_loops st)[n := Cleaning]\<rparr>) else None)"
| "handler_step getMeta (Quit n) st =
     (if n < length (hs_loops st) \<and> hs_loops st ! n = Listening \<and> n < hs_cancelled st
      then Some (st\<lparr>hs_loops := (hs_loops st)[n := Ended]\<rparr>) else None)"
| "handler_step getMeta (Advance n taken) st =
     (if n < length (hs_loops st) then loop_advance getMeta n taken st else None)"

text \<open>
  A step that lets a loop begin with a bookmark although the loop of an earlier watch is still
  there. Schedules without such steps are those where the loops of replaced watches see in time
  that their context is done.
\<close>

fun early_bookmark :: "'t handler_label \<Rightarrow> 't handler_state \<Rightarrow> bool" where
  "early_bookmark (Advance n taken) st =
     (case hs_loops st ! n of
        Working (Accepting i event # r) \<Rightarrow>
          ae_Type event = ''BOOKMARK'' \<and> \<not> list_all (\<lambda>l. l = Ended) (take i (hs_loops st))
      | _ \<Rightarrow> False)"
| "early_bookmark lbl st = False"

inductive handler_run :: "bool \<Rightarrow> ('t \<Rightarrow> Metadata) \<Rightarrow> 't handler_state \<Rightarrow> bool" for overlap getMeta where
  handler_init: "handler_run overlap getMeta handler_start"
| handler_next: "handler_run overlap getMeta st \<Longrightarrow> handler_step getMeta lbl st = Some st' \<Longrightarrow>
    overlap \<or> \<not> early_bookmark lbl st \<Longrightarrow> handler_run overlap getMeta st'"

subsection \<open>Chains of notifiers\<close>

text \<open>The previous notifier of a notifier, if there is one, is the one created before it.\<close>

definition previous_ok :: "cell list \<Rightarrow> bool" where
  "previous_ok cells \<longleftrightarrow> (\<forall>i<length cells. \<forall>j. cell_previous (cells ! i) = Some j \<longrightarrow> i = Suc j)"

definition cell_ids :: "cell list \<Rightarrow> nat \<Rightarrow> string list" where
  "cell_ids cells i = map fst (nt_clients (cell_notifier (cells ! i)))"

text \<open>A notifier is live while the newest one leads back to it.\<close>

definition live :: "cell list \<Rightarrow> nat \<Rightarrow> bool" where
  "live cells i \<longleftrightarrow> i < length cells \<and> (\<forall>k<length cells. i < k \<longrightarrow> cell_previous (cells ! k) \<noteq> None)"

lemma chain_from_None: "cell_previous (cells ! i) = None \<Longrightarrow> chain_from cells i = [i]"
  by (subst chain_from.simps) simp

lemma chain_from_Suc: "cell_previous (cells ! Suc i) = Some i \<Longrightarrow> chain_from cells (Suc i) = Suc i # chain_from cells i"
  by (subst chain_from.simps) simp

lemma chain_from_split:
  assumes "previous_ok cells" and "i < length cells"
  obtains "cell_previous (cells ! i) = None" "chain_from cells i = [i]"
  | j where "i = Suc j" "cell_previous (cells ! i) = Some j" "chain_from cells i = i # chain_from cells j"
proof (cases "cell_previous (cells ! i)")
  case None
  with that(1) chain_from_None show thesis by blast
next
  case (Some j)
  with assms have "i = Suc j" by (simp add: previous_ok_def)
  with Some that(2) chain_from_Suc show thesis by blast
qed

lemma chain_from_set:
  "previous_ok cells \<Longrightarrow> i < length cells \<Longrightarrow>
   j \<in> set (chain_from cells i) \<longleftrightarrow> j \<le> i \<and> (\<forall>k. j < k \<and> k \<le> i \<longrightarrow> cell_previous (cells ! k) \<noteq> None)"
proof (induction i)
  case 0
  from 0 show ?case by (rule chain_from_split) auto
next
  case (Suc i)
  from Suc.prems show ?case
  proof (rule chain_from_split)
    assume n: "cell_previous (cells ! Suc i) = None" "chain_from cells (Suc i) = [Suc i]"
    have "j = Suc i \<longleftrightarrow> j \<le> Suc i \<and> \<not> j < Suc i" by auto
    with n show ?thesis by auto
  next
    fix p
    assume p: "Suc i = Suc p" "cell_previous (cells ! Suc i) = Some p" "chain_from cells (Suc i) = Suc i # chain_from cells p"
    with Suc show ?thesis by (auto simp: le_Suc_eq)
  qed
qed

lemma chain_from_distinct: "previous_ok cells \<Longrightarrow> i < length cells \<Longrightarrow> distinct (chain_from cells i)"
proof (induction i)
  case 0
  from 0 show ?case by (rule chain_from_split) auto
next
  case (Suc i)
  from Suc.prems show ?case
  proof (rule chain_from_split)
    fix p
    assume p: "Suc i = Suc p" "cell_previous (cells ! Suc i) = Some p" "chain_from cells (Suc i) = Suc i # chain_from cells p"
    with Suc show ?thesis by (simp add: chain_from_set)
  qed simp
qed

lemma chain_from_live:
  assumes "previous_ok cells" and "live cells i" and "j \<in> set (chain_from cells i)"
  shows "live cells j"
proof -
  have i: "i < length cells" and up: "\<And>k. i < k \<Longrightarrow> k < length cells \<Longrightarrow> cell_previous (cells ! k) \<noteq> None"
    using assms(2) by (auto simp: live_def)
  have j: "j \<le> i" "\<And>k. j < k \<Longrightarrow> k \<le> i \<Longrightarrow> cell_previous (cells ! k) \<noteq> None"
    using assms(3) chain_from_set [OF assms(1) i] by blast+
  have "cell_previous (cells ! k) \<noteq> None" if "j < k" "k < length cells" for k
    using that up [of k] j(2) [of k] by (cases "k \<le> i") auto
  with i j(1) show ?thesis by (simp add: live_def)
qed

lemma live_chain:
  assumes "previous_ok cells" and "live cells i" and "n = length cells - 1"
  shows "i \<in> set (chain_from cells n)"
proof -
  from assms(2,3) have "n < length cells" "i \<le> n" "n = length cells - 1" by (auto simp: live_def)
  with assms(1,2) show ?thesis by (auto simp: chain_from_set live_def)
qed

lemma chain_ids_at: "chain_ids (notifiers_at cells js) = concat (map (cell_ids cells) js)"
  unfolding chain_ids_def notifiers_at_def map_map comp_def cell_ids_def [abs_def] by (rule refl)

lemma length_change_cells [simp]: "length (change_cells js f cells) = length cells"
  by (simp add: change_cells_def)

lemma nth_change_cells [simp]:
  "i < length cells \<Longrightarrow> change_cells js f cells ! i = (if i \<in> set js then f (cells ! i) else cells ! i)"
  by (simp add: change_cells_def)

subsection \<open>The invariant of the notifiers\<close>

definition cells_ok :: "nat \<Rightarrow> cell list \<Rightarrow> 't signal list \<Rightarrow> bool" where
  "cells_ok k cells log \<longleftrightarrow> previous_ok cells \<and>
     (\<forall>i. live cells i \<longrightarrow> distinct (cell_ids cells i) \<and> set (cell_ids cells i) \<subseteq> pad6 ` {1..k} \<and>
        set (cell_ids cells i) \<inter> set (closed_ids log) = {}) \<and>
     (\<forall>i j. live cells i \<longrightarrow> live cells j \<longrightarrow> i \<noteq> j \<longrightarrow> set (cell_ids cells i) \<inter> set (cell_ids cells j) = {}) \<and>
     set (closed_ids log) \<subseteq> pad6 ` {1..k} \<and> safe_log {} log"

lemma cells_okD:
  assumes "cells_ok k cells log"
  shows "previous_ok cells"
    and "live cells i \<Longrightarrow> distinct (cell_ids cells i)"
    and "live cells i \<Longrightarrow> set (cell_ids cells i) \<subseteq> pad6 ` {1..k}"
    and "live cells i \<Longrightarrow> set (cell_ids cells i) \<inter> set (closed_ids log) = {}"
    and "live cells i \<Longrightarrow> live cells j \<Longrightarrow> i \<noteq> j \<Longrightarrow> set (cell_ids cells i) \<inter> set (cell_ids cells j) = {}"
    and "set (closed_ids log) \<subseteq> pad6 ` {1..k}" and "safe_log {} log"
  using assms by (simp_all add: cells_ok_def)

text \<open>The clients of the chain of a live notifier are distinct.\<close>

lemma cells_ok_chain:
  assumes ok: "cells_ok k cells log" and "live cells i"
  shows "distinct (chain_ids (notifiers_at cells (chain_from cells i)))"
proof -
  have len: "i < length cells" and prev: "previous_ok cells"
    using assms by (auto simp: live_def cells_ok_def)
  have l: "live cells j" if "j \<in> set (chain_from cells i)" for j
    using chain_from_live [OF prev assms(2) that] .
  have "distinct js \<Longrightarrow> set js \<subseteq> Collect (live cells) \<Longrightarrow> distinct (concat (map (cell_ids cells) js))" for js
  proof (induction js)
    case (Cons j js)
    then have "set (cell_ids cells j) \<inter> set (cell_ids cells m) = {}" if "m \<in> set js" for m
      using that by (intro cells_okD(5) [OF ok]) auto
    with Cons cells_okD(2) [OF ok] show ?case by auto
  qed simp
  with l chain_from_distinct [OF prev len] show ?thesis unfolding chain_ids_at by blast
qed

text \<open>A step that only takes clients away and uses channels of live notifiers.\<close>

lemma cells_ok_shrink:
  assumes ok: "cells_ok k cells log"
    and len: "length cells' = length cells"
    and prev: "\<And>i. i < length cells \<Longrightarrow> cell_previous (cells' ! i) = cell_previous (cells ! i)"
    and ids: "\<And>i. i < length cells \<Longrightarrow> set (cell_ids cells' i) \<subseteq> set (cell_ids cells i)"
    and dist: "\<And>i. live cells i \<Longrightarrow> distinct (cell_ids cells' i)"
    and used: "\<And>c. c \<in> set (map signal_id out) \<Longrightarrow> \<exists>i. live cells i \<and> c \<in> set (cell_ids cells i)"
    and once: "distinct (map signal_id out)"
    and gone: "\<And>i. live cells i \<Longrightarrow> set (cell_ids cells' i) \<inter> set (closed_ids out) = {}"
  shows "cells_ok k cells' (log @ out)"
proof -
  have lv: "live cells' i = live cells i" for i
    using len prev by (auto simp: live_def)
  have open_ids: "set (map signal_id out) \<inter> set (closed_ids log) = {}"
    using used cells_okD(4) [OF ok] by blast
  have sub: "set (cell_ids cells' i) \<subseteq> set (cell_ids cells i)" if "live cells i" for i
    using ids that by (simp add: live_def)
  have "set (closed_ids out) \<subseteq> pad6 ` {1..k}"
  proof
    fix c
    assume "c \<in> set (closed_ids out)"
    with closed_ids_signal_ids [of out] used obtain i where "live cells i" "c \<in> set (cell_ids cells i)"
      by (force dest!: subsetD)
    with cells_okD(3) [OF ok] show "c \<in> pad6 ` {1..k}" by blast
  qed
  with cells_okD(6) [OF ok] have closed: "set (closed_ids (log @ out)) \<subseteq> pad6 ` {1..k}" by simp
  have safe: "safe_log {} (log @ out)"
    using cells_okD(7) [OF ok] safe_log_distinct [OF once open_ids] by (simp add: safe_log_append)
  have prev': "previous_ok cells'"
    using cells_okD(1) [OF ok] len prev by (simp add: previous_ok_def)
  have "set (cell_ids cells' i) \<inter> set (cell_ids cells' j) = {}" if "live cells i" "live cells j" "i \<noteq> j" for i j
    using cells_okD(5) [OF ok that] sub [OF that(1)] sub [OF that(2)] by blast
  moreover have "set (cell_ids cells' i) \<inter> set (closed_ids (log @ out)) = {}" if "live cells i" for i
    using cells_okD(4) [OF ok that] sub [OF that] gone [OF that] by auto
  moreover have "set (cell_ids cells' i) \<subseteq> pad6 ` {1..k}" if "live cells i" for i
    using cells_okD(3) [OF ok that] sub [OF that] by blast
  ultimately show ?thesis
    using closed safe prev' dist unfolding cells_ok_def lv by blast
qed

text \<open>A new notifier in front.\<close>

lemma cells_ok_new:
  assumes ok: "cells_ok k cells log"
    and c: "map fst (nt_clients (cell_notifier c)) = [pad6 (k + 1)]"
      "cell_previous c = (if length cells = 0 then None else Some (length cells - 1))"
  shows "cells_ok (k + 1) (cells @ [c]) log"
proof -
  let ?n = "length cells"
  have sub: "pad6 ` {1..k} \<subseteq> pad6 ` {1..k + 1}" and new: "pad6 (k + 1) \<in> pad6 ` {1..k + 1}"
    and fresh: "pad6 (k + 1) \<notin> pad6 ` {1..k}" by auto
  have lv: "live (cells @ [c]) i \<longleftrightarrow> i = ?n \<or> live cells i" for i
    using c(2) by (auto simp: live_def nth_append less_Suc_eq)
  have ids: "cell_ids (cells @ [c]) i = (if i = ?n then [pad6 (k + 1)] else cell_ids cells i)" if "live (cells @ [c]) i" for i
    using c(1) that by (auto simp: cell_ids_def nth_append live_def)
  have old: "i \<noteq> ?n" if "live cells i" for i using that by (simp add: live_def)
  have unused: "pad6 (k + 1) \<notin> set (cell_ids cells i)" if "live cells i" for i
    using cells_okD(3) [OF ok that] fresh by blast
  have "previous_ok (cells @ [c])"
    using cells_okD(1) [OF ok] c(2) by (auto simp: previous_ok_def nth_append less_Suc_eq)
  moreover have "set (closed_ids log) \<subseteq> pad6 ` {1..k + 1}" "pad6 (k + 1) \<notin> set (closed_ids log)"
    using cells_okD(6) [OF ok] sub fresh by blast+
  moreover have "set (cell_ids cells i) \<subseteq> pad6 ` {1..k + 1}" if "live cells i" for i
    using cells_okD(3) [OF ok that] sub by blast
  ultimately show ?thesis
    using cells_okD(2,4,5,7) [OF ok] new unused old unfolding cells_ok_def
    by (simp add: lv ids)
qed

text \<open>A bookmark: the notifier takes the clients of its chain and becomes the end of the chain.\<close>

lemma chain_from_upto:
  assumes "previous_ok cells" and "i < length cells" and "j \<in> set (chain_from cells i)"
  shows "j \<le> i"
  using assms chain_from_set by blast

lemma chain_from_self: "i \<in> set (chain_from cells i)"
  by (subst chain_from.simps) simp

lemma drained_live:
  assumes prev_ok: "previous_ok cells" and live_i: "live cells i"
    and len': "length cells' = length cells"
    and prev': "\<And>j. j < length cells \<Longrightarrow> cell_previous (cells' ! j) =
      (if j \<in> set (chain_from cells i) then None else cell_previous (cells ! j))"
  shows "live cells' j \<longleftrightarrow> live cells j \<and> i \<le> j"
proof -
  have i: "i < length cells" using live_i by (simp add: live_def)
  have "\<not> live cells' j" if "j < i"
    using that i len' prev' chain_from_self [of i cells] by (auto simp: live_def)
  moreover have "live cells' j = live cells j" if "i \<le> j"
  proof -
    have "cell_previous (cells' ! k) = cell_previous (cells ! k)" if "j < k" "k < length cells" for k
      using that \<open>i \<le> j\<close> prev' chain_from_upto [OF prev_ok i, of k] by auto
    with len' show ?thesis by (auto simp: live_def)
  qed
  ultimately show ?thesis by (metis not_le_imp_less)
qed

lemma cells_ok_drained:
  assumes ok: "cells_ok k cells log" and live_i: "live cells i"
    and len': "length cells' = length cells"
    and prev': "\<And>j. j < length cells \<Longrightarrow> cell_previous (cells' ! j) =
      (if j \<in> set (chain_from cells i) then None else cell_previous (cells ! j))"
    and ids: "cell_ids cells' i = map fst (drainPrevious (notifiers_at cells (chain_from cells i)))"
      "\<And>j. j < length cells \<Longrightarrow> j \<noteq> i \<Longrightarrow> cell_ids cells' j = cell_ids cells j"
  shows "cells_ok k cells' log"
proof -
  let ?js = "chain_from cells i"
  have i: "i < length cells" using live_i by (simp add: live_def)
  have prev_ok: "previous_ok cells" by (rule cells_okD(1) [OF ok])
  have prev_ok': "previous_ok cells'" using prev_ok len' prev' by (auto simp: previous_ok_def)
  have drained_live: "live cells' j \<longleftrightarrow> live cells j \<and> i \<le> j" for j
    using drained_live [OF prev_ok live_i len'] prev' by blast
  have d: "distinct (chain_ids (notifiers_at cells ?js))" by (rule cells_ok_chain [OF ok live_i])
  have own: "set (cell_ids cells' i) = (\<Union>j\<in>set ?js. set (cell_ids cells j))"
    unfolding ids(1) set_map drainPrevious_ids(2) [OF d] chain_ids_at by simp
  have dist: "distinct (cell_ids cells' i)"
    unfolding ids(1) by (rule drainPrevious_ids(1) [OF d])
  have js: "live cells j" "j \<le> i" if "j \<in> set ?js" for j
    using chain_from_live [OF prev_ok live_i that] chain_from_upto [OF prev_ok i that] .
  have other: "cell_ids cells' j = cell_ids cells j" "live cells j" "i < j" if "live cells' j" "j \<noteq> i" for j
    using that ids(2) unfolding drained_live by (auto simp: live_def)
  have one: "distinct (cell_ids cells' j)" "set (cell_ids cells' j) \<subseteq> pad6 ` {1..k}"
    "set (cell_ids cells' j) \<inter> set (closed_ids log) = {}" if "live cells' j" for j
  proof -
    have "distinct (cell_ids cells' j) \<and> set (cell_ids cells' j) \<subseteq> pad6 ` {1..k} \<and>
      set (cell_ids cells' j) \<inter> set (closed_ids log) = {}"
    proof (cases "j = i")
      case True
      have "set (cell_ids cells m) \<subseteq> pad6 ` {1..k}" "set (cell_ids cells m) \<inter> set (closed_ids log) = {}"
        if "m \<in> set ?js" for m
        using cells_okD(3,4) [OF ok js(1) [OF that]] .
      with own dist True show ?thesis by blast
    next
      case False
      note l = other [OF that False]
      show ?thesis unfolding l(1) using cells_okD(2-4) [OF ok l(2)] by blast
    qed
    then show "distinct (cell_ids cells' j)" "set (cell_ids cells' j) \<subseteq> pad6 ` {1..k}"
      "set (cell_ids cells' j) \<inter> set (closed_ids log) = {}" by blast+
  qed
  have apart: "set (cell_ids cells' i) \<inter> set (cell_ids cells' j) = {}" if "live cells' j" "j \<noteq> i" for j
  proof -
    note l = other [OF that]
    have a: "set (cell_ids cells m) \<inter> set (cell_ids cells j) = {}" if "m \<in> set ?js" for m
      using js(2) [OF that] l(3) by (intro cells_okD(5) [OF ok js(1) [OF that] l(2)]) simp
    show ?thesis unfolding own l(1) using a by (simp add: disjoint_iff) blast
  qed
  have two: "set (cell_ids cells' j) \<inter> set (cell_ids cells' m) = {}" if "live cells' j" "live cells' m" "j \<noteq> m" for j m
  proof (cases "j = i \<or> m = i")
    case True
    then show ?thesis
    proof
      assume "j = i"
      with apart [of m] that show ?thesis by simp
    next
      assume "m = i"
      with apart [of j] that show ?thesis by (simp add: Int_commute)
    qed
  next
    case False
    then have "j \<noteq> i" "m \<noteq> i" by auto
    note l = other [OF that(1) this(1)] other [OF that(2) this(2)]
    show ?thesis unfolding l(1) l(4) by (rule cells_okD(5) [OF ok l(2) l(5) that(3)])
  qed
  show ?thesis
    unfolding cells_ok_def
    by (intro conjI allI impI) (rule one two prev_ok' cells_okD(6,7) [OF ok]; assumption)+
qed

subsection \<open>The invariant of the loops\<close>

text \<open>
  The frames below a frame on notifier \<open>i\<close>: the calls on the notifiers from that of the loop down to
  the one whose previous notifier is \<open>i\<close>.
\<close>

fun callers_ok :: "cell list \<Rightarrow> nat \<Rightarrow> nat \<Rightarrow> 't event_frame list \<Rightarrow> bool" where
  "callers_ok cells n i [] = (i = n)"
| "callers_ok cells n i (Passing j event shared # r) =
     (cell_previous (cells ! j) = Some i \<and> callers_ok cells n j r)"
| "callers_ok cells n i (f # r) = False"

fun stack_ok :: "cell list \<Rightarrow> nat \<Rightarrow> 't event_frame list \<Rightarrow> bool" where
  "stack_ok cells n (Accepting i event # r) = callers_ok cells n i r"
| "stack_ok cells n (Sending i event cs # r) =
     (callers_ok cells n i r \<and> distinct (map fst cs) \<and>
      set cs \<subseteq> set (nt_clients (cell_notifier (cells ! i))))"
| "stack_ok cells n (Returned event # r) = (\<exists>i. callers_ok cells n i r)"
| "stack_ok cells n stk = False"

fun goroutine_ok :: "cell list \<Rightarrow> nat \<Rightarrow> 't event_loop \<Rightarrow> bool" where
  "goroutine_ok cells n (Working stk) = stack_ok cells n stk"
| "goroutine_ok cells n l = True"

definition loops_ok :: "cell list \<Rightarrow> 't event_loop list \<Rightarrow> bool" where
  "loops_ok cells loops \<longleftrightarrow> length loops = length cells \<and>
     (\<forall>n<length cells. goroutine_ok cells n (loops ! n) \<and> (live cells n \<or> loops ! n = Ended)) \<and>
     (\<forall>n<length cells. \<forall>m<length cells. n \<noteq> m \<longrightarrow>
        set (loop_holds (loops ! n)) \<inter> set (loop_holds (loops ! m)) = {})"

lemma callers_upto:
  "previous_ok cells \<Longrightarrow> n < length cells \<Longrightarrow> callers_ok cells n i r \<Longrightarrow>
   i \<le> n \<and> set (concat (map frame_holds r)) = {i<..n} \<and> (\<forall>k\<in>{i<..n}. cell_previous (cells ! k) \<noteq> None)"
proof (induction cells n i r rule: callers_ok.induct)
  case (2 cells n i j event shared r)
  then have ih: "j \<le> n" "set (concat (map frame_holds r)) = {j<..n}" "\<forall>k\<in>{j<..n}. cell_previous (cells ! k) \<noteq> None"
    by auto
  with 2 have "j = Suc i" by (auto simp: previous_ok_def)
  moreover from this ih(1) have "{i<..n} = insert j {j<..n}" by auto
  ultimately show ?case using ih 2(4) by auto
qed auto

lemma callers_live:
  assumes "previous_ok cells" and "live cells n" and "callers_ok cells n i r"
  shows "live cells i"
proof -
  have "i \<le> n" "\<forall>k\<in>{i<..n}. cell_previous (cells ! k) \<noteq> None"
    using callers_upto [OF assms(1) _ assms(3)] assms(2) by (auto simp: live_def)
  with assms(2) show ?thesis
    unfolding live_def by (metis greaterThanAtMost_iff le_less_trans not_le_imp_less)
qed

text \<open>What the frames say of a notifier only needs those that the goroutine has locked.\<close>

lemma callers_ok_cong:
  "callers_ok cells n i r \<Longrightarrow> (\<And>j. j \<in> set (concat (map frame_holds r)) \<Longrightarrow> cells' ! j = cells ! j) \<Longrightarrow>
   callers_ok cells' n i r"
  by (induction cells n i r rule: callers_ok.induct) auto

lemma goroutine_ok_cong:
  assumes "goroutine_ok cells n l" and "\<And>j. j \<in> set (loop_holds l) \<Longrightarrow> cells' ! j = cells ! j"
  shows "goroutine_ok cells' n l"
proof (cases l)
  case (Working stk)
  with assms(1) obtain f r where stk: "stk = f # r" by (cases stk) auto
  have keep: "callers_ok cells n i r \<Longrightarrow> callers_ok cells' n i r" for i
    using callers_ok_cong [of cells n i r cells'] assms(2) Working stk by simp
  from keep assms Working stk show ?thesis by (cases f) auto
qed simp_all

text \<open>A goroutine that has locked a notifier has locked those in front of it up to its own.\<close>

lemma holds_interval:
  assumes "previous_ok cells" and "n < length cells" and "goroutine_ok cells n l"
  shows "\<exists>a. set (loop_holds l) = {a..n}"
proof (cases l)
  case (Working stk)
  with assms(3) obtain f r where stk: "stk = f # r" by (cases stk) auto
  have below: "i \<le> n" "(\<Union>f\<in>set r. set (frame_holds f)) = {Suc i..n}" if "callers_ok cells n i r" for i
    using callers_upto [OF assms(1,2) that] by (auto simp: atLeastSucAtMost_greaterThanAtMost)
  show ?thesis
  proof (cases f)
    case (Sending i event cs)
    with assms(3) Working stk have "callers_ok cells n i r" by simp
    from below [OF this] have "set (loop_holds l) = {i..n}" using Sending Working stk by auto
    then show ?thesis by blast
  qed (use assms(3) Working stk in \<open>auto dest: below(2)\<close>)
qed (auto intro: exI [of _ "Suc n"])

lemma locked_set: "i \<in> set (locked loops) \<longleftrightarrow> (\<exists>m<length loops. i \<in> set (loop_holds (loops ! m)))"
  by (simp add: locked_def) (metis in_set_conv_nth)

lemma loops_okD:
  assumes "loops_ok cells loops"
  shows "length loops = length cells"
    and "n < length cells \<Longrightarrow> goroutine_ok cells n (loops ! n)"
    and "n < length cells \<Longrightarrow> loops ! n \<noteq> Ended \<Longrightarrow> live cells n"
    and "n < length cells \<Longrightarrow> m < length cells \<Longrightarrow> n \<noteq> m \<Longrightarrow>
      set (loop_holds (loops ! n)) \<inter> set (loop_holds (loops ! m)) = {}"
  using assms by (auto simp: loops_ok_def)

lemma loops_ok_update:
  assumes ok: "loops_ok cells loops" and n: "n < length cells" and len: "length cells' = length cells"
    and others: "\<And>m. m < length cells \<Longrightarrow> m \<noteq> n \<Longrightarrow> goroutine_ok cells' m (loops ! m) \<and> (live cells' m \<or> loops ! m = Ended)"
    and own: "goroutine_ok cells' n l" "live cells' n \<or> l = Ended"
    and apart: "\<And>m. m < length cells \<Longrightarrow> m \<noteq> n \<Longrightarrow> set (loop_holds l) \<inter> set (loop_holds (loops ! m)) = {}"
  shows "loops_ok cells' (loops[n := l])"
proof -
  have ll: "length loops = length cells" by (rule loops_okD(1) [OF ok])
  have "set (loop_holds (loops[n := l] ! a)) \<inter> set (loop_holds (loops[n := l] ! b)) = {}"
    if "a < length cells" "b < length cells" "a \<noteq> b" for a b
    using that apart [of a] apart [of b] loops_okD(4) [OF ok that] n ll
    by (cases "a = n"; cases "b = n") (simp_all add: Int_commute)
  with others own n ll len show ?thesis
    unfolding loops_ok_def by (simp add: nth_list_update)
qed

text \<open>The loop waits, or is done, or goes on: the notifiers do not change.\<close>

lemma loops_ok_same:
  assumes "loops_ok cells loops" and "n < length cells" and "goroutine_ok cells n l" and "loops ! n \<noteq> Ended"
    and "set (loop_holds l) \<subseteq> set (loop_holds (loops ! n))"
  shows "loops_ok cells (loops[n := l])"
proof (rule loops_ok_update [OF assms(1,2) refl])
  fix m
  assume m: "m < length cells" "m \<noteq> n"
  with assms(1) show "goroutine_ok cells m (loops ! m) \<and> (live cells m \<or> loops ! m = Ended)"
    by (auto simp: loops_ok_def)
  show "set (loop_holds l) \<inter> set (loop_holds (loops ! m)) = {}"
    using loops_okD(4) [OF assms(1,2) m(1)] m(2) assms(5) by blast
qed (use assms loops_okD(3) [OF assms(1,2,4)] in auto)

subsection \<open>The steps inside acceptEvent keep the invariants\<close>

text \<open>A step at one notifier, which no other loop has locked.\<close>

lemma local_step:
  assumes ok: "cells_ok k cells log" "loops_ok cells loops" and n: "n < length cells"
    and stk: "loops ! n = Working stk" and i: "live cells i"
    and cells': "cells' = cells[i := (cells ! i)\<lparr>cell_notifier := self'\<rparr>]"
    and self': "set (map fst (nt_clients self')) \<subseteq> set (cell_ids cells i)" "distinct (map fst (nt_clients self'))"
    and out: "out = [] \<or> (\<exists>c e. c \<in> set (cell_ids cells i) \<and>
      (out = [Sent c e] \<or> out = [Closed c] \<and> c \<notin> set (map fst (nt_clients self'))))"
    and stk': "stack_ok cells' n stk'"
    and mine: "\<And>m. m < length cells \<Longrightarrow> m \<noteq> n \<Longrightarrow> i \<notin> set (loop_holds (loops ! m))"
    and holds: "set (concat (map frame_holds stk')) \<subseteq> insert i (set (concat (map frame_holds stk)))"
  shows "cells_ok k cells' (log @ out) \<and> loops_ok cells' (loops[n := Working stk'])"
proof
  have il: "i < length cells" using i by (simp add: live_def)
  have len: "length cells' = length cells" by (simp add: cells')
  have prev: "cell_previous (cells' ! j) = cell_previous (cells ! j)" if "j < length cells" for j
    using that by (cases "j = i") (simp_all add: cells')
  have ids: "cell_ids cells' j = (if j = i then map fst (nt_clients self') else cell_ids cells j)" if "j < length cells" for j
    using that il by (simp add: cells' cell_ids_def)
  have jl: "live cells j \<Longrightarrow> j < length cells" for j by (simp add: live_def)
  show "cells_ok k cells' (log @ out)"
  proof (rule cells_ok_shrink [OF ok(1) len prev])
    fix j
    show "j < length cells \<Longrightarrow> set (cell_ids cells' j) \<subseteq> set (cell_ids cells j)"
      using self'(1) by (simp add: ids del: set_map)
    show "distinct (cell_ids cells' j)" if "live cells j"
      using cells_okD(2) [OF ok(1) that] self'(2) jl [OF that] by (simp add: ids)
    show "set (cell_ids cells' j) \<inter> set (closed_ids out) = {}" if "live cells j"
    proof (cases "j = i")
      case True
      with out il show ?thesis by (auto simp: ids simp del: set_map)
    next
      case False
      with out jl [OF that] cells_okD(5) [OF ok(1) that i] show ?thesis by (auto simp: ids)
    qed
  next
    show "\<exists>i. live cells i \<and> c \<in> set (cell_ids cells i)" if "c \<in> set (map signal_id out)" for c
      using out that i by auto
    show "distinct (map signal_id out)" using out by auto
  qed
  have lv: "live cells' j = live cells j" for j
    using len prev by (auto simp: live_def)
  show "loops_ok cells' (loops[n := Working stk'])"
  proof (rule loops_ok_update [OF ok(2) n len])
    fix m
    assume m: "m < length cells" "m \<noteq> n"
    have "cells' ! j = cells ! j" if "j \<in> set (loop_holds (loops ! m))" for j
      using mine [OF m] that by (cases "j = i") (simp_all add: cells')
    from goroutine_ok_cong [OF loops_okD(2) [OF ok(2) m(1)] this] loops_okD(3) [OF ok(2) m(1)]
    show "goroutine_ok cells' m (loops ! m) \<and> (live cells' m \<or> loops ! m = Ended)"
      by (auto simp: lv)
    show "set (loop_holds (Working stk')) \<inter> set (loop_holds (loops ! m)) = {}"
      using loops_okD(4) [OF ok(2) n m(1)] m(2) mine [OF m] holds stk by (simp del: set_concat) blast
  qed (use stk' loops_okD(3) [OF ok(2) n] stk lv in simp_all)
qed

text \<open>
  A bookmark, when the loops of the watches before have ended. No other goroutine can be at a
  notifier of the chain: the ones behind have ended, and one in front would have locked \<open>i\<close> too.
\<close>

lemma bookmark_step:
  assumes ok: "cells_ok k cells log" "loops_ok cells loops" and n: "n < length cells"
    and stk: "loops ! n = Working (Accepting i event # r)" and free: "i \<notin> set (locked loops)"
    and before: "\<And>m. m < i \<Longrightarrow> loops ! m = Ended"
    and cells1: "cells1 = change_cells (chain_from cells i) (\<lambda>c. c\<lparr>cell_previous := None\<rparr>) cells"
    and cells': "cells' = cells1[i := (cells1 ! i)\<lparr>cell_notifier := self'\<rparr>]"
    and self': "nt_clients self' = drainPrevious (notifiers_at cells (chain_from cells i))"
  shows "cells_ok k cells' log \<and> loops_ok cells' (loops[n := Working (Sending i event (nt_clients self') # r)])"
proof
  note prev_ok = cells_okD(1) [OF ok(1)]
  have n_live: "live cells n" using loops_okD(3) [OF ok(2) n] stk by simp
  have callers: "callers_ok cells n i r" using loops_okD(2) [OF ok(2) n] stk by simp
  have i_live: "live cells i" by (rule callers_live [OF prev_ok n_live callers])
  then have i: "i < length cells" by (simp add: live_def)
  have len: "length cells' = length cells" by (simp add: cells' cells1)
  have prev': "cell_previous (cells' ! j) = (if j \<in> set (chain_from cells i) then None else cell_previous (cells ! j))"
    if "j < length cells" for j
    using that i by (cases "j = i") (simp_all add: cells' cells1)
  have ids: "cell_ids cells' i = map fst (drainPrevious (notifiers_at cells (chain_from cells i)))"
    "\<And>j. j < length cells \<Longrightarrow> j \<noteq> i \<Longrightarrow> cell_ids cells' j = cell_ids cells j"
    using i self' by (simp_all add: cells' cells1 cell_ids_def)
  show "cells_ok k cells' log"
    by (rule cells_ok_drained [OF ok(1) i_live len _ ids]) (use prev' in simp_all)
  have lv: "live cells' j \<longleftrightarrow> live cells j \<and> i \<le> j" for j
    using drained_live [OF prev_ok i_live len] prev' by blast
  have above: "cells' ! j = cells ! j" if "i < j" "j < length cells" for j
    using that chain_from_upto [OF prev_ok i, of j] by (auto simp: cells' cells1)
  have dist: "distinct (map fst (nt_clients self'))"
    unfolding self' by (rule drainPrevious_ids(1) [OF cells_ok_chain [OF ok(1) i_live]])
  have upto: "i \<le> n" "set (concat (map frame_holds r)) = {i<..n}"
    using callers_upto [OF prev_ok n callers] by blast+
  show "loops_ok cells' (loops[n := Working (Sending i event (nt_clients self') # r)])"
  proof (rule loops_ok_update [OF ok(2) n len])
    fix m
    assume m: "m < length cells" "m \<noteq> n"
    have mfree: "i \<notin> set (loop_holds (loops ! m))"
      using free m(1) loops_okD(1) [OF ok(2)] by (auto simp: locked_set)
    show "goroutine_ok cells' m (loops ! m) \<and> (live cells' m \<or> loops ! m = Ended)"
    proof (cases "m < i")
      case True
      with before show ?thesis by simp
    next
      case False
      obtain a where a: "set (loop_holds (loops ! m)) = {a..m}"
        using holds_interval [OF prev_ok m(1) loops_okD(2) [OF ok(2) m(1)]] by blast
      have "cells' ! j = cells ! j" if "j \<in> set (loop_holds (loops ! m))" for j
        using that a mfree False m(1) by (intro above) auto
      from goroutine_ok_cong [OF loops_okD(2) [OF ok(2) m(1)] this] loops_okD(3) [OF ok(2) m(1)] False
      show ?thesis by (auto simp: lv)
    qed
    show "set (loop_holds (Working (Sending i event (nt_clients self') # r))) \<inter> set (loop_holds (loops ! m)) = {}"
      using loops_okD(4) [OF ok(2) n m(1)] m(2) mfree stk by simp
  next
    have "callers_ok cells' n i r"
      by (rule callers_ok_cong [OF callers]) (use upto(2) n in \<open>auto intro!: above simp del: set_concat\<close>)
    with dist i show "goroutine_ok cells' n (Working (Sending i event (nt_clients self') # r))"
      by (simp add: cells' cells1)
    show "live cells' n \<or> Working (Sending i event (nt_clients self') # r) = Ended"
      using n_live upto(1) by (simp add: lv)
  qed
qed

lemma cell_same: "c\<lparr>cell_notifier := cell_notifier c\<rparr> = (c :: cell)"
  by (cases c) simp

lemma resolve_event_cases:
  assumes "resolve_event getMeta i event cells = (cells', f)"
  obtains self' event' where "cells' = cells[i := (cells ! i)\<lparr>cell_notifier := self'\<rparr>]"
    "nt_clients self' = nt_clients (cell_notifier (cells ! i))"
    "f = Returned event' \<or> f = Sending i event' (nt_clients self')"
proof -
  consider "cells' = cells" "f = Returned event"
    | self' event' where "cells' = cells[i := (cells ! i)\<lparr>cell_notifier := self'\<rparr>]"
        "nt_clients self' = nt_clients (cell_notifier (cells ! i))"
        "f = Sending i event' (nt_clients (cell_notifier (cells ! i)))"
    using assms by (auto simp: resolve_event_def Let_def split: payload.splits if_splits)
  then show thesis
  proof cases
    case 1
    then have "cells' = cells[i := (cells ! i)\<lparr>cell_notifier := cell_notifier (cells ! i)\<rparr>]"
      by (simp add: cell_same)
    from that [OF this refl] 1(2) show thesis by blast
  next
    case (2 self' event')
    with that [OF 2(1,2)] show thesis by simp
  qed
qed

lemma callers_ok_change:
  assumes "previous_ok cells" and "n < length cells" and "callers_ok cells n i r"
  shows "callers_ok (cells[i := c]) n i r"
  using callers_upto [OF assms]
  by (intro callers_ok_cong [OF assms(3)]) (simp del: set_concat)

lemma resolve_step:
  assumes ok: "cells_ok k cells log" "loops_ok cells loops" and n: "n < length cells"
    and stk: "loops ! n = Working (f0 # r0)" and callers: "callers_ok cells n i r"
    and res: "resolve_event getMeta i event cells = (cells', f)"
    and mine: "\<And>m. m < length cells \<Longrightarrow> m \<noteq> n \<Longrightarrow> i \<notin> set (loop_holds (loops ! m))"
    and held: "set (concat (map frame_holds r)) \<subseteq> set (concat (map frame_holds (f0 # r0)))"
  shows "cells_ok k cells' log \<and> loops_ok cells' (loops[n := Working (f # r)])"
proof -
  note prev_ok = cells_okD(1) [OF ok(1)]
  from stk have "live cells n" by (intro loops_okD(3) [OF ok(2) n]) simp
  then have i: "live cells i" by (rule callers_live [OF prev_ok _ callers])
  then have il: "i < length cells" by (simp add: live_def)
  from res obtain self' event' where c: "cells' = cells[i := (cells ! i)\<lparr>cell_notifier := self'\<rparr>]"
    and cl: "nt_clients self' = nt_clients (cell_notifier (cells ! i))"
    and f: "f = Returned event' \<or> f = Sending i event' (nt_clients self')"
    by (rule resolve_event_cases)
  have dist: "distinct (map fst (nt_clients self'))"
    using cells_okD(2) [OF ok(1) i] cl by (simp add: cell_ids_def)
  have "callers_ok cells' n i r"
    unfolding c by (rule callers_ok_change [OF prev_ok n callers])
  then have "stack_ok cells' n (f # r)"
    using f dist il by (auto simp: c)
  moreover have "set (concat (map frame_holds (f # r))) \<subseteq> insert i (set (concat (map frame_holds (f0 # r0))))"
    using f held by auto
  ultimately have "cells_ok k cells' (log @ []) \<and> loops_ok cells' (loops[n := Working (f # r)])"
    using mine cl dist by (intro local_step [OF ok n stk i c]) (simp_all add: cell_ids_def del: set_concat set_map)
  then show ?thesis by simp
qed

text \<open>A frame that returns, passes an event on, or goes to the next client.\<close>

lemma quiet_step:
  assumes "cells_ok k cells log" and "loops_ok cells loops" and "n < length cells"
    and "loops ! n = Working stk" and "live cells i"
    and "stack_ok cells n stk'"
    and "\<And>m. m < length cells \<Longrightarrow> m \<noteq> n \<Longrightarrow> i \<notin> set (loop_holds (loops ! m))"
    and "set (concat (map frame_holds stk')) \<subseteq> insert i (set (concat (map frame_holds stk)))"
    and "out = [] \<or> (\<exists>c e. c \<in> set (cell_ids cells i) \<and> out = [Sent c e])"
  shows "cells_ok k cells (log @ out) \<and> loops_ok cells (loops[n := Working stk'])"
  using assms(6-9) cells_okD(2) [OF assms(1,5)]
  by (intro local_step [OF assms(1-5), where self' = "cell_notifier (cells ! i)"])
    (auto simp: cell_same cell_ids_def simp del: set_map)

lemma accepting_step:
  assumes ok: "cells_ok k cells log" "loops_ok cells loops" and n: "n < length cells"
    and stk: "loops ! n = Working (Accepting i event # r)"
    and step: "frame_step getMeta (locked loops) taken cells (Accepting i event # r) = Some (cells', stk', out)"
    and before: "ae_Type event = ''BOOKMARK'' \<Longrightarrow> (\<And>m. m < i \<Longrightarrow> loops ! m = Ended)"
  shows "cells_ok k cells' (log @ out) \<and> loops_ok cells' (loops[n := Working stk'])"
proof -
  note prev_ok = cells_okD(1) [OF ok(1)]
  have callers: "callers_ok cells n i r" using loops_okD(2) [OF ok(2) n] stk by simp
  have i: "live cells i"
    using callers_live [OF prev_ok loops_okD(3) [OF ok(2) n] callers] stk by simp
  have free: "i \<notin> set (locked loops)" using step by (auto split: if_splits)
  then have mine: "i \<notin> set (loop_holds (loops ! m))" if "m < length cells" for m
    using that loops_okD(1) [OF ok(2)] by (auto simp: locked_set)
  show ?thesis
  proof (cases "ae_Object event")
    case (Text s)
    with step free have s': "cells' = cells" "stk' = Returned event # r" "out = []" by simp_all
    show ?thesis unfolding s'(1) using callers mine s'(2,3) by (intro quiet_step [OF ok n stk i]) auto
  next
    case (Entity obj)
    show ?thesis
    proof (cases "ae_Type event = ''BOOKMARK''")
      case True
      from step free Entity True obtain self' where
        c: "cells' = (change_cells (chain_from cells i) (\<lambda>c. c\<lparr>cell_previous := None\<rparr>) cells)
          [i := (change_cells (chain_from cells i) (\<lambda>c. c\<lparr>cell_previous := None\<rparr>) cells ! i)\<lparr>cell_notifier := self'\<rparr>]"
        and cl: "nt_clients self' = drainPrevious (notifiers_at cells (chain_from cells i))"
        and s': "stk' = Sending i event (nt_clients self') # r" "out = []"
        by (auto simp: Let_def)
      from bookmark_step [OF ok n stk free before [OF True] refl c cl] show ?thesis by (simp add: s')
    next
      case False
      show ?thesis
      proof (cases "cell_previous (cells ! i)")
        case None
        obtain c f where res: "resolve_event getMeta i event cells = (c, f)" by force
        with step free Entity False None have "cells' = c" "stk' = f # r" "out = []" by simp_all
        with resolve_step [OF ok n stk callers res mine] show ?thesis by simp
      next
        case (Some j)
        with step free Entity False obtain event' shared where
          s': "cells' = cells" "stk' = Accepting j event' # Passing i event shared # r" "out = []"
          by (auto split: if_splits)
        with Some callers have "stack_ok cells n stk'" by simp
        with s'(2,3) mine show ?thesis unfolding s'(1) by (intro quiet_step [OF ok n stk i]) auto
      qed
    qed
  qed
qed

lemma sending_step:
  assumes ok: "cells_ok k cells log" "loops_ok cells loops" and n: "n < length cells"
    and stk: "loops ! n = Working (Sending i event cs # r)"
    and step: "frame_step getMeta held taken cells (Sending i event cs # r) = Some (cells', stk', out)"
  shows "cells_ok k cells' (log @ out) \<and> loops_ok cells' (loops[n := Working stk'])"
proof -
  note prev_ok = cells_okD(1) [OF ok(1)]
  have callers: "callers_ok cells n i r" and cs: "distinct (map fst cs)"
    "set cs \<subseteq> set (nt_clients (cell_notifier (cells ! i)))"
    using loops_okD(2) [OF ok(2) n] stk by simp_all
  have i: "live cells i"
    using callers_live [OF prev_ok loops_okD(3) [OF ok(2) n] callers] stk by simp
  have mine: "i \<notin> set (loop_holds (loops ! m))" if "m < length cells" "m \<noteq> n" for m
    using loops_okD(4) [OF ok(2) n that(1)] that(2) stk by auto
  have goes_on: "cells_ok k cells (log @ out) \<and> loops_ok cells (loops[n := Working (f # r)])"
    if "f = Returned event \<or> (\<exists>c. cs = c # tl cs \<and> f = Sending i event (tl cs))"
      "out = [] \<or> (\<exists>c e. c \<in> set (cell_ids cells i) \<and> out = [Sent c e])" for f out
  proof (rule quiet_step [OF ok n stk i _ mine _ that(2)])
    from that(1) show "stack_ok cells n (f # r)"
    proof
      assume "\<exists>c. cs = c # tl cs \<and> f = Sending i event (tl cs)"
      then obtain c where c: "cs = c # tl cs" "f = Sending i event (tl cs)" by blast
      from cs have "distinct (map fst (c # tl cs))" "set (c # tl cs) \<subseteq> set (nt_clients (cell_notifier (cells ! i)))"
        by (simp_all only: c(1) [symmetric])
      with c(2) callers show ?thesis by simp
    qed (use callers in auto)
  qed (use that(1) in auto)
  show ?thesis
  proof (cases cs)
    case Nil
    with step have "cells' = cells" "stk' = Returned event # r" "out = []" by simp_all
    with goes_on [of "Returned event" "[]"] show ?thesis by simp
  next
    case (Cons c cs')
    obtain cid f where cf: "c = (cid, f)" by force
    have cid: "cid \<in> set (cell_ids cells i)" using cs(2) Cons cf by (force simp: cell_ids_def)
    consider (next_client) "cells' = cells" "stk' = Sending i event cs' # r" "out = [] \<or> out = [Sent cid event]"
      | (timeout) "cells' = cells[i := (cells ! i)\<lparr>cell_notifier := (cell_notifier (cells ! i))
            \<lparr>nt_clients := AList.delete cid (nt_clients (cell_notifier (cells ! i)))\<rparr>\<rparr>]"
          "stk' = Returned event # r" "out = [Closed cid]"
      using step Cons cf by (auto simp: Let_def split: if_splits)
    then show ?thesis
    proof cases
      case next_client
      with goes_on [of "Sending i event cs'" out] Cons cid show ?thesis by auto
    next
      case timeout
      let ?cl = "nt_clients (cell_notifier (cells ! i))"
      have d: "distinct (map fst ?cl)" using cells_okD(2) [OF ok(1) i] by (simp add: cell_ids_def)
      have "set (map fst (AList.delete cid ?cl)) = set (map fst ?cl) - {cid}"
        by (auto simp: AList.delete_eq)
      moreover have "distinct (map fst (AList.delete cid ?cl))" using d by (simp add: distinct_delete)
      moreover have "stack_ok cells' n stk'"
        unfolding timeout(1,2) using callers_ok_change [OF prev_ok n callers] by auto
      ultimately show ?thesis
        using mine cid timeout(2,3) by (intro local_step [OF ok n stk i timeout(1)]) (auto simp: cell_ids_def)
    qed
  qed
qed

lemma frame_step_ok:
  assumes ok: "cells_ok k cells log" "loops_ok cells loops" and n: "n < length cells"
    and stk: "loops ! n = Working stk"
    and step: "frame_step getMeta (locked loops) taken cells stk = Some (cells', stk', out)"
    and before: "\<And>i event r m. stk = Accepting i event # r \<Longrightarrow> ae_Type event = ''BOOKMARK'' \<Longrightarrow> m < i \<Longrightarrow>
      loops ! m = Ended"
  shows "cells_ok k cells' (log @ out) \<and> loops_ok cells' (loops[n := Working stk'])"
proof -
  from step obtain f r where fr: "stk = f # r" by (cases stk) auto
  show ?thesis
  proof (cases f)
    case (Accepting i event)
    note eq = fr [unfolded Accepting]
    show ?thesis by (rule accepting_step [OF ok n stk [unfolded eq] step [unfolded eq]]) (rule before [OF eq])
  next
    case (Passing i event shared)
    with step fr show ?thesis by simp
  next
    case (Sending i event cs)
    note eq = fr [unfolded Sending]
    show ?thesis by (rule sending_step [OF ok n stk [unfolded eq] step [unfolded eq]])
  next
    case (Returned event)
    with step fr obtain i event0 shared r' where r: "r = Passing i event0 shared # r'"
      by (cases r; cases "hd r") auto
    have callers: "callers_ok cells n i r'"
      using loops_okD(2) [OF ok(2) n] stk fr Returned r by auto
    have mine: "i \<notin> set (loop_holds (loops ! m))" if "m < length cells" "m \<noteq> n" for m
      using loops_okD(4) [OF ok(2) n that(1)] that(2) stk fr r by auto
    obtain c g where res: "resolve_event getMeta i (if shared then event else event0) cells = (c, g)" by force
    with step fr Returned r have "cells' = c" "stk' = g # r'" "out = []" by simp_all
    with resolve_step [OF ok n stk [unfolded fr] callers res mine] r show ?thesis by auto
  qed
qed

subsection \<open>The steps of the handler keep the invariants\<close>

lemma cells_ok_count: "cells_ok k cells log \<Longrightarrow> cells_ok (k + 1) cells log"
proof -
  have "pad6 ` {1..k} \<subseteq> pad6 ` {1..k + 1}" by auto
  then show "cells_ok k cells log \<Longrightarrow> cells_ok (k + 1) cells log" unfolding cells_ok_def by blast
qed

lemma loops_ok_new:
  assumes ok: "loops_ok cells loops" and prev_ok: "previous_ok cells"
    and c: "cell_previous c = (if length cells = 0 then None else Some (length cells - 1))"
  shows "loops_ok (cells @ [c]) (loops @ [Listening])"
proof -
  have len: "length loops = length cells" by (rule loops_okD(1) [OF ok])
  have lv: "live (cells @ [c]) i" if "live cells i" for i
    using c that by (auto simp: live_def nth_append less_Suc_eq)
  have keep: "goroutine_ok (cells @ [c]) n (loops ! n)" if n: "n < length cells" for n
  proof -
    obtain a where "set (loop_holds (loops ! n)) = {a..n}"
      using holds_interval [OF prev_ok n loops_okD(2) [OF ok n]] by blast
    with n show ?thesis by (intro goroutine_ok_cong [OF loops_okD(2) [OF ok n]]) (auto simp: nth_append)
  qed
  have "live (cells @ [c]) (length cells)" by (simp add: live_def)
  with keep lv loops_okD(3,4) [OF ok] len show ?thesis
    unfolding loops_ok_def by (auto simp: nth_append less_Suc_eq)
qed

text \<open>Clients are taken out of notifiers that nobody has locked.\<close>

lemma change_step:
  assumes ok: "cells_ok k cells log" "loops_ok cells loops" and i: "live cells i"
    and free: "list_all (\<lambda>j. j \<notin> set (locked loops)) (chain_from cells i)"
    and cells': "cells' = change_cells (chain_from cells i) f cells"
    and prev: "\<And>c. cell_previous (f c) = cell_previous c"
    and sub: "\<And>c. set (map fst (nt_clients (cell_notifier (f c)))) \<subseteq> set (map fst (nt_clients (cell_notifier c)))"
    and dist: "\<And>c. distinct (map fst (nt_clients (cell_notifier c))) \<Longrightarrow>
      distinct (map fst (nt_clients (cell_notifier (f c))))"
    and out: "out = [] \<or> (\<forall>c. nt_clients (cell_notifier (f c)) = []) \<and> distinct (map signal_id out) \<and>
      set (map signal_id out) \<subseteq> set (chain_ids (notifiers_at cells (chain_from cells i)))"
  shows "cells_ok k cells' (log @ out) \<and> loops_ok cells' loops"
proof
  note prev_ok = cells_okD(1) [OF ok(1)]
  let ?js = "chain_from cells i"
  have len: "length cells' = length cells" by (simp add: cells')
  have prev': "cell_previous (cells' ! j) = cell_previous (cells ! j)" if "j < length cells" for j
    using that by (simp add: cells' prev)
  have ids: "cell_ids cells' j = (if j \<in> set ?js then map fst (nt_clients (cell_notifier (f (cells ! j)))) else cell_ids cells j)"
    if "j < length cells" for j using that by (simp add: cells' cell_ids_def)
  have js: "live cells j" if "j \<in> set ?js" for j
    by (rule chain_from_live [OF prev_ok i that])
  have of_chain: "\<exists>j\<in>set ?js. c \<in> set (cell_ids cells j)" if "c \<in> set (map signal_id out)" for c
  proof -
    from that have "out \<noteq> []" by auto
    with out that have "c \<in> set (chain_ids (notifiers_at cells ?js))" by blast
    then show ?thesis by (simp add: chain_ids_at)
  qed
  show "cells_ok k cells' (log @ out)"
  proof (rule cells_ok_shrink [OF ok(1) len prev'])
    fix j
    show "j < length cells \<Longrightarrow> set (cell_ids cells' j) \<subseteq> set (cell_ids cells j)"
      using sub [of "cells ! j"] by (simp add: cells' cell_ids_def del: set_map)
    assume j: "live cells j"
    then have jl: "j < length cells" by (simp add: live_def)
    show "distinct (cell_ids cells' j)"
      using cells_okD(2) [OF ok(1) j] dist [of "cells ! j"] jl by (simp add: cells' cell_ids_def)
    show "set (cell_ids cells' j) \<inter> set (closed_ids out) = {}"
    proof (cases "out = [] \<or> j \<in> set ?js")
      case True
      with out jl show ?thesis by (auto simp: ids)
    next
      case False
      have "c \<notin> set (cell_ids cells j)" if c: "c \<in> set (closed_ids out)" for c
      proof -
        from c closed_ids_signal_ids [of out] have "c \<in> set (map signal_id out)" by auto
        from of_chain [OF this] obtain m where m: "m \<in> set ?js" "c \<in> set (cell_ids cells m)" by blast
        with False have "m \<noteq> j" by auto
        from cells_okD(5) [OF ok(1) js [OF m(1)] j this] m(2) show ?thesis by blast
      qed
      with False jl show ?thesis by (auto simp: ids)
    qed
  next
    show "\<exists>i. live cells i \<and> c \<in> set (cell_ids cells i)" if "c \<in> set (map signal_id out)" for c
      using of_chain [OF that] js by blast
    show "distinct (map signal_id out)" using out by auto
  qed
  have lv: "live cells' j = live cells j" for j
    using len prev' by (auto simp: live_def)
  have "goroutine_ok cells' n (loops ! n)" if n: "n < length cells" for n
  proof -
    obtain a where a: "set (loop_holds (loops ! n)) = {a..n}"
      using holds_interval [OF prev_ok n loops_okD(2) [OF ok(2) n]] by blast
    have "j \<notin> set ?js" if "j \<in> set (loop_holds (loops ! n))" for j
      using free that n loops_okD(1) [OF ok(2)] by (auto simp: list_all_iff locked_set)
    with a n show ?thesis
      by (intro goroutine_ok_cong [OF loops_okD(2) [OF ok(2) n]]) (auto simp: cells')
  qed
  with lv len show "loops_ok cells' loops"
    using ok(2) by (simp add: loops_ok_def)
qed

definition handler_ok :: "'t handler_state \<Rightarrow> bool" where
  "handler_ok st \<longleftrightarrow> cells_ok (hs_count st) (hs_cells st) (hs_log st) \<and> loops_ok (hs_cells st) (hs_loops st)"

lemma handler_ok_start: "handler_ok handler_start"
  by (simp add: handler_ok_def handler_start_def cells_ok_def loops_ok_def previous_ok_def live_def)

lemma loop_advance_ok:
  assumes st: "handler_ok st" and n: "n < length (hs_loops st)"
    and step: "loop_advance getMeta n taken st = Some st'"
    and before: "\<not> early_bookmark (Advance n taken) st"
  shows "handler_ok st'"
proof -
  from st have ok: "cells_ok (hs_count st) (hs_cells st) (hs_log st)" "loops_ok (hs_cells st) (hs_loops st)"
    by (simp_all add: handler_ok_def)
  have nc: "n < length (hs_cells st)" using n loops_okD(1) [OF ok(2)] by simp
  note same = loops_ok_same [OF ok(2) nc]
  show ?thesis
  proof (cases "hs_loops st ! n")
    case (Counting event)
    with step have st': "st' = st\<lparr>hs_loops := (hs_loops st)[n := Working [Accepting n event]]\<rparr>"
      by (auto simp: loop_advance_def split: if_splits)
    from same [of "Working [Accepting n event]"] Counting ok(1) show ?thesis
      by (simp add: handler_ok_def st')
  next
    case (Working stk)
    show ?thesis
    proof (cases "\<exists>event. stk = [Returned event]")
      case True
      with step Working have "st' = st\<lparr>hs_loops := (hs_loops st)[n := Listening]\<rparr>"
        by (auto simp: loop_advance_def)
      with same [of Listening] Working ok(1) show ?thesis by (simp add: handler_ok_def)
    next
      case False
      obtain cells' stk' out where f: "frame_step getMeta (locked (hs_loops st)) taken (hs_cells st) stk = Some (cells', stk', out)"
        and st': "st' = st\<lparr>hs_cells := cells', hs_loops := (hs_loops st)[n := Working stk'], hs_log := hs_log st @ out\<rparr>"
        using step Working False
        by (auto simp: loop_advance_def split: list.splits event_frame.splits option.splits)
      have "hs_loops st ! m = Ended" if "stk = Accepting i event # r" "ae_Type event = ''BOOKMARK''" "m < i" for i event r m
      proof -
        have "list_all (\<lambda>l. l = Ended) (take i (hs_loops st))" using before that(1,2) Working by simp
        moreover have "i \<le> n"
          using callers_upto [OF cells_okD(1) [OF ok(1)] nc, of i r] loops_okD(2) [OF ok(2) nc] Working that(1) by simp
        ultimately show ?thesis using that(3) n by (auto simp: list_all_length)
      qed
      from frame_step_ok [OF ok nc Working f this] show ?thesis by (simp add: handler_ok_def st')
    qed
  next
    case Cleaning
    let ?js = "chain_from (hs_cells st) n"
    from step Cleaning have free: "list_all (\<lambda>j. j \<notin> set (locked (hs_loops st))) ?js"
      and st': "st' = st\<lparr>hs_cells := change_cells ?js (\<lambda>c. c\<lparr>cell_notifier := (cell_notifier c)\<lparr>nt_clients := []\<rparr>\<rparr>) (hs_cells st),
        hs_loops := (hs_loops st)[n := Ended],
        hs_log := hs_log st @ snd (cleanup (notifiers_at (hs_cells st) ?js))\<rparr>"
      by (auto simp: loop_advance_def chain_free_def Let_def split: if_splits)
    from loops_okD(3) [OF ok(2) nc] Cleaning have live: "live (hs_cells st) n" by simp
    have loops: "loops_ok (hs_cells st) ((hs_loops st)[n := Ended])" using same [of Ended] Cleaning by simp
    have "set (locked ((hs_loops st)[n := Ended])) \<subseteq> set (locked (hs_loops st))"
      using n by (auto simp: locked_set nth_list_update split: if_splits)
    with free have free': "list_all (\<lambda>j. j \<notin> set (locked ((hs_loops st)[n := Ended]))) ?js"
      by (auto simp: list_all_iff)
    obtain c' and out :: "'a signal list" where cl: "cleanup (notifiers_at (hs_cells st) ?js) = (c', out)" by force
    from cleanup_tidy [OF cells_ok_chain [OF ok(1) live] cl] have
      "distinct (map signal_id out)" "set (map signal_id out) \<subseteq> set (chain_ids (notifiers_at (hs_cells st) ?js))"
      by (simp_all add: tidy_def)
    then show ?thesis
      using change_step [OF ok(1) loops live free' refl, of "\<lambda>c. c\<lparr>cell_notifier := (cell_notifier c)\<lparr>nt_clients := []\<rparr>\<rparr>" out]
      by (simp add: handler_ok_def st' cl del: set_map)
  qed (use step in \<open>simp_all add: loop_advance_def\<close>)
qed

lemma handler_step_ok:
  assumes st: "handler_ok st" and step: "handler_step getMeta lbl st = Some st'" and "\<not> early_bookmark lbl st"
  shows "handler_ok st'"
proof -
  from st have ok: "cells_ok (hs_count st) (hs_cells st) (hs_log st)" "loops_ok (hs_cells st) (hs_loops st)"
    by (simp_all add: handler_ok_def)
  have same: "handler_ok (st\<lparr>hs_loops := (hs_loops st)[n := l]\<rparr>)"
    if "n < length (hs_loops st)" "hs_loops st ! n = Listening" "goroutine_ok (hs_cells st) n l" "loop_holds l = []" for n l
    using loops_ok_same [OF ok(2), of n l] ok loops_okD(1) [OF ok(2)] that by (simp add: handler_ok_def)
  show ?thesis
  proof (cases lbl)
    case (NewClient f)
    with step ok cells_ok_new [OF ok(1)] loops_ok_new [OF ok(2) cells_okD(1) [OF ok(1)]] show ?thesis
      by (auto simp: handler_ok_def Let_def)
  next
    case FailedClient
    with step ok cells_ok_count [OF ok(1)] show ?thesis by (auto simp: handler_ok_def)
  next
    case (StopClient cid)
    let ?n = "length (hs_cells st) - 1"
    let ?f = "\<lambda>c. c\<lparr>cell_notifier := (cell_notifier c)\<lparr>nt_clients := AList.delete cid (nt_clients (cell_notifier c))\<rparr>\<rparr>"
    from step StopClient have ne: "hs_cells st \<noteq> []"
      and free: "list_all (\<lambda>j. j \<notin> set (locked (hs_loops st))) (chain_from (hs_cells st) ?n)"
      and st': "st' = st\<lparr>hs_cells := change_cells (chain_from (hs_cells st) ?n) ?f (hs_cells st)\<rparr>"
      by (auto simp: Let_def chain_free_def split: if_splits)
    from ne have live: "live (hs_cells st) ?n" by (auto simp: live_def)
    have keys: "set (map fst (AList.delete cid al)) \<subseteq> set (map fst al)" for al :: clients
      by (auto simp: AList.delete_eq)
    have dist: "distinct (map fst al) \<Longrightarrow> distinct (map fst (AList.delete cid al))" for al :: clients
      by (simp add: distinct_delete)
    have "cells_ok (hs_count st) (hs_cells st') (hs_log st @ []) \<and> loops_ok (hs_cells st') (hs_loops st)"
      unfolding st' using keys dist
      by (intro change_step [OF ok live free, of _ ?f]) (simp_all del: set_map)
    then show ?thesis by (simp add: handler_ok_def st')
  next
    case (Receive n event)
    with step same [of n "Counting event"] st show ?thesis by (auto split: if_splits payload.splits)
  next
    case (ChannelClosed n)
    with step same [of n Cleaning] show ?thesis by (auto split: if_splits)
  next
    case (Quit n)
    with step same [of n Ended] show ?thesis by (auto split: if_splits)
  next
    case (Advance n taken)
    with step have "n < length (hs_loops st)" "loop_advance getMeta n taken st = Some st'"
      by (auto split: if_splits)
    from loop_advance_ok [OF st this] assms(3) Advance show ?thesis by blast
  qed
qed

lemma handler_run_ok: "handler_run False getMeta st \<Longrightarrow> handler_ok st"
  by (induction rule: handler_run.induct) (auto intro: handler_ok_start handler_step_ok)

lemma handler_ok_safe: "handler_ok st \<Longrightarrow> safe_log {} (hs_log st)"
  by (simp add: handler_ok_def cells_ok_def)

end
