(* ===== verification/Loop_Alone.thy ===== *)
theory Loop_Alone
  imports Overlapping_Loops
begin

section \<open>A loop that is left alone\<close>

text \<open>
  While only one goroutine moves, and nobody has locked a notifier of its chain, the frames of
  \<open>Overlapping_Loops\<close> do what the function \<open>acceptEvent\<close> of \<open>Watch_Notifier\<close> says: same
  notifiers, same sends and closes. The clients in \<open>slow\<close> are those that do not take an event.
\<close>

definition next_taken :: "(string \<Rightarrow> bool) \<Rightarrow> 't event_frame list \<Rightarrow> bool" where
  "next_taken slow stk =
     (case stk of Sending i event (c # cs) # r \<Rightarrow> \<not> slow (fst c) | _ \<Rightarrow> True)"

text \<open>Steps of one stack; \<open>others\<close> are the mutexes that other goroutines have locked.\<close>

inductive stack_run ::
  "('t \<Rightarrow> Metadata) \<Rightarrow> (string \<Rightarrow> bool) \<Rightarrow> nat list \<Rightarrow>
     cell list \<Rightarrow> 't event_frame list \<Rightarrow> 't signal list \<Rightarrow> cell list \<Rightarrow> 't event_frame list \<Rightarrow> bool"
  for getMeta slow others where
  stack_refl: "stack_run getMeta slow others cells stk [] cells stk"
| stack_step: "frame_step getMeta (others @ concat (map frame_holds stk)) (next_taken slow stk) cells stk =
      Some (cells1, stk1, out1) \<Longrightarrow>
    stack_run getMeta slow others cells1 stk1 out2 cells2 stk2 \<Longrightarrow>
    stack_run getMeta slow others cells stk (out1 @ out2) cells2 stk2"

lemma stack_run_trans:
  "stack_run getMeta slow others c stk out c1 stk1 \<Longrightarrow> stack_run getMeta slow others c1 stk1 out1 c2 stk2 \<Longrightarrow>
   stack_run getMeta slow others c stk (out @ out1) c2 stk2"
  by (induction rule: stack_run.induct) (auto intro: stack_step)

lemma stack_one:
  assumes "frame_step getMeta (others @ concat (map frame_holds stk)) (next_taken slow stk) cells stk =
    Some (cells1, stk1, out)"
  shows "stack_run getMeta slow others cells stk out cells1 stk1"
  using stack_step [OF assms stack_refl] by simp

text \<open>A quiet step first.\<close>

lemma stack_quiet:
  assumes "frame_step getMeta (others @ concat (map frame_holds stk)) (next_taken slow stk) cells stk =
      Some (cells1, stk1, [])"
    and "stack_run getMeta slow others cells1 stk1 out cells2 stk2"
  shows "stack_run getMeta slow others cells stk out cells2 stk2"
  using stack_step [OF assms] by simp

subsection \<open>The loop over the clients\<close>

definition set_clients :: "cell list \<Rightarrow> nat \<Rightarrow> clients \<Rightarrow> cell list" where
  "set_clients cells i cs = cells[i := (cells ! i)\<lparr>cell_notifier := (cell_notifier (cells ! i))\<lparr>nt_clients := cs\<rparr>\<rparr>]"

lemma delete_middle:
  assumes "distinct (map fst (pre @ (cid, f) # cs))"
  shows "AList.delete cid (pre @ (cid, f) # cs) = pre @ cs"
proof -
  have "cid \<notin> fst ` set pre" "cid \<notin> fst ` set cs" using assms by auto
  then have "filter (\<lambda>(k, v). cid \<noteq> k) pre = pre" "filter (\<lambda>(k, v). cid \<noteq> k) cs = cs"
    by (force simp: filter_id_conv)+
  then show ?thesis by (simp add: AList.delete_eq)
qed

lemma sending_alone:
  assumes "sendToClients slow event (sending_accept getMeta event) cs = (cs', out)"
    and "nt_clients (cell_notifier (cells ! i)) = pre @ cs" and "distinct (map fst (pre @ cs))"
  shows "stack_run getMeta slow others cells (Sending i event cs # r) out
    (set_clients cells i (pre @ cs')) (Returned event # r)"
  using assms
proof (induction cs arbitrary: pre cs' out)
  case Nil
  then have "set_clients cells i (pre @ cs') = cells"
    by (cases "cells ! i") (simp add: set_clients_def, metis list_update_id notifier.surjective notifier.update_convs(2))
  with Nil show ?case by (intro stack_one) simp
next
  case (Cons c cs)
  obtain cid f where c: "c = (cid, f)" by force
  show ?case
  proof (cases "sending_accept getMeta event f \<and> slow cid")
    case True
    with Cons.prems(1) c have "cs' = cs" "out = [Closed cid]" by auto
    with True c Cons.prems(2,3) show ?thesis
      by (intro stack_one) (simp add: next_taken_def set_clients_def delete_middle Let_def)
  next
    case False
    obtain cs1 out1 where s: "sendToClients slow event (sending_accept getMeta event) cs = (cs1, out1)" by force
    have o: "cs' = c # cs1" "out = (if sending_accept getMeta event f then [Sent cid event] else []) @ out1"
      using False Cons.prems(1) c s by (auto split: if_splits)
    have "stack_run getMeta slow others cells (Sending i event cs # r) out1
        (set_clients cells i ((pre @ [c]) @ cs1)) (Returned event # r)"
      by (rule Cons.IH [OF s]) (use Cons.prems in simp_all)
    then have run: "stack_run getMeta slow others cells (Sending i event cs # r) out1
        (set_clients cells i (pre @ cs')) (Returned event # r)" by (simp add: o(1))
    show ?thesis unfolding o(2)
      by (rule stack_step [OF _ run]) (use False c in \<open>auto simp: next_taken_def\<close>)
  qed
qed

subsection \<open>The frames of acceptEvent\<close>

lemma set_clients_simps [simp]:
  "length (set_clients cells i cs) = length cells"
  "j \<noteq> i \<Longrightarrow> set_clients cells i cs ! j = cells ! j"
  "j < length cells \<Longrightarrow> cell_previous (set_clients cells i cs ! j) = cell_previous (cells ! j)"
  "i < length cells \<Longrightarrow>
    cell_notifier (set_clients cells i cs ! i) = (cell_notifier (cells ! i))\<lparr>nt_clients := cs\<rparr>"
  by (cases "j = i"; simp add: set_clients_def)+

lemma chain_from_cong:
  "(\<And>j. j \<le> i \<Longrightarrow> cell_previous (cells' ! j) = cell_previous (cells ! j)) \<Longrightarrow>
   chain_from cells' i = chain_from cells i"
proof (induction i rule: less_induct)
  case (less i)
  have "chain_from cells' j = chain_from cells j" if "j < i" for j
    using less that by simp
  with less.prems [of i] show ?case
    by (subst (1 2) chain_from.simps) (simp split: option.split)
qed

lemma notifiers_at_simps [simp]:
  "notifiers_at cells [] = []"
  "notifiers_at cells (j # js) = cell_notifier (cells ! j) # notifiers_at cells js"
  by (simp_all add: notifiers_at_def)

lemma notifiers_at_cong:
  "(\<And>j. j \<in> set js \<Longrightarrow> cells' ! j = cells ! j) \<Longrightarrow> notifiers_at cells' js = notifiers_at cells js"
  by (simp add: notifiers_at_def)

text \<open>The part of \<open>acceptEvent\<close> after the call on the previous notifier.\<close>

lemma resolve_alone:
  assumes obj: "ae_Object event = Entity obj" and ty: "ae_Type event \<noteq> ''BOOKMARK''"
    and i: "i < length cells" and dist: "distinct (map fst (nt_clients (cell_notifier (cells ! i))))"
    and res: "resolve_event getMeta i event cells = (cells1, f)"
    and take: "take_event slow (getMeta obj) (cell_notifier (cells ! i)) prev out0 event = (chain', out, event')"
  shows "\<exists>cells2 out1. stack_run getMeta slow others cells1 (f # r) out1 cells2 (Returned event' # r) \<and>
    out = out0 @ out1 \<and> length cells2 = length cells \<and> chain' = cell_notifier (cells2 ! i) # prev \<and>
    cell_previous (cells2 ! i) = cell_previous (cells ! i) \<and> (\<forall>j. j \<noteq> i \<longrightarrow> cells2 ! j = cells ! j)"
proof -
  let ?meta = "getMeta obj" and ?self = "cell_notifier (cells ! i)"
  let ?key = "(md_Namespace ?meta, md_Name ?meta)"
  let ?v = "case map_of (nt_versions ?self) ?key of None \<Rightarrow> zero_version | Some v \<Rightarrow> v"
  show ?thesis
  proof (cases "map_of (nt_versions ?self) ?key \<noteq> None \<and> vt_resourceVersion ?v = md_ResourceVersion ?meta")
    case True
    with obj res take have "cells1 = cells" "f = Returned event" "chain' = ?self # prev" "out = out0" "event' = event"
      by (auto simp: resolve_event_def take_event_def Let_def)
    with stack_refl show ?thesis by (intro exI [of _ cells] exI [of _ "[]"]) simp
  next
    case False
    define event2 where "event2 = (if ae_Type event = ''PREVIOUS''
      then event\<lparr>ae_Type := (if vt_resourceVersion ?v = [] then ''ADDED'' else ''MODIFIED'')\<rparr> else event)"
    define self' where "self' = ?self\<lparr>nt_versions := AList.update ?key
      \<lparr> vt_resourceVersion = md_ResourceVersion ?meta, vt_eventType = ae_Type event2 \<rparr> (nt_versions ?self)\<rparr>"
    have e2: "ae_Object event2 = Entity obj" "ae_Type event2 \<noteq> ''BOOKMARK''"
      using obj ty by (simp_all add: event2_def)
    have acc: "sending_accept getMeta event2 = (\<lambda>f. acceptMeta ?meta f)"
      using e2 by (simp add: sending_accept_def fun_eq_iff)
    obtain cs out1 where send: "sendToClients slow event2 (sending_accept getMeta event2) (nt_clients ?self) = (cs, out1)"
      by force
    from False obj res have c1: "cells1 = cells[i := (cells ! i)\<lparr>cell_notifier := self'\<rparr>]"
      and f: "f = Sending i event2 (nt_clients ?self)"
      by (auto simp: resolve_event_def Let_def self'_def event2_def)
    from False take send have o: "chain' = self'\<lparr>nt_clients := cs\<rparr> # prev" "out = out0 @ out1" "event' = event2"
      unfolding acc by (auto simp: take_event_def Let_def self'_def event2_def)
    have at_i: "cells1 ! i = (cells ! i)\<lparr>cell_notifier := self'\<rparr>" using i by (simp add: c1)
    have "stack_run getMeta slow others cells1 (Sending i event2 (nt_clients ?self) # r) out1
        (set_clients cells1 i ([] @ cs)) (Returned event2 # r)"
      by (rule sending_alone [OF send]) (use dist in \<open>simp_all add: at_i self'_def\<close>)
    then show ?thesis using i o f
      by (intro exI [of _ "set_clients cells1 i cs"] exI [of _ out1]) (simp add: at_i, simp add: c1)
  qed
qed

lemma bookmark_alone:
  assumes obj: "ae_Object event = Entity obj" and ty: "ae_Type event = ''BOOKMARK''"
    and ok: "previous_ok cells" "i < length cells" and free: "i \<notin> set others \<union> set (concat (map frame_holds r))"
    and dist: "distinct (chain_ids (notifiers_at cells (chain_from cells i)))"
    and acc: "acceptEvent getMeta slow event (notifiers_at cells (chain_from cells i)) = (chain', out, event')"
  shows "\<exists>cells'. stack_run getMeta slow others cells (Accepting i event # r) out cells' (Returned event' # r) \<and>
    length cells' = length cells \<and> notifiers_at cells' (chain_from cells' i) = chain' \<and>
    (\<forall>j. i < j \<and> j < length cells \<longrightarrow> cells' ! j = cells ! j)"
proof -
  let ?js = "chain_from cells i"
  define cells1 where "cells1 = change_cells ?js (\<lambda>c. c\<lparr>cell_previous := None\<rparr>) cells"
  define self' where "self' = (cell_notifier (cells ! i))
    \<lparr>nt_clients := drainPrevious (notifiers_at cells ?js),
     nt_versions := filter (\<lambda>(k, v). vt_eventType v \<noteq> ''DELETED'') (nt_versions (cell_notifier (cells ! i)))\<rparr>"
  define cells2 where "cells2 = cells1[i := (cells1 ! i)\<lparr>cell_notifier := self'\<rparr>]"
  have at_i: "cells2 ! i = \<lparr> cell_notifier = self', cell_previous = None \<rparr>"
    using ok(2) chain_from_self [of i cells] by (simp add: cells2_def cells1_def)
  have above: "cells2 ! j = cells ! j" if "i < j" "j < length cells" for j
    using that chain_from_upto [OF ok, of j] by (auto simp: cells2_def cells1_def)
  have len: "length cells2 = length cells" by (simp add: cells2_def cells1_def)
  have fm: "sending_accept getMeta event = (\<lambda>f. fm_WatchBookmark f)"
    using obj ty by (simp add: sending_accept_def fun_eq_iff)
  obtain cs out1 where send: "sendToClients slow event (sending_accept getMeta event) (nt_clients self') = (cs, out1)"
    by force
  obtain js where js: "?js = i # js" using chain_from.simps [of cells i] by blast
  have res: "chain' = [self'\<lparr>nt_clients := cs\<rparr>]" "out = out1" "event' = event"
    using acc obj ty send unfolding fm
    by (auto simp: js self'_def Let_def simp del: drainPrevious.simps intro: notifier.equality)
  have start: "frame_step getMeta (others @ concat (map frame_holds (Accepting i event # r))) taken cells (Accepting i event # r) =
      Some (cells2, Sending i event (nt_clients self') # r, [])" for taken
    using obj ty free by (simp add: Let_def cells2_def cells1_def self'_def del: drainPrevious.simps)
  have dist': "distinct (map fst (nt_clients self'))"
    using drainPrevious_ids(1) [OF dist] by (simp add: self'_def)
  have "stack_run getMeta slow others cells2 (Sending i event (nt_clients self') # r) out1
      (set_clients cells2 i ([] @ cs)) (Returned event # r)"
    by (rule sending_alone [OF send]) (use dist' at_i in simp_all)
  then have "stack_run getMeta slow others cells (Accepting i event # r) out (set_clients cells2 i cs) (Returned event' # r)"
    unfolding res by (intro stack_quiet [OF start]) simp
  moreover have "chain_from (set_clients cells2 i cs) i = [i]"
    using at_i ok(2) len by (intro chain_from_None) simp
  ultimately show ?thesis
    using at_i ok(2) len above by (intro exI [of _ "set_clients cells2 i cs"]) (simp add: res)
qed

lemma take_event_object:
  assumes "take_event slow meta self prev out0 event = (chain', out, event')"
    and "ae_Object event = Entity obj" and "ae_Type event \<noteq> ''BOOKMARK''"
  shows "ae_Object event' = Entity obj \<and> ae_Type event' \<noteq> ''BOOKMARK''"
  using assms by (auto simp: take_event_def Let_def split: if_splits prod.splits)

text \<open>Any other event goes down the chain and is sent on the way back.\<close>

lemma accepting_alone:
  assumes "ae_Object event = Entity obj" and "ae_Type event \<noteq> ''BOOKMARK''"
    and "previous_ok cells" and "i < length cells"
    and "\<forall>j\<in>set (chain_from cells i). j \<notin> set others \<union> set (concat (map frame_holds r))"
    and "distinct (chain_ids (notifiers_at cells (chain_from cells i)))"
    and "acceptEvent getMeta slow event (notifiers_at cells (chain_from cells i)) = (chain', out, event')"
  shows "\<exists>cells'. stack_run getMeta slow others cells (Accepting i event # r) out cells' (Returned event' # r) \<and>
    length cells' = length cells \<and> notifiers_at cells' (chain_from cells i) = chain' \<and>
    (\<forall>j. i < j \<longrightarrow> cells' ! j = cells ! j) \<and> (\<forall>j. cell_previous (cells' ! j) = cell_previous (cells ! j)) \<and>
    ae_Object event' = Entity obj \<and> ae_Type event' \<noteq> ''BOOKMARK''"
  using assms
proof (induction i arbitrary: event r chain' out event' rule: less_induct)
  case (less i)
  note obj = less.prems(1) and ty = less.prems(2) and ok = less.prems(3,4)
  let ?self = "cell_notifier (cells ! i)" and ?meta = "getMeta obj"
  have free: "i \<notin> set others \<union> set (concat (map frame_holds r))"
    using less.prems(5) chain_from_self [of i cells] by blast
  have dist: "distinct (map fst (nt_clients ?self))" if "chain_from cells i = i # js" for js
    using less.prems(6) that by simp
  from ok show ?case
  proof (rule chain_from_split)
    assume none: "cell_previous (cells ! i) = None" and chain: "chain_from cells i = [i]"
    have take: "take_event slow ?meta ?self [] [] event = (chain', out, event')"
      using less.prems(7) by (simp add: chain acceptEvent_entity [OF obj ty] pass_on_def del: acceptEvent.simps)
    obtain c f where res: "resolve_event getMeta i event cells = (c, f)" by force
    have start: "frame_step getMeta (others @ concat (map frame_holds (Accepting i event # r))) taken cells
        (Accepting i event # r) = Some (c, f # r, [])" for taken
      using obj ty free none res by simp
    from resolve_alone [OF obj ty ok(2) dist [OF chain] res take, of others r] obtain cells2 where
      "stack_run getMeta slow others c (f # r) out cells2 (Returned event' # r)" "length cells2 = length cells"
      "chain' = [cell_notifier (cells2 ! i)]" "cell_previous (cells2 ! i) = cell_previous (cells ! i)"
      "\<forall>j. j \<noteq> i \<longrightarrow> cells2 ! j = cells ! j" by auto
    then show ?thesis using take_event_object [OF take obj ty] stack_quiet [OF start] chain
      by (intro exI [of _ cells2]) (simp, metis)
  next
    fix j
    assume j: "i = Suc j" "cell_previous (cells ! i) = Some j" and chain: "chain_from cells i = i # chain_from cells j"
    have jl: "j < i" "j < length cells" and notin: "i \<notin> set (chain_from cells j)"
      using j ok chain_from_upto [OF ok(1), of j i] by auto
    define shared where "shared = (\<not> (ae_Type event = ''ADDED'' \<and> md_Generation ?meta > 1))"
    define ev0 where "ev0 = (if shared then event else event\<lparr>ae_Type := ''PREVIOUS''\<rparr>)"
    have ev0: "ae_Object ev0 = Entity obj" "ae_Type ev0 \<noteq> ''BOOKMARK''"
      using obj ty by (simp_all add: ev0_def)
    obtain p o1 e1 where down: "acceptEvent getMeta slow ev0 (notifiers_at cells (chain_from cells j)) = (p, o1, e1)"
      by (metis prod_cases3)
    have ne: "notifiers_at cells (chain_from cells j) \<noteq> []"
      using chain_from_self [of j cells] by (auto simp: notifiers_at_def)
    have "pass_on getMeta slow event ?meta (notifiers_at cells (chain_from cells j)) =
        (p, o1, if shared then e1 else event)"
      using down ne by (auto simp: pass_on_def shared_def ev0_def)
    then have take: "take_event slow ?meta ?self p o1 (if shared then e1 else event) = (chain', out, event')"
      using less.prems(7) by (simp add: chain acceptEvent_entity [OF obj ty] del: acceptEvent.simps)
    have free': "\<forall>m\<in>set (chain_from cells j). m \<notin> set others \<union> set (concat (map frame_holds (Passing i event shared # r)))"
      using less.prems(5) notin by (auto simp: chain)
    have "distinct (chain_ids (notifiers_at cells (chain_from cells j)))" using less.prems(6) by (simp add: chain)
    from less.IH [OF jl(1) ev0 ok(1) jl(2) free' this down] obtain cells1 where
      run: "stack_run getMeta slow others cells (Accepting j ev0 # Passing i event shared # r) o1 cells1
        (Returned e1 # Passing i event shared # r)"
      and c1: "length cells1 = length cells" "notifiers_at cells1 (chain_from cells j) = p"
        "\<forall>m. j < m \<longrightarrow> cells1 ! m = cells ! m" "\<forall>m. cell_previous (cells1 ! m) = cell_previous (cells ! m)"
      and e1: "ae_Object e1 = Entity obj" "ae_Type e1 \<noteq> ''BOOKMARK''" by blast
    let ?ev = "if shared then e1 else event"
    have ev: "ae_Object ?ev = Entity obj" "ae_Type ?ev \<noteq> ''BOOKMARK''" using obj ty e1 by simp_all
    have same: "cells1 ! i = cells ! i" using c1(3) jl(1) by simp
    obtain c f where res: "resolve_event getMeta i ?ev cells1 = (c, f)" by force
    have start: "frame_step getMeta (others @ concat (map frame_holds (Accepting i event # r))) taken cells
        (Accepting i event # r) = Some (cells, Accepting j ev0 # Passing i event shared # r, [])" for taken
      using obj ty free j(2) by (simp add: shared_def ev0_def)
    have ret: "frame_step getMeta (others @ concat (map frame_holds (Returned e1 # Passing i event shared # r))) taken cells1
        (Returned e1 # Passing i event shared # r) = Some (c, f # r, [])" for taken
      using res by simp
    have il1: "i < length cells1" and d1: "distinct (map fst (nt_clients (cell_notifier (cells1 ! i))))"
      using ok(2) c1(1) dist [OF chain] same by simp_all
    have take1: "take_event slow ?meta (cell_notifier (cells1 ! i)) p o1 ?ev = (chain', out, event')"
      using take same by simp
    from resolve_alone [OF ev il1 d1 res take1, of others r] obtain cells2 out1 where
      up: "stack_run getMeta slow others c (f # r) out1 cells2 (Returned event' # r)" "out = o1 @ out1"
      and c2: "length cells2 = length cells1" "chain' = cell_notifier (cells2 ! i) # p"
        "cell_previous (cells2 ! i) = cell_previous (cells1 ! i)" "\<forall>m. m \<noteq> i \<longrightarrow> cells2 ! m = cells1 ! m" by blast
    have "stack_run getMeta slow others cells (Accepting i event # r) out cells2 (Returned event' # r)"
      unfolding up(2) by (rule stack_quiet [OF start stack_run_trans [OF run stack_quiet [OF ret up(1)]]])
    moreover have "notifiers_at cells2 (chain_from cells j) = p"
      unfolding c1(2) [symmetric] by (rule notifiers_at_cong) (use notin c2(4) in auto)
    moreover have "\<forall>m. cell_previous (cells2 ! m) = cell_previous (cells ! m)"
      using c2(3,4) c1(4) by metis
    moreover have "\<forall>m. i < m \<longrightarrow> cells2 ! m = cells ! m" using c2(4) c1(3) jl(1) by simp
    ultimately show ?thesis
      using c1(1) c2(1,2) take_event_object [OF take1 ev] chain by (intro exI [of _ cells2]) simp
  qed
qed

subsection \<open>The goroutine in the handler\<close>

definition taken_by :: "(string \<Rightarrow> bool) \<Rightarrow> nat \<Rightarrow> 't handler_state \<Rightarrow> bool" where
  "taken_by slow n st = (case hs_loops st ! n of Working stk \<Rightarrow> next_taken slow stk | _ \<Rightarrow> True)"

inductive alone :: "('t \<Rightarrow> Metadata) \<Rightarrow> (string \<Rightarrow> bool) \<Rightarrow> nat \<Rightarrow> 't handler_state \<Rightarrow> 't handler_state \<Rightarrow> bool"
  for getMeta slow n where
  alone_refl: "alone getMeta slow n st st"
| alone_step: "handler_step getMeta (Advance n (taken_by slow n st)) st = Some st' \<Longrightarrow>
    alone getMeta slow n st' st'' \<Longrightarrow> alone getMeta slow n st st''"

lemma alone_trans:
  "alone getMeta slow n st st' \<Longrightarrow> alone getMeta slow n st' st'' \<Longrightarrow> alone getMeta slow n st st''"
  by (induction rule: alone.induct) (auto intro: alone_step)

lemma frame_step_held:
  assumes "set held = set held'"
  shows "frame_step getMeta held taken cells stk = frame_step getMeta held' taken cells stk"
  using assms by (cases "(getMeta, held, taken, cells, stk)" rule: frame_step.cases) auto

lemma locked_split:
  assumes "n < length loops"
  shows "set (locked (loops[n := l])) = set (locked (loops[n := Listening])) \<union> set (loop_holds l)"
proof
  show "set (locked (loops[n := l])) \<subseteq> set (locked (loops[n := Listening])) \<union> set (loop_holds l)"
  proof
    fix i
    assume "i \<in> set (locked (loops[n := l]))"
    then obtain m where m: "m < length loops" "i \<in> set (loop_holds (loops[n := l] ! m))"
      by (auto simp: locked_set)
    show "i \<in> set (locked (loops[n := Listening])) \<union> set (loop_holds l)"
    proof (cases "m = n")
      case True
      with m show ?thesis by simp
    next
      case False
      with m have "i \<in> set (loop_holds (loops[n := Listening] ! m))" by simp
      with m(1) show ?thesis unfolding Un_iff locked_set by auto
    qed
  qed
next
  have "i \<in> set (locked (loops[n := l]))" if i: "i \<in> set (locked (loops[n := Listening]))" for i
  proof -
    from i obtain m where m: "m < length loops" "i \<in> set (loop_holds (loops[n := Listening] ! m))"
      by (auto simp: locked_set)
    with assms have "m \<noteq> n" by auto
    with m have "i \<in> set (loop_holds (loops[n := l] ! m))" by simp
    with m(1) show ?thesis unfolding locked_set by auto
  qed
  moreover have "i \<in> set (locked (loops[n := l]))" if "i \<in> set (loop_holds l)" for i
    unfolding locked_set using that assms by (intro exI [of _ n]) simp
  ultimately show "set (locked (loops[n := Listening])) \<union> set (loop_holds l) \<subseteq> set (locked (loops[n := l]))"
    by blast
qed

lemma stack_run_alone:
  "stack_run getMeta slow others c stk out c' stk' \<Longrightarrow> hs_cells st = c \<Longrightarrow> n < length (hs_loops st) \<Longrightarrow>
   hs_loops st ! n = Working stk \<Longrightarrow> set others = set (locked ((hs_loops st)[n := Listening])) \<Longrightarrow>
   alone getMeta slow n st
     (st\<lparr>hs_cells := c', hs_loops := (hs_loops st)[n := Working stk'], hs_log := hs_log st @ out\<rparr>)"
proof (induction arbitrary: st rule: stack_run.induct)
  case (stack_refl cells stk)
  then have "st\<lparr>hs_cells := cells, hs_loops := (hs_loops st)[n := Working stk], hs_log := hs_log st @ []\<rparr> = st"
    by (cases st) (simp, metis list_update_id)
  with alone_refl [of getMeta slow n st] show ?case by simp
next
  case (stack_step stk cells cells1 stk1 out1 out2 cells2 stk2)
  let ?st1 = "st\<lparr>hs_cells := cells1, hs_loops := (hs_loops st)[n := Working stk1], hs_log := hs_log st @ out1\<rparr>"
  have "set (locked (hs_loops st)) = set (locked ((hs_loops st)[n := Working stk]))"
    using stack_step.prems(3) by (metis list_update_id)
  also have "\<dots> = set (others @ concat (map frame_holds stk))"
    using locked_split [OF stack_step.prems(2), of "Working stk"] stack_step.prems(4) by (simp del: set_concat)
  finally have "frame_step getMeta (locked (hs_loops st)) (next_taken slow stk) (hs_cells st) stk = Some (cells1, stk1, out1)"
    using stack_step.hyps(1) stack_step.prems(1) frame_step_held by metis
  moreover have "\<nexists>event. stk = [Returned event]" using stack_step.hyps(1) by auto
  ultimately have "handler_step getMeta (Advance n (taken_by slow n st)) st = Some ?st1"
    using stack_step.prems(2,3) by (auto simp: loop_advance_def taken_by_def split: list.splits event_frame.splits)
  moreover have "alone getMeta slow n ?st1
      (?st1\<lparr>hs_cells := cells2, hs_loops := (hs_loops ?st1)[n := Working stk2], hs_log := hs_log ?st1 @ out2\<rparr>)"
    using stack_step.prems by (intro stack_step.IH) simp_all
  ultimately show ?case using alone_step by (simp, blast)
qed

lemma loop_alone:
  assumes st: "handler_ok st" and n: "n < length (hs_loops st)" and loop: "hs_loops st ! n = Counting event"
    and obj: "ae_Object event = Entity obj" and free: "chain_free st n"
    and acc: "acceptEvent getMeta slow event (notifiers_at (hs_cells st) (chain_from (hs_cells st) n)) = (chain', out, event')"
  shows "\<exists>st'. alone getMeta slow n st st' \<and> hs_loops st' = (hs_loops st)[n := Listening] \<and>
    notifiers_at (hs_cells st') (chain_from (hs_cells st') n) = chain' \<and> hs_log st' = hs_log st @ out \<and>
    length (hs_cells st') = length (hs_cells st) \<and> hs_count st' = hs_count st \<and> hs_cancelled st' = hs_cancelled st"
proof -
  from st have ok: "cells_ok (hs_count st) (hs_cells st) (hs_log st)" "loops_ok (hs_cells st) (hs_loops st)"
    by (simp_all add: handler_ok_def)
  have nc: "n < length (hs_cells st)" using n loops_okD(1) [OF ok(2)] by simp
  note prev_ok = cells_okD(1) [OF ok(1)]
  have live: "live (hs_cells st) n" using loops_okD(3) [OF ok(2) nc] loop by simp
  note dist = cells_ok_chain [OF ok(1) live]
  let ?others = "locked (hs_loops st)"
  have free': "\<forall>j\<in>set (chain_from (hs_cells st) n). j \<notin> set ?others \<union> set (concat (map frame_holds []))"
    using free by (simp add: chain_free_def list_all_iff)
  have "\<exists>cells'. stack_run getMeta slow ?others (hs_cells st) [Accepting n event] out cells' [Returned event'] \<and>
    length cells' = length (hs_cells st) \<and> notifiers_at cells' (chain_from cells' n) = chain'"
  proof (cases "ae_Type event = ''BOOKMARK''")
    case True
    have "n \<notin> set ?others \<union> set (concat (map frame_holds []))" using free' chain_from_self by blast
    from bookmark_alone [OF obj True prev_ok nc this dist acc] show ?thesis by blast
  next
    case False
    from accepting_alone [OF obj False prev_ok nc free' dist acc] obtain cells' where
      c: "stack_run getMeta slow ?others (hs_cells st) [Accepting n event] out cells' [Returned event']"
        "length cells' = length (hs_cells st)" "notifiers_at cells' (chain_from (hs_cells st) n) = chain'"
        "\<forall>j. cell_previous (cells' ! j) = cell_previous (hs_cells st ! j)" by blast
    with chain_from_cong [of n cells' "hs_cells st"] show ?thesis by auto
  qed
  then obtain cells' where run: "stack_run getMeta slow ?others (hs_cells st) [Accepting n event] out cells' [Returned event']"
    and c: "length cells' = length (hs_cells st)" "notifiers_at cells' (chain_from cells' n) = chain'" by blast
  let ?st1 = "st\<lparr>hs_loops := (hs_loops st)[n := Working [Accepting n event]]\<rparr>"
  let ?st2 = "?st1\<lparr>hs_cells := cells', hs_loops := (hs_loops ?st1)[n := Working [Returned event']], hs_log := hs_log ?st1 @ out\<rparr>"
  let ?st3 = "?st2\<lparr>hs_loops := (hs_loops st)[n := Listening]\<rparr>"
  have "handler_step getMeta (Advance n (taken_by slow n st)) st = Some ?st1"
    using n loop free by (simp add: loop_advance_def)
  moreover have "set ?others = set (locked ((hs_loops ?st1)[n := Listening]))"
    using locked_split [OF n, of "Counting event"] loop by (simp, metis list_update_id)
  then have "alone getMeta slow n ?st1 ?st2"
    using n by (intro stack_run_alone [OF run]) simp_all
  moreover have "handler_step getMeta (Advance n (taken_by slow n ?st2)) ?st2 = Some ?st3"
    using n by (simp add: loop_advance_def)
  ultimately have "alone getMeta slow n st ?st3"
    by (blast intro: alone_step alone_trans alone_refl)
  then show ?thesis using c by (intro exI [of _ ?st3]) simp
qed

text \<open>The chain of the newest notifier, the state of \<open>Shared_Watch\<close>.\<close>

definition current_chain :: "'t handler_state \<Rightarrow> notifier list" where
  "current_chain st =
     (if hs_cells st = [] then []
      else notifiers_at (hs_cells st) (chain_from (hs_cells st) (length (hs_cells st) - 1)))"

text \<open>The clients that the newest notifier reaches have open channels.\<close>

lemma handler_ok_current:
  assumes "handler_ok st"
  shows "distinct (chain_ids (current_chain st))"
    and "set (chain_ids (current_chain st)) \<inter> set (closed_ids (hs_log st)) = {}"
proof -
  from assms have ok: "cells_ok (hs_count st) (hs_cells st) (hs_log st)" by (simp add: handler_ok_def)
  let ?n = "length (hs_cells st) - 1"
  have "distinct (chain_ids (current_chain st)) \<and> set (chain_ids (current_chain st)) \<inter> set (closed_ids (hs_log st)) = {}"
  proof (cases "hs_cells st = []")
    case False
    then have live: "live (hs_cells st) ?n" by (auto simp: live_def)
    have "set (cell_ids (hs_cells st) j) \<inter> set (closed_ids (hs_log st)) = {}" if "j \<in> set (chain_from (hs_cells st) ?n)" for j
      by (rule cells_okD(4) [OF ok chain_from_live [OF cells_okD(1) [OF ok] live that]])
    with False cells_ok_chain [OF ok live] show ?thesis
      by (simp add: current_chain_def) (auto simp: chain_ids_at)
  qed (simp add: current_chain_def)
  then show "distinct (chain_ids (current_chain st))"
    and "set (chain_ids (current_chain st)) \<inter> set (closed_ids (hs_log st)) = {}" by blast+
qed

end
