(* ===== verification/Overlap_Guarantees.thy ===== *)
theory Overlap_Guarantees
  imports Loop_Alone Watch_Guarantees
begin

section \<open>Properties of the loops of a shared watch beside each other\<close>

text \<open>
  What the goroutines of \<open>kubeWatchServiceShared.go\<close> do to the channels of the clients when the
  loops of replaced watches still run.
\<close>

text \<open>A schedule is a list of steps.\<close>

fun handler_path :: "('t \<Rightarrow> Metadata) \<Rightarrow> 't handler_label list \<Rightarrow> 't handler_state \<Rightarrow> 't handler_state option" where
  "handler_path getMeta [] st = Some st"
| "handler_path getMeta (lbl # lbls) st =
     (case handler_step getMeta lbl st of None \<Rightarrow> None | Some st' \<Rightarrow> handler_path getMeta lbls st')"

fun path_prompt :: "('t \<Rightarrow> Metadata) \<Rightarrow> 't handler_label list \<Rightarrow> 't handler_state \<Rightarrow> bool" where
  "path_prompt getMeta [] st = True"
| "path_prompt getMeta (lbl # lbls) st =
     (\<not> early_bookmark lbl st \<and>
      (case handler_step getMeta lbl st of None \<Rightarrow> True | Some st' \<Rightarrow> path_prompt getMeta lbls st'))"

lemma handler_path_run:
  "handler_path getMeta lbls st = Some st' \<Longrightarrow> handler_run overlap getMeta st \<Longrightarrow>
   overlap \<or> path_prompt getMeta lbls st \<Longrightarrow> handler_run overlap getMeta st'"
  by (induction lbls arbitrary: st) (auto split: option.splits intro: handler_next)

text \<open>What evaluates a schedule.\<close>

lemma any_filter_accepts:
  "acceptMeta meta any_filter" "\<not> fm_WatchBookmark any_filter"
  by (simp_all add: any_filter_def acceptMeta_def matchMeta_def gm_entries_def)

lemmas handler_eval = Let_def loop_advance_def chain_free_def chain_from.simps locked_def resolve_event_def
  change_cells_def notifiers_at_def sending_accept_def any_filter_accepts

text \<open>
  C11: any number of watches may have been replaced, with their loops in the middle of an event or
  taking one more from their channels, and clients may come, leave, be slow or fail to join at any
  moment: as long as a loop only begins with a bookmark when the loops before it have ended, no
  channel is used after it was closed, and the clients of the current chain are distinct and have
  open channels.
\<close>

theorem overlapping_loops_stay_safe:
  assumes "handler_run False getMeta st"
  shows "safe_log {} (hs_log st) \<and> distinct (chain_ids (current_chain st)) \<and>
    set (chain_ids (current_chain st)) \<inter> set (closed_ids (hs_log st)) = {}"
  using handler_ok_safe handler_ok_current handler_run_ok [OF assms] by blast

text \<open>
  The first loop has an event for a slow client when a second client joins. Both loops work at
  once: the second waits for the mutex of the first notifier, the first closes its client, and the
  second tells its own.
\<close>

definition overlap_labels :: "Namespace handler_label list" where
  "overlap_labels =
     [NewClient any_filter, Receive 0 (event_of ''MODIFIED'' (thing 1 ''7'')), NewClient any_filter,
      Receive 1 (event_of ''ADDED'' (thing 1 ''7'')), Advance 1 True, Advance 0 True, Advance 0 True,
      Advance 1 True, Advance 0 False, Advance 1 True, Advance 1 True, Advance 1 True]"

lemma overlap_path:
  "\<exists>st. handler_path ns_Metadata overlap_labels handler_start = Some st \<and> hs_loops st ! 0 \<noteq> Ended \<and>
     hs_log st = [Closed (pad6 1), Sent (pad6 2) (event_of ''ADDED'' (thing 1 ''7''))]"
  by (simp add: overlap_labels_def handler_start_def handler_eval event_of_def thing_def NewMetadata_def)

theorem overlapping_loops_stay_safe_witness:
  "\<exists>st. hs_loops st ! 0 \<noteq> Ended \<and>
     hs_log st = [Closed ''000001'', Sent ''000002'' (event_of ''ADDED'' (thing 1 ''7''))] \<and>
     safe_log {} (hs_log st) \<and> distinct (chain_ids (current_chain st)) \<and>
     set (chain_ids (current_chain st)) \<inter> set (closed_ids (hs_log st)) = {}"
proof -
  from overlap_path obtain st where st: "handler_path ns_Metadata overlap_labels handler_start = Some st"
    "hs_loops st ! 0 \<noteq> Ended" "hs_log st = [Closed (pad6 1), Sent (pad6 2) (event_of ''ADDED'' (thing 1 ''7''))]"
    by blast
  have "path_prompt ns_Metadata overlap_labels handler_start"
    by (simp add: overlap_labels_def handler_start_def handler_eval event_of_def thing_def NewMetadata_def)
  with handler_path_run [OF st(1) handler_init] have "handler_run False ns_Metadata st" by blast
  from overlapping_loops_stay_safe [OF this] st(2,3) show ?thesis
    by (intro exI [of _ st]) (simp add: pad6_def, code_simp)
qed




end
