(* ===== verification/Log_Context.thy ===== *)
theory Log_Context
  imports Go_Base
begin

section \<open>Where a panic came from\<close>

text \<open>
  \<open>entity/entityWrite.go\<close>: the conversions of entities that recover from a panic
  (\<open>RouteFromOsRoute\<close>, \<open>ToCertificate\<close>, \<open>ToSecret\<close>) log the file, the line and the function that are
  four frames up the stack. The stack is a list of frames, the running function first.
\<close>

subsection \<open>The runtime and the paths\<close>

record 'pc frame =
  fr_pc :: 'pc
  fr_file :: string
  fr_line :: int

record 'pc go_runtime =
  gr_stack :: "'pc frame list"
  gr_zero_pc :: 'pc
  gr_func_name :: "'pc \<Rightarrow> string option"

text \<open>\<open>runtime.Caller\<close>, and \<open>runtime.FuncForPC\<close> with the name of the function, if there is one.\<close>

definition Caller :: "'pc go_runtime \<Rightarrow> nat \<Rightarrow> 'pc \<times> string \<times> int \<times> bool" where
  "Caller rt skip =
     (if skip < length (gr_stack rt)
      then (let f = gr_stack rt ! skip in (fr_pc f, fr_file f, fr_line f, True))
      else (gr_zero_pc rt, [], 0, False))"

definition FuncForPC :: "'pc go_runtime \<Rightarrow> 'pc \<Rightarrow> string option" where
  "FuncForPC rt pc = gr_func_name rt pc"

text \<open>\<open>filepath.Ext\<close> looks for a dot from the end to the last slash; \<open>filepath.Base\<close> is the last element.\<close>

fun ext_search :: "string \<Rightarrow> string \<Rightarrow> string" where
  "ext_search [] acc = []"
| "ext_search (c # cs) acc =
     (if c = CHR ''/'' then [] else if c = CHR ''.'' then c # acc else ext_search cs (c # acc))"

definition path_Ext :: "string \<Rightarrow> string" where
  "path_Ext p = ext_search (rev p) []"

definition path_Base :: "string \<Rightarrow> string" where
  "path_Base p =
     (if p = [] then ''.''
      else let q = dropWhile (\<lambda>c. c = CHR ''/'') (rev p)
           in if q = [] then ''/'' else rev (takeWhile (\<lambda>c. c \<noteq> CHR ''/'') q))"

definition TrimLeft_dots :: "string \<Rightarrow> string" where
  "TrimLeft_dots s = dropWhile (\<lambda>c. c = CHR ''.'') s"

lemma ext_search_part:
  "CHR ''/'' \<notin> set s \<Longrightarrow> CHR ''.'' \<notin> set s \<Longrightarrow> ext_search (s @ cs) acc = ext_search cs (rev s @ acc)"
  by (induction s arbitrary: acc) auto

lemma path_Ext_dot: "CHR ''/'' \<notin> set fn \<Longrightarrow> CHR ''.'' \<notin> set fn \<Longrightarrow> path_Ext (p @ ''.'' @ fn) = CHR ''.'' # fn"
  using ext_search_part [of "rev fn"] by (simp add: path_Ext_def)

lemma path_Ext_none: "CHR ''.'' \<notin> set p \<Longrightarrow> path_Ext p = []"
proof -
  have "CHR ''.'' \<notin> set s \<Longrightarrow> ext_search s acc = []" for s acc by (induction s arbitrary: acc) auto
  then show "CHR ''.'' \<notin> set p \<Longrightarrow> path_Ext p = []" by (simp add: path_Ext_def)
qed

lemma path_Base_plain: "CHR ''/'' \<notin> set f \<Longrightarrow> f \<noteq> [] \<Longrightarrow> path_Base f = f"
  and path_Base_dir: "CHR ''/'' \<notin> set f \<Longrightarrow> f \<noteq> [] \<Longrightarrow> path_Base (d @ ''/'' @ f) = f"
proof -
  assume f: "CHR ''/'' \<notin> set f" "f \<noteq> []"
  then obtain c cs where r: "rev f = c # cs" by (cases "rev f") auto
  with f(1) have "c \<noteq> CHR ''/''" "CHR ''/'' \<notin> set cs" by (metis list.set_intros set_rev)+
  moreover have "takeWhile (\<lambda>c. c \<noteq> CHR ''/'') (cs @ CHR ''/'' # rev d) = cs"
    "takeWhile (\<lambda>c. c \<noteq> CHR ''/'') cs = cs"
    using calculation by (auto simp: takeWhile_tail takeWhile_eq_all_conv)
  moreover from r have "f = rev cs @ [c]" by (metis rev.simps(2) rev_rev_ident)
  ultimately show "path_Base f = f" "path_Base (d @ ''/'' @ f) = f"
    by (simp_all add: path_Base_def)
qed

subsection \<open>The context of a log line\<close>

definition WriteContext :: "'pc go_runtime \<Rightarrow> string \<times> go_error option" where
  "WriteContext rt =
     (let (pc, file, line, ok) = Caller rt 4;
          file = (if \<not> ok then ''?'' else file);
          line = (if \<not> ok then 0 else line);
          fnName = (case FuncForPC rt pc of
             None \<Rightarrow> ''?()''
           | Some n \<Rightarrow> (let dotName = path_Ext n in TrimLeft_dots dotName @ ''()''))
      in (path_Base file @ '':'' @ Itoa line @ '' '' @ fnName, None))"

text \<open>It never fails, and names the file without its directory and the function without its package.\<close>

lemma WriteContext_function:
  assumes "length (gr_stack rt) > 4" and "fr_file (gr_stack rt ! 4) = dir @ ''/'' @ file"
    and "CHR ''/'' \<notin> set file" and "file \<noteq> []"
    and "gr_func_name rt (fr_pc (gr_stack rt ! 4)) = Some (package @ ''.'' @ fn)"
    and "CHR ''/'' \<notin> set fn" and "CHR ''.'' \<notin> set fn"
  shows "WriteContext rt = (file @ '':'' @ Itoa (fr_line (gr_stack rt ! 4)) @ '' '' @ fn @ ''()'', None)"
proof -
  have "TrimLeft_dots (CHR ''.'' # fn) = fn"
    using assms(7) by (cases fn) (auto simp: TrimLeft_dots_def)
  with assms show ?thesis
    by (simp add: WriteContext_def Caller_def FuncForPC_def Let_def path_Base_dir path_Ext_dot del: append.simps)
qed

lemma WriteContext_no_frame:
  "length (gr_stack rt) \<le> 4 \<Longrightarrow> gr_func_name rt (gr_zero_pc rt) = None \<Longrightarrow> WriteContext rt = (''?:0 ?()'', None)"
  by (simp add: WriteContext_def Caller_def FuncForPC_def path_Base_def) (code_simp)

text \<open>
  The runtime writes the type arguments of a generic function as \<open>[...]\<close>, so that the last dot is the
  last one of these: the name of the function is lost.
\<close>

lemma WriteContext_generic:
  assumes "length (gr_stack rt) > 4" and "fr_file (gr_stack rt ! 4) = dir @ ''/'' @ file"
    and "CHR ''/'' \<notin> set file" and "file \<noteq> []"
    and "gr_func_name rt (fr_pc (gr_stack rt ! 4)) = Some (fn @ ''[...]'')"
  shows "WriteContext rt = (file @ '':'' @ Itoa (fr_line (gr_stack rt ! 4)) @ '' ]()'', None)"
  using WriteContext_function [OF assms(1-4), where fn = "'']''" and package = "fn @ ''[..''"] assms(5) by simp

end
