(* ===== verification/Spec2Isabelle.thy ===== *)
theory Spec2Isabelle
  imports Route_Guarantees Entity_Guarantees Cache_Guarantees Resource_Guarantees
    Watch_Guarantees Exec_Guarantees Platform_Guarantees System_Guarantees
    Startup_Guarantees Restart_Guarantees Race_Guarantees Chain_Guarantees Order_Guarantees
    Interface_Guarantees Store_Guarantees Ingress_Guarantees Piped_Guarantees Overlap_Guarantees
    Log_Context
begin

text \<open>
  The PaaS mediation client (Go): access to the resources of a Kubernetes namespace through entities
  of its own, with a cache that watches keep up to date, watches that several clients share, and
  routes that are kept as Ingresses, as HTTPRoutes of the Gateway API, or as both.

  \<^bold>\<open>How the parts work together.\<close> A caller reads and writes entities (\<open>entity/\<close>). An operation of a kind of
  resource (\<open>service/internal/kubernetes/\<close>) converts the entity to an API object, calls the API server
  through one of the generic wrappers (\<open>adapterForCrud.go\<close>), converts the answer back and puts it into
  the cache (\<open>service/internal/cache\<close>); a read falls back on the cache when the server fails. A cache
  adapter (\<open>adapterForCache.go\<close>) is a client of the shared watch of its kind
  (\<open>kubeWatchServiceShared.go\<close>), which multiplexes one watch on the API server
  (\<open>kubeWatchService.go\<close>) to many clients. Rollouts (\<open>pod.go\<close>) run on the worker pool
  (\<open>exec/pool.go\<close>), and a client that waits for them watches the pods. The builder of the platform (\<open>service/builder.go\<close>, \<open>platformservice.go\<close>) makes the
  caches and a Kubernetes client (\<open>kubeService.go\<close>), which starts the watches and cache adapters; on OpenShift
  a second client (\<open>openshiftV3/\<close>) stands in front of it.

  \<^bold>\<open>Effects.\<close> \<open>Effects\<close> models a method as a function on the API server (the world, of any type) and the
  cache, which answers with a value, an error, or that it panicked; \<open>Go_Base\<close> holds strings, errors,
  maps with nil, machine integers and panicking functions. Go maps whose order is read are association lists,
  with \<open>None\<close> for nil; integers are \<open>int\<close> with the limits of their width written where the code can
  reach them (\<open>Atoi\<close>, \<open>int_max\<close>); pointers that may be nil are options. The clients of the API server, ristretto, \<open>encoding/json\<close>,
  the classification of API errors and the clock are parameters: records of functions, of which the
  theorems assume documented behaviour by named predicates (\<open>errlib_ok\<close>, \<open>ristretto_ok\<close>, the laws of the clients in
  \<open>Crud_Adapter\<close> and \<open>Route_Service_Laws\<close>). \<open>Sample_Cluster\<close> is a cluster in memory that has all of them; the
  witnesses run on it.

  \<^bold>\<open>Which theory models what.\<close>
  \<^item> \<open>Gateway_System\<close>: \<open>gateway_system.go\<close>. \<open>Meta_Data\<close>, \<open>Core_Entities\<close>: \<open>entity/metadata.go\<close> and the entities of
    config maps, secrets, services, accounts, namespaces, replica sets and rollouts.
  \<^item> \<open>Go_Time\<close>, \<open>Pod_Entity\<close>, \<open>Deployment_Entity\<close>, \<open>Certificate_Entity\<close>: the times and entities of \<open>pod.go\<close>, \<open>rolloutedpod.go\<close>,
    \<open>deployment.go\<close> and \<open>certificate.go\<close> of \<open>entity/\<close>.
  \<^item> \<open>Go_Regexp\<close>, \<open>Gateway_Duration\<close>, \<open>Route_Entity\<close>, \<open>Http_Route\<close>, \<open>Route_Laws\<close>: \<open>entity/route.go\<close> and
    \<open>router.go\<close>, the durations by an interpreter of regular expressions.
  \<^item> \<open>Resource_Cache\<close>, \<open>Cache_Setup\<close>, \<open>Cache_Adapter\<close>: \<open>cache.go\<close>, \<open>cachenames.go\<close> and \<open>adapterForCache.go\<close>. The library
    cache may drop what it likes; the locale \<open>limited_cache\<close> says what a cache of that kind keeps and is
    interpreted on the adapters of the code, for the whole cache and for each kind.
  \<^item> \<open>Crud_Adapter\<close>, \<open>Kube_Resources\<close>: \<open>adapterForCrud.go\<close> and the files of the single kinds.
    A record \<open>Kubernetes\<close> holds the fields of the struct that the operations read.
  \<^item> \<open>Resource_Store\<close>: the contract of a kind of resource as a table from names to entities, with sequences of
    operations; the locales \<open>resource_table\<close> and \<open>updatable_table\<close> are interpreted on the operations of config maps,
    secrets, services and certificates, and of service accounts, which cannot be updated.
  \<^item> \<open>Traffic_Policy\<close>, \<open>Route_Service\<close>, \<open>Route_Service_Laws\<close>: \<open>backend_traffic_policy.go\<close> and \<open>route.go\<close>.
  \<^item> \<open>Watch_Notifier\<close>, \<open>Shared_Watch\<close>: \<open>kubeWatchServiceShared.go\<close>. A chain of notifiers is a list, the
    current one first; what is sent and closed is a list of signals; which client is too slow is an oracle.
    \<open>sw_step\<close> is the step function of a handler over joins, leaves, events and the end of the watch.
    \<open>Overlapping_Loops\<close>: the goroutines of all watches of a handler, those of replaced watches too, frame by frame
    between the mutexes of the notifiers; \<open>Loop_Alone\<close> relates one that is not disturbed to \<open>acceptEvent\<close>.
    \<open>Private_Watch\<close> is the specification: the watch a client would have of its own; \<open>Joining_Watch\<close> relates
    two notifiers, while a client joins, to it, \<open>Watch_Chain\<close> any number of them. \<open>Watch_Handlers\<close> has the handlers
    of the kinds and the watch methods of the client, which choose one.
  \<^item> \<open>Rest_Watch\<close>: \<open>kubeWatchService.go\<close>, the loop as a step function over what the server answers.
  \<^item> \<open>Event_Pipeline\<close>: a cache adapter as a client of a shared watch; what the notifier suppresses tells nothing
    new about the cluster.
  \<^item> \<open>Cache_Race\<close>: the interleaving of what a client writes to the cache after its calls (\<open>route.go\<close>) with the events
    that the cache adapter applies, as a step relation with its reachable states. \<open>Piped_Race\<close>: the same with the whole
    way of the events, by the loop of \<open>Rest_Watch\<close> with its bookmarks and reconnections and the notifier, to the adapter.
  \<^item> \<open>Secret_Token\<close>: the second half of \<open>secret.go\<close>, the token secrets of service accounts, with their waiting loops.
  \<^item> \<open>Bad_Routes\<close>, \<open>Client_Builder\<close>: \<open>kubeService.go\<close>. The locale \<open>name_table\<close> is the contract of a table of
    names, interpreted on the table of bad routes; \<open>Build\<close> makes the record of the client from the builder and
    the answers of the cluster.
  \<^item> \<open>Openshift_Client\<close>: \<open>openshiftV3/\<close>, the operations it overrides over those of the Kubernetes client.
  \<^item> \<open>Platform_Service\<close>: \<open>builder.go\<close> and \<open>platformservice.go\<close>. The cache maps of builders are cells of a heap, since
    builders made from one share theirs. \<open>Client_Startup\<close>: how the process finds its kube configuration and makes the
    clients of the API servers (the rest of \<open>platformservice.go\<close>, \<open>openshiftV3Service.go\<close>, \<open>backend.go\<close>).
  \<^item> \<open>Public_Interface\<close>: \<open>service.go\<close>. An interface is the record of its methods; the two clients are two
    such records, and embedding the Kubernetes client in the OpenShift one is a record update, which leaves the methods
    that are promoted.
  \<^item> \<open>Exec_Pool\<close>, \<open>Rollout\<close>: \<open>exec/pool.go\<close> and \<open>pod.go\<close>. The pool is a step relation between its goroutines with its
    reachable states; the locale \<open>task_pool\<close> is what rollouts rely on, interpreted on the pool. \<open>Rollout_Order\<close>: several
    rollouts one after the other, and the pool with a single worker. \<open>Restart_Watch\<close>: the watch on restarting pods, its
    goroutine over the loop of \<open>Rest_Watch\<close>, and the events of \<open>watch/executor.go\<close> and \<open>watch/shared.go\<close>.
  \<^item> \<open>Log_Context\<close>: \<open>entity/entityWrite.go\<close>, the place of a panic in log lines, over a stack of frames.

  \<^bold>\<open>What is proved.\<close>
  \<^item> \<open>Route_Guarantees\<close>: what an update writes is what a read returns; dual mode creates and deletes all or reports
    each failure; refused routes change nothing; policies of others are left alone; durations and
    idle timeouts; and where a route does not survive (session persistence, shared annotation maps).
  \<^item> \<open>Entity_Guarantees\<close>: round trips of the entities, which objects make a conversion panic, readiness of pods.
  \<^item> \<open>Cache_Guarantees\<close>: the cache holds, of each resource, nothing or its last version, and kinds do not mix;
    where this ends (resources that are too large, a watch that cannot be restarted); which caches and adapters run.
  \<^item> \<open>Resource_Guarantees\<close>: writing and reading back, listings with expired tokens, reads while the server fails.
    \<open>Store_Guarantees\<close>: any sequence of operations on a kind does what it does to a table.
  \<^item> \<open>Ingress_Guarantees\<close>: updates and reads of routes that are kept as Ingresses, with the class of the Ingress.
  \<^item> \<open>Watch_Guarantees\<close>: no send on a closed channel, clients that keep up see what a watch of their own would show
    them, also while and after another joins, filters, versions known already, resuming; and the cases in which a client misses events or
    hears of the wrong type.
  \<^item> \<open>Exec_Guarantees\<close>: submissions return with the results of their tasks unless one panics; a stopped
    pool is quiet; what a rollout answers, and when it returns.
  \<^item> \<open>Client_Guarantees\<close>: what a client that was built can rely on: its settings, its adapters, when routes can be
    watched, which timeouts it refuses and when the HTTPRoutes it writes are well-formed.
  \<^item> \<open>Platform_Guarantees\<close>: how long token secrets are waited for, the table of bad routes as a set, routes and
    failed restarts on OpenShift, which settings and caches the platform builder passes on, logins to Consul.
  \<^item> \<open>Startup_Guarantees\<close>: from which configuration each client of a process comes, and which error is answered.
  \<^item> \<open>Restart_Guarantees\<close>: what the client of a watch on restarting pods is told, and when it ends or panics.
  \<^item> \<open>Race_Guarantees\<close>: reads stay current while cache writes are prompt; a late one revives a deleted route.
    \<open>Piped_Guarantees\<close>: they stay so while the watch loses and resumes its connection; what a new start of the watch
    misses; and why a client of the Gateway API gets nothing out of its cache while the server is down.
  \<^item> \<open>Chain_Guarantees\<close>: what the clients of any number of notifiers see until and after the bookmark.
  \<^item> \<open>Overlap_Guarantees\<close>: whatever the goroutines of replaced watches still do, no channel is used after it was
    closed, unless a bookmark overtakes one of them; then a schedule ends in a panic.
  \<^item> \<open>Order_Guarantees\<close>: sequential rollouts are what the pool of one worker does, in the order of the names.
  \<^item> \<open>Interface_Guarantees\<close>: the OpenShift client extends the Kubernetes client; where promotion loses routes.
  \<^item> \<open>System_Guarantees\<close>: the way of an event from the server through the watch, the notifier and the adapter to a
    read that the cache answers; and what clients see again after a reconnection.

  \<^bold>\<open>Bounds and termination.\<close> Loops over lists are structural recursions. The listing of pages is
  a partial function with option result, since a server may go on handing out tokens; the theorems on it
  assume a finite sequence of pages and prove that it returns. Its restarts are bounded by the three
  attempts of the code. The search for the new replica set is such a partial function as well, and may
  truly not return: \<open>rollout_returns\<close> says when. The loops that wait for a token and log in to Consul
  recurse on the attempts the code allows (30 reads, 21 logins). The pool has a measure that every step decreases.

  \<^bold>\<open>Not modelled.\<close> Logging; contexts and deadlines except where a branch of the code depends on them (the slow
  clients of a shared watch are an oracle); pauses between attempts; the buffer of the channels to clients; the
  loading of a kube configuration and the constructors of clients, which are other libraries (parameters of
  \<open>Client_Startup\<close>); the mocks (\<open>service_mock.go\<close>, \<open>executor_mock.go\<close> and the directory \<open>mock\<close>), which are generated
  or only panic, for tests.

  \<^bold>\<open>Limits.\<close> Go's data races proper, on a client map read by \<open>drainPrevious\<close> while another
  goroutine deletes from it, are not modelled: each access is one step. The theorems on reads during outages follow one client of a notifier; other clients that join restart
  the watch from the present state, for which \<open>Joining_Watch\<close> and \<open>Watch_Chain\<close> say what is sent but not how
  this races with cache writes. \<open>Piped_Race\<close> lets a connection resume from a bookmark only; what a start without one loses
  is \<open>deletion_missed_after_error\<close>. All modelled components have the operations of the source.
\<close>

end
